(* ===== verification/Go_Prelude.thy ===== *)
theory Go_Prelude
  imports Main "HOL-Library.Multiset" "HOL-Library.Sublist"
begin

text \<open>
  What every component theory of the development shares: the Go values the backend passes
  around (nullable database columns, results that are an error or a value, loops that
  return early), the row operations its SQL statements perform on a table, and the lemma
  collections the component proofs use.

  A table is the list of its rows. \<open>UPDATE t SET f WHERE p\<close> is \<open>sql_update p f t\<close>, and
  \<open>RowsAffected()\<close> of it is \<open>sql_count p t\<close>; \<open>DELETE FROM t WHERE p\<close> is
  \<open>sql_delete p t\<close>; a query by primary key is \<open>sql_first p t\<close>, with \<^const>\<open>None\<close>
  for \<open>pgx.ErrNoRows\<close>.
\<close>

section \<open>Lemma collections\<close>

named_theorems result_simps "equations that compute results and early returns"
named_theorems sql_simps "equations for the row operations of SQL statements"

section \<open>Nullable columns\<close>

text \<open>
  \<open>null.Int\<close>, \<open>null.String\<close> and \<open>null.Float\<close> (package \<open>backend/null\<close>) hold a value and
  a \<open>Valid\<close> flag; a \<open>NULL\<close> column scans to the zero value with \<open>Valid\<close> false. Reading
  the field \<open>.Int64\<close> or \<open>.String\<close> of an invalid one therefore yields the zero value.
\<close>

type_synonym null_int = "int option"
type_synonym null_string = "string option"

definition Int64 :: "null_int \<Rightarrow> int" where
  "Int64 n = (case n of None \<Rightarrow> 0 | Some i \<Rightarrow> i)"

definition String :: "null_string \<Rightarrow> string" where
  "String s = (case s of None \<Rightarrow> [] | Some t \<Rightarrow> t)"

lemma Int64_simps [simp]: "Int64 None = 0" "Int64 (Some i) = i"
  by (simp_all add: Int64_def)

lemma String_simps [simp]: "String None = []" "String (Some t) = t"
  by (simp_all add: String_def)

text \<open>A positive identifier read from a nullable column was present.\<close>

lemma Int64_pos_iff: "0 < Int64 n \<longleftrightarrow> (\<exists>i > 0. n = Some i)"
  by (cases n) auto

section \<open>Results\<close>

text \<open>
  A Go function that returns \<open>(T, error)\<close> returns \<open>Inl\<close> of its error or \<open>Inr\<close> of its
  value. \<open>and_then\<close> is the \<open>if err != nil { return err }\<close> between two calls, \<open>fail_if\<close>
  a guard that returns an error, and \<open>for_each\<close> a \<open>for _, x := range xs\<close> loop whose
  body may return an error.
\<close>

definition and_then :: "'e + 'a \<Rightarrow> ('a \<Rightarrow> 'e + 'b) \<Rightarrow> 'e + 'b" where
  "and_then r f = (case r of Inl e \<Rightarrow> Inl e | Inr a \<Rightarrow> f a)"

definition fail_if :: "bool \<Rightarrow> 'e \<Rightarrow> 'e + unit" where
  "fail_if b e = (if b then Inl e else Inr ())"

fun for_each :: "('a \<Rightarrow> 's \<Rightarrow> 'e + 's) \<Rightarrow> 'a list \<Rightarrow> 's \<Rightarrow> 'e + 's" where
  "for_each f [] s = Inr s"
| "for_each f (x # xs) s = (case f x s of Inl e \<Rightarrow> Inl e | Inr s' \<Rightarrow> for_each f xs s')"

definition is_ok :: "'e + 'a \<Rightarrow> bool" where
  "is_ok r = (case r of Inl _ \<Rightarrow> False | Inr _ \<Rightarrow> True)"

lemma and_then_simps [simp, result_simps]:
  "and_then (Inl e) f = Inl e" "and_then (Inr a) f = f a"
  by (simp_all add: and_then_def)

lemma is_ok_simps [simp, result_simps]: "\<not> is_ok (Inl e)" "is_ok (Inr a)"
  by (simp_all add: is_ok_def)

lemma fail_if_simps [simp, result_simps]:
  "fail_if True e = Inl e" "fail_if False e = Inr ()"
  by (simp_all add: fail_if_def)

lemma and_then_Inr_iff [result_simps]:
  "and_then r f = Inr b \<longleftrightarrow> (\<exists>a. r = Inr a \<and> f a = Inr b)"
  by (cases r) simp_all

lemma and_then_Inl_iff [result_simps]:
  "and_then r f = Inl e \<longleftrightarrow> r = Inl e \<or> (\<exists>a. r = Inr a \<and> f a = Inl e)"
  by (cases r) auto

lemma fail_if_Inr_iff [simp, result_simps]: "fail_if b e = Inr u \<longleftrightarrow> \<not> b"
  by (simp add: fail_if_def)

lemma fail_if_Inl_iff [simp, result_simps]: "fail_if b e = Inl e' \<longleftrightarrow> b \<and> e' = e"
  by (auto simp: fail_if_def)

lemma is_ok_iff: "is_ok r \<longleftrightarrow> (\<exists>a. r = Inr a)"
  by (cases r) simp_all

text \<open>The rule for loops: what the body keeps, the loop keeps.\<close>

lemma for_each_invariant:
  assumes "for_each f xs s = Inr s'" and "P s"
    and "\<And>x a b. x \<in> set xs \<Longrightarrow> P a \<Longrightarrow> f x a = Inr b \<Longrightarrow> P b"
  shows "P s'"
  using assms
proof (induction xs arbitrary: s)
  case Nil
  then show ?case by simp
next
  case (Cons x xs)
  from Cons.prems(1) obtain s1 where x: "f x s = Inr s1" and xs: "for_each f xs s1 = Inr s'"
    by (auto split: sum.splits)
  have "P s1" by (rule Cons.prems(3) [OF _ Cons.prems(2) x]) simp
  then show ?case by (rule Cons.IH [OF xs]) (metis Cons.prems(3) list.set_intros(2))
qed

lemma for_each_append:
  "for_each f (xs @ ys) s = and_then (for_each f xs s) (for_each f ys)"
  by (induction xs arbitrary: s) (auto split: sum.splits)

section \<open>Row operations\<close>

definition sql_update :: "('r \<Rightarrow> bool) \<Rightarrow> ('r \<Rightarrow> 'r) \<Rightarrow> 'r list \<Rightarrow> 'r list" where
  "sql_update p f rows = map (\<lambda>r. if p r then f r else r) rows"

definition sql_count :: "('r \<Rightarrow> bool) \<Rightarrow> 'r list \<Rightarrow> nat" where
  "sql_count p rows = length (filter p rows)"

definition sql_delete :: "('r \<Rightarrow> bool) \<Rightarrow> 'r list \<Rightarrow> 'r list" where
  "sql_delete p rows = filter (\<lambda>r. \<not> p r) rows"

definition sql_first :: "('r \<Rightarrow> bool) \<Rightarrow> 'r list \<Rightarrow> 'r option" where
  "sql_first p rows = List.find p rows"

lemma length_sql_update [simp, sql_simps]: "length (sql_update p f rows) = length rows"
  by (simp add: sql_update_def)

lemma sql_update_Nil [simp, sql_simps]: "sql_update p f [] = []"
  by (simp add: sql_update_def)

lemma sql_update_Cons [sql_simps]:
  "sql_update p f (r # rows) = (if p r then f r else r) # sql_update p f rows"
  by (simp add: sql_update_def)

lemma nth_sql_update [sql_simps]:
  "i < length rows \<Longrightarrow>
    sql_update p f rows ! i = (if p (rows ! i) then f (rows ! i) else rows ! i)"
  by (simp add: sql_update_def)

lemma set_sql_update:
  "r' \<in> set (sql_update p f rows) \<longleftrightarrow>
    (\<exists>r \<in> set rows. r' = (if p r then f r else r))"
  by (auto simp: sql_update_def)

lemma sql_updateE:
  assumes "r' \<in> set (sql_update p f rows)"
  obtains (hit) r where "r \<in> set rows" "p r" "r' = f r" | (kept) "r' \<in> set rows" "\<not> p r'"
  using assms by (auto simp: set_sql_update split: if_splits)

lemma sql_count_0_iff [simp, sql_simps]:
  "sql_count p rows = 0 \<longleftrightarrow> (\<forall>r \<in> set rows. \<not> p r)"
  by (auto simp: sql_count_def filter_empty_conv)

lemma sql_count_pos_iff [simp, sql_simps]:
  "0 < sql_count p rows \<longleftrightarrow> (\<exists>r \<in> set rows. p r)"
  by (auto simp: sql_count_def length_greater_0_conv filter_empty_conv)

lemma sql_update_none: "sql_count p rows = 0 \<Longrightarrow> sql_update p f rows = rows"
  unfolding sql_count_0_iff by (induction rows) (simp_all add: sql_simps)

lemma map_sql_update:
  "(\<And>r. k (f r) = k r) \<Longrightarrow> map k (sql_update p f rows) = map k rows"
  by (simp add: sql_update_def)

lemma sql_first_Some: "sql_first p rows = Some r \<Longrightarrow> r \<in> set rows \<and> p r"
  unfolding sql_first_def by (auto simp: find_Some_iff)

lemma sql_first_None: "sql_first p rows = None \<longleftrightarrow> (\<forall>r \<in> set rows. \<not> p r)"
  unfolding sql_first_def by (auto simp: find_None_iff)

lemma sql_first_unique:
  assumes "r \<in> set rows" and "p r" and "\<And>r'. r' \<in> set rows \<Longrightarrow> p r' \<Longrightarrow> r' = r"
  shows "sql_first p rows = Some r"
proof (cases "sql_first p rows")
  case None
  with assms(1,2) show ?thesis by (auto simp: sql_first_None)
next
  case (Some r')
  with assms(3) show ?thesis by (auto dest: sql_first_Some)
qed

text \<open>\<open>ORDER BY k\<close> puts \<open>NULL\<close> last; rows that compare equal keep their order in the model.\<close>

definition order_nulls_last :: "('r \<Rightarrow> null_int) \<Rightarrow> 'r list \<Rightarrow> 'r list" where
  "order_nulls_last k rows =
     sort_key (\<lambda>r. Int64 (k r)) (filter (\<lambda>r. k r \<noteq> None) rows) @ filter (\<lambda>r. k r = None) rows"

lemma mset_order_nulls_last [simp]: "mset (order_nulls_last k rows) = mset rows"
  unfolding order_nulls_last_def by (simp add: multiset_partition [symmetric])

lemma set_order_nulls_last [simp]: "set (order_nulls_last k rows) = set rows"
  by (metis mset_order_nulls_last set_mset_mset)

section \<open>Tables whose rows move through statuses\<close>

text \<open>
  Most tables of the system are lists of rows with a key and a status code, and the
  statements of the program move rows along a fixed graph of statuses. The interface
  below is what such a table promises: a step keeps the number and order of the rows
  and their keys, and changes a status only along the graph. The lemmas lift this from
  one step to any run of steps.
\<close>

locale status_table =
  fixes rows :: "'s \<Rightarrow> 'r list"
    and key :: "'r \<Rightarrow> 'k"
    and status :: "'r \<Rightarrow> 'st"
    and edge :: "'st \<Rightarrow> 'st \<Rightarrow> bool"
    and step :: "'s \<Rightarrow> 's \<Rightarrow> bool"
  assumes step_length: "step s s' \<Longrightarrow> length (rows s') = length (rows s)"
    and step_key: "step s s' \<Longrightarrow> i < length (rows s) \<Longrightarrow> key (rows s' ! i) = key (rows s ! i)"
    and step_status: "step s s' \<Longrightarrow> i < length (rows s) \<Longrightarrow>
      status (rows s' ! i) = status (rows s ! i) \<or> edge (status (rows s ! i)) (status (rows s' ! i))"
begin

lemma run_length: "step\<^sup>*\<^sup>* s s' \<Longrightarrow> length (rows s') = length (rows s)"
  by (induction rule: rtranclp_induct) (auto dest: step_length)

lemma run_key:
  "step\<^sup>*\<^sup>* s s' \<Longrightarrow> i < length (rows s) \<Longrightarrow> key (rows s' ! i) = key (rows s ! i)"
  by (induction rule: rtranclp_induct) (auto dest: step_key simp: run_length)

lemma run_status:
  "step\<^sup>*\<^sup>* s s' \<Longrightarrow> i < length (rows s) \<Longrightarrow>
    edge\<^sup>*\<^sup>* (status (rows s ! i)) (status (rows s' ! i))"
proof (induction rule: rtranclp_induct)
  case base
  show ?case by simp
next
  case (step y z)
  have "status (rows z ! i) = status (rows y ! i) \<or>
      edge (status (rows y ! i)) (status (rows z ! i))"
    using step by (intro step_status) (simp_all add: run_length)
  with step show ?case by (auto intro: rtranclp.rtrancl_into_rtrancl)
qed

text \<open>A status that no edge leaves is final: a row that has it keeps it.\<close>

lemma run_final:
  assumes "step\<^sup>*\<^sup>* s s'" and "i < length (rows s)"
    and "\<And>st. \<not> edge (status (rows s ! i)) st"
  shows "status (rows s' ! i) = status (rows s ! i)"
proof -
  have "edge\<^sup>*\<^sup>* (status (rows s ! i)) (status (rows s' ! i))" by (rule run_status) fact+
  then show ?thesis using assms(3) by (auto elim: converse_rtranclpE)
qed

text \<open>What a set of statuses closed under the edges says of the start it says of the end.\<close>

lemma run_closed:
  assumes "step\<^sup>*\<^sup>* s s'" and "i < length (rows s)" and "status (rows s ! i) \<in> S"
    and "\<And>a b. a \<in> S \<Longrightarrow> edge a b \<Longrightarrow> b \<in> S"
  shows "status (rows s' ! i) \<in> S"
proof -
  have "edge\<^sup>*\<^sup>* (status (rows s ! i)) (status (rows s' ! i))" by (rule run_status) fact+
  then show ?thesis by (induction rule: rtranclp_induct) (use assms(3,4) in auto)
qed

end

text \<open>
  The shape in which the component theories discharge the interface: a step that is an
  \<open>UPDATE\<close> whose assignment keeps the key and whose new status is along the graph.
\<close>

lemma sql_update_status:
  assumes "i < length t"
    and "\<And>r. p r \<Longrightarrow> status (f r) = status r \<or> edge (status r) (status (f r))"
  shows "status (sql_update p f t ! i) = status (t ! i) \<or>
    edge (status (t ! i)) (status (sql_update p f t ! i))"
  using assms by (auto simp: nth_sql_update)

lemma sql_update_key:
  assumes "i < length t" and "\<And>r. key (f r) = key r"
  shows "key (sql_update p f t ! i) = key (t ! i)"
  using assms by (simp add: nth_sql_update)

end
