(* ===== verification/Go_Strings.thy ===== *)
theory Go_Strings
  imports Go_Prelude
begin

text \<open>
  Go's strings, as far as the backend uses them: a string is the list of its UTF-8 bytes
  (\<^typ>\<open>string\<close>), with \<open>fmt.Sprintf("%d", n)\<close>, \<open>strings.TrimSpace\<close>, \<open>strings.Split\<close>
  at a one-byte separator, \<open>strings.Join\<close>, \<open>strings.Index\<close> of one byte, and
  \<open>strings.ToLower\<close> on ASCII letters. \<open>TrimSpace\<close> trims every code point of
  \<open>unicode.IsSpace\<close>, by its UTF-8 encoding.
\<close>

section \<open>Decimal numbers\<close>

definition digit_char :: "nat \<Rightarrow> char" where
  "digit_char d = char_of (48 + d)"

definition char_digit :: "char \<Rightarrow> nat" where
  "char_digit c = of_char c - 48"

fun nat_digits :: "nat \<Rightarrow> string" where
  "nat_digits n =
    (if n < 10 then [digit_char n] else nat_digits (n div 10) @ [digit_char (n mod 10)])"

declare nat_digits.simps [simp del]

definition sprint_d :: "int \<Rightarrow> string" where
  "sprint_d n = (if n < 0 then CHR ''-'' # nat_digits (nat (- n)) else nat_digits (nat n))"

definition parse_digits :: "string \<Rightarrow> nat" where
  "parse_digits s = foldl (\<lambda>a c. a * 10 + char_digit c) 0 s"

lemma char_digit_char [simp]: "d < 10 \<Longrightarrow> char_digit (digit_char d) = d"
  by (simp add: char_digit_def digit_char_def)

lemma parse_digits_snoc: "parse_digits (s @ [c]) = parse_digits s * 10 + char_digit c"
  by (simp add: parse_digits_def)

lemma parse_nat_digits [simp]: "parse_digits (nat_digits n) = n"
proof (induction n rule: nat_digits.induct)
  case (1 n)
  show ?case
  proof (cases "n < 10")
    case True
    then show ?thesis by (simp add: nat_digits.simps [of n] parse_digits_def)
  next
    case False
    then have "parse_digits (nat_digits n) = (n div 10) * 10 + n mod 10"
      using "1" by (simp add: nat_digits.simps [of n] parse_digits_snoc)
    then show ?thesis by simp
  qed
qed

lemma nat_digits_inj: "nat_digits m = nat_digits n \<Longrightarrow> m = n"
  by (metis parse_nat_digits)

lemma digit_char_range:
  assumes "d < 10"
  shows "48 \<le> (of_char (digit_char d) :: nat) \<and> (of_char (digit_char d) :: nat) \<le> 57"
proof -
  have "(of_char (digit_char d) :: nat) = 48 + d"
    using assms unfolding digit_char_def by simp
  with assms show ?thesis by simp
qed

lemma nat_digits_range:
  "c \<in> set (nat_digits n) \<Longrightarrow> 48 \<le> (of_char c :: nat) \<and> (of_char c :: nat) \<le> 57"
proof (induction n rule: nat_digits.induct)
  case (1 n)
  show ?case
  proof (cases "n < 10")
    case True
    with 1 have "c = digit_char n" by (simp add: nat_digits.simps [of n])
    with True show ?thesis by (simp add: digit_char_range)
  next
    case False
    then show ?thesis using 1 digit_char_range [of "n mod 10"]
      by (auto simp: nat_digits.simps [of n])
  qed
qed

lemma nat_digits_no_minus: "CHR ''-'' \<notin> set (nat_digits n)"
  using nat_digits_range [of "CHR ''-''" n] by auto

lemma nat_digits_not_Nil [simp]: "nat_digits n \<noteq> []"
  by (subst nat_digits.simps) simp

lemma sprint_d_inj: "sprint_d m = sprint_d n \<Longrightarrow> m = n"
proof -
  assume eq: "sprint_d m = sprint_d n"
  have minus: "nat_digits k \<noteq> CHR ''-'' # s" for k s
    using nat_digits_no_minus [of k] by auto
  have minus': "CHR ''-'' # s \<noteq> nat_digits k" for k s
    using minus [of k s] by metis
  show ?thesis
  proof (cases "m < 0")
    case True
    then have "n < 0" using eq minus minus' by (auto simp: sprint_d_def split: if_splits)
    with True eq have "nat (- m) = nat (- n)"
      by (auto simp: sprint_d_def dest: nat_digits_inj)
    with True \<open>n < 0\<close> show ?thesis by linarith
  next
    case False
    then have n: "\<not> n < 0"
      using eq minus minus' by (auto simp: sprint_d_def split: if_splits)
    with False eq have "nat m = nat n"
      by (auto simp: sprint_d_def dest: nat_digits_inj)
    with False n show ?thesis by linarith
  qed
qed

lemma sprint_d_eq_iff [simp]: "sprint_d m = sprint_d n \<longleftrightarrow> m = n"
  using sprint_d_inj by auto

section \<open>White space\<close>

text \<open>The UTF-8 encodings of the code points \<open>unicode.IsSpace\<close> accepts.\<close>

definition bytes :: "nat list \<Rightarrow> string" where
  "bytes ns = map char_of ns"

definition space_codes :: "string list" where
  "space_codes = map bytes
    ([[9], [10], [11], [12], [13], [32], [194, 133], [194, 160], [225, 154, 128]]
     @ map (\<lambda>b. [226, 128, b]) [128..<139]
     @ [[226, 128, 168], [226, 128, 169], [226, 128, 175], [226, 129, 159], [227, 128, 128]])"

definition match_any :: "string list \<Rightarrow> string \<Rightarrow> nat" where
  "match_any ws s = (case List.find (\<lambda>w. take (length w) s = w \<and> w \<noteq> []) ws of
     None \<Rightarrow> 0 | Some w \<Rightarrow> length w)"

function trim_front :: "string list \<Rightarrow> string \<Rightarrow> string" where
  "trim_front ws s =
    (if match_any ws s = 0 \<or> s = [] then s else trim_front ws (drop (match_any ws s) s))"
  by pat_completeness auto
termination
  by (relation "measure (\<lambda>(ws, s). length s)") auto

declare trim_front.simps [simp del]

definition TrimSpace :: "string \<Rightarrow> string" where
  "TrimSpace s = rev (trim_front (map rev space_codes) (rev (trim_front space_codes s)))"

definition is_blank :: "string \<Rightarrow> bool" where
  "is_blank s \<longleftrightarrow> TrimSpace s = []"

lemma match_any_le: "match_any ws s \<le> length s"
  unfolding match_any_def
  by (auto simp: find_Some_iff split: option.splits) (metis length_take min.cobounded1)

lemma trim_front_suffix: "suffix (trim_front ws s) s"
proof (induction ws s rule: trim_front.induct)
  case (1 ws s)
  show ?case
  proof (cases "match_any ws s = 0 \<or> s = []")
    case True
    then show ?thesis by (auto simp: trim_front.simps [of ws s])
  next
    case False
    with 1 have "suffix (trim_front ws (drop (match_any ws s) s)) (drop (match_any ws s) s)"
      by simp
    with False show ?thesis
      by (simp add: trim_front.simps [of ws s])
        (metis suffix_drop suffix_order.order_trans)
  qed
qed

lemma trim_front_fixed: "match_any ws (trim_front ws s) = 0 \<or> trim_front ws s = []"
proof (induction ws s rule: trim_front.induct)
  case (1 ws s)
  show ?case
  proof (cases "match_any ws s = 0 \<or> s = []")
    case True
    then show ?thesis by (auto simp: trim_front.simps [of ws s])
  next
    case False
    with 1 show ?thesis by (simp add: trim_front.simps [of ws s])
  qed
qed

lemma trim_front_Nil [simp]: "trim_front ws [] = []"
  by (simp add: trim_front.simps)

lemma TrimSpace_Nil [simp]: "TrimSpace [] = []"
  by (simp add: TrimSpace_def)

lemma TrimSpace_sublist: "sublist (TrimSpace s) s"
proof -
  have "suffix (trim_front (map rev space_codes) (rev (trim_front space_codes s)))
      (rev (trim_front space_codes s))"
    by (rule trim_front_suffix)
  then have "prefix (TrimSpace s) (trim_front space_codes s)"
    by (simp add: TrimSpace_def suffix_to_prefix)
  then show ?thesis
    using trim_front_suffix [of space_codes s]
    by (meson prefix_imp_sublist sublist_order.order_trans suffix_imp_sublist)
qed

lemma not_blank_not_Nil: "\<not> is_blank s \<Longrightarrow> s \<noteq> []"
  by (auto simp: is_blank_def)

text \<open>A string is blank only if all its bytes occur in encodings of white space.\<close>

lemma match_any_set:
  "set (take (match_any ws s) s) \<subseteq> set (concat ws)"
proof -
  have "set (take (length w) s) \<subseteq> set (concat ws)"
    if "List.find (\<lambda>w. take (length w) s = w \<and> w \<noteq> []) ws = Some w" for w
    using that by (auto simp: find_Some_iff) (metis nth_mem)
  then show ?thesis unfolding match_any_def by (auto split: option.splits)
qed

lemma trim_front_set: "set s \<subseteq> set (trim_front ws s) \<union> set (concat ws)"
proof (induction ws s rule: trim_front.induct)
  case (1 ws s)
  show ?case
  proof (cases "match_any ws s = 0 \<or> s = []")
    case True
    then show ?thesis by (subst trim_front.simps) auto
  next
    case False
    then have "set (drop (match_any ws s) s) \<subseteq> set (trim_front ws s) \<union> set (concat ws)"
      using 1 by (subst trim_front.simps) simp
    moreover have "set s = set (take (match_any ws s) s) \<union> set (drop (match_any ws s) s)"
      by (metis append_take_drop_id set_append)
    ultimately show ?thesis using match_any_set [of ws s] by blast
  qed
qed

lemma is_blank_set: "is_blank s \<Longrightarrow> set s \<subseteq> set (concat space_codes)"
proof -
  assume "is_blank s"
  then have "set (rev (trim_front space_codes s)) \<subseteq> set (concat (map rev space_codes))"
    using trim_front_set [of "rev (trim_front space_codes s)" "map rev space_codes"]
    by (simp add: is_blank_def TrimSpace_def)
  then show ?thesis using trim_front_set [of s space_codes] by auto
qed

definition is_graphic :: "char \<Rightarrow> bool" where
  "is_graphic c \<longleftrightarrow> (let n = (of_char c :: nat) in 33 \<le> n \<and> n \<le> 126)"

lemma space_codes_not_graphic: "list_all (\<lambda>c. \<not> is_graphic c) (concat space_codes)"
  by code_simp

text \<open>Without white space nothing is trimmed.\<close>

lemma match_any_graphic:
  assumes "list_all (\<lambda>c. \<not> is_graphic c) (concat ws)" "is_graphic c"
  shows "match_any ws (c # s) = 0"
proof -
  have False if f: "List.find (\<lambda>w. take (length w) (c # s) = w \<and> w \<noteq> []) ws = Some w" for w
  proof -
    have w: "w \<in> set ws" "take (length w) (c # s) = w" "w \<noteq> []" using f by (auto simp: find_Some_iff)
    obtain x w' where "w = x # w'" using w(3) by (cases w) blast+
    moreover from this have "x = c" using w(2) by simp
    ultimately have "w = c # w'" by simp
    then have "c \<in> set (concat ws)" using w(1) by force
    then show False using assms by (auto simp: list_all_iff)
  qed
  then show ?thesis unfolding match_any_def by (auto split: option.split)
qed

lemma trim_front_graphic:
  "list_all (\<lambda>c. \<not> is_graphic c) (concat ws) \<Longrightarrow> list_all is_graphic s \<Longrightarrow> trim_front ws s = s"
  by (cases s) (simp, subst trim_front.simps, simp add: match_any_graphic)

lemma space_codes_rev_not_graphic: "list_all (\<lambda>c. \<not> is_graphic c) (concat (map rev space_codes))"
  using space_codes_not_graphic by (auto simp: list_all_iff)

lemma TrimSpace_graphic: "list_all is_graphic s \<Longrightarrow> TrimSpace s = s"
  unfolding TrimSpace_def
  by (simp add: trim_front_graphic [OF space_codes_not_graphic] trim_front_graphic [OF space_codes_rev_not_graphic])

lemma trim_front_hd_graphic:
  assumes "list_all (\<lambda>c. \<not> is_graphic c) (concat ws)" "is_graphic (hd s)"
  shows "trim_front ws s = s"
  using assms by (cases s) (simp, subst trim_front.simps, simp add: match_any_graphic)

text \<open>For evaluation: a text whose first and last bytes are graphic is as it is.\<close>

lemma TrimSpace_code [code]:
  "TrimSpace s = (if s = [] \<or> is_graphic (hd s) \<and> is_graphic (last s) then s
     else rev (trim_front (map rev space_codes) (rev (trim_front space_codes s))))"
  by (auto simp: TrimSpace_def trim_front_hd_graphic [OF space_codes_not_graphic]
    trim_front_hd_graphic [OF space_codes_rev_not_graphic] hd_rev)

lemma not_blank_graphic: "c \<in> set s \<Longrightarrow> is_graphic c \<Longrightarrow> \<not> is_blank s"
  using is_blank_set space_codes_not_graphic by (auto simp: list_all_iff)

lemma not_blank_Cons [simp]: "is_graphic c \<Longrightarrow> \<not> is_blank (c # s)"
  by (rule not_blank_graphic [of c]) simp_all

section \<open>Split, join and search\<close>

text \<open>\<open>strings.Split(s, c)\<close> for a separator of one byte: never the empty list.\<close>

fun Split :: "char \<Rightarrow> string \<Rightarrow> string list" where
  "Split c [] = [[]]"
| "Split c (x # xs) =
    (if x = c then [] # Split c xs
     else (case Split c xs of [] \<Rightarrow> [[x]] | w # ws \<Rightarrow> (x # w) # ws))"

fun Join :: "string \<Rightarrow> string list \<Rightarrow> string" where
  "Join sep [] = []"
| "Join sep [w] = w"
| "Join sep (w # ws) = w @ sep @ Join sep ws"

lemma Split_not_Nil [simp]: "Split c s \<noteq> []"
  by (induction s) (auto split: list.splits)

lemma Split_no_sep: "w \<in> set (Split c s) \<Longrightarrow> c \<notin> set w"
proof (induction s arbitrary: w)
  case Nil
  then show ?case by simp
next
  case (Cons x xs)
  then show ?case by (cases "Split c xs") (auto split: if_splits)
qed

lemma Split_id: "c \<notin> set s \<Longrightarrow> Split c s = [s]"
  by (induction s) auto

lemma Join_Cons: "ws \<noteq> [] \<Longrightarrow> Join sep (w # ws) = w @ sep @ Join sep ws"
  by (cases ws) auto

lemma Join_Split: "Join [c] (Split c s) = s"
proof (induction s)
  case Nil
  then show ?case by simp
next
  case (Cons x xs)
  obtain w ws where sp: "Split c xs = w # ws" by (cases "Split c xs") auto
  with Cons show ?case by (cases ws) (auto simp: Join_Cons)
qed

lemma Split_append_sep: "c \<notin> set w \<Longrightarrow> Split c (w @ c # s) = w # Split c s"
  by (induction w) auto

lemma Split_Join:
  "ws \<noteq> [] \<Longrightarrow> (\<And>w. w \<in> set ws \<Longrightarrow> c \<notin> set w) \<Longrightarrow> Split c (Join [c] ws) = ws"
proof (induction ws)
  case Nil
  then show ?case by simp
next
  case (Cons w ws)
  then show ?case
    by (cases ws) (auto simp: Split_id Split_append_sep)
qed

lemma length_Split: "length (Split c s) = Suc (count_list s c)"
proof (induction s)
  case Nil
  then show ?case by simp
next
  case (Cons x xs)
  then show ?case by (cases "Split c xs") auto
qed

text \<open>The bytes before the first \<open>c\<close>: \<open>s[:strings.Index(s, c)]\<close>, or all of \<open>s\<close>.\<close>

definition before_char :: "char \<Rightarrow> string \<Rightarrow> string" where
  "before_char c s = takeWhile (\<lambda>x. x \<noteq> c) s"

definition lower_char :: "char \<Rightarrow> char" where
  "lower_char c =
    (let n = (of_char c :: nat) in if 65 \<le> n \<and> n \<le> 90 then char_of (n + 32) else c)"

definition ToLower :: "string \<Rightarrow> string" where
  "ToLower s = map lower_char s"

lemma lower_char_idem [simp]: "lower_char (lower_char c) = lower_char c"
proof (cases "65 \<le> (of_char c :: nat) \<and> (of_char c :: nat) \<le> 90")
  case True
  then have "(of_char (char_of (of_char c + 32 :: nat) :: char) :: nat) = of_char c + 32"
    by simp
  with True show ?thesis by (simp add: lower_char_def Let_def)
next
  case False
  then show ?thesis by (auto simp: lower_char_def Let_def)
qed

definition is_letter :: "char \<Rightarrow> bool" where
  "is_letter c \<longleftrightarrow> (let n = (of_char c :: nat) in (65 \<le> n \<and> n \<le> 90) \<or> (97 \<le> n \<and> n \<le> 122))"

definition is_digit :: "char \<Rightarrow> bool" where
  "is_digit c \<longleftrightarrow> (let n = (of_char c :: nat) in 48 \<le> n \<and> n \<le> 57)"

text \<open>
  \<open>strconv.ParseInt(s, 10, 64)\<close>: an optional sign and at least one digit, the value in the
  range of \<open>int64\<close>.
\<close>

definition min_int64 :: int where "min_int64 = - (2 ^ 63)"
definition max_int64 :: int where "max_int64 = 2 ^ 63 - 1"

definition parse_unsigned :: "string \<Rightarrow> int option" where
  "parse_unsigned s = (if s \<noteq> [] \<and> list_all is_digit s then Some (int (parse_digits s)) else None)"

definition ParseInt64 :: "string \<Rightarrow> int option" where
  "ParseInt64 s =
    (let v = (case s of
         [] \<Rightarrow> None
       | c # cs \<Rightarrow> if c = CHR ''-'' then map_option uminus (parse_unsigned cs)
                  else if c = CHR ''+'' then parse_unsigned cs else parse_unsigned s)
     in (case v of None \<Rightarrow> None
         | Some n \<Rightarrow> if min_int64 \<le> n \<and> n \<le> max_int64 then Some n else None))"

lemma nat_digits_digits: "list_all is_digit (nat_digits n)"
  unfolding list_all_iff is_digit_def Let_def using nat_digits_range by blast

lemma ParseInt64_sprint_d:
  assumes "min_int64 \<le> n" and "n \<le> max_int64"
  shows "ParseInt64 (sprint_d n) = Some n"
proof (cases "n < 0")
  case True
  then show ?thesis using assms nat_digits_digits [of "nat (- n)"]
    by (simp add: ParseInt64_def sprint_d_def parse_unsigned_def)
next
  case False
  obtain c cs where ds: "nat_digits (nat n) = c # cs"
    using nat_digits_not_Nil by (cases "nat_digits (nat n)") auto
  have "is_digit c" using nat_digits_digits [of "nat n"] by (simp add: ds)
  then have "c \<noteq> CHR ''-''" "c \<noteq> CHR ''+''" by (auto simp: is_digit_def)
  moreover have "parse_unsigned (nat_digits (nat n)) = Some n"
    using False nat_digits_digits [of "nat n"] by (simp add: parse_unsigned_def)
  ultimately show ?thesis
    using assms False by (simp add: ParseInt64_def sprint_d_def ds)
qed

definition HasPrefix :: "string \<Rightarrow> string \<Rightarrow> bool" where
  "HasPrefix s p \<longleftrightarrow> take (length p) s = p"

fun Contains :: "string \<Rightarrow> string \<Rightarrow> bool" where
  "Contains [] p = (p = [])"
| "Contains (c # cs) p = (HasPrefix (c # cs) p \<or> Contains cs p)"

end
