(* ===== verification/Exam_Schema.thy ===== *)
theory Exam_Schema
  imports Go_Strings
begin

text \<open>
  The tables of an exam that the exam services read and write, with the columns those
  services use, and the view \<open>v_examinee_info\<close> over them, as \<open>doc/abilityIndex.sql\<close>
  defines it. Times are Unix milliseconds. Columns every \<open>INSERT\<close> of the program fills are plain
  values; columns that are \<open>NULL\<close> in some rows of a running system are options.
\<close>

record exam_info =
  ei_id :: int
  ei_status :: string
  ei_create_time :: int
  ei_update_time :: "int option"
  ei_files :: "int list"
  ei_domain_id :: "int option"
  ei_mode :: string

record exam_session =
  es_id :: int
  es_exam_id :: int
  es_status :: string
  es_start_time :: int
  es_end_time :: int
  es_mark_method :: string
  es_period_mode :: string
  es_duration :: "int option"
  es_late_entry_time :: "int option"
  es_early_submission_time :: "int option"
  es_update_time :: "int option"
  es_actual_end_time :: "int option"
  es_reviewer_ids :: "int list"
  es_mark_mode :: null_string

record examinee =
  ex_id :: int
  ex_student_id :: int
  ex_session_id :: int
  ex_paper_id :: int
  ex_status :: string
  ex_start_time :: "int option"
  ex_end_time :: "int option"
  ex_extra_time :: "int option"
  ex_update_time :: "int option"
  ex_updated_by :: "int option"
  ex_exit_cnt :: int

record exam_db =
  exam_infos :: "exam_info list"
  exam_sessions :: "exam_session list"
  examinees :: "examinee list"
  exam_paper_ids :: "int list"
  user_ids :: "int list"

section \<open>The view of an examinee\<close>

text \<open>
  \<open>actual_end_time\<close> of the view: in the flexible mode \<open>02\<close> an examinee who has started gets the
  session's duration (in minutes) from that start; otherwise the session's end, put off
  by the examinee's extra time if there is any. \<open>NULL\<close> propagates as in SQL.
\<close>

definition actual_end_time :: "exam_session \<Rightarrow> examinee \<Rightarrow> int option" where
  "actual_end_time s e =
    (case (es_period_mode s = ''02'', ex_start_time e) of
       (True, Some st) \<Rightarrow> map_option (\<lambda>d. st + d * 60 * 1000) (es_duration s)
     | _ \<Rightarrow> Some (case ex_extra_time e of
                    None \<Rightarrow> es_end_time s | Some x \<Rightarrow> es_end_time s + x))"

definition allow_entry_time :: "exam_session \<Rightarrow> int" where
  "allow_entry_time s = (case es_late_entry_time s of
     None \<Rightarrow> es_start_time s | Some m \<Rightarrow> es_start_time s + m * 60 * 1000)"

definition allow_submit_time :: "exam_session \<Rightarrow> int" where
  "allow_submit_time s = (case es_early_submission_time s of
     None \<Rightarrow> es_end_time s | Some m \<Rightarrow> es_end_time s - m * 60 * 1000)"

definition session_by_id :: "exam_db \<Rightarrow> int \<Rightarrow> exam_session option" where
  "session_by_id db i = sql_first (\<lambda>s. es_id s = i) (exam_sessions db)"

definition exam_by_id :: "exam_db \<Rightarrow> int \<Rightarrow> exam_info option" where
  "exam_by_id db i = sql_first (\<lambda>x. ei_id x = i) (exam_infos db)"

text \<open>
  The row of \<open>v_examinee_info\<close> for an examinee: the session and the exam it joins, when
  the inner joins with the session, the exam, the paper and the user all find a row.
\<close>

definition examinee_view :: "exam_db \<Rightarrow> examinee \<Rightarrow> (exam_session \<times> exam_info) option" where
  "examinee_view db e =
    (case session_by_id db (ex_session_id e) of
       None \<Rightarrow> None
     | Some s \<Rightarrow>
         (case exam_by_id db (es_exam_id s) of
            None \<Rightarrow> None
          | Some x \<Rightarrow>
              if ex_paper_id e \<in> set (exam_paper_ids db) \<and> ex_student_id e \<in> set (user_ids db)
              then Some (s, x) else None))"

text \<open>Primary keys and foreign keys: what the schema and the inserts keep.\<close>

definition exam_db_wf :: "exam_db \<Rightarrow> bool" where
  "exam_db_wf db \<longleftrightarrow>
     distinct (map ei_id (exam_infos db)) \<and> distinct (map es_id (exam_sessions db)) \<and>
     distinct (map ex_id (examinees db)) \<and>
     (\<forall>s \<in> set (exam_sessions db). es_exam_id s \<in> set (map ei_id (exam_infos db))) \<and>
     (\<forall>e \<in> set (examinees db). ex_session_id e \<in> set (map es_id (exam_sessions db)) \<and>
        ex_paper_id e \<in> set (exam_paper_ids db) \<and> ex_student_id e \<in> set (user_ids db))"

lemma distinct_key_eq:
  "distinct (map k xs) \<Longrightarrow> x \<in> set xs \<Longrightarrow> y \<in> set xs \<Longrightarrow> k x = k y \<Longrightarrow> x = y"
  by (auto simp: distinct_map inj_on_def)

lemma session_by_id_mem:
  assumes "exam_db_wf db" and "s \<in> set (exam_sessions db)"
  shows "session_by_id db (es_id s) = Some s"
  unfolding session_by_id_def
  by (rule sql_first_unique)
    (use assms in \<open>auto simp: exam_db_wf_def dest: distinct_key_eq\<close>)

lemma exam_by_id_mem:
  assumes "exam_db_wf db" and "x \<in> set (exam_infos db)"
  shows "exam_by_id db (ei_id x) = Some x"
  unfolding exam_by_id_def
  by (rule sql_first_unique)
    (use assms in \<open>auto simp: exam_db_wf_def dest: distinct_key_eq\<close>)

lemma session_by_idD:
  "session_by_id db i = Some s \<Longrightarrow> s \<in> set (exam_sessions db) \<and> es_id s = i"
  unfolding session_by_id_def by (auto dest: sql_first_Some)

lemma exam_by_idD: "exam_by_id db i = Some x \<Longrightarrow> x \<in> set (exam_infos db) \<and> ei_id x = i"
  unfolding exam_by_id_def by (auto dest: sql_first_Some)

lemma exam_by_id_total:
  assumes "exam_db_wf db" and "s \<in> set (exam_sessions db)"
  shows "\<exists>x. exam_by_id db (es_exam_id s) = Some x"
proof -
  have "es_exam_id s \<in> ei_id ` set (exam_infos db)"
    using assms by (auto simp: exam_db_wf_def)
  then obtain x where "x \<in> set (exam_infos db)" and "ei_id x = es_exam_id s" by auto
  with exam_by_id_mem [OF assms(1)] show ?thesis by metis
qed

text \<open>In a well-formed database every examinee has a row of the view.\<close>

lemma examinee_view_total:
  assumes wf: "exam_db_wf db" and e: "e \<in> set (examinees db)"
    and s: "session_by_id db (ex_session_id e) = Some s"
  shows "\<exists>x. exam_by_id db (es_exam_id s) = Some x \<and> examinee_view db e = Some (s, x)"
proof -
  have "s \<in> set (exam_sessions db)" using s by (simp add: session_by_idD)
  then obtain x where "exam_by_id db (es_exam_id s) = Some x"
    using exam_by_id_total [OF wf] by blast
  moreover have "ex_paper_id e \<in> set (exam_paper_ids db)" "ex_student_id e \<in> set (user_ids db)"
    using wf e by (auto simp: exam_db_wf_def)
  ultimately show ?thesis using s by (simp add: examinee_view_def)
qed

end
