(* ===== verification/Exam_Timers.thy ===== *)
theory Exam_Timers
  imports Exam_Schema
begin

text \<open>
  The timer manager of the exam maintenance service
  (\<open>exam_service/exam-maintenance-serve_latest.go\<close>): one Go timer per session and event
  type, a queue of the events whose time has come, and the workers that take them.

  A Go timer is an entry of \<open>armed\<close>; the manager's own map \<open>timers\<close> knows it by its key.
  The callback of \<open>time.AfterFunc\<close> runs in its own goroutine and does two things in turn:
  it puts the event on the queue (here the step \<open>fire\<close>, which records in \<open>fired\<close> that the
  second half is still to come) and then, under the mutex, deletes the key from the map
  (the step \<open>cleanup\<close>). Everything else the manager does is one critical section, hence
  one step.

  Both sends of an event stand in a \<open>select\<close> beside \<open><-tm.ctx.Done()\<close>. Once the context is
  done that case is ready too, and Go takes any of the ready ones: \<open>quits\<close> is the runtime's
  choice for each event, which a step of its own (\<open>runtime\<close>) may change at any time. Taking
  it drops the event; a callback then returns without deleting its key.
\<close>

record exam_event =
  ev_type :: string
  ev_exam_id :: int
  ev_session_id :: int

record timer =
  tm_deadline :: int
  tm_key :: string
  tm_event :: exam_event

record timer_mgr =
  timers :: "string \<rightharpoonup> nat"
  armed :: "nat \<rightharpoonup> timer"
  fired :: "(nat \<times> string) list"
  event_queue :: "exam_event list"
  next_timer :: nat
  cancelled :: bool
  quits :: "exam_event \<Rightarrow> bool"

definition EVENT_TYPE_EXAM_SESSION_START :: string where
  "EVENT_TYPE_EXAM_SESSION_START = ''exam_session_start''"

definition EVENT_TYPE_EXAM_SESSION_END :: string where
  "EVENT_TYPE_EXAM_SESSION_END = ''exam_session_end''"

definition DEFAULT_MAX_WORKERS :: nat where
  "DEFAULT_MAX_WORKERS = 10"

definition queue_capacity :: nat where
  "queue_capacity = DEFAULT_MAX_WORKERS * 15"

definition NewExamTimerManager :: timer_mgr where
  "NewExamTimerManager =
    \<lparr>timers = Map.empty, armed = Map.empty, fired = [], event_queue = [],
     next_timer = 0, cancelled = False, quits = (\<lambda>_. False)\<rparr>"

definition timer_key :: "string \<Rightarrow> int \<Rightarrow> string" where
  "timer_key ty sid = ty @ ''_'' @ sprint_d sid"

section \<open>Operations\<close>

text \<open>Stopping a timer that has fired already does nothing: it is no longer armed.\<close>

definition stop_key :: "string \<Rightarrow> timer_mgr \<Rightarrow> timer_mgr" where
  "stop_key k tm = (case timers tm k of
     None \<Rightarrow> tm
   | Some i \<Rightarrow> tm\<lparr>armed := (armed tm)(i := None), timers := (timers tm)(k := None)\<rparr>)"

text \<open>
  The \<open>select\<close> takes the case of the finished context: the context is done, and the
  runtime chooses that case or the queue has no room for the event.
\<close>

definition drops :: "exam_event \<Rightarrow> timer_mgr \<Rightarrow> bool" where
  "drops event tm \<longleftrightarrow>
     cancelled tm \<and> (quits tm event \<or> queue_capacity \<le> length (event_queue tm))"

definition SetExamSessionTimer ::
    "int \<Rightarrow> int \<Rightarrow> int \<Rightarrow> exam_event \<Rightarrow> timer_mgr \<Rightarrow> timer_mgr" where
  "SetExamSessionTimer now examSessionID triggerTime event tm =
    (let timerKey = timer_key (ev_type event) examSessionID;
         tm1 = stop_key timerKey tm;
         delay = triggerTime - now
     in if delay \<le> 0
        then (if drops event tm1 then tm1 else tm1\<lparr>event_queue := event_queue tm1 @ [event]\<rparr>)
        else tm1\<lparr>armed := (armed tm1)(next_timer tm1 \<mapsto>
                   \<lparr>tm_deadline = triggerTime, tm_key = timerKey, tm_event = event\<rparr>),
                 timers := (timers tm1)(timerKey \<mapsto> next_timer tm1),
                 next_timer := Suc (next_timer tm1)\<rparr>)"

definition CancelExamSessionTimer :: "string \<Rightarrow> int \<Rightarrow> timer_mgr \<Rightarrow> timer_mgr" where
  "CancelExamSessionTimer eventType examSessionID tm =
     stop_key (timer_key eventType examSessionID) tm"

text \<open>
  \<open>StopAll\<close> stops the timers of the map. A timer is only ever entered under its own key,
  so the timers it stops are those the map holds under their key.
\<close>

definition StopAll :: "timer_mgr \<Rightarrow> timer_mgr" where
  "StopAll tm =
     tm\<lparr>armed := (\<lambda>i. case armed tm i of
            None \<Rightarrow> None
          | Some t \<Rightarrow> if timers tm (tm_key t) = Some i then None else Some t),
        timers := Map.empty, cancelled := True\<rparr>"

text \<open>The two halves of a timer's callback, and a worker taking an event.\<close>

definition fire_timer :: "nat \<Rightarrow> timer \<Rightarrow> timer_mgr \<Rightarrow> timer_mgr" where
  "fire_timer i t tm =
    (let tm1 = tm\<lparr>armed := (armed tm)(i := None)\<rparr>
     in if drops (tm_event t) tm1 then tm1
        else tm1\<lparr>event_queue := event_queue tm1 @ [tm_event t], fired := (i, tm_key t) # fired tm1\<rparr>)"

definition cleanup_timer :: "nat \<Rightarrow> string \<Rightarrow> timer_mgr \<Rightarrow> timer_mgr" where
  "cleanup_timer i k tm =
     tm\<lparr>fired := remove1 (i, k) (fired tm), timers := (timers tm)(k := None)\<rparr>"

definition take_event :: "timer_mgr \<Rightarrow> timer_mgr" where
  "take_event tm = tm\<lparr>event_queue := tl (event_queue tm)\<rparr>"

section \<open>Steps\<close>

text \<open>
  One rule per critical section. A send on the full queue blocks unless the context is
  done, so \<open>set\<close> with a time that has passed and \<open>fire\<close> need room on it or a finished
  context. A worker may still take an event when the context is done, since its \<open>select\<close>
  then has two ready cases as well.
\<close>

inductive tm_step :: "timer_mgr \<Rightarrow> timer_mgr \<Rightarrow> bool" where
  set_timer: "now < trig \<or> length (event_queue tm) < queue_capacity \<or> cancelled tm \<Longrightarrow>
     tm_step tm (SetExamSessionTimer now sid trig ev tm)"
| cancel: "tm_step tm (CancelExamSessionTimer ty sid tm)"
| fire: "armed tm i = Some t \<Longrightarrow> length (event_queue tm) < queue_capacity \<or> cancelled tm \<Longrightarrow>
     tm_step tm (fire_timer i t tm)"
| cleanup: "(i, k) \<in> set (fired tm) \<Longrightarrow> tm_step tm (cleanup_timer i k tm)"
| take_ev: "event_queue tm \<noteq> [] \<Longrightarrow> tm_step tm (take_event tm)"
| stop_all: "tm_step tm (StopAll tm)"
| runtime: "tm_step tm (tm\<lparr>quits := q\<rparr>)"

inductive tm_reachable :: "timer_mgr \<Rightarrow> bool" where
  start: "tm_reachable NewExamTimerManager"
| step: "tm_reachable tm \<Longrightarrow> tm_step tm tm' \<Longrightarrow> tm_reachable tm'"

text \<open>
  The same manager when nothing comes between the two halves of a callback: firing and
  deleting the key are one step.
\<close>

inductive tm_step_atomic :: "timer_mgr \<Rightarrow> timer_mgr \<Rightarrow> bool" where
  set_timer: "now < trig \<or> length (event_queue tm) < queue_capacity \<or> cancelled tm \<Longrightarrow>
     tm_step_atomic tm (SetExamSessionTimer now sid trig ev tm)"
| cancel: "tm_step_atomic tm (CancelExamSessionTimer ty sid tm)"
| fire: "armed tm i = Some t \<Longrightarrow> length (event_queue tm) < queue_capacity \<Longrightarrow>
     \<not> drops (tm_event t) tm \<Longrightarrow>
     tm_step_atomic tm (cleanup_timer i (tm_key t) (fire_timer i t tm))"
| fire_dropped: "armed tm i = Some t \<Longrightarrow> drops (tm_event t) tm \<Longrightarrow>
     tm_step_atomic tm (fire_timer i t tm)"
| take_ev: "event_queue tm \<noteq> [] \<Longrightarrow> tm_step_atomic tm (take_event tm)"
| stop_all: "tm_step_atomic tm (StopAll tm)"
| runtime: "tm_step_atomic tm (tm\<lparr>quits := q\<rparr>)"

inductive tm_reachable_atomic :: "timer_mgr \<Rightarrow> bool" where
  start: "tm_reachable_atomic NewExamTimerManager"
| step: "tm_reachable_atomic tm \<Longrightarrow> tm_step_atomic tm tm' \<Longrightarrow> tm_reachable_atomic tm'"

inductive_cases tm_stepE: "tm_step tm tm'"
inductive_cases tm_step_atomicE: "tm_step_atomic tm tm'"

lemmas timer_ops = SetExamSessionTimer_def CancelExamSessionTimer_def StopAll_def
  stop_key_def drops_def fire_timer_def cleanup_timer_def take_event_def NewExamTimerManager_def

section \<open>Invariants\<close>

text \<open>
  A key of the map stands for a timer that is armed under that key, or for one whose
  callback has run and is about to delete the key, or, once the context is done, for one
  whose callback has returned without deleting it; timer numbers are never reused.
\<close>

definition tm_inv :: "timer_mgr \<Rightarrow> bool" where
  "tm_inv tm \<longleftrightarrow>
     (\<forall>k i. timers tm k = Some i \<longrightarrow>
        i < next_timer tm \<and>
        ((\<exists>t. armed tm i = Some t \<and> tm_key t = k) \<or> (i, k) \<in> set (fired tm) \<or>
         cancelled tm \<and> armed tm i = None)) \<and>
     (\<forall>i t. armed tm i = Some t \<longrightarrow> i < next_timer tm) \<and>
     (\<forall>i k. (i, k) \<in> set (fired tm) \<longrightarrow> i < next_timer tm \<and> armed tm i = None)"

text \<open>
  When callbacks are atomic, the map also knows every armed timer, and a key that stands
  for none is left over from a finished context.
\<close>

definition tm_inv_atomic :: "timer_mgr \<Rightarrow> bool" where
  "tm_inv_atomic tm \<longleftrightarrow>
     (\<forall>i t. armed tm i = Some t \<longrightarrow> timers tm (tm_key t) = Some i \<and> i < next_timer tm) \<and>
     (\<forall>k i. timers tm k = Some i \<longrightarrow> i < next_timer tm \<and>
        ((\<exists>t. armed tm i = Some t \<and> tm_key t = k) \<or> cancelled tm \<and> armed tm i = None)) \<and>
     (\<forall>k k' i. timers tm k = Some i \<longrightarrow> timers tm k' = Some i \<longrightarrow> k = k') \<and>
     fired tm = []"


lemma tm_inv_init: "tm_inv NewExamTimerManager"
  by (simp add: tm_inv_def NewExamTimerManager_def)

lemma tm_inv_registered:
  "tm_inv tm \<Longrightarrow> timers tm k = Some i \<Longrightarrow>
    (\<exists>t. armed tm i = Some t \<and> tm_key t = k) \<or> (i, k) \<in> set (fired tm) \<or>
    cancelled tm \<and> armed tm i = None"
  by (simp add: tm_inv_def)

lemma tm_inv_bound: "tm_inv tm \<Longrightarrow> timers tm k = Some i \<Longrightarrow> i < next_timer tm"
  by (simp add: tm_inv_def)

lemma tm_inv_fired: "tm_inv tm \<Longrightarrow> (i, k) \<in> set (fired tm) \<Longrightarrow> i < next_timer tm \<and> armed tm i = None"
  by (auto simp: tm_inv_def)

lemma tm_inv_stop_key:
  assumes inv: "tm_inv tm"
  shows "tm_inv (stop_key k tm)"
proof (cases "timers tm k")
  case None
  with inv show ?thesis by (simp add: stop_key_def)
next
  case (Some i)
  have other: "k' \<noteq> k \<Longrightarrow> timers tm k' = Some j \<Longrightarrow>
      (j \<noteq> i \<and> (\<exists>t. armed tm j = Some t \<and> tm_key t = k')) \<or> (j, k') \<in> set (fired tm) \<or>
      cancelled tm \<and> armed tm j = None" for k' j
    using tm_inv_registered [OF inv, of k' j] tm_inv_registered [OF inv Some]
      tm_inv_fired [OF inv, of i k] by force
  show ?thesis
    unfolding tm_inv_def stop_key_def Some
    using inv other by (auto simp: tm_inv_def)
qed

lemma tm_inv_enqueue: "tm_inv tm \<Longrightarrow> tm_inv (tm\<lparr>event_queue := q\<rparr>)"
  by (simp add: tm_inv_def)

lemma tm_inv_arm:
  "tm_inv tm \<Longrightarrow> tm_inv (tm\<lparr>armed := (armed tm)(next_timer tm \<mapsto>
      \<lparr>tm_deadline = d, tm_key = k, tm_event = e\<rparr>),
    timers := (timers tm)(k \<mapsto> next_timer tm), next_timer := Suc (next_timer tm)\<rparr>)"
  unfolding tm_inv_def by (auto simp: less_Suc_eq)

lemma tm_inv_set: "tm_inv tm \<Longrightarrow> tm_inv (SetExamSessionTimer now sid trig ev tm)"
  by (simp add: SetExamSessionTimer_def Let_def tm_inv_enqueue tm_inv_arm tm_inv_stop_key)

lemma tm_inv_cancel: "tm_inv tm \<Longrightarrow> tm_inv (CancelExamSessionTimer ty sid tm)"
  by (simp add: CancelExamSessionTimer_def tm_inv_stop_key)

lemma drops_armed [simp]: "drops ev (tm\<lparr>armed := a\<rparr>) = drops ev tm"
  by (simp add: drops_def)

lemma drops_cancelled: "drops ev tm \<Longrightarrow> cancelled tm"
  by (simp add: drops_def)

lemma tm_inv_fire:
  assumes inv: "tm_inv tm" and i: "armed tm i = Some t"
  shows "tm_inv (fire_timer i t tm)"
proof -
  have key: "timers tm k = Some i \<Longrightarrow> k = tm_key t" for k
    using tm_inv_registered [OF inv, of k i] tm_inv_fired [OF inv, of i k] i by auto
  have other: "timers tm k = Some j \<Longrightarrow> j \<noteq> i \<Longrightarrow> j < next_timer tm \<and>
      ((\<exists>u. armed tm j = Some u \<and> tm_key u = k) \<or> (j, k) \<in> set (fired tm) \<or>
       cancelled tm \<and> armed tm j = None)" for k j
    using tm_inv_registered [OF inv, of k j] tm_inv_bound [OF inv, of k j] by blast
  have old: "i < next_timer tm" "armed tm j = Some u \<Longrightarrow> j < next_timer tm" for j u
    using inv i unfolding tm_inv_def by blast+
  show ?thesis
  proof (cases "drops (tm_event t) tm")
    case True
    then show ?thesis
      using other old key drops_cancelled [OF True] tm_inv_fired [OF inv]
      unfolding tm_inv_def fire_timer_def Let_def by auto
  next
    case False
    then show ?thesis
      using other old key tm_inv_fired [OF inv]
      unfolding tm_inv_def fire_timer_def Let_def by auto
  qed
qed

lemma tm_inv_cleanup: "tm_inv tm \<Longrightarrow> tm_inv (cleanup_timer i k tm)"
  unfolding tm_inv_def cleanup_timer_def
  by (auto simp: in_set_remove1 dest!: subsetD [OF set_remove1_subset])

lemma tm_inv_stop_all: "tm_inv tm \<Longrightarrow> tm_inv (StopAll tm)"
  unfolding tm_inv_def StopAll_def by (auto split: option.splits if_splits)

lemma tm_inv_runtime: "tm_inv tm \<Longrightarrow> tm_inv (tm\<lparr>quits := q\<rparr>)"
  by (simp add: tm_inv_def)

lemma tm_inv_step: "tm_step tm tm' \<Longrightarrow> tm_inv tm \<Longrightarrow> tm_inv tm'"
  by (cases rule: tm_step.cases)
    (auto simp: tm_inv_set tm_inv_cancel tm_inv_fire tm_inv_cleanup take_event_def
       tm_inv_enqueue tm_inv_stop_all tm_inv_runtime)

lemma tm_reachable_inv: "tm_reachable tm \<Longrightarrow> tm_inv tm"
  by (induction rule: tm_reachable.induct) (auto simp: tm_inv_init tm_inv_step)

lemma tm_inv_atomic_init: "tm_inv_atomic NewExamTimerManager"
  by (simp add: tm_inv_atomic_def NewExamTimerManager_def)

lemma tm_inv_atomic_registered:
  "tm_inv_atomic tm \<Longrightarrow> armed tm i = Some t \<Longrightarrow> timers tm (tm_key t) = Some i"
  by (simp add: tm_inv_atomic_def)

lemma tm_inv_atomic_unique:
  "tm_inv_atomic tm \<Longrightarrow> armed tm i = Some t \<Longrightarrow> armed tm j = Some u \<Longrightarrow>
    tm_key t = tm_key u \<Longrightarrow> i = j"
  by (metis tm_inv_atomic_registered option.inject)

lemma tm_inv_atomic_known:
  "tm_inv_atomic tm \<Longrightarrow> timers tm k = Some i \<Longrightarrow> i < next_timer tm \<and>
    ((\<exists>t. armed tm i = Some t \<and> tm_key t = k) \<or> cancelled tm \<and> armed tm i = None)"
  by (simp add: tm_inv_atomic_def)

lemma tm_inv_atomic_inj:
  "tm_inv_atomic tm \<Longrightarrow> timers tm k = Some i \<Longrightarrow> timers tm k' = Some i \<Longrightarrow> k = k'"
  by (auto simp: tm_inv_atomic_def)

lemma tm_inv_atomic_forget:
  assumes inv: "tm_inv_atomic tm" and k: "timers tm k = Some i"
  shows "tm_inv_atomic (tm\<lparr>armed := (armed tm)(i := None), timers := (timers tm)(k := None)\<rparr>)"
proof -
  have "armed tm j = Some u \<Longrightarrow> j \<noteq> i \<Longrightarrow> tm_key u \<noteq> k" for j u
    using tm_inv_atomic_registered [OF inv, of j u] k by auto
  moreover have "timers tm l = Some j \<Longrightarrow> l \<noteq> k \<Longrightarrow> j \<noteq> i" for l j
    using tm_inv_atomic_inj [OF inv k] by blast
  ultimately show ?thesis
    using tm_inv_atomic_known [OF inv] tm_inv_atomic_inj [OF inv] inv
    unfolding tm_inv_atomic_def by auto
qed

lemma tm_inv_atomic_disarm:
  "tm_inv_atomic tm \<Longrightarrow> armed tm i = Some t \<Longrightarrow>
    tm_inv_atomic (tm\<lparr>armed := (armed tm)(i := None), timers := (timers tm)(tm_key t := None)\<rparr>)"
  by (intro tm_inv_atomic_forget tm_inv_atomic_registered)

lemma tm_inv_atomic_stop_key: "tm_inv_atomic tm \<Longrightarrow> tm_inv_atomic (stop_key k tm)"
  by (auto simp: stop_key_def tm_inv_atomic_forget split: option.splits)

lemma stop_key_none: "timers (stop_key k tm) k = None"
  by (simp add: stop_key_def split: option.splits)

lemma tm_inv_atomic_arm:
  assumes inv: "tm_inv_atomic tm" and free: "timers tm k = None"
  shows "tm_inv_atomic (tm\<lparr>armed := (armed tm)(next_timer tm \<mapsto>
      \<lparr>tm_deadline = d, tm_key = k, tm_event = e\<rparr>),
    timers := (timers tm)(k \<mapsto> next_timer tm), next_timer := Suc (next_timer tm)\<rparr>)"
proof -
  have fresh: "timers tm l = Some j \<Longrightarrow> j < next_timer tm" for l j
    using tm_inv_atomic_known [OF inv] by blast
  have other: "armed tm j = Some u \<Longrightarrow> tm_key u \<noteq> k" for j u
    using tm_inv_atomic_registered [OF inv, of j u] free by auto
  show ?thesis
    using tm_inv_atomic_known [OF inv] tm_inv_atomic_inj [OF inv] inv fresh other
    unfolding tm_inv_atomic_def by (auto simp: less_Suc_eq)
qed

lemma tm_inv_atomic_enqueue: "tm_inv_atomic tm \<Longrightarrow> tm_inv_atomic (tm\<lparr>event_queue := q\<rparr>)"
  by (simp add: tm_inv_atomic_def)

lemma tm_inv_atomic_set:
  "tm_inv_atomic tm \<Longrightarrow> tm_inv_atomic (SetExamSessionTimer now sid trig ev tm)"
  by (simp add: SetExamSessionTimer_def Let_def tm_inv_atomic_enqueue tm_inv_atomic_stop_key
      tm_inv_atomic_arm stop_key_none)

lemma tm_inv_atomic_fire:
  assumes inv: "tm_inv_atomic tm" and i: "armed tm i = Some t"
    and sent: "\<not> drops (tm_event t) tm"
  shows "tm_inv_atomic (cleanup_timer i (tm_key t) (fire_timer i t tm))"
proof -
  have "cleanup_timer i (tm_key t) (fire_timer i t tm) =
      tm\<lparr>armed := (armed tm)(i := None), timers := (timers tm)(tm_key t := None)\<rparr>
        \<lparr>event_queue := event_queue tm @ [tm_event t]\<rparr>"
    using sent by (simp add: cleanup_timer_def fire_timer_def Let_def)
  then show ?thesis
    using tm_inv_atomic_enqueue [OF tm_inv_atomic_disarm [OF inv i]] by simp
qed

lemma tm_inv_atomic_dropped:
  assumes inv: "tm_inv_atomic tm" and i: "armed tm i = Some t" and lost: "drops (tm_event t) tm"
  shows "tm_inv_atomic (fire_timer i t tm)"
proof -
  have fired: "fire_timer i t tm = tm\<lparr>armed := (armed tm)(i := None)\<rparr>"
    using lost by (simp add: fire_timer_def Let_def)
  show ?thesis
    using tm_inv_atomic_known [OF inv] tm_inv_atomic_inj [OF inv] inv drops_cancelled [OF lost]
    unfolding fired tm_inv_atomic_def by auto
qed

lemma tm_inv_atomic_stop_all: "tm_inv_atomic tm \<Longrightarrow> tm_inv_atomic (StopAll tm)"
  unfolding tm_inv_atomic_def StopAll_def by (auto split: option.splits if_splits)

lemma tm_inv_atomic_take: "tm_inv_atomic tm \<Longrightarrow> tm_inv_atomic (take_event tm)"
  by (simp add: take_event_def tm_inv_atomic_def)

lemma tm_inv_atomic_runtime: "tm_inv_atomic tm \<Longrightarrow> tm_inv_atomic (tm\<lparr>quits := q\<rparr>)"
  by (simp add: tm_inv_atomic_def)

lemma tm_inv_atomic_step: "tm_step_atomic tm tm' \<Longrightarrow> tm_inv_atomic tm \<Longrightarrow> tm_inv_atomic tm'"
  by (cases rule: tm_step_atomic.cases)
    (auto simp: tm_inv_atomic_set tm_inv_atomic_fire tm_inv_atomic_stop_all tm_inv_atomic_take
       tm_inv_atomic_dropped tm_inv_atomic_runtime CancelExamSessionTimer_def
       tm_inv_atomic_stop_key)

lemma tm_reachable_atomic_inv: "tm_reachable_atomic tm \<Longrightarrow> tm_inv_atomic tm"
  by (induction rule: tm_reachable_atomic.induct)
    (auto simp: tm_inv_atomic_init tm_inv_atomic_step)

lemma cancel_armed:
  assumes inv: "tm_inv_atomic tm"
    and armed: "armed (CancelExamSessionTimer ty sid tm) i = Some t"
  shows "tm_key t \<noteq> timer_key ty sid"
proof
  assume key: "tm_key t = timer_key ty sid"
  have "tm_inv_atomic (CancelExamSessionTimer ty sid tm)"
    using inv by (simp add: CancelExamSessionTimer_def tm_inv_atomic_stop_key)
  from tm_inv_atomic_registered [OF this armed] key
  have "timers (CancelExamSessionTimer ty sid tm) (timer_key ty sid) = Some i"
    by simp
  then show False by (simp add: CancelExamSessionTimer_def stop_key_none)
qed

section \<open>Properties\<close>

definition race_event :: exam_event where
  "race_event = \<lparr>ev_type = EVENT_TYPE_EXAM_SESSION_END, ev_exam_id = 1, ev_session_id = 7\<rparr>"

text \<open>
  The run of the race: the timer of a session fires and queues its event; before its
  callback reaches the mutex, the session's timer is set again; the callback then deletes
  the key, which by now stands for the new timer.
\<close>

definition race_state :: timer_mgr where
  "race_state =
    cleanup_timer 0 (timer_key EVENT_TYPE_EXAM_SESSION_END 7)
     (SetExamSessionTimer 100 7 200 race_event
      (fire_timer 0 \<lparr>tm_deadline = 100, tm_key = timer_key EVENT_TYPE_EXAM_SESSION_END 7,
                     tm_event = race_event\<rparr>
       (SetExamSessionTimer 0 7 100 race_event NewExamTimerManager)))"

lemma race_reachable: "tm_reachable race_state"
  unfolding race_state_def
  by (intro tm_reachable.step [OF _ tm_step.cleanup] tm_reachable.step [OF _ tm_step.set_timer]
        tm_reachable.step [OF _ tm_step.fire] tm_reachable.start)
    (simp_all add: timer_ops race_event_def queue_capacity_def DEFAULT_MAX_WORKERS_def Let_def)

lemma race_armed:
  "armed (CancelExamSessionTimer EVENT_TYPE_EXAM_SESSION_END 7 race_state) 1 =
    Some \<lparr>tm_deadline = 200, tm_key = timer_key EVENT_TYPE_EXAM_SESSION_END 7,
          tm_event = race_event\<rparr>"
  by (simp add: race_state_def timer_ops race_event_def Let_def)

text \<open>
  (C40) No dangling key while the manager runs: in every state it can reach, however the
  callbacks of its timers interleave with its other operations, a key of the map stands for
  a timer that is armed under that very key, or for one whose callback has queued its event
  and is about to delete the key. Only when the manager's context is done can a key be left
  over, and then its timer is no longer armed.
\<close>
theorem timer_map_live:
  assumes "tm_reachable tm" and "timers tm k = Some i"
  shows "(\<exists>t. armed tm i = Some t \<and> tm_key t = k) \<or> (i, k) \<in> set (fired tm) \<or>
    cancelled tm \<and> armed tm i = None"
  using tm_reachable_inv [OF assms(1)] assms(2) by (rule tm_inv_registered)

lemma one_timer_reachable:
  "tm_reachable (SetExamSessionTimer 0 7 100 race_event NewExamTimerManager)"
  by (rule tm_reachable.step [OF tm_reachable.start tm_step.set_timer]) simp

theorem timer_map_live_witness:
  "\<exists>t. armed (SetExamSessionTimer 0 7 100 race_event NewExamTimerManager) 0 = Some t \<and>
     tm_key t = timer_key EVENT_TYPE_EXAM_SESSION_END 7"
proof -
  have "timers (SetExamSessionTimer 0 7 100 race_event NewExamTimerManager)
      (timer_key EVENT_TYPE_EXAM_SESSION_END 7) = Some 0"
    by (simp add: timer_ops race_event_def Let_def)
  from timer_map_live [OF one_timer_reachable this] show ?thesis
    by (simp add: timer_ops race_event_def Let_def)
qed

text \<open>
  Cancelling works when callbacks are not interrupted: if no operation comes between
  the two halves of a callback, then after \<open>CancelExamSessionTimer\<close> no timer for that
  session and event type is armed any more.
\<close>
lemma cancel_disarms:
  assumes "tm_reachable_atomic tm"
    and "armed (CancelExamSessionTimer ty sid tm) i = Some t"
  shows "tm_key t \<noteq> timer_key ty sid"
  using tm_reachable_atomic_inv [OF assms(1)] assms(2) by (rule cancel_armed)

lemma cancel_disarms_witness:
  "timer_key EVENT_TYPE_EXAM_SESSION_END 7 \<noteq> timer_key EVENT_TYPE_EXAM_SESSION_START 7"
proof -
  have reach: "tm_reachable_atomic (SetExamSessionTimer 0 7 100 race_event NewExamTimerManager)"
    by (rule tm_reachable_atomic.step [OF tm_reachable_atomic.start tm_step_atomic.set_timer]) simp
  have "armed (CancelExamSessionTimer EVENT_TYPE_EXAM_SESSION_START 7
      (SetExamSessionTimer 0 7 100 race_event NewExamTimerManager)) 0 =
      Some \<lparr>tm_deadline = 100, tm_key = timer_key EVENT_TYPE_EXAM_SESSION_END 7, tm_event = race_event\<rparr>"
    by (simp add: timer_ops race_event_def Let_def timer_key_def EVENT_TYPE_EXAM_SESSION_END_def
        EVENT_TYPE_EXAM_SESSION_START_def)
  from cancel_disarms [OF reach this] show ?thesis by simp
qed

text \<open>
  The race: because the callback deletes its key without looking whose timer the key
  stands for by then, the manager reaches states from which cancelling a session's timer
  leaves that very timer armed.
\<close>
lemma cancel_can_miss:
  "\<exists>tm i t. tm_reachable tm \<and>
     armed (CancelExamSessionTimer EVENT_TYPE_EXAM_SESSION_END 7 tm) i = Some t \<and>
     tm_key t = timer_key EVENT_TYPE_EXAM_SESSION_END 7"
  using race_reachable race_armed by fastforce

text \<open>
  After \<open>StopAll\<close> a key can be left over: a timer set afterwards fires, its callback finds
  the context done and returns before the deletion.
\<close>

definition stopped_state :: timer_mgr where
  "stopped_state =
    fire_timer 0 \<lparr>tm_deadline = 100, tm_key = timer_key EVENT_TYPE_EXAM_SESSION_END 7,
                  tm_event = race_event\<rparr>
     (SetExamSessionTimer 0 7 100 race_event ((StopAll NewExamTimerManager)\<lparr>quits := (\<lambda>_. True)\<rparr>))"

lemma stopped_reachable: "tm_reachable stopped_state"
  unfolding stopped_state_def
  by (intro tm_reachable.step [OF _ tm_step.fire] tm_reachable.step [OF _ tm_step.set_timer]
        tm_reachable.step [OF _ tm_step.runtime] tm_reachable.step [OF _ tm_step.stop_all]
        tm_reachable.start)
    (simp_all add: timer_ops race_event_def queue_capacity_def DEFAULT_MAX_WORKERS_def Let_def)

lemma dangling_after_stop:
  "tm_reachable stopped_state \<and>
   timers stopped_state (timer_key EVENT_TYPE_EXAM_SESSION_END 7) = Some 0 \<and>
   armed stopped_state 0 = None \<and> fired stopped_state = []"
  using stopped_reachable
  by (simp add: stopped_state_def timer_ops race_event_def Let_def)

end
