(* ===== verification/Exam_Lifecycle.thy ===== *)
theory Exam_Lifecycle
  imports Exam_Timers
begin

text \<open>
  The exam maintenance service (\<open>exam_service/exam-maintenance-serve_latest.go\<close>): setting,
  cancelling and initialising the timers of exams, the handlers of the two timer events
  that move sessions, exams and examinees through their statuses, and the cleanup of
  temporary exams.

  Statuses of an exam: 00 unpublished, 02 waiting, 04 running, 06 ended, 08 archived,
  10 abnormal, 12 deleted, 14 temporary, 16 void. Of a session: 00 unpublished, 02
  waiting, 04 running, 06 ended, 08 marking, 10 marked, 12 submitted, 14 deleted, 16 void.
  Of an examinee: 00 normal, 02 absent, 04 resit, 06 cheating, 08 deleted, 10 handed in,
  12 to be synchronised, 14 abnormal, 16 void (allowed in by the invigilator).

  A handler takes \<open>fault\<close>, which says of each statement whether it reports an error (the
  statement failed, or the test hook \<open>forceErr\<close> with that name is set), the clock
  readings it takes, the event, the committed database and the timer manager; it returns
  its error, the database as committed and the timer manager.
\<close>

datatype exam_error =
    Begin_failed
  | Query_failed string
  | Scan_failed
  | Exec_failed string
  | No_rows string
  | No_rows_affected string
  | Delete_file_failed
  | Unknown_event string

type_synonym handler_result = "(exam_error + unit) \<times> exam_db \<times> timer_mgr"

section \<open>Setting and cancelling the timers of exams\<close>

definition live_session :: "exam_session \<Rightarrow> bool" where
  "live_session s \<longleftrightarrow> es_status s \<notin> {''14'', ''16''}"

text \<open>
  The two \<open>SetExamSessionTimer\<close> calls for a session; \<open>clk ev\<close> is the clock reading the
  call for the event \<open>ev\<close> takes.
\<close>

definition set_session_timers ::
    "(exam_event \<Rightarrow> int) \<Rightarrow> int \<Rightarrow> exam_session \<Rightarrow> timer_mgr \<Rightarrow> timer_mgr" where
  "set_session_timers clk examID s tm =
    (let evs = \<lparr>ev_type = EVENT_TYPE_EXAM_SESSION_START, ev_exam_id = examID, ev_session_id = es_id s\<rparr>;
         eve = \<lparr>ev_type = EVENT_TYPE_EXAM_SESSION_END, ev_exam_id = examID, ev_session_id = es_id s\<rparr>
     in SetExamSessionTimer (clk eve) (es_id s) (es_end_time s) eve
          (SetExamSessionTimer (clk evs) (es_id s) (es_start_time s) evs tm))"

definition SetExamTimers ::
    "(string \<Rightarrow> bool) \<Rightarrow> (exam_event \<Rightarrow> int) \<Rightarrow> exam_db \<Rightarrow> int \<Rightarrow> timer_mgr \<Rightarrow>
      (exam_error + unit) \<times> timer_mgr" where
  "SetExamTimers fault clk db examID tm =
    (if fault ''queryExamSessions'' then (Inl (Query_failed ''queryExamSessions''), tm)
     else
       let rows = filter (\<lambda>s. es_exam_id s = examID \<and> live_session s) (exam_sessions db)
       in if rows \<noteq> [] \<and> fault ''scanExamSessionInfo'' then (Inl Scan_failed, tm)
          else (Inr (), fold (set_session_timers clk examID) rows tm))"

definition cancel_session_timers :: "exam_session \<Rightarrow> timer_mgr \<Rightarrow> timer_mgr" where
  "cancel_session_timers s tm =
     CancelExamSessionTimer EVENT_TYPE_EXAM_SESSION_END (es_id s)
       (CancelExamSessionTimer EVENT_TYPE_EXAM_SESSION_START (es_id s) tm)"

text \<open>A row that does not scan is skipped: \<open>scan_ok\<close> says which do.\<close>

definition CancelExamTimers ::
    "(string \<Rightarrow> bool) \<Rightarrow> (int \<Rightarrow> bool) \<Rightarrow> exam_db \<Rightarrow> int \<Rightarrow> timer_mgr \<Rightarrow>
      (exam_error + unit) \<times> timer_mgr" where
  "CancelExamTimers fault scan_ok db examID tm =
    (if fault ''CancelExamTimers-force-error''
     then (Inl (Query_failed ''CancelExamTimers-force-error''), tm)
     else
       let rows = filter (\<lambda>s. es_exam_id s = examID \<and> live_session s) (exam_sessions db)
       in (Inr (), fold (\<lambda>s tm. if scan_ok (es_id s) then cancel_session_timers s tm else tm) rows tm))"

text \<open>
  On start-up: the timers of every live session of an exam that waits or runs, in the
  order of exam and session. The loop sets each row's timers before it scans the next, so
  an error leaves the timers set so far.
\<close>

definition init_rows :: "exam_db \<Rightarrow> exam_session list" where
  "init_rows db = sort_key es_exam_id (sort_key es_id
     (filter (\<lambda>s. live_session s \<and>
        (case exam_by_id db (es_exam_id s) of
           None \<Rightarrow> False | Some x \<Rightarrow> ei_status x \<in> {''02'', ''04''})) (exam_sessions db)))"

fun init_loop ::
    "(int \<Rightarrow> bool) \<Rightarrow> (exam_event \<Rightarrow> int) \<Rightarrow> exam_session list \<Rightarrow> timer_mgr \<Rightarrow>
      (exam_error + unit) \<times> timer_mgr" where
  "init_loop scan_ok clk [] tm = (Inr (), tm)"
| "init_loop scan_ok clk (s # ss) tm =
    (if scan_ok (es_id s)
     then init_loop scan_ok clk ss (set_session_timers clk (es_exam_id s) s tm)
     else (Inl Scan_failed, tm))"

definition InitializeExamTimers ::
    "(string \<Rightarrow> bool) \<Rightarrow> (int \<Rightarrow> bool) \<Rightarrow> (exam_event \<Rightarrow> int) \<Rightarrow> exam_db \<Rightarrow> timer_mgr \<Rightarrow>
      (exam_error + unit) \<times> timer_mgr" where
  "InitializeExamTimers fault scan_ok clk db tm =
    (if fault ''queryExamSessions'' then (Inl (Query_failed ''queryExamSessions''), tm)
     else init_loop scan_ok clk (init_rows db) tm)"

section \<open>Transactions\<close>

text \<open>
  The deferred function of a handler: an error of the body rolls back, otherwise the
  transaction commits; a failed rollback or commit is only logged, so the error the
  handler returns is the body's. What the body does to the timer manager stays.
\<close>

definition in_tx :: "(string \<Rightarrow> bool) \<Rightarrow> exam_db \<Rightarrow> handler_result \<Rightarrow> handler_result" where
  "in_tx fault db r =
    (case r of (res, db', tm') \<Rightarrow>
       (res, if is_ok res \<and> \<not> fault ''rollback'' \<and> \<not> fault ''commit'' then db' else db, tm'))"

section \<open>A session starts\<close>

definition abnormal_where :: "exam_db \<Rightarrow> int \<Rightarrow> int \<Rightarrow> int \<Rightarrow> exam_info \<Rightarrow> bool" where
  "abnormal_where db examID sessionID now' x \<longleftrightarrow>
     ei_id x = examID \<and> ei_status x = ''02'' \<and>
     list_ex (\<lambda>s. es_id s = sessionID \<and> es_start_time s \<le> now') (exam_sessions db)"

definition start_session_where :: "int \<Rightarrow> int \<Rightarrow> exam_session \<Rightarrow> bool" where
  "start_session_where sessionID now' s \<longleftrightarrow>
     es_id s = sessionID \<and> es_status s = ''02'' \<and> es_start_time s \<le> now'"

definition examinee_count :: "exam_db \<Rightarrow> int \<Rightarrow> nat" where
  "examinee_count db sessionID =
     sql_count (\<lambda>e. ex_status e \<noteq> ''08'' \<and> ex_session_id e = sessionID) (examinees db)"

definition start_abnormal ::
    "(string \<Rightarrow> bool) \<Rightarrow> int \<Rightarrow> int \<Rightarrow> int \<Rightarrow> int \<Rightarrow> exam_db \<Rightarrow> timer_mgr \<Rightarrow> handler_result" where
  "start_abnormal fault now now' examID sessionID db tm =
    (let w = abnormal_where db examID sessionID now';
         db1 = db\<lparr>exam_infos := sql_update w
                 (\<lambda>x. x\<lparr>ei_status := ''10'', ei_update_time := Some now\<rparr>) (exam_infos db)\<rparr>
     in if fault ''updateAbnormalExam'' then (Inl (Exec_failed ''updateAbnormalExam''), db, tm)
        else if sql_count w (exam_infos db) = 0 \<or> fault ''updateAbnormalExam.RowsAffected''
        then (Inl (No_rows_affected ''updateAbnormalExam''), db1, tm)
        else (case CancelExamTimers fault (\<lambda>_. True) db examID tm of (r, tm') \<Rightarrow>
                (if fault ''cancelAbnormalExamTimers''
                 then Inl (Query_failed ''cancelAbnormalExamTimers'') else r, db1, tm')))"

definition start_normal ::
    "(string \<Rightarrow> bool) \<Rightarrow> int \<Rightarrow> int \<Rightarrow> int \<Rightarrow> int \<Rightarrow> exam_db \<Rightarrow> timer_mgr \<Rightarrow> handler_result" where
  "start_normal fault now now' examID sessionID db tm =
    (let w = start_session_where sessionID now';
         db1 = db\<lparr>exam_sessions := sql_update w
                 (\<lambda>s. s\<lparr>es_status := ''04'', es_update_time := Some now\<rparr>) (exam_sessions db)\<rparr>;
         db2 = db1\<lparr>exam_infos := sql_update (\<lambda>x. ei_id x = examID \<and> ei_status x = ''02'')
                 (\<lambda>x. x\<lparr>ei_status := ''04'', ei_update_time := Some now\<rparr>) (exam_infos db1)\<rparr>
     in if fault ''updateExamSession'' then (Inl (Exec_failed ''updateExamSession''), db, tm)
        else if sql_count w (exam_sessions db) = 0 \<or> fault ''updateExamSession.RowsAffected''
        then (Inl (No_rows_affected ''updateExamSession''), db1, tm)
        else if fault ''updateExam'' then (Inl (Exec_failed ''updateExam''), db1, tm)
        else (Inr (), db2, tm))"

definition start_body ::
    "(string \<Rightarrow> bool) \<Rightarrow> int \<Rightarrow> int \<Rightarrow> exam_event \<Rightarrow> exam_db \<Rightarrow> timer_mgr \<Rightarrow> handler_result" where
  "start_body fault now now' event db tm =
    (case sql_first (\<lambda>s. es_id s = ev_session_id event \<and> live_session s) (exam_sessions db) of
       None \<Rightarrow> (Inl (No_rows ''queryExamSessionInfo''), db, tm)
     | Some s \<Rightarrow>
         if fault ''queryExamSessionInfo'' then (Inl (Query_failed ''queryExamSessionInfo''), db, tm)
         else if examinee_count db (es_id s) = 0
         then start_abnormal fault now now' (es_exam_id s) (es_id s) db tm
         else start_normal fault now now' (es_exam_id s) (es_id s) db tm)"

text \<open>With the test hook \<open>commit\<close> the body returns at once.\<close>

definition handleExamSessionStart ::
    "(string \<Rightarrow> bool) \<Rightarrow> int \<Rightarrow> int \<Rightarrow> exam_event \<Rightarrow> exam_db \<Rightarrow> timer_mgr \<Rightarrow> handler_result" where
  "handleExamSessionStart fault now now' event db tm =
    (if fault ''beginTx'' then (Inl Begin_failed, db, tm)
     else in_tx fault db
       (if fault ''commit'' then (Inr (), db, tm) else start_body fault now now' event db tm))"

section \<open>A session ends\<close>

text \<open>The row of the common table expression \<open>examinee_to_update\<close> for an examinee.\<close>

definition examinee_to_update :: "exam_db \<Rightarrow> int \<Rightarrow> int \<Rightarrow> examinee \<Rightarrow> bool" where
  "examinee_to_update db sessionID now e \<longleftrightarrow>
     ex_session_id e = sessionID \<and> ex_status e \<in> {''00'', ''10'', ''16''} \<and>
     (case examinee_view db e of
        None \<Rightarrow> False
      | Some (s, x) \<Rightarrow>
          (case actual_end_time s e of None \<Rightarrow> False | Some t \<Rightarrow> t \<le> now) \<and>
          ei_status x \<in> {''02'', ''04'', ''06''})"

definition finish_examinee :: "exam_db \<Rightarrow> int \<Rightarrow> examinee \<Rightarrow> examinee" where
  "finish_examinee db now e =
    (let new_status = (if ex_start_time e \<noteq> None then ''10'' else ''02'');
         new_end_time =
           (if ex_start_time e \<noteq> None
            then (case examinee_view db e of
                    None \<Rightarrow> None | Some (s, x) \<Rightarrow> actual_end_time s e)
            else None)
     in e\<lparr>ex_status := new_status,
          ex_end_time := (case new_end_time of None \<Rightarrow> ex_end_time e | Some t \<Rightarrow> Some t),
          ex_update_time := Some now\<rparr>)"

definition unfinished_count :: "exam_db \<Rightarrow> int \<Rightarrow> nat" where
  "unfinished_count db sessionID =
     sql_count (\<lambda>e. ex_status e \<notin> {''02'', ''06'', ''08'', ''10'', ''12'', ''14''} \<and>
       ex_session_id e = sessionID) (examinees db)"

definition end_session_where :: "int \<Rightarrow> int \<Rightarrow> exam_session \<Rightarrow> bool" where
  "end_session_where sessionID now s \<longleftrightarrow>
     es_id s = sessionID \<and> es_status s \<in> {''02'', ''04''} \<and> es_end_time s \<le> now"

definition end_session :: "int \<Rightarrow> exam_session \<Rightarrow> exam_session" where
  "end_session now s =
    s\<lparr>es_status := (if es_mark_method s = ''02'' then ''08'' else ''06''),
      es_update_time := Some now, es_actual_end_time := Some now\<rparr>"

definition end_exam_where :: "exam_db \<Rightarrow> int \<Rightarrow> exam_info \<Rightarrow> bool" where
  "end_exam_where db examID x \<longleftrightarrow>
     ei_status x \<in> {''02'', ''04''} \<and>
     \<not> list_ex (\<lambda>s. es_exam_id s = ei_id x \<and> es_status s \<in> {''02'', ''04''}) (exam_sessions db) \<and>
     ei_id x = examID"

definition end_close ::
    "(string \<Rightarrow> bool) \<Rightarrow> int \<Rightarrow> int \<Rightarrow> int \<Rightarrow> exam_db \<Rightarrow> timer_mgr \<Rightarrow> handler_result" where
  "end_close fault now examID sessionID db tm =
    (let db1 = db\<lparr>exam_sessions :=
                 sql_update (end_session_where sessionID now) (end_session now) (exam_sessions db)\<rparr>;
         db2 = db1\<lparr>exam_infos := sql_update (end_exam_where db1 examID)
                 (\<lambda>x. x\<lparr>ei_status := ''06'', ei_update_time := Some now\<rparr>) (exam_infos db1)\<rparr>
     in if fault ''updateSessionEndStatus'' then (Inl (Exec_failed ''updateSessionEndStatus''), db, tm)
        else if fault ''updateExamEndStatus'' then (Inl (Exec_failed ''updateExamEndStatus''), db1, tm)
        else (Inr (), db2, tm))"

definition end_examinees :: "int \<Rightarrow> int \<Rightarrow> exam_db \<Rightarrow> exam_db" where
  "end_examinees sessionID now db =
    db\<lparr>examinees := sql_update (examinee_to_update db sessionID now)
        (finish_examinee db now) (examinees db)\<rparr>"

text \<open>\<open>now'\<close> is the clock reading \<open>SetExamSessionTimer\<close> takes when the event is put off.\<close>

definition end_body ::
    "(string \<Rightarrow> bool) \<Rightarrow> int \<Rightarrow> int \<Rightarrow> exam_event \<Rightarrow> exam_db \<Rightarrow> timer_mgr \<Rightarrow> handler_result" where
  "end_body fault now now' event db tm =
    (if fault ''lockExamSession'' then (Inl (Exec_failed ''lockExamSession''), db, tm)
     else if fault ''updateExaminees'' then (Inl (Exec_failed ''updateExaminees''), db, tm)
     else
       let db1 = end_examinees (ev_session_id event) now db
       in (case session_by_id db1 (ev_session_id event) of
             None \<Rightarrow> (Inl (No_rows ''scanUnfinishedExaminees''), db1, tm)
           | Some s \<Rightarrow>
               if fault ''scanUnfinishedExaminees''
               then (Inl (Query_failed ''scanUnfinishedExaminees''), db1, tm)
               else if unfinished_count db1 (es_id s) > 0
               then (Inr (), db1,
                     SetExamSessionTimer now' (es_id s) (now + 60 * 1000)
                       \<lparr>ev_type = EVENT_TYPE_EXAM_SESSION_END, ev_exam_id = es_exam_id s,
                        ev_session_id = es_id s\<rparr> tm)
               else end_close fault now (es_exam_id s) (es_id s) db1 tm))"

definition handleExamSessionEnd ::
    "(string \<Rightarrow> bool) \<Rightarrow> int \<Rightarrow> int \<Rightarrow> exam_event \<Rightarrow> exam_db \<Rightarrow> timer_mgr \<Rightarrow> handler_result" where
  "handleExamSessionEnd fault now now' event db tm =
    (if fault ''beginTx'' then (Inl Begin_failed, db, tm)
     else in_tx fault db (end_body fault now now' event db tm))"

text \<open>The worker's dispatch; the handlers' errors are not passed on.\<close>

definition processEvent ::
    "(string \<Rightarrow> bool) \<Rightarrow> int \<Rightarrow> int \<Rightarrow> exam_event \<Rightarrow> exam_db \<Rightarrow> timer_mgr \<Rightarrow> handler_result" where
  "processEvent fault now now' event db tm =
    (if ev_type event = EVENT_TYPE_EXAM_SESSION_START
     then (Inr (), snd (handleExamSessionStart fault now now' event db tm))
     else if ev_type event = EVENT_TYPE_EXAM_SESSION_END
     then (Inr (), snd (handleExamSessionEnd fault now now' event db tm))
     else (Inl (Unknown_event (ev_type event)), db, tm))"

section \<open>Temporary exams\<close>

text \<open>
  \<open>DELETE \<dots> RETURNING files\<close> runs outside a transaction: the rows are gone whatever the
  deletion of their files then returns. \<open>delete_file\<close> stands for \<open>cmn.DeleteFileRecord\<close>.
\<close>

definition temp_exam :: "int \<Rightarrow> exam_info \<Rightarrow> bool" where
  "temp_exam cutoff x \<longleftrightarrow> ei_status x = ''14'' \<and> ei_create_time x < cutoff"

definition cleanupTempExams ::
    "(string \<Rightarrow> bool) \<Rightarrow> (int \<Rightarrow> 'f \<Rightarrow> exam_error + 'f) \<Rightarrow> int \<Rightarrow> exam_db \<Rightarrow> 'f \<Rightarrow>
      (exam_error + 'f) \<times> exam_db" where
  "cleanupTempExams fault delete_file now db files =
    (let cutoff = now - 24 * 60 * 60 * 1000;
         deleted = filter (temp_exam cutoff) (exam_infos db);
         db1 = db\<lparr>exam_infos := sql_delete (temp_exam cutoff) (exam_infos db)\<rparr>
     in if fault ''deleteTempExams'' then (Inl (Query_failed ''deleteTempExams''), db)
        else if deleted \<noteq> [] \<and> fault ''scanFiles'' then (Inl Scan_failed, db1)
        else (for_each (\<lambda>i fs. if fault ''handleDeleteExamFile'' then Inl Delete_file_failed
                               else delete_file i fs)
                (concat (map ei_files deleted)) files, db1))"

section \<open>What a handler commits\<close>

lemma in_tx_db:
  "fst (snd (in_tx fault db r)) = db \<or>
    (is_ok (fst r) \<and> fst (snd (in_tx fault db r)) = fst (snd r))"
  by (simp add: in_tx_def split: prod.splits)

lemma in_tx_res [simp]: "fst (in_tx fault db r) = fst r"
  by (simp add: in_tx_def split: prod.splits)

lemma in_tx_error: "fst r = Inl e \<Longrightarrow> fst (snd (in_tx fault db r)) = db"
  by (auto simp: in_tx_def split: prod.splits)

text \<open>
  The databases a successful body leaves: the three ways the start handler can end well
  and the two of the end handler. Every property of the handlers below is proved over
  these.
\<close>

definition abnormal_db :: "exam_db \<Rightarrow> int \<Rightarrow> int \<Rightarrow> int \<Rightarrow> int \<Rightarrow> exam_db" where
  "abnormal_db db now now' examID sessionID =
    db\<lparr>exam_infos := sql_update (abnormal_where db examID sessionID now')
         (\<lambda>x. x\<lparr>ei_status := ''10'', ei_update_time := Some now\<rparr>) (exam_infos db)\<rparr>"

definition started_db :: "exam_db \<Rightarrow> int \<Rightarrow> int \<Rightarrow> int \<Rightarrow> int \<Rightarrow> exam_db" where
  "started_db db now now' examID sessionID =
    db\<lparr>exam_sessions := sql_update (start_session_where sessionID now')
          (\<lambda>s. s\<lparr>es_status := ''04'', es_update_time := Some now\<rparr>) (exam_sessions db),
       exam_infos := sql_update (\<lambda>x. ei_id x = examID \<and> ei_status x = ''02'')
          (\<lambda>x. x\<lparr>ei_status := ''04'', ei_update_time := Some now\<rparr>) (exam_infos db)\<rparr>"

definition closed_db :: "exam_db \<Rightarrow> int \<Rightarrow> int \<Rightarrow> int \<Rightarrow> exam_db" where
  "closed_db db now examID sessionID =
    (let db1 = db\<lparr>exam_sessions :=
        sql_update (end_session_where sessionID now) (end_session now) (exam_sessions db)\<rparr>
     in db1\<lparr>exam_infos := sql_update (end_exam_where db1 examID)
          (\<lambda>x. x\<lparr>ei_status := ''06'', ei_update_time := Some now\<rparr>) (exam_infos db1)\<rparr>)"

lemma handleStart_db:
  "fst (snd (handleExamSessionStart fault now now' ev db tm)) = db \<or>
    (is_ok (fst (start_body fault now now' ev db tm)) \<and>
     fst (snd (handleExamSessionStart fault now now' ev db tm)) =
       fst (snd (start_body fault now now' ev db tm)))"
  using in_tx_db [of fault db "start_body fault now now' ev db tm"]
  by (auto simp: handleExamSessionStart_def in_tx_def)

lemma handleEnd_db:
  "fst (snd (handleExamSessionEnd fault now now' ev db tm)) = db \<or>
    (is_ok (fst (end_body fault now now' ev db tm)) \<and>
     fst (snd (handleExamSessionEnd fault now now' ev db tm)) =
       fst (snd (end_body fault now now' ev db tm)))"
  using in_tx_db [of fault db "end_body fault now now' ev db tm"]
  by (auto simp: handleExamSessionEnd_def)

lemma start_bodyE:
  assumes "is_ok (fst (start_body fault now now' ev db tm))"
  obtains (abnormal) s where "s \<in> set (exam_sessions db)" "es_id s = ev_session_id ev"
      "live_session s" "examinee_count db (es_id s) = 0"
      "fst (snd (start_body fault now now' ev db tm)) = abnormal_db db now now' (es_exam_id s) (es_id s)"
  | (normal) s where "s \<in> set (exam_sessions db)" "es_id s = ev_session_id ev"
      "live_session s" "examinee_count db (es_id s) > 0"
      "\<exists>r \<in> set (exam_sessions db). start_session_where (es_id s) now' r"
      "fst (snd (start_body fault now now' ev db tm)) = started_db db now now' (es_exam_id s) (es_id s)"
proof (cases "sql_first (\<lambda>s. es_id s = ev_session_id ev \<and> live_session s) (exam_sessions db)")
  case None
  with assms show ?thesis by (simp add: start_body_def)
next
  case (Some s)
  note s = sql_first_Some [OF Some]
  show ?thesis
  proof (cases "examinee_count db (es_id s) = 0")
    case True
    show ?thesis
    proof (rule abnormal [of s])
      show "fst (snd (start_body fault now now' ev db tm)) =
          abnormal_db db now now' (es_exam_id s) (es_id s)"
        using assms Some True
        by (simp add: start_body_def start_abnormal_def abnormal_db_def Let_def
            split: if_splits prod.splits)
    qed (use s True in auto)
  next
    case False
    show ?thesis
    proof (rule normal [of s])
      show "fst (snd (start_body fault now now' ev db tm)) =
          started_db db now now' (es_exam_id s) (es_id s)"
        using assms Some False
        by (auto simp: start_body_def start_normal_def started_db_def Let_def split: if_splits)
      show "\<exists>r \<in> set (exam_sessions db). start_session_where (es_id s) now' r"
        using assms Some False
        by (auto simp: start_body_def start_normal_def Let_def split: if_splits)
    qed (use s False in auto)
  qed
qed

lemma end_bodyE:
  assumes "is_ok (fst (end_body fault now now' ev db tm))"
  obtains (waiting) s where
      "session_by_id (end_examinees (ev_session_id ev) now db) (ev_session_id ev) = Some s"
      "unfinished_count (end_examinees (ev_session_id ev) now db) (ev_session_id ev) > 0"
      "snd (end_body fault now now' ev db tm) = (end_examinees (ev_session_id ev) now db,
        SetExamSessionTimer now' (es_id s) (now + 60 * 1000)
          \<lparr>ev_type = EVENT_TYPE_EXAM_SESSION_END, ev_exam_id = es_exam_id s,
           ev_session_id = es_id s\<rparr> tm)"
  | (closed) s where
      "session_by_id (end_examinees (ev_session_id ev) now db) (ev_session_id ev) = Some s"
      "unfinished_count (end_examinees (ev_session_id ev) now db) (ev_session_id ev) = 0"
      "snd (end_body fault now now' ev db tm) =
        (closed_db (end_examinees (ev_session_id ev) now db) now (es_exam_id s) (ev_session_id ev), tm)"
proof (cases "session_by_id (end_examinees (ev_session_id ev) now db) (ev_session_id ev)")
  case None
  with assms show ?thesis by (simp add: end_body_def Let_def split: if_splits)
next
  case (Some s)
  have id: "es_id s = ev_session_id ev" using session_by_idD [OF Some] by simp
  show ?thesis
  proof (cases "unfinished_count (end_examinees (ev_session_id ev) now db) (ev_session_id ev) = 0")
    case True
    then show ?thesis
      using assms Some id
      by (intro closed [of s])
        (simp_all add: end_body_def end_close_def closed_db_def Let_def split: if_splits)
  next
    case False
    then show ?thesis
      using assms Some id
      by (intro waiting [of s]) (simp_all add: end_body_def Let_def split: if_splits)
  qed
qed

section \<open>Statuses along the life of an exam\<close>

definition session_edge :: "string \<Rightarrow> string \<Rightarrow> bool" where
  "session_edge a b \<longleftrightarrow> (a, b) \<in> {(''02'', ''04''), (''02'', ''06''), (''02'', ''08''),
     (''04'', ''06''), (''04'', ''08'')}"

definition exam_edge :: "string \<Rightarrow> string \<Rightarrow> bool" where
  "exam_edge a b \<longleftrightarrow> (a, b) \<in> {(''02'', ''04''), (''02'', ''06''), (''02'', ''10''), (''04'', ''06'')}"

definition examinee_edge :: "string \<Rightarrow> string \<Rightarrow> bool" where
  "examinee_edge a b \<longleftrightarrow> (a, b) \<in> {(''00'', ''02''), (''00'', ''10''), (''10'', ''02''),
     (''16'', ''02''), (''16'', ''10'')}"

text \<open>One step of the service: some worker processes some event, whatever fails meanwhile.\<close>

inductive life_step :: "exam_db \<Rightarrow> exam_db \<Rightarrow> bool" where
  event: "life_step db (fst (snd (processEvent fault now now' ev db tm)))"

inductive_cases life_stepE: "life_step db db'"

lemma life_step_cases:
  assumes "life_step db db'"
  obtains (same) "db' = db"
  | (abnormal) now now' s where "s \<in> set (exam_sessions db)"
      "examinee_count db (es_id s) = 0" "db' = abnormal_db db now now' (es_exam_id s) (es_id s)"
  | (started) now now' s where "s \<in> set (exam_sessions db)"
      "examinee_count db (es_id s) > 0" "db' = started_db db now now' (es_exam_id s) (es_id s)"
  | (waiting) now sid where "db' = end_examinees sid now db"
  | (closed) now sid s where "session_by_id (end_examinees sid now db) sid = Some s"
      "db' = closed_db (end_examinees sid now db) now (es_exam_id s) sid"
  using assms
proof (cases rule: life_step.cases)
  case (event fault now now' ev tm)
  then consider "db' = db"
    | "is_ok (fst (start_body fault now now' ev db tm))"
      "db' = fst (snd (start_body fault now now' ev db tm))"
    | "is_ok (fst (end_body fault now now' ev db tm))"
      "db' = fst (snd (end_body fault now now' ev db tm))"
    using handleStart_db [of fault now now' ev db tm] handleEnd_db [of fault now now' ev db tm]
    by (auto simp: processEvent_def split: if_splits)
  then show ?thesis
  proof cases
    case 1
    then show ?thesis by (rule same)
  next
    case 2
    then show ?thesis using abnormal started by (auto elim!: start_bodyE)
  next
    case 3
    show ?thesis by (rule end_bodyE [OF 3(1)]) (use 3(2) waiting closed in auto)
  qed
qed

lemmas life_dbs = abnormal_db_def started_db_def end_examinees_def closed_db_def Let_def

lemma finish_examinee_simps [simp]:
  "ex_id (finish_examinee db now e) = ex_id e"
  "ex_session_id (finish_examinee db now e) = ex_session_id e"
  "ex_student_id (finish_examinee db now e) = ex_student_id e"
  "ex_paper_id (finish_examinee db now e) = ex_paper_id e"
  "ex_start_time (finish_examinee db now e) = ex_start_time e"
  "ex_status (finish_examinee db now e) = (if ex_start_time e \<noteq> None then ''10'' else ''02'')"
  by (simp_all add: finish_examinee_def Let_def)

lemma end_session_simps [simp]:
  "es_id (end_session now s) = es_id s"
  "es_exam_id (end_session now s) = es_exam_id s"
  "es_status (end_session now s) = (if es_mark_method s = ''02'' then ''08'' else ''06'')"
  by (simp_all add: end_session_def)

text \<open>The three tables keep the contract of a status table under every step.\<close>

interpretation session_table: status_table exam_sessions es_id es_status session_edge life_step
proof unfold_locales
  fix s s' i
  assume step: "life_step s s'" and i: "i < length (exam_sessions s)"
  show "es_status (exam_sessions s' ! i) = es_status (exam_sessions s ! i) \<or>
      session_edge (es_status (exam_sessions s ! i)) (es_status (exam_sessions s' ! i))"
    using step i
    by (cases rule: life_step_cases)
      (auto simp: life_dbs nth_sql_update session_edge_def start_session_where_def
         end_session_where_def)
qed (auto elim!: life_step_cases simp: life_dbs nth_sql_update)

interpretation exam_table: status_table exam_infos ei_id ei_status exam_edge life_step
proof unfold_locales
  fix s s' i
  assume step: "life_step s s'" and i: "i < length (exam_infos s)"
  show "ei_status (exam_infos s' ! i) = ei_status (exam_infos s ! i) \<or>
      exam_edge (ei_status (exam_infos s ! i)) (ei_status (exam_infos s' ! i))"
    using step i
    by (cases rule: life_step_cases)
      (auto simp: life_dbs nth_sql_update exam_edge_def abnormal_where_def end_exam_where_def)
qed (auto elim!: life_step_cases simp: life_dbs nth_sql_update)

interpretation examinee_table: status_table examinees ex_id ex_status examinee_edge life_step
proof unfold_locales
  fix s s' i
  assume step: "life_step s s'" and i: "i < length (examinees s)"
  show "ex_status (examinees s' ! i) = ex_status (examinees s ! i) \<or>
      examinee_edge (ex_status (examinees s ! i)) (ex_status (examinees s' ! i))"
    using step i
    by (cases rule: life_step_cases)
      (auto simp: life_dbs nth_sql_update examinee_edge_def examinee_to_update_def)
qed (auto elim!: life_step_cases simp: life_dbs nth_sql_update)

section \<open>The invariant of the three tables\<close>

text \<open>
  A running session's exam is not waiting any more, and an ended exam has no session that
  waits or runs.
\<close>

definition life_inv :: "exam_db \<Rightarrow> bool" where
  "life_inv db \<longleftrightarrow> exam_db_wf db \<and>
     (\<forall>s \<in> set (exam_sessions db). es_status s = ''04'' \<longrightarrow>
        (\<forall>x \<in> set (exam_infos db). ei_id x = es_exam_id s \<longrightarrow> ei_status x \<noteq> ''02'')) \<and>
     (\<forall>x \<in> set (exam_infos db). ei_status x = ''06'' \<longrightarrow>
        (\<forall>s \<in> set (exam_sessions db). es_exam_id s = ei_id x \<longrightarrow>
           es_status s \<noteq> ''02'' \<and> es_status s \<noteq> ''04''))"

lemma exam_db_wf_cong:
  assumes "map ei_id (exam_infos db') = map ei_id (exam_infos db)"
    and "map es_id (exam_sessions db') = map es_id (exam_sessions db)"
    and "map es_exam_id (exam_sessions db') = map es_exam_id (exam_sessions db)"
    and "map ex_id (examinees db') = map ex_id (examinees db)"
    and "map (\<lambda>e. (ex_session_id e, ex_paper_id e, ex_student_id e)) (examinees db') =
         map (\<lambda>e. (ex_session_id e, ex_paper_id e, ex_student_id e)) (examinees db)"
    and "exam_paper_ids db' = exam_paper_ids db" and "user_ids db' = user_ids db"
  shows "exam_db_wf db' = exam_db_wf db"
proof -
  let ?f = "\<lambda>e. (ex_session_id e, ex_paper_id e, ex_student_id e)"
  have sets: "(\<forall>s \<in> set xs. P (es_exam_id s)) = (\<forall>i \<in> set (map es_exam_id xs). P i)"
    "(\<forall>e \<in> set ys. Q (ex_session_id e) (ex_paper_id e) (ex_student_id e)) =
       (\<forall>(a, b, c) \<in> set (map ?f ys). Q a b c)" for P Q xs ys
    by auto
  show ?thesis
    unfolding exam_db_wf_def sets(1) [of _ "\<lambda>i. i \<in> _"]
    unfolding sets(2) [of _ "\<lambda>a b c. a \<in> _ \<and> b \<in> _ \<and> c \<in> _"]
    unfolding assms by (rule refl)
qed

lemma life_step_wf: "life_step db db' \<Longrightarrow> exam_db_wf db' = exam_db_wf db"
  by (rule exam_db_wf_cong)
    (auto elim!: life_step_cases simp: life_dbs map_sql_update)

lemma life_inv_started:
  assumes inv: "life_inv db" and s: "s \<in> set (exam_sessions db)"
    and wf': "exam_db_wf (started_db db now now' (es_exam_id s) (es_id s))"
  shows "life_inv (started_db db now now' (es_exam_id s) (es_id s))"
proof -
  let ?db = "started_db db now now' (es_exam_id s) (es_id s)"
  have key: "es_id r = es_id s \<Longrightarrow> r = s" if "r \<in> set (exam_sessions db)" for r
    using inv that s by (auto simp: life_inv_def exam_db_wf_def dest: distinct_key_eq)
  have sess: "r' \<in> set (exam_sessions db) \<or>
      (es_status s = ''02'' \<and> es_exam_id r' = es_exam_id s \<and> es_status r' = ''04'')"
    if "r' \<in> set (exam_sessions ?db)" for r'
    using that
    by (auto simp: started_db_def start_session_where_def elim!: sql_updateE dest: key)
  have exam: "ei_status x' = ''04'' \<or> (x' \<in> set (exam_infos db) \<and>
      \<not> (ei_id x' = es_exam_id s \<and> ei_status x' = ''02''))"
    if "x' \<in> set (exam_infos ?db)" for x'
    using that by (auto simp: started_db_def elim!: sql_updateE)
  show ?thesis
    unfolding life_inv_def
  proof (intro conjI ballI impI wf')
    fix r' x' assume r: "r' \<in> set (exam_sessions ?db)" "es_status r' = ''04''"
      and x: "x' \<in> set (exam_infos ?db)" "ei_id x' = es_exam_id r'"
    show "ei_status x' \<noteq> ''02''"
      using sess [OF r(1)] exam [OF x(1)] r(2) x(2) inv by (auto simp: life_inv_def)
  next
    fix r' x' assume x: "x' \<in> set (exam_infos ?db)" "ei_status x' = ''06''"
      and r: "r' \<in> set (exam_sessions ?db)" "es_exam_id r' = ei_id x'"
    have x': "x' \<in> set (exam_infos db)" using exam [OF x(1)] x(2) by auto
    show "es_status r' \<noteq> ''02''" "es_status r' \<noteq> ''04''"
      using sess [OF r(1)] x x' r(2) s inv by (auto simp: life_inv_def)
  qed
qed

lemma life_inv_closed:
  assumes inv: "life_inv db" and wf': "exam_db_wf (closed_db db now examID sid)"
  shows "life_inv (closed_db db now examID sid)"
proof -
  let ?db = "closed_db db now examID sid"
  have sess: "(r' \<in> set (exam_sessions db)) \<or> es_status r' = ''06'' \<or> es_status r' = ''08''"
    if "r' \<in> set (exam_sessions ?db)" for r'
    using that by (auto simp: closed_db_def Let_def elim!: sql_updateE)
  have exam: "x' \<in> set (exam_infos db) \<or> (ei_status x' = ''06'' \<and>
      (\<forall>r \<in> set (exam_sessions ?db). es_exam_id r = ei_id x' \<longrightarrow>
         es_status r \<noteq> ''02'' \<and> es_status r \<noteq> ''04''))"
    if "x' \<in> set (exam_infos ?db)" for x'
    using that by (auto simp: closed_db_def Let_def end_exam_where_def list_ex_iff
        elim!: sql_updateE [where rows = "exam_infos db"])
  show ?thesis
    unfolding life_inv_def
  proof (intro conjI ballI impI wf')
    fix r' x' assume r: "r' \<in> set (exam_sessions ?db)" "es_status r' = ''04''"
      and x: "x' \<in> set (exam_infos ?db)" "ei_id x' = es_exam_id r'"
    show "ei_status x' \<noteq> ''02''"
      using sess [OF r(1)] exam [OF x(1)] r(2) x(2) inv by (auto simp: life_inv_def)
  next
    fix r' x' assume x: "x' \<in> set (exam_infos ?db)" "ei_status x' = ''06''"
      and r: "r' \<in> set (exam_sessions ?db)" "es_exam_id r' = ei_id x'"
    show "es_status r' \<noteq> ''02''" "es_status r' \<noteq> ''04''"
      using sess [OF r(1)] exam [OF x(1)] x(2) r inv by (auto simp: life_inv_def)
  qed
qed

lemma exam_db_wf_end_examinees: "exam_db_wf (end_examinees sid now db) = exam_db_wf db"
  by (rule exam_db_wf_cong) (simp_all add: end_examinees_def map_sql_update)

lemma life_inv_end_examinees: "life_inv (end_examinees sid now db) = life_inv db"
  unfolding life_inv_def exam_db_wf_end_examinees by (simp add: end_examinees_def)

lemma life_step_inv:
  assumes step: "life_step db db'" and inv: "life_inv db"
  shows "life_inv db'"
proof -
  have wf: "exam_db_wf db" using inv by (simp add: life_inv_def)
  have wf': "exam_db_wf db'" using wf life_step_wf [OF step] by simp
  show ?thesis using step
  proof (cases rule: life_step_cases)
    case same
    with inv show ?thesis by simp
  next
    case (abnormal now now' s)
    with inv wf' show ?thesis
      by (auto simp: life_inv_def abnormal_db_def set_sql_update split: if_splits)
  next
    case (started now now' s)
    with inv wf' show ?thesis using life_inv_started [OF inv started(1)] by simp
  next
    case (waiting now sid)
    with inv show ?thesis by (simp add: life_inv_end_examinees)
  next
    case (closed now sid s)
    with inv wf' show ?thesis by (simp add: life_inv_closed life_inv_end_examinees)
  qed
qed

lemma life_run_inv: "life_step\<^sup>*\<^sup>* db db' \<Longrightarrow> life_inv db \<Longrightarrow> life_inv db'"
  by (induction rule: rtranclp_induct) (auto intro: life_step_inv)

section \<open>Properties\<close>

text \<open>A database to evaluate the properties on: exam 1 with session 7 and two examinees.\<close>

definition demo_session :: "string \<Rightarrow> exam_session" where
  "demo_session st =
    \<lparr>es_id = 7, es_exam_id = 1, es_status = st, es_start_time = 1000, es_end_time = 5000,
     es_mark_method = ''00'', es_period_mode = ''00'', es_duration = None,
     es_late_entry_time = None, es_early_submission_time = None, es_update_time = None,
     es_actual_end_time = None, es_reviewer_ids = [], es_mark_mode = None\<rparr>"

definition demo_exam :: "string \<Rightarrow> exam_info" where
  "demo_exam st = \<lparr>ei_id = 1, ei_status = st, ei_create_time = 0, ei_update_time = None, ei_files = [],
     ei_domain_id = None, ei_mode = ''00''\<rparr>"

definition demo_examinee :: "int \<Rightarrow> string \<Rightarrow> int option \<Rightarrow> int option \<Rightarrow> examinee" where
  "demo_examinee i st b e =
    \<lparr>ex_id = i, ex_student_id = 21, ex_session_id = 7, ex_paper_id = 31, ex_status = st,
     ex_start_time = b, ex_end_time = e, ex_extra_time = None, ex_update_time = None,
     ex_updated_by = None, ex_exit_cnt = 0\<rparr>"

definition demo_db :: "string \<Rightarrow> string \<Rightarrow> examinee list \<Rightarrow> exam_db" where
  "demo_db xst sst es = \<lparr>exam_infos = [demo_exam xst], exam_sessions = [demo_session sst],
     examinees = es, exam_paper_ids = [31], user_ids = [21]\<rparr>"

definition demo_event :: "string \<Rightarrow> exam_event" where
  "demo_event ty = \<lparr>ev_type = ty, ev_exam_id = 1, ev_session_id = 7\<rparr>"

lemmas demo_defs = demo_session_def demo_exam_def demo_examinee_def demo_db_def demo_event_def
lemmas handler_defs = handleExamSessionStart_def handleExamSessionEnd_def in_tx_def
  start_body_def start_normal_def start_abnormal_def end_body_def end_close_def
lemmas lookup_defs = session_by_id_def exam_by_id_def sql_first_def sql_update_def sql_count_def
  live_session_def examinee_count_def start_session_where_def abnormal_where_def
  end_session_where_def end_exam_where_def end_examinees_def examinee_to_update_def
  finish_examinee_def examinee_view_def actual_end_time_def unfinished_count_def end_session_def

lemma demo_event_simps [simp]:
  "ev_type (demo_event ty) = ty" "ev_session_id (demo_event ty) = 7"
  by (simp_all add: demo_event_def)

lemma demo_start:
  "handleExamSessionStart (\<lambda>_. False) 1000 1000 (demo_event EVENT_TYPE_EXAM_SESSION_START)
      (demo_db ''02'' ''02'' [demo_examinee 11 ''00'' None None]) tm =
    (Inr (), demo_db ''04'' ''04'' [demo_examinee 11 ''00'' None None]
       \<lparr>exam_infos := [(demo_exam ''04'')\<lparr>ei_update_time := Some 1000\<rparr>],
        exam_sessions := [(demo_session ''04'')\<lparr>es_update_time := Some 1000\<rparr>]\<rparr>, tm)"
  by (simp add: handler_defs lookup_defs demo_defs Let_def)

text \<open>
  Statuses of sessions: over any sequence of timer events, processed with any
  failures in between, every session keeps its place and id, and its status moves only
  along the edges waiting \<open>\<rightarrow>\<close> running \<open>\<rightarrow>\<close> ended or marking (or straight from waiting to
  ended or marking).
\<close>
lemma session_status_run:
  assumes "life_step\<^sup>*\<^sup>* db db'" and "i < length (exam_sessions db)"
  shows "es_id (exam_sessions db' ! i) = es_id (exam_sessions db ! i) \<and>
    session_edge\<^sup>*\<^sup>* (es_status (exam_sessions db ! i)) (es_status (exam_sessions db' ! i))"
  using session_table.run_key [OF assms] session_table.run_status [OF assms] by simp_all

lemma demo_start_step:
  "life_step (demo_db ''02'' ''02'' [demo_examinee 11 ''00'' None None])
    (demo_db ''04'' ''04'' [demo_examinee 11 ''00'' None None]
       \<lparr>exam_infos := [(demo_exam ''04'')\<lparr>ei_update_time := Some 1000\<rparr>],
        exam_sessions := [(demo_session ''04'')\<lparr>es_update_time := Some 1000\<rparr>]\<rparr>)"
  using life_step.event [of "demo_db ''02'' ''02'' [demo_examinee 11 ''00'' None None]"
      "\<lambda>_. False" 1000 1000 "demo_event EVENT_TYPE_EXAM_SESSION_START" NewExamTimerManager]
  by (simp add: processEvent_def demo_start)

lemma session_status_run_witness: "session_edge\<^sup>*\<^sup>* ''02'' ''04''"
  using session_status_run [OF r_into_rtranclp [of life_step, OF demo_start_step], of 0]
  by (simp add: demo_defs)

text \<open>
  (C5) Sessions and exams agree: over any sequence of events a running session never
  belongs to an exam that still waits, an ended exam never has a session that waits or
  runs, and primary and foreign keys stay intact.
\<close>
theorem life_invariant:
  assumes "life_step\<^sup>*\<^sup>* db db'" and "life_inv db"
  shows "life_inv db'"
  using assms by (rule life_run_inv)

theorem life_invariant_witness:
  "life_inv (demo_db ''02'' ''02'' [demo_examinee 11 ''00'' None None]) \<and>
   life_inv (demo_db ''04'' ''04'' [demo_examinee 11 ''00'' None None]
       \<lparr>exam_infos := [(demo_exam ''04'')\<lparr>ei_update_time := Some 1000\<rparr>],
        exam_sessions := [(demo_session ''04'')\<lparr>es_update_time := Some 1000\<rparr>]\<rparr>)"
proof -
  have inv: "life_inv (demo_db ''02'' ''02'' [demo_examinee 11 ''00'' None None])"
    by (simp add: life_inv_def exam_db_wf_def demo_defs)
  with life_invariant [OF r_into_rtranclp [of life_step, OF demo_start_step] inv]
  show ?thesis by simp
qed

text \<open>What the end handler does to a session when no statement fails.\<close>

lemma handleEnd_run:
  assumes s: "session_by_id db (ev_session_id ev) = Some s"
  shows "handleExamSessionEnd (\<lambda>_. False) now now' ev db tm =
    (let db1 = end_examinees (es_id s) now db in
     if unfinished_count db1 (es_id s) > 0
     then (Inr (), db1, SetExamSessionTimer now' (es_id s) (now + 60000)
        \<lparr>ev_type = EVENT_TYPE_EXAM_SESSION_END, ev_exam_id = es_exam_id s, ev_session_id = es_id s\<rparr> tm)
     else (Inr (), closed_db db1 now (es_exam_id s) (es_id s), tm))"
proof -
  have id: "ev_session_id ev = es_id s" using session_by_idD [OF s] by simp
  have "session_by_id (end_examinees (es_id s) now db) (es_id s) = Some s"
    using s by (simp add: session_by_id_def end_examinees_def id)
  then show ?thesis
    by (simp add: handleExamSessionEnd_def in_tx_def end_body_def end_close_def closed_db_def
        Let_def id)
qed

lemma set_timer_registers:
  "now < trig \<Longrightarrow>
    \<exists>i. timers (SetExamSessionTimer now sid trig ev tm) (timer_key (ev_type ev) sid) = Some i \<and>
        armed (SetExamSessionTimer now sid trig ev tm) i =
          Some \<lparr>tm_deadline = trig, tm_key = timer_key (ev_type ev) sid, tm_event = ev\<rparr>"
  by (simp add: SetExamSessionTimer_def Let_def)

lemma sql_first_update:
  assumes "\<And>r. q (f r) = q r"
  shows "sql_first q (sql_update p f rows) = map_option (\<lambda>r. if p r then f r else r) (sql_first q rows)"
  unfolding sql_first_def by (induction rows) (auto simp: sql_simps assms)

lemma closed_session:
  assumes "session_by_id db sid = Some s"
  shows "session_by_id (closed_db db now examID sid) sid =
    Some (if end_session_where sid now s then end_session now s else s)"
  using assms by (simp add: session_by_id_def closed_db_def Let_def sql_first_update)

text \<open>
  (C6) No session is forgotten: when its end event is processed after its end without a
  failing statement, a session that waits or runs is either ended now (handed to marking
  when it is marked automatically), or the manager holds an armed timer that brings the
  event back in one minute.
\<close>
theorem end_event_progress:
  assumes s: "session_by_id db (ev_session_id ev) = Some s"
    and open_s: "es_status s \<in> {''02'', ''04''}" and over: "es_end_time s \<le> now"
    and clock: "now' < now + 60000"
    and run: "handleExamSessionEnd (\<lambda>_. False) now now' ev db tm = (r, db', tm')"
  shows "r = Inr () \<and>
    ((\<exists>s'. session_by_id db' (es_id s) = Some s' \<and>
        es_status s' = (if es_mark_method s = ''02'' then ''08'' else ''06'') \<and>
        es_actual_end_time s' = Some now) \<or>
     (\<exists>i t. timers tm' (timer_key EVENT_TYPE_EXAM_SESSION_END (es_id s)) = Some i \<and>
        armed tm' i = Some t \<and> tm_deadline t = now + 60000 \<and> ev_session_id (tm_event t) = es_id s))"
proof (cases "unfinished_count (end_examinees (es_id s) now db) (es_id s) > 0")
  case True
  let ?ev = "\<lparr>ev_type = EVENT_TYPE_EXAM_SESSION_END, ev_exam_id = es_exam_id s,
    ev_session_id = es_id s\<rparr>"
  have "r = Inr ()" and tm': "tm' = SetExamSessionTimer now' (es_id s) (now + 60000) ?ev tm"
    using run True by (simp_all add: handleEnd_run [OF s] Let_def)
  moreover obtain i where "timers tm' (timer_key EVENT_TYPE_EXAM_SESSION_END (es_id s)) = Some i"
    and "armed tm' i = Some \<lparr>tm_deadline = now + 60000,
      tm_key = timer_key EVENT_TYPE_EXAM_SESSION_END (es_id s), tm_event = ?ev\<rparr>"
    using set_timer_registers [OF clock, of "es_id s" ?ev tm] unfolding tm' by auto
  ultimately show ?thesis by fastforce
next
  case False
  have "session_by_id (end_examinees (es_id s) now db) (es_id s) = Some s"
    using s session_by_idD [OF s] by (simp add: session_by_id_def end_examinees_def)
  from closed_session [OF this] have "session_by_id db' (es_id s) = Some (end_session now s)"
    using run False open_s over
    by (auto simp: handleEnd_run [OF s] Let_def end_session_where_def)
  then show ?thesis using run False
    by (auto simp: handleEnd_run [OF s] Let_def end_session_def)
qed

theorem end_event_progress_witness:
  "\<exists>s'. session_by_id (fst (snd (handleExamSessionEnd (\<lambda>_. False) 5000 5000
      (demo_event EVENT_TYPE_EXAM_SESSION_END)
      (demo_db ''04'' ''04'' [demo_examinee 11 ''00'' (Some 1200) None]) NewExamTimerManager))) 7 =
        Some s' \<and> es_status s' = ''06''"
proof -
  let ?h = "handleExamSessionEnd (\<lambda>_. False) 5000 5000 (demo_event EVENT_TYPE_EXAM_SESSION_END)
      (demo_db ''04'' ''04'' [demo_examinee 11 ''00'' (Some 1200) None]) NewExamTimerManager"
  have s: "session_by_id (demo_db ''04'' ''04'' [demo_examinee 11 ''00'' (Some 1200) None])
      (ev_session_id (demo_event EVENT_TYPE_EXAM_SESSION_END)) = Some (demo_session ''04'')"
    by (simp add: session_by_id_def sql_first_def demo_defs)
  have tm: "snd (snd ?h) = NewExamTimerManager"
    by (simp add: handler_defs lookup_defs demo_defs Let_def)
  have run: "?h = (fst ?h, fst (snd ?h), snd (snd ?h))" by simp
  show ?thesis
    using end_event_progress [OF s _ _ _ run] unfolding tm
    by (auto simp: demo_session_def NewExamTimerManager_def)
qed

text \<open>When everybody's time is over and nobody is in a status the update leaves alone.\<close>

lemma finish_all:
  assumes wf: "exam_db_wf db" and s: "session_by_id db sid = Some s"
    and x: "exam_by_id db (es_exam_id s) = Some x" and xst: "ei_status x \<in> {''02'', ''04'', ''06''}"
    and all: "\<And>e. e \<in> set (examinees db) \<Longrightarrow> ex_session_id e = sid \<Longrightarrow>
      ex_status e \<in> {''02'', ''06'', ''08'', ''10'', ''12'', ''14''} \<or>
      (ex_status e \<in> {''00'', ''16''} \<and> (\<exists>t \<le> now. actual_end_time s e = Some t))"
  shows "unfinished_count (end_examinees sid now db) sid = 0"
proof -
  have view: "examinee_view db e = Some (s, x)" if "e \<in> set (examinees db)" "ex_session_id e = sid" for e
    using examinee_view_total [OF wf that(1)] s x that(2) by auto
  show ?thesis
    unfolding unfinished_count_def sql_count_0_iff end_examinees_def
  proof (intro ballI notI)
    fix e' assume e': "e' \<in> set (examinees (db\<lparr>examinees := sql_update (examinee_to_update db sid now)
        (finish_examinee db now) (examinees db)\<rparr>))"
      and open_e: "ex_status e' \<notin> {''02'', ''06'', ''08'', ''10'', ''12'', ''14''} \<and>
        ex_session_id e' = sid"
    from e' have "e' \<in> set (sql_update (examinee_to_update db sid now)
        (finish_examinee db now) (examinees db))" by simp
    then show False
    proof (cases rule: sql_updateE)
      case (hit r)
      with open_e show ?thesis by (simp split: if_splits)
    next
      case kept
      with all [of e'] view [of e'] open_e xst show ?thesis
        by (auto simp: examinee_to_update_def)
    qed
  qed
qed

text \<open>Whether the statement for the exams hits the exam of the session just closed.\<close>

lemma end_exam_where_closed:
  assumes wf: "exam_db_wf db" and s: "session_by_id db sid = Some s" and over: "es_end_time s \<le> now"
  shows "end_exam_where (db\<lparr>exam_sessions :=
      sql_update (end_session_where sid now) (end_session now) (exam_sessions db)\<rparr>) (ei_id x) x \<longleftrightarrow>
    ei_status x \<in> {''02'', ''04''} \<and>
    (\<forall>s' \<in> set (exam_sessions db). es_exam_id s' = ei_id x \<and> es_id s' \<noteq> sid \<longrightarrow>
       es_status s' \<notin> {''02'', ''04''})"
proof -
  let ?w = "end_session_where sid now"
  have own: "s' = s" if "s' \<in> set (exam_sessions db)" "es_id s' = sid" for s'
    using session_by_id_mem [OF wf that(1)] that(2) s by simp
  have "(\<exists>s' \<in> set (sql_update ?w (end_session now) (exam_sessions db)).
        es_exam_id s' = ei_id x \<and> es_status s' \<in> {''02'', ''04''}) \<longleftrightarrow>
      (\<exists>s' \<in> set (exam_sessions db). es_exam_id s' = ei_id x \<and> es_id s' \<noteq> sid \<and>
        es_status s' \<in> {''02'', ''04''})" (is "?l \<longleftrightarrow> ?r")
  proof
    assume ?l
    then obtain s' where s': "s' \<in> set (sql_update ?w (end_session now) (exam_sessions db))"
      and x: "es_exam_id s' = ei_id x" "es_status s' \<in> {''02'', ''04''}" by blast
    from s' show ?r
    proof (cases rule: sql_updateE)
      case (hit q)
      with x(2) show ?thesis by (simp add: end_session_def split: if_splits)
    next
      case kept
      with x over own [OF kept(1)] show ?thesis by (auto simp: end_session_where_def)
    qed
  next
    assume ?r
    then obtain s' where s': "s' \<in> set (exam_sessions db)" "es_id s' \<noteq> sid"
      and x: "es_exam_id s' = ei_id x" "es_status s' \<in> {''02'', ''04''}" by blast
    have "s' \<in> set (sql_update ?w (end_session now) (exam_sessions db))"
      using s' unfolding set_sql_update by (auto simp: end_session_where_def image_iff)
    with x show ?l by blast
  qed
  then show ?thesis by (auto simp: end_exam_where_def list_ex_iff)
qed

text \<open>
  (C7) A session closes once everybody's time is over: if every examinee of the session is
  either in a final status or normal (or let in) with an end time that has passed, and the
  exam waits, runs or has ended, the end event closes the session, whatever the exam's
  other sessions do; a waiting or running exam ends with it exactly when none of its other
  sessions waits or runs, and is left as it is otherwise.
\<close>
theorem end_event_closes:
  assumes wf: "exam_db_wf db" and s: "session_by_id db (ev_session_id ev) = Some s"
    and open_s: "es_status s \<in> {''02'', ''04''}" and over: "es_end_time s \<le> now"
    and x: "exam_by_id db (es_exam_id s) = Some x" and xst: "ei_status x \<in> {''02'', ''04'', ''06''}"
    and all: "\<And>e. e \<in> set (examinees db) \<Longrightarrow> ex_session_id e = es_id s \<Longrightarrow>
      ex_status e \<in> {''02'', ''06'', ''08'', ''10'', ''12'', ''14''} \<or>
      (ex_status e \<in> {''00'', ''16''} \<and> (\<exists>t \<le> now. actual_end_time s e = Some t))"
    and run: "handleExamSessionEnd (\<lambda>_. False) now now' ev db tm = (r, db', tm')"
  shows "r = Inr () \<and> session_by_id db' (es_id s) = Some (end_session now s) \<and>
    exam_by_id db' (es_exam_id s) = Some
      (if ei_status x \<in> {''02'', ''04''} \<and>
          (\<forall>s' \<in> set (exam_sessions db). es_exam_id s' = es_exam_id s \<and> es_id s' \<noteq> es_id s \<longrightarrow>
             es_status s' \<notin> {''02'', ''04''})
       then x\<lparr>ei_status := ''06'', ei_update_time := Some now\<rparr> else x)"
proof -
  have id: "es_id s = ev_session_id ev" using session_by_idD [OF s] by simp
  let ?d = "end_examinees (es_id s) now db"
  have "unfinished_count ?d (es_id s) = 0"
    by (rule finish_all [OF wf _ x _ all]) (use s xst id in auto)
  then have r: "r = Inr ()" and db': "db' = closed_db ?d now (es_exam_id s) (es_id s)"
    using run by (simp_all add: handleEnd_run [OF s] Let_def)
  have sd: "session_by_id ?d (es_id s) = Some s"
    using s id by (simp add: session_by_id_def end_examinees_def)
  have closed: "session_by_id db' (es_id s) = Some (end_session now s)"
    unfolding db' using closed_session [OF sd] open_s over by (simp add: end_session_where_def)
  have xx: "ei_id x = es_exam_id s" using exam_by_idD [OF x] by simp
  have wfd: "exam_db_wf ?d" using wf by (simp add: exam_db_wf_end_examinees)
  have "exam_by_id ?d (es_exam_id s) = Some x" using x by (simp add: exam_by_id_def end_examinees_def)
  then have "exam_by_id db' (es_exam_id s) = Some
      (if end_exam_where (?d\<lparr>exam_sessions := sql_update (end_session_where (es_id s) now)
            (end_session now) (exam_sessions ?d)\<rparr>) (ei_id x) x
       then x\<lparr>ei_status := ''06'', ei_update_time := Some now\<rparr> else x)"
    unfolding db' closed_db_def exam_by_id_def by (simp add: Let_def sql_first_update xx)
  with r closed show ?thesis
    unfolding end_exam_where_closed [OF wfd sd over] by (simp add: end_examinees_def xx)
qed

theorem end_event_closes_witness:
  "\<exists>x'. exam_by_id (fst (snd (handleExamSessionEnd (\<lambda>_. False) 5000 5000
      (demo_event EVENT_TYPE_EXAM_SESSION_END)
      (demo_db ''04'' ''04'' [demo_examinee 11 ''00'' None None, demo_examinee 12 ''06'' None None])
      NewExamTimerManager))) 1 = Some x' \<and> ei_status x' = ''06''"
proof -
  let ?db = "demo_db ''04'' ''04'' [demo_examinee 11 ''00'' None None, demo_examinee 12 ''06'' None None]"
  let ?h = "handleExamSessionEnd (\<lambda>_. False) 5000 5000 (demo_event EVENT_TYPE_EXAM_SESSION_END)
      ?db NewExamTimerManager"
  have wf: "exam_db_wf ?db" by (simp add: exam_db_wf_def demo_defs)
  have s: "session_by_id ?db (ev_session_id (demo_event EVENT_TYPE_EXAM_SESSION_END)) =
      Some (demo_session ''04'')"
    by (simp add: session_by_id_def sql_first_def demo_defs)
  have x: "exam_by_id ?db (es_exam_id (demo_session ''04'')) = Some (demo_exam ''04'')"
    by (simp add: exam_by_id_def sql_first_def demo_defs)
  have run: "?h = (fst ?h, fst (snd ?h), snd (snd ?h))" by simp
  have all: "e \<in> set (examinees ?db) \<Longrightarrow> ex_session_id e = es_id (demo_session ''04'') \<Longrightarrow>
      ex_status e \<in> {''02'', ''06'', ''08'', ''10'', ''12'', ''14''} \<or>
      (ex_status e \<in> {''00'', ''16''} \<and> (\<exists>t \<le> 5000. actual_end_time (demo_session ''04'') e = Some t))" for e
    by (auto simp: demo_defs actual_end_time_def)
  show ?thesis
    using end_event_closes [OF wf s _ _ x _ all run]
    by (simp add: demo_exam_def demo_session_def demo_db_def)
qed

text \<open>
  An examinee who has handed in is not left alone: the end event overwrites the time
  at which the examinee handed in with the end of the allowed time, although the comment
  of the statement says that only normal and let-in examinees are updated.
\<close>
lemma end_event_overwrites_hand_in_time:
  assumes wf: "exam_db_wf db" and s: "session_by_id db (ev_session_id ev) = Some s"
    and x: "exam_by_id db (es_exam_id s) = Some x" and xst: "ei_status x \<in> {''02'', ''04'', ''06''}"
    and i: "i < length (examinees db)" and sid: "ex_session_id (examinees db ! i) = es_id s"
    and st: "ex_status (examinees db ! i) = ''10''"
    and began: "ex_start_time (examinees db ! i) \<noteq> None"
    and over: "actual_end_time s (examinees db ! i) = Some t" "t \<le> now"
    and run: "handleExamSessionEnd (\<lambda>_. False) now now' ev db tm = (r, db', tm')"
  shows "ex_status (examinees db' ! i) = ''10'' \<and> ex_end_time (examinees db' ! i) = Some t"
proof -
  let ?e = "examinees db ! i"
  have "examinee_view db ?e = Some (s, x)"
    using examinee_view_total [OF wf nth_mem [OF i]] s x sid session_by_idD [OF s] by auto
  then have "examinee_to_update db (es_id s) now ?e" and
    "ex_end_time (finish_examinee db now ?e) = Some t"
    using sid st over xst began
    by (auto simp: examinee_to_update_def finish_examinee_def Let_def)
  moreover have "examinees db' = examinees (end_examinees (es_id s) now db)"
    using run by (auto simp: handleEnd_run [OF s] Let_def closed_db_def split: if_splits)
  ultimately show ?thesis
    using i began by (simp add: end_examinees_def nth_sql_update)
qed

lemma end_event_overwrites_hand_in_time_witness:
  "ex_end_time (examinees (fst (snd (handleExamSessionEnd (\<lambda>_. False) 5000 5000
      (demo_event EVENT_TYPE_EXAM_SESSION_END)
      (demo_db ''04'' ''04'' [demo_examinee 11 ''10'' (Some 1200) (Some 3000)])
      NewExamTimerManager))) ! 0) = Some 5000"
proof -
  let ?db = "demo_db ''04'' ''04'' [demo_examinee 11 ''10'' (Some 1200) (Some 3000)]"
  let ?h = "handleExamSessionEnd (\<lambda>_. False) 5000 5000 (demo_event EVENT_TYPE_EXAM_SESSION_END)
      ?db NewExamTimerManager"
  have wf: "exam_db_wf ?db" by (simp add: exam_db_wf_def demo_defs)
  have s: "session_by_id ?db (ev_session_id (demo_event EVENT_TYPE_EXAM_SESSION_END)) =
      Some (demo_session ''04'')"
    by (simp add: session_by_id_def sql_first_def demo_defs)
  have x: "exam_by_id ?db (es_exam_id (demo_session ''04'')) = Some (demo_exam ''04'')"
    by (simp add: exam_by_id_def sql_first_def demo_defs)
  have run: "?h = (fst ?h, fst (snd ?h), snd (snd ?h))" by simp
  show ?thesis
    using end_event_overwrites_hand_in_time [OF wf s x _ _ _ _ _ _ _ run, of 0 5000]
    by (simp add: demo_defs actual_end_time_def)
qed

text \<open>
  A session with a resit examinee (status 04) never ends: the update leaves that
  status alone, the count takes it for unfinished, so every end event only puts itself
  off by a minute.
\<close>
lemma resit_blocks_end:
  assumes s: "session_by_id db (ev_session_id ev) = Some s"
    and e: "e \<in> set (examinees db)" "ex_session_id e = es_id s" "ex_status e = ''04''"
    and clock: "now' < now + 60000"
    and run: "handleExamSessionEnd (\<lambda>_. False) now now' ev db tm = (r, db', tm')"
  shows "exam_sessions db' = exam_sessions db \<and> e \<in> set (examinees db') \<and>
    (\<exists>i t. timers tm' (timer_key EVENT_TYPE_EXAM_SESSION_END (es_id s)) = Some i \<and>
       armed tm' i = Some t \<and> tm_deadline t = now + 60000)"
proof -
  let ?d = "end_examinees (es_id s) now db"
  have "\<not> examinee_to_update db (es_id s) now e" using e by (simp add: examinee_to_update_def)
  then have mem: "e \<in> set (examinees ?d)"
    using e(1) by (auto simp: end_examinees_def set_sql_update)
  then have "unfinished_count ?d (es_id s) > 0"
    unfolding unfinished_count_def sql_count_pos_iff using e by (intro bexI [of _ e]) auto
  then have "db' = ?d" and
    tm': "tm' = SetExamSessionTimer now' (es_id s) (now + 60000)
      \<lparr>ev_type = EVENT_TYPE_EXAM_SESSION_END, ev_exam_id = es_exam_id s, ev_session_id = es_id s\<rparr> tm"
    using run by (simp_all add: handleEnd_run [OF s] Let_def)
  with mem show ?thesis
    using set_timer_registers [OF clock, of "es_id s"
      "\<lparr>ev_type = EVENT_TYPE_EXAM_SESSION_END, ev_exam_id = es_exam_id s, ev_session_id = es_id s\<rparr>" tm]
    unfolding tm' by (auto simp: end_examinees_def)
qed

lemma resit_blocks_end_witness:
  "exam_sessions (fst (snd (handleExamSessionEnd (\<lambda>_. False) 900000 900000
      (demo_event EVENT_TYPE_EXAM_SESSION_END)
      (demo_db ''04'' ''04'' [demo_examinee 11 ''04'' (Some 1200) None]) NewExamTimerManager)))
    = [demo_session ''04'']"
proof -
  let ?db = "demo_db ''04'' ''04'' [demo_examinee 11 ''04'' (Some 1200) None]"
  let ?h = "handleExamSessionEnd (\<lambda>_. False) 900000 900000 (demo_event EVENT_TYPE_EXAM_SESSION_END)
      ?db NewExamTimerManager"
  have s: "session_by_id ?db (ev_session_id (demo_event EVENT_TYPE_EXAM_SESSION_END)) =
      Some (demo_session ''04'')"
    by (simp add: session_by_id_def sql_first_def demo_defs)
  have e: "demo_examinee 11 ''04'' (Some 1200) None \<in> set (examinees ?db)" by (simp add: demo_db_def)
  have run: "?h = (fst ?h, fst (snd ?h), snd (snd ?h))" by simp
  show ?thesis
    using resit_blocks_end [OF s e _ _ _ run] by (simp add: demo_defs)
qed

text \<open>Cancelling the timers of an exam.\<close>

lemma cancel_session_timers_inv:
  "tm_inv_atomic tm \<Longrightarrow> tm_inv_atomic (cancel_session_timers s tm)"
  by (simp add: cancel_session_timers_def CancelExamSessionTimer_def tm_inv_atomic_stop_key)

lemma stop_key_mono: "timers tm k = None \<Longrightarrow> timers (stop_key k' tm) k = None"
  by (simp add: stop_key_def split: option.splits)

definition session_keys :: "exam_session \<Rightarrow> string set" where
  "session_keys s = {timer_key EVENT_TYPE_EXAM_SESSION_START (es_id s),
     timer_key EVENT_TYPE_EXAM_SESSION_END (es_id s)}"

lemma cancel_session_timers_none:
  "k \<in> session_keys s \<Longrightarrow> timers (cancel_session_timers s tm) k = None"
  by (auto simp: session_keys_def cancel_session_timers_def CancelExamSessionTimer_def
      stop_key_none stop_key_mono)

lemma cancel_session_timers_mono:
  "timers tm k = None \<Longrightarrow> timers (cancel_session_timers s tm) k = None"
  by (simp add: cancel_session_timers_def CancelExamSessionTimer_def stop_key_mono)

lemma cancel_fold_inv:
  "tm_inv_atomic tm \<Longrightarrow> tm_inv_atomic (fold cancel_session_timers ss tm)"
  by (induction ss arbitrary: tm) (simp_all add: cancel_session_timers_inv)

lemma cancel_fold_mono:
  "timers tm k = None \<Longrightarrow> timers (fold cancel_session_timers ss tm) k = None"
  by (induction ss arbitrary: tm) (simp_all add: cancel_session_timers_mono)

lemma cancel_fold_none:
  "s \<in> set ss \<Longrightarrow> k \<in> session_keys s \<Longrightarrow> timers (fold cancel_session_timers ss tm) k = None"
  by (induction ss arbitrary: tm)
    (auto simp: cancel_session_timers_none cancel_fold_mono)

text \<open>
  Cancelling an exam cancels it: when callbacks are not interrupted, after
  \<open>CancelExamTimers\<close> returns without an error no timer for the start or the end of a live
  session of the exam is armed.
\<close>
lemma cancel_exam_timers_disarms:
  assumes reach: "tm_reachable_atomic tm"
    and run: "CancelExamTimers fault (\<lambda>_. True) db examID tm = (Inr (), tm')"
    and s: "s \<in> set (exam_sessions db)" "es_exam_id s = examID" "live_session s"
    and armed: "armed tm' i = Some t"
  shows "tm_key t \<noteq> timer_key EVENT_TYPE_EXAM_SESSION_START (es_id s) \<and>
    tm_key t \<noteq> timer_key EVENT_TYPE_EXAM_SESSION_END (es_id s)"
proof -
  let ?rows = "filter (\<lambda>s. es_exam_id s = examID \<and> live_session s) (exam_sessions db)"
  have tm': "tm' = fold cancel_session_timers ?rows tm"
    using run by (simp add: CancelExamTimers_def Let_def split: if_splits)
  have inv': "tm_inv_atomic tm'"
    unfolding tm' by (rule cancel_fold_inv) (rule tm_reachable_atomic_inv [OF reach])
  have "timers tm' (tm_key t) = Some i"
    using tm_inv_atomic_registered [OF inv' armed] .
  moreover have "timers tm' k = None" if "k \<in> session_keys s" for k
    unfolding tm' by (rule cancel_fold_none [OF _ that]) (use s in simp)
  ultimately have "tm_key t \<notin> session_keys s" by force
  then show ?thesis by (simp add: session_keys_def)
qed

lemma cancel_exam_timers_disarms_witness:
  "tm_key \<lparr>tm_deadline = 100, tm_key = timer_key ''other'' 7, tm_event = race_event\<rparr> \<noteq>
     timer_key EVENT_TYPE_EXAM_SESSION_END 7"
proof -
  let ?ev = "race_event\<lparr>ev_type := ''other''\<rparr>"
  let ?tm = "SetExamSessionTimer 0 7 100 ?ev NewExamTimerManager"
  let ?db = "demo_db ''04'' ''04'' []"
  have reach: "tm_reachable_atomic ?tm"
    by (rule tm_reachable_atomic.step [OF tm_reachable_atomic.start tm_step_atomic.set_timer]) simp
  have run: "CancelExamTimers (\<lambda>_. False) (\<lambda>_. True) ?db 1 ?tm =
      (Inr (), cancel_session_timers (demo_session ''04'') ?tm)"
    by (simp add: CancelExamTimers_def demo_defs live_session_def)
  have armed: "armed (cancel_session_timers (demo_session ''04'') ?tm) 0 =
      Some \<lparr>tm_deadline = 100, tm_key = timer_key ''other'' 7, tm_event = ?ev\<rparr>"
    by (simp add: cancel_session_timers_def timer_ops race_event_def Let_def timer_key_def
        EVENT_TYPE_EXAM_SESSION_START_def EVENT_TYPE_EXAM_SESSION_END_def demo_defs)
  show ?thesis
    using cancel_exam_timers_disarms [OF reach run _ _ _ armed, of "demo_session ''04''"]
    by (simp add: demo_defs live_session_def)
qed

text \<open>What the start handler does when no statement fails.\<close>

lemma live_first:
  "session_by_id db sid = Some s \<Longrightarrow> live_session s \<Longrightarrow>
    sql_first (\<lambda>s. es_id s = sid \<and> live_session s) (exam_sessions db) = Some s"
  unfolding session_by_id_def sql_first_def
  by (induction "exam_sessions db" arbitrary: db rule: list.induct)
    (auto simp: find_Some_iff)

definition nobody_takes_part :: "exam_db \<Rightarrow> exam_session \<Rightarrow> bool" where
  "nobody_takes_part db s \<longleftrightarrow>
     (\<forall>e \<in> set (examinees db). ex_session_id e = es_id s \<longrightarrow> ex_status e = ''08'')"

lemma nobody_takes_part_count: "nobody_takes_part db s \<longleftrightarrow> examinee_count db (es_id s) = 0"
  unfolding nobody_takes_part_def examinee_count_def sql_count_0_iff by auto

lemma abnormal_where_iff:
  assumes wf: "exam_db_wf db" and s: "session_by_id db sid = Some s"
  shows "abnormal_where db examID sid now' x \<longleftrightarrow>
    ei_id x = examID \<and> ei_status x = ''02'' \<and> es_start_time s \<le> now'"
proof -
  have "s' = s" if "s' \<in> set (exam_sessions db)" "es_id s' = sid" for s'
    using session_by_id_mem [OF wf that(1)] that(2) s by simp
  then have "list_ex (\<lambda>s. es_id s = sid \<and> es_start_time s \<le> now') (exam_sessions db) \<longleftrightarrow>
      es_start_time s \<le> now'"
    using session_by_idD [OF s] by (auto simp: list_ex_iff)
  then show ?thesis by (auto simp: abnormal_where_def)
qed

lemma handleStart_run:
  assumes wf: "exam_db_wf db" and s: "session_by_id db (ev_session_id ev) = Some s"
    and live: "live_session s"
  shows "handleExamSessionStart (\<lambda>_. False) now now' ev db tm =
    in_tx (\<lambda>_. False) db
      (if nobody_takes_part db s
       then start_abnormal (\<lambda>_. False) now now' (es_exam_id s) (es_id s) db tm
       else start_normal (\<lambda>_. False) now now' (es_exam_id s) (es_id s) db tm)"
  using live_first [OF s live]
  by (simp add: handleExamSessionStart_def start_body_def nobody_takes_part_count)

lemma cancel_exam_timers_run:
  "CancelExamTimers (\<lambda>_. False) (\<lambda>_. True) db examID tm =
    (Inr (), fold cancel_session_timers
       (filter (\<lambda>s. es_exam_id s = examID \<and> live_session s) (exam_sessions db)) tm)"
  by (simp add: CancelExamTimers_def)

lemma start_abnormal_run:
  assumes wf: "exam_db_wf db" and s: "session_by_id db sid = Some s"
    and x: "exam_by_id db examID = Some x"
  shows "start_abnormal (\<lambda>_. False) now now' examID sid db tm =
    (if ei_status x = ''02'' \<and> es_start_time s \<le> now'
     then (Inr (), db\<lparr>exam_infos := sql_update (\<lambda>y. ei_id y = examID)
             (\<lambda>y. y\<lparr>ei_status := ''10'', ei_update_time := Some now\<rparr>) (exam_infos db)\<rparr>,
           fold cancel_session_timers
             (filter (\<lambda>s. es_exam_id s = examID \<and> live_session s) (exam_sessions db)) tm)
     else (Inl (No_rows_affected ''updateAbnormalExam''),
           db\<lparr>exam_infos := sql_update (\<lambda>_. False)
             (\<lambda>y. y\<lparr>ei_status := ''10'', ei_update_time := Some now\<rparr>) (exam_infos db)\<rparr>, tm))"
proof -
  let ?w = "abnormal_where db examID sid now'"
  let ?due = "ei_status x = ''02'' \<and> es_start_time s \<le> now'"
  have own: "y = x" if "y \<in> set (exam_infos db)" "ei_id y = examID" for y
    using exam_by_id_mem [OF wf that(1)] that(2) x by simp
  have w: "?w y \<longleftrightarrow> (if ?due then ei_id y = examID else False)" if "y \<in> set (exam_infos db)" for y
    using own [OF that] by (auto simp: abnormal_where_iff [OF wf s])
  have upd: "sql_update ?w f (exam_infos db) =
      sql_update (\<lambda>y. if ?due then ei_id y = examID else False) f (exam_infos db)" for f
    unfolding sql_update_def using w by (intro map_cong) auto
  have cnt: "sql_count ?w (exam_infos db) = 0 \<longleftrightarrow> \<not> ?due"
    unfolding sql_count_0_iff using w exam_by_idD [OF x] by auto
  show ?thesis
    by (cases ?due) (use upd cnt in \<open>simp_all add: start_abnormal_def Let_def cancel_exam_timers_run\<close>)
qed

text \<open>
  (C39) A start event does its work exactly when it is due. Nobody takes part in a session
  when all its examinees are deleted. Then the event is due when the exam waits and the
  session's start has come: the exam becomes abnormal, no session or examinee changes, and
  the manager's map keeps no start or end timer of a live session of the exam. Otherwise
  it is due when the session waits and its start has come: the session runs, and the exam
  with it when it waited. An event that is not due is answered with an error and changes
  neither the database nor the timers.
\<close>
theorem start_event_outcome:
  assumes wf: "exam_db_wf db" and s: "session_by_id db (ev_session_id ev) = Some s"
    and live: "live_session s" and x: "exam_by_id db (es_exam_id s) = Some x"
    and run: "handleExamSessionStart (\<lambda>_. False) now now' ev db tm = (r, db', tm')"
  shows "if \<not> (es_start_time s \<le> now' \<and>
        (if nobody_takes_part db s then ei_status x = ''02'' else es_status s = ''02''))
    then r \<noteq> Inr () \<and> db' = db \<and> tm' = tm
    else r = Inr () \<and> examinees db' = examinees db \<and>
      (if nobody_takes_part db s
       then exam_by_id db' (es_exam_id s) = Some (x\<lparr>ei_status := ''10'', ei_update_time := Some now\<rparr>) \<and>
         exam_sessions db' = exam_sessions db \<and>
         (\<forall>s' \<in> set (exam_sessions db). es_exam_id s' = es_exam_id s \<and> live_session s' \<longrightarrow>
            timers tm' (timer_key EVENT_TYPE_EXAM_SESSION_START (es_id s')) = None \<and>
            timers tm' (timer_key EVENT_TYPE_EXAM_SESSION_END (es_id s')) = None)
       else session_by_id db' (es_id s) = Some (s\<lparr>es_status := ''04'', es_update_time := Some now\<rparr>) \<and>
         exam_by_id db' (es_exam_id s) = Some (if ei_status x = ''02''
           then x\<lparr>ei_status := ''04'', ei_update_time := Some now\<rparr> else x) \<and> tm' = tm)"
proof (cases "nobody_takes_part db s")
  case True
  have s': "session_by_id db (es_id s) = Some s" using s session_by_idD [OF s] by simp
  have ix: "ei_id x = es_exam_id s" using exam_by_idD [OF x] by simp
  note run' = run [unfolded handleStart_run [OF wf s live] if_P [OF True]
      start_abnormal_run [OF wf s' x]]
  show ?thesis
  proof (cases "ei_status x = ''02'' \<and> es_start_time s \<le> now'")
    case due: True
    have keys: "timers tm' k = None"
      if "s' \<in> set (exam_sessions db)" "es_exam_id s' = es_exam_id s" "live_session s'"
        "k \<in> session_keys s'" for s' k
      using run' due cancel_fold_none [of s', OF _ that(4)] that(1-3) by (auto simp: in_tx_def)
    have "exam_by_id db' (es_exam_id s) = Some (x\<lparr>ei_status := ''10'', ei_update_time := Some now\<rparr>)"
      using run' due x ix by (auto simp: in_tx_def exam_by_id_def sql_first_update)
    then show ?thesis
      using run' due True keys by (auto simp: in_tx_def session_keys_def)
  next
    case False
    then show ?thesis using run' True by (auto simp: in_tx_def)
  qed
next
  case False
  have ids: "es_id s = ev_session_id ev" "ei_id x = es_exam_id s"
    using session_by_idD [OF s] exam_by_idD [OF x] by simp_all
  let ?w = "start_session_where (es_id s) now'"
  have cnt: "sql_count ?w (exam_sessions db) = 0 \<longleftrightarrow> \<not> (es_status s = ''02'' \<and> es_start_time s \<le> now')"
  proof -
    have "s' = s" if "s' \<in> set (exam_sessions db)" "es_id s' = es_id s" for s'
      using session_by_id_mem [OF wf that(1)] that(2) s ids by simp
    then show ?thesis
      unfolding sql_count_0_iff using session_by_idD [OF s] by (auto simp: start_session_where_def)
  qed
  note run' = run [unfolded handleStart_run [OF wf s live] if_not_P [OF False] start_normal_def Let_def cnt]
  show ?thesis
  proof (cases "es_status s = ''02'' \<and> es_start_time s \<le> now'")
    case True
    have "session_by_id db' (es_id s) = Some (s\<lparr>es_status := ''04'', es_update_time := Some now\<rparr>)"
      using run' True s ids
      by (auto simp: in_tx_def session_by_id_def sql_first_update start_session_where_def)
    moreover have "exam_by_id db' (es_exam_id s) = Some (if ei_status x = ''02''
        then x\<lparr>ei_status := ''04'', ei_update_time := Some now\<rparr> else x)"
      using run' True x ids by (auto simp: in_tx_def exam_by_id_def sql_first_update)
    ultimately show ?thesis using run' True False by (auto simp: in_tx_def)
  next
    case late: False
    then show ?thesis using run' False by (auto simp: in_tx_def)
  qed
qed

theorem start_event_outcome_witness:
  "(\<exists>x'. exam_by_id (fst (snd (handleExamSessionStart (\<lambda>_. False) 1000 1000
      (demo_event EVENT_TYPE_EXAM_SESSION_START) (demo_db ''02'' ''02'' []) NewExamTimerManager))) 1 =
        Some x' \<and> ei_status x' = ''10'') \<and>
   (\<exists>s'. session_by_id (fst (snd (handleExamSessionStart (\<lambda>_. False) 1000 1000
      (demo_event EVENT_TYPE_EXAM_SESSION_START)
      (demo_db ''02'' ''02'' [demo_examinee 11 ''00'' None None]) NewExamTimerManager))) 7 =
        Some s' \<and> es_status s' = ''04'')"
proof -
  let ?ev = "demo_event EVENT_TYPE_EXAM_SESSION_START"
  let ?h = "\<lambda>es. handleExamSessionStart (\<lambda>_. False) 1000 1000 ?ev (demo_db ''02'' ''02'' es)
      NewExamTimerManager"
  have wf: "exam_db_wf (demo_db ''02'' ''02'' es)" if "es \<in> {[], [demo_examinee 11 ''00'' None None]}" for es
    using that by (auto simp: exam_db_wf_def demo_defs)
  have s: "session_by_id (demo_db ''02'' ''02'' es) (ev_session_id ?ev) = Some (demo_session ''02'')" for es
    by (simp add: session_by_id_def sql_first_def demo_defs)
  have live: "live_session (demo_session ''02'')" by (simp add: live_session_def demo_session_def)
  have x: "exam_by_id (demo_db ''02'' ''02'' es) (es_exam_id (demo_session ''02'')) = Some (demo_exam ''02'')" for es
    by (simp add: exam_by_id_def sql_first_def demo_defs)
  have run: "?h es = (fst (?h es), fst (snd (?h es)), snd (snd (?h es)))" for es by simp
  have none: "nobody_takes_part (demo_db ''02'' ''02'' []) (demo_session ''02'')"
    and one: "\<not> nobody_takes_part (demo_db ''02'' ''02'' [demo_examinee 11 ''00'' None None])
      (demo_session ''02'')"
    by (simp_all add: nobody_takes_part_def demo_defs)
  show ?thesis
    using start_event_outcome [OF wf [of "[]"] s live x run] none
      start_event_outcome [OF wf [of "[demo_examinee 11 ''00'' None None]"] s live x run] one
    by (simp add: demo_session_def demo_exam_def)
qed

end
