(* ===== verification/Redis_Lock.thy ===== *)
theory Redis_Lock
  imports Go_Strings
begin

text \<open>
  The distributed edit lock of \<open>cmn/redis-lock.go\<close>: three Lua scripts run atomically by
  Redis, and the Go functions around them.

  Redis is a service outside the repository. The commands the scripts call are a
  parameter of the model (a record of functions on an abstract store), and what the
  scripts rely on, the documented effect of \<open>GET\<close>, \<open>SET\<close>, \<open>EXPIRE\<close>, \<open>DEL\<close> and of the
  passing of time, is the predicate \<open>redis_laws\<close>, stated through what the store answers
  to \<open>GET\<close> and \<open>PTTL\<close>.
\<close>

record 's redis =
  r_get :: "string \<Rightarrow> 's \<Rightarrow> string option"
  r_pttl :: "string \<Rightarrow> 's \<Rightarrow> int option"
  r_set :: "string \<Rightarrow> string \<Rightarrow> 's \<Rightarrow> 's"
  r_expire :: "string \<Rightarrow> int \<Rightarrow> 's \<Rightarrow> int \<times> 's"
  r_del :: "string \<Rightarrow> 's \<Rightarrow> int \<times> 's"
  r_wait :: "int \<Rightarrow> 's \<Rightarrow> 's"

text \<open>
  \<open>SET\<close> stores the value and drops the time to live; \<open>EXPIRE\<close> with a positive number of
  seconds sets it and with any other deletes the key, and returns 1 if there is such a
  key and 0 if not; \<open>DEL\<close> deletes and counts; waiting takes time off every time to live and
  removes the keys whose time is up. No command touches another key.
\<close>

definition redis_laws :: "'s redis \<Rightarrow> bool" where
  "redis_laws R \<longleftrightarrow>
    (\<forall>k v s. r_get R k (r_set R k v s) = Some v \<and> r_pttl R k (r_set R k v s) = None) \<and>
    (\<forall>k v s k'. k' \<noteq> k \<longrightarrow> r_get R k' (r_set R k v s) = r_get R k' s \<and>
       r_pttl R k' (r_set R k v s) = r_pttl R k' s) \<and>
    (\<forall>k n s. fst (r_expire R k n s) = (if r_get R k s = None then 0 else 1)) \<and>
    (\<forall>k n s. r_get R k (snd (r_expire R k n s)) = (if 0 < n then r_get R k s else None)) \<and>
    (\<forall>k n s. r_pttl R k (snd (r_expire R k n s)) =
       (if r_get R k s \<noteq> None \<and> 0 < n then Some (n * 1000) else None)) \<and>
    (\<forall>k n s k'. k' \<noteq> k \<longrightarrow> r_get R k' (snd (r_expire R k n s)) = r_get R k' s \<and>
       r_pttl R k' (snd (r_expire R k n s)) = r_pttl R k' s) \<and>
    (\<forall>k s. fst (r_del R k s) = (if r_get R k s = None then 0 else 1)) \<and>
    (\<forall>k s. r_get R k (snd (r_del R k s)) = None \<and> r_pttl R k (snd (r_del R k s)) = None) \<and>
    (\<forall>k s k'. k' \<noteq> k \<longrightarrow> r_get R k' (snd (r_del R k s)) = r_get R k' s \<and>
       r_pttl R k' (snd (r_del R k s)) = r_pttl R k' s) \<and>
    (\<forall>d k s. 0 \<le> d \<longrightarrow>
       (case r_pttl R k s of
          None \<Rightarrow> r_get R k (r_wait R d s) = r_get R k s \<and> r_pttl R k (r_wait R d s) = None
        | Some t \<Rightarrow>
            if t \<le> d then r_get R k (r_wait R d s) = None \<and> r_pttl R k (r_wait R d s) = None
            else r_get R k (r_wait R d s) = r_get R k s \<and> r_pttl R k (r_wait R d s) = Some (t - d)))"

section \<open>The Lua scripts\<close>

definition luaLock :: "'s redis \<Rightarrow> string \<Rightarrow> string \<Rightarrow> int \<Rightarrow> 's \<Rightarrow> int \<times> 's" where
  "luaLock R key arg1 arg2 s =
    (case r_get R key s of
       None \<Rightarrow> (1, snd (r_expire R key arg2 (r_set R key arg1 s)))
     | Some current \<Rightarrow>
         if current = arg1 then (1, snd (r_expire R key arg2 s)) else (0, s))"

definition luaUnlock :: "'s redis \<Rightarrow> string \<Rightarrow> string \<Rightarrow> 's \<Rightarrow> int \<times> 's" where
  "luaUnlock R key arg1 s = (if r_get R key s = Some arg1 then r_del R key s else (0, s))"

definition luaRefresh :: "'s redis \<Rightarrow> string \<Rightarrow> string \<Rightarrow> int \<Rightarrow> 's \<Rightarrow> int \<times> 's" where
  "luaRefresh R key arg1 arg2 s =
    (if r_get R key s = Some arg1 then r_expire R key arg2 s else (0, s))"

section \<open>The Go functions\<close>

text \<open>
  What can happen to the request on its way: it is answered, it is lost before Redis runs
  the script, or the script has run and the answer is lost.
\<close>

datatype delivery = Answered | Request_lost | Reply_lost

datatype lock_error =
    ResourceID_not_positive
  | HolderID_not_positive
  | Redis_error
  | Key_is_locked
  | Not_held_by_client
  | Not_exist_or_not_held
  | Redis_nil
  | Holder_not_integer

definition eval_script :: "delivery \<Rightarrow> ('s \<Rightarrow> int \<times> 's) \<Rightarrow> 's \<Rightarrow> (lock_error + int) \<times> 's" where
  "eval_script d script s =
    (case d of
       Answered \<Rightarrow> (case script s of (v, s') \<Rightarrow> (Inr v, s'))
     | Request_lost \<Rightarrow> (Inl Redis_error, s)
     | Reply_lost \<Rightarrow> (Inl Redis_error, snd (script s)))"

definition lock_key :: "string \<Rightarrow> int \<Rightarrow> string" where
  "lock_key keyPrefix resourceID = keyPrefix @ sprint_d resourceID"

text \<open>Durations are nanoseconds; \<open>int(d.Seconds())\<close> cuts the fraction off.\<close>

definition second :: int where "second = 10 ^ 9"

definition defaultLockExpiration :: int where
  "defaultLockExpiration = 5 * 60 * second"

definition whole_seconds :: "int \<Rightarrow> int" where
  "whole_seconds d = (if d < 0 then - ((- d) div second) else d div second)"

definition TryLock ::
    "'s redis \<Rightarrow> delivery \<Rightarrow> int \<Rightarrow> int \<Rightarrow> string \<Rightarrow> int \<Rightarrow> 's \<Rightarrow> (lock_error + bool) \<times> 's" where
  "TryLock R d resourceID holderID keyPrefix expiration s =
    (if resourceID \<le> 0 then (Inl ResourceID_not_positive, s)
     else if holderID \<le> 0 then (Inl HolderID_not_positive, s)
     else
       let expiration' = (if expiration \<le> 0 then defaultLockExpiration else expiration);
           key = lock_key keyPrefix resourceID
       in (case eval_script d (luaLock R key (sprint_d holderID) (whole_seconds expiration')) s of
             (Inl e, s') \<Rightarrow> (Inl e, s')
           | (Inr v, s') \<Rightarrow> (if v = 1 then Inr True else Inl Key_is_locked, s')))"

definition ReleaseLock ::
    "'s redis \<Rightarrow> delivery \<Rightarrow> int \<Rightarrow> int \<Rightarrow> string \<Rightarrow> 's \<Rightarrow> (lock_error + unit) \<times> 's" where
  "ReleaseLock R d resourceID holderID keyPrefix s =
    (case eval_script d (luaUnlock R (lock_key keyPrefix resourceID) (sprint_d holderID)) s of
       (Inl e, s') \<Rightarrow> (Inl e, s')
     | (Inr v, s') \<Rightarrow> (if v = 0 then Inl Not_held_by_client else Inr (), s'))"

definition RefreshLock ::
    "'s redis \<Rightarrow> delivery \<Rightarrow> int \<Rightarrow> int \<Rightarrow> string \<Rightarrow> int \<Rightarrow> 's \<Rightarrow> (lock_error + unit) \<times> 's" where
  "RefreshLock R d resourceID holderID keyPrefix expiration s =
    (let expiration' = (if whole_seconds expiration \<le> 0 then defaultLockExpiration else expiration)
     in (case eval_script d (luaRefresh R (lock_key keyPrefix resourceID) (sprint_d holderID)
              (whole_seconds expiration')) s of
           (Inl e, s') \<Rightarrow> (Inl e, s')
         | (Inr v, s') \<Rightarrow> (if v = 0 then Inl Not_exist_or_not_held else Inr (), s')))"

text \<open>\<open>GetLockHolder\<close> returns -1 with every error; only the error is kept here.\<close>

definition GetLockHolder ::
    "'s redis \<Rightarrow> delivery \<Rightarrow> int \<Rightarrow> string \<Rightarrow> 's \<Rightarrow> lock_error + int" where
  "GetLockHolder R d resourceID keyPrefix s =
    (if d \<noteq> Answered then Inl Redis_error
     else (case r_get R (lock_key keyPrefix resourceID) s of
             None \<Rightarrow> Inl Redis_nil
           | Some v \<Rightarrow> (case ParseInt64 v of None \<Rightarrow> Inl Holder_not_integer | Some i \<Rightarrow> Inr i)))"

section \<open>Clients\<close>

text \<open>
  What the processes that share a Redis do to it, in any order: the lock operations with
  their arguments, and time passing.
\<close>

datatype lock_op =
    Op_try delivery int int string int
  | Op_release delivery int int string
  | Op_refresh delivery int int string int
  | Op_wait int

fun lock_step :: "'s redis \<Rightarrow> lock_op \<Rightarrow> 's \<Rightarrow> 's" where
  "lock_step R (Op_try d rid h p e) s = snd (TryLock R d rid h p e s)"
| "lock_step R (Op_release d rid h p) s = snd (ReleaseLock R d rid h p s)"
| "lock_step R (Op_refresh d rid h p e) s = snd (RefreshLock R d rid h p e s)"
| "lock_step R (Op_wait ms) s = r_wait R ms s"

fun op_holder :: "lock_op \<Rightarrow> int option" where
  "op_holder (Op_try d rid h p e) = Some h"
| "op_holder (Op_release d rid h p) = Some h"
| "op_holder (Op_refresh d rid h p e) = Some h"
| "op_holder (Op_wait ms) = None"

fun op_key :: "lock_op \<Rightarrow> string option" where
  "op_key (Op_try d rid h p e) = Some (lock_key p rid)"
| "op_key (Op_release d rid h p) = Some (lock_key p rid)"
| "op_key (Op_refresh d rid h p e) = Some (lock_key p rid)"
| "op_key (Op_wait ms) = None"

fun op_time :: "lock_op \<Rightarrow> int" where
  "op_time (Op_wait ms) = ms"
| "op_time _ = 0"

definition lock_run :: "'s redis \<Rightarrow> lock_op list \<Rightarrow> 's \<Rightarrow> 's" where
  "lock_run R ops s = fold (lock_step R) ops s"

section \<open>The abstract lock\<close>

text \<open>
  What a client may know of a lock: who holds it and for how many more milliseconds. The
  operations on this view are the specification; the laws of Redis make the scripts
  implement it.
\<close>

type_synonym lease = "(string \<times> int option) option"
type_synonym leases = "string \<Rightarrow> lease"

definition lease_of :: "'s redis \<Rightarrow> 's \<Rightarrow> leases" where
  "lease_of R s k = (case r_get R k s of None \<Rightarrow> None | Some v \<Rightarrow> Some (v, r_pttl R k s))"

definition held_by :: "leases \<Rightarrow> string \<Rightarrow> int \<Rightarrow> bool" where
  "held_by m k h \<longleftrightarrow> (\<exists>t. m k = Some (sprint_d h, t))"

definition new_lease :: "int \<Rightarrow> int \<Rightarrow> lease" where
  "new_lease h n = (if 0 < n then Some (sprint_d h, Some (n * 1000)) else None)"

definition age :: "int \<Rightarrow> lease \<Rightarrow> lease" where
  "age ms l = (case l of
     Some (v, Some t) \<Rightarrow> if t \<le> ms then None else Some (v, Some (t - ms))
   | _ \<Rightarrow> l)"

definition try_seconds :: "int \<Rightarrow> int" where
  "try_seconds e = whole_seconds (if e \<le> 0 then defaultLockExpiration else e)"

definition refresh_seconds :: "int \<Rightarrow> int" where
  "refresh_seconds e = whole_seconds (if whole_seconds e \<le> 0 then defaultLockExpiration else e)"

fun spec_step :: "lock_op \<Rightarrow> leases \<Rightarrow> leases" where
  "spec_step (Op_try d rid h p e) m =
    (if 0 < rid \<and> 0 < h \<and> d \<noteq> Request_lost \<and> (m (lock_key p rid) = None \<or> held_by m (lock_key p rid) h)
     then m(lock_key p rid := new_lease h (try_seconds e)) else m)"
| "spec_step (Op_release d rid h p) m =
    (if d \<noteq> Request_lost \<and> held_by m (lock_key p rid) h then m(lock_key p rid := None) else m)"
| "spec_step (Op_refresh d rid h p e) m =
    (if d \<noteq> Request_lost \<and> held_by m (lock_key p rid) h
     then m(lock_key p rid := new_lease h (refresh_seconds e)) else m)"
| "spec_step (Op_wait ms) m = (\<lambda>k. age ms (m k))"

lemma held_by_lease_of [simp]: "held_by (lease_of R s) k h \<longleftrightarrow> r_get R k s = Some (sprint_d h)"
  by (auto simp: held_by_def lease_of_def split: option.splits)

lemma lease_of_None [simp]: "lease_of R s k = None \<longleftrightarrow> r_get R k s = None"
  by (simp add: lease_of_def split: option.splits)

text \<open>The effect of each command and of each script on the view.\<close>

lemma lease_set_expire:
  assumes "redis_laws R"
  shows "lease_of R (snd (r_expire R k n (r_set R k v s))) =
    (lease_of R s)(k := if 0 < n then Some (v, Some (n * 1000)) else None)"
  using assms by (auto simp: redis_laws_def lease_of_def fun_eq_iff split: option.splits)

lemma lease_expire:
  assumes "redis_laws R" and "r_get R k s = Some v"
  shows "lease_of R (snd (r_expire R k n s)) =
    (lease_of R s)(k := if 0 < n then Some (v, Some (n * 1000)) else None)"
  using assms by (auto simp: redis_laws_def lease_of_def fun_eq_iff split: option.splits)

lemma lease_del:
  assumes "redis_laws R"
  shows "lease_of R (snd (r_del R k s)) = (lease_of R s)(k := None)"
  using assms by (auto simp: redis_laws_def lease_of_def fun_eq_iff split: option.splits)

lemma lease_wait:
  assumes "redis_laws R" and "0 \<le> ms"
  shows "lease_of R (r_wait R ms s) = (\<lambda>k. age ms (lease_of R s k))"
proof
  fix k
  have "case r_pttl R k s of
      None \<Rightarrow> r_get R k (r_wait R ms s) = r_get R k s \<and> r_pttl R k (r_wait R ms s) = None
    | Some t \<Rightarrow>
        if t \<le> ms then r_get R k (r_wait R ms s) = None \<and> r_pttl R k (r_wait R ms s) = None
        else r_get R k (r_wait R ms s) = r_get R k s \<and> r_pttl R k (r_wait R ms s) = Some (t - ms)"
    using assms by (simp add: redis_laws_def)
  then show "lease_of R (r_wait R ms s) k = age ms (lease_of R s k)"
    by (auto simp: lease_of_def age_def split: option.splits if_splits)
qed

lemma lease_luaLock:
  assumes "redis_laws R"
  shows "lease_of R (snd (luaLock R k (sprint_d h) n s)) =
    (if lease_of R s k = None \<or> held_by (lease_of R s) k h
     then (lease_of R s)(k := new_lease h n) else lease_of R s)"
  using lease_set_expire [OF assms] lease_expire [OF assms]
  by (auto simp: luaLock_def new_lease_def split: option.splits)

lemma lease_luaUnlock:
  assumes "redis_laws R"
  shows "lease_of R (snd (luaUnlock R k (sprint_d h) s)) =
    (if held_by (lease_of R s) k h then (lease_of R s)(k := None) else lease_of R s)"
  using lease_del [OF assms] by (auto simp: luaUnlock_def)

lemma lease_luaRefresh:
  assumes "redis_laws R"
  shows "lease_of R (snd (luaRefresh R k (sprint_d h) n s)) =
    (if held_by (lease_of R s) k h then (lease_of R s)(k := new_lease h n) else lease_of R s)"
  using lease_expire [OF assms] by (auto simp: luaRefresh_def new_lease_def)

lemma snd_eval_script:
  "snd (eval_script d f s) = (if d = Request_lost then s else snd (f s))"
  by (cases d) (auto simp: eval_script_def split: prod.splits)

lemma snd_TryLock:
  "snd (TryLock R d rid h p e s) =
    (if 0 < rid \<and> 0 < h \<and> d \<noteq> Request_lost
     then snd (luaLock R (lock_key p rid) (sprint_d h) (try_seconds e) s) else s)"
  using snd_eval_script [of d "luaLock R (lock_key p rid) (sprint_d h) (try_seconds e)" s]
  by (auto simp: TryLock_def try_seconds_def Let_def split: prod.splits sum.splits)

lemma snd_ReleaseLock:
  "snd (ReleaseLock R d rid h p s) =
    (if d \<noteq> Request_lost then snd (luaUnlock R (lock_key p rid) (sprint_d h) s) else s)"
  using snd_eval_script [of d "luaUnlock R (lock_key p rid) (sprint_d h)" s]
  by (auto simp: ReleaseLock_def split: prod.splits sum.splits)

lemma snd_RefreshLock:
  "snd (RefreshLock R d rid h p e s) =
    (if d \<noteq> Request_lost
     then snd (luaRefresh R (lock_key p rid) (sprint_d h) (refresh_seconds e) s) else s)"
  using snd_eval_script [of d "luaRefresh R (lock_key p rid) (sprint_d h) (refresh_seconds e)" s]
  by (auto simp: RefreshLock_def refresh_seconds_def Let_def split: prod.splits sum.splits)

lemma lock_step_refines:
  assumes "redis_laws R" and "0 \<le> op_time op"
  shows "lease_of R (lock_step R op s) = spec_step op (lease_of R s)"
  using assms
  by (cases op)
    (simp_all add: snd_TryLock snd_ReleaseLock snd_RefreshLock lease_luaLock lease_luaUnlock
      lease_luaRefresh lease_wait)

lemma lock_run_refines:
  assumes "redis_laws R" and "\<And>op. op \<in> set ops \<Longrightarrow> 0 \<le> op_time op"
  shows "lease_of R (lock_run R ops s) = fold spec_step ops (lease_of R s)"
  using assms(2)
proof (induction ops arbitrary: s)
  case Nil
  then show ?case by (simp add: lock_run_def)
next
  case (Cons op ops)
  then show ?case
    using lock_step_refines [OF assms(1), of op s] by (simp add: lock_run_def)
qed

text \<open>On the abstract lock: a lease outlives everything others do until its time is up.\<close>

lemma spec_step_keeps:
  assumes "m k = Some (sprint_d h, Some t)" and "0 \<le> op_time op" and "op_time op < t"
    and "op_key op = Some k \<Longrightarrow> op_holder op \<noteq> Some h"
  shows "spec_step op m k = Some (sprint_d h, Some (t - op_time op))"
  using assms by (cases op) (auto simp: held_by_def age_def)

lemma spec_run_keeps:
  assumes "m k = Some (sprint_d h, Some t)"
    and "\<And>op. op \<in> set ops \<Longrightarrow> 0 \<le> op_time op \<and> (op_key op = Some k \<longrightarrow> op_holder op \<noteq> Some h)"
    and "sum_list (map op_time ops) < t"
  shows "fold spec_step ops m k = Some (sprint_d h, Some (t - sum_list (map op_time ops)))"
  using assms
proof (induction ops arbitrary: m t)
  case Nil
  then show ?case by simp
next
  case (Cons op ops)
  have "0 \<le> sum_list (map op_time ops)"
    using Cons.prems(2) by (intro sum_list_nonneg) auto
  then have "spec_step op m k = Some (sprint_d h, Some (t - op_time op))"
    using Cons.prems by (intro spec_step_keeps) auto
  from Cons.IH [of "spec_step op m" "t - op_time op", OF this] Cons.prems(2,3)
  show ?case by (simp add: algebra_simps)
qed

text \<open>What the Go functions answer, over the view.\<close>

lemma TryLock_Inr:
  assumes "redis_laws R" and "TryLock R d rid h p e s = (Inr b, s')"
  shows "b \<and> lease_of R s' = (lease_of R s)(lock_key p rid := new_lease h (try_seconds e)) \<and>
    (r_get R (lock_key p rid) s = None \<or> r_get R (lock_key p rid) s = Some (sprint_d h))"
proof -
  have "snd (TryLock R d rid h p e s) = s'" using assms(2) by simp
  then have s': "lease_of R s' =
      spec_step (Op_try d rid h p e) (lease_of R s)"
    using lock_step_refines [OF assms(1), of "Op_try d rid h p e" s] by simp
  show ?thesis
    using assms(2) s'
    by (auto simp: TryLock_def Let_def eval_script_def luaLock_def
        split: if_splits delivery.splits prod.splits option.splits sum.splits)
qed

lemma TryLock_held:
  assumes "r_get R (lock_key p rid) s = Some (sprint_d h)" and "h' \<noteq> h"
  shows "\<exists>err. TryLock R d rid h' p e s = (Inl err, s)"
  using assms by (cases d) (auto simp: TryLock_def Let_def eval_script_def luaLock_def)


text \<open>Whether a request reports success, on the store and on the view.\<close>

fun lock_ok :: "'s redis \<Rightarrow> lock_op \<Rightarrow> 's \<Rightarrow> bool" where
  "lock_ok R (Op_try d rid h p e) s = (fst (TryLock R d rid h p e s) = Inr True)"
| "lock_ok R (Op_release d rid h p) s = (fst (ReleaseLock R d rid h p s) = Inr ())"
| "lock_ok R (Op_refresh d rid h p e) s = (fst (RefreshLock R d rid h p e s) = Inr ())"
| "lock_ok R (Op_wait ms) s = True"

fun spec_ok :: "lock_op \<Rightarrow> leases \<Rightarrow> bool" where
  "spec_ok (Op_try d rid h p e) m =
    (0 < rid \<and> 0 < h \<and> d = Answered \<and> (m (lock_key p rid) = None \<or> held_by m (lock_key p rid) h))"
| "spec_ok (Op_release d rid h p) m = (d = Answered \<and> held_by m (lock_key p rid) h)"
| "spec_ok (Op_refresh d rid h p e) m = (d = Answered \<and> held_by m (lock_key p rid) h)"
| "spec_ok (Op_wait ms) m = True"

lemma redis_laws_counts:
  assumes "redis_laws R"
  shows "fst (r_expire R k n s) = (if r_get R k s = None then 0 else 1)"
    and "fst (r_del R k s) = (if r_get R k s = None then 0 else 1)"
  using assms by (simp_all add: redis_laws_def)

lemma RefreshLock_alt:
  "RefreshLock R d rid h p e s =
    (case eval_script d (luaRefresh R (lock_key p rid) (sprint_d h) (refresh_seconds e)) s of
       (Inl err, s') \<Rightarrow> (Inl err, s')
     | (Inr v, s') \<Rightarrow> (if v = 0 then Inl Not_exist_or_not_held else Inr (), s'))"
  by (simp add: RefreshLock_def refresh_seconds_def)

lemma lock_ok_refines:
  assumes "redis_laws R"
  shows "lock_ok R op s = spec_ok op (lease_of R s)"
proof (cases op)
  case (Op_try d rid h p e)
  then show ?thesis
    by (cases d) (auto simp: TryLock_def Let_def eval_script_def luaLock_def split: option.splits)
next
  case (Op_release d rid h p)
  then show ?thesis
    using redis_laws_counts(2) [OF assms, of "lock_key p rid" s]
    by (cases d) (auto simp: ReleaseLock_def eval_script_def luaUnlock_def split: prod.splits)
next
  case (Op_refresh d rid h p e)
  then show ?thesis
    using redis_laws_counts(1) [OF assms, of "lock_key p rid" "refresh_seconds e" s]
    by (cases d) (auto simp: RefreshLock_alt eval_script_def luaRefresh_def
        split: prod.splits)
qed simp

section \<open>A concrete store\<close>

text \<open>
  A store that obeys the laws, so that they can hold and the functions can be run: every
  key with its value and its time to live in milliseconds.
\<close>

type_synonym kv = "string \<Rightarrow> (string \<times> int option) option"

definition kv_redis :: "kv redis" where
  "kv_redis =
    \<lparr>r_get = (\<lambda>k s. map_option fst (s k)),
     r_pttl = (\<lambda>k s. case s k of None \<Rightarrow> None | Some (v, t) \<Rightarrow> t),
     r_set = (\<lambda>k v s. s(k := Some (v, None))),
     r_expire = (\<lambda>k n s. case s k of
        None \<Rightarrow> (0, s)
      | Some (v, t) \<Rightarrow> (1, s(k := if 0 < n then Some (v, Some (n * 1000)) else None))),
     r_del = (\<lambda>k s. (if s k = None then 0 else 1, s(k := None))),
     r_wait = (\<lambda>d s k. age d (s k))\<rparr>"

lemma kv_laws: "redis_laws kv_redis"
  by (auto simp: redis_laws_def kv_redis_def age_def split: option.splits)

lemma lease_of_kv [simp]: "lease_of kv_redis s = s"
  by (auto simp: lease_of_def kv_redis_def fun_eq_iff split: option.splits)

definition kv_empty :: kv where "kv_empty = (\<lambda>k. None)"

lemmas lock_exec_simps = TryLock_def ReleaseLock_def RefreshLock_def GetLockHolder_def
  eval_script_def luaLock_def luaUnlock_def luaRefresh_def kv_redis_def kv_empty_def
  lock_run_def age_def whole_seconds_def second_def defaultLockExpiration_def Let_def

section \<open>Properties\<close>

text \<open>
  (C8) The Lua scripts and the Go functions around them implement a lease lock: after any
  sequence of requests, delivered or lost on the way out or back, and of waits, the holder
  and the remaining time of every lock are those of the abstract lock, and the next request
  succeeds exactly when the abstract lock grants it.
\<close>

theorem lock_refines_lease:
  assumes "redis_laws R" and "\<forall>op \<in> set ops. 0 \<le> op_time op"
  shows "lease_of R (lock_run R ops s) = fold spec_step ops (lease_of R s) \<and>
    lock_ok R op (lock_run R ops s) = spec_ok op (fold spec_step ops (lease_of R s))"
  using lock_run_refines [OF assms(1), of ops s] lock_ok_refines [OF assms(1)] assms(2) by simp

theorem lock_refines_lease_witness:
  "lease_of kv_redis (lock_run kv_redis [Op_try Answered 7 1 ''paper_lock:'' second, Op_wait 400]
      kv_empty) = [''paper_lock:7'' \<mapsto> (''1'', Some 600)] \<and>
   \<not> lock_ok kv_redis (Op_release Answered 7 2 ''paper_lock:'')
      (lock_run kv_redis [Op_try Answered 7 1 ''paper_lock:'' second, Op_wait 400] kv_empty)"
proof -
  have k: "lock_key ''paper_lock:'' 7 = ''paper_lock:7''" "sprint_d 1 = ''1''" "sprint_d 2 = ''2''"
    by code_simp+
  have f: "fold spec_step [Op_try Answered 7 1 ''paper_lock:'' second, Op_wait 400] kv_empty =
      [''paper_lock:7'' \<mapsto> (''1'', Some 600)]"
    by (auto simp: k kv_empty_def new_lease_def try_seconds_def whole_seconds_def second_def age_def
        fun_eq_iff)
  have t: "\<forall>op \<in> set [Op_try Answered 7 1 ''paper_lock:'' second, Op_wait 400]. 0 \<le> op_time op"
    by simp
  have n: "\<not> spec_ok (Op_release Answered 7 2 ''paper_lock:'') [''paper_lock:7'' \<mapsto> (''1'', Some 600)]"
    by (simp add: held_by_def k)
  show ?thesis
    using lock_refines_lease [OF kv_laws t, of kv_empty "Op_release Answered 7 2 ''paper_lock:''"] n
    unfolding lease_of_kv f by blast
qed

text \<open>
  (C9) Mutual exclusion: once \<open>TryLock\<close> has succeeded for a holder with an expiration of at
  least a second, then as long as fewer milliseconds than the whole seconds of that expiration
  have gone by, and whatever everybody else sends meanwhile, nobody else gets the lock, and
  \<open>GetLockHolder\<close> names the holder.
\<close>

theorem lock_exclusive:
  assumes "redis_laws R"
    and "TryLock R d rid h p e s = (Inr b, s1)" and "second \<le> e"
    and "\<forall>op \<in> set ops. 0 \<le> op_time op \<and>
      (op_key op = Some (lock_key p rid) \<longrightarrow> op_holder op \<noteq> Some h)"
    and "sum_list (map op_time ops) < (e div second) * 1000"
    and "h' \<noteq> h" and "h \<le> max_int64"
  shows "(\<exists>err. fst (TryLock R d' rid h' p e' (lock_run R ops s1)) = Inl err) \<and>
    GetLockHolder R Answered rid p (lock_run R ops s1) = Inr h"
proof -
  have h: "0 < h" using assms(2) by (auto simp: TryLock_def split: if_splits)
  have n: "try_seconds e = e div second" "0 < e div second"
    using assms(3) by (auto simp: try_seconds_def whole_seconds_def second_def pos_imp_zdiv_pos_iff)
  have "lease_of R s1 (lock_key p rid) = Some (sprint_d h, Some ((e div second) * 1000))"
    using TryLock_Inr [OF assms(1,2)] n by (auto simp: new_lease_def)
  then have "lease_of R (lock_run R ops s1) (lock_key p rid) =
      Some (sprint_d h, Some ((e div second) * 1000 - sum_list (map op_time ops)))"
    using lock_run_refines [OF assms(1), of ops s1] assms(4,5)
    by (simp add: spec_run_keeps)
  then have g: "r_get R (lock_key p rid) (lock_run R ops s1) = Some (sprint_d h)"
    by (auto simp: lease_of_def split: option.splits)
  have "ParseInt64 (sprint_d h) = Some h"
    using h assms(7) by (simp add: ParseInt64_sprint_d min_int64_def)
  then show ?thesis
    using TryLock_held [OF g assms(6), of d' e'] g by (auto simp: GetLockHolder_def)
qed

theorem lock_exclusive_witness:
  "(\<exists>err. fst (TryLock kv_redis Answered 7 2 ''paper_lock:'' second
       (lock_run kv_redis [Op_wait 900, Op_release Answered 7 2 ''paper_lock:'']
         (snd (TryLock kv_redis Answered 7 1 ''paper_lock:'' second kv_empty)))) = Inl err) \<and>
   GetLockHolder kv_redis Answered 7 ''paper_lock:''
     (lock_run kv_redis [Op_wait 900, Op_release Answered 7 2 ''paper_lock:'']
       (snd (TryLock kv_redis Answered 7 1 ''paper_lock:'' second kv_empty))) = Inr 1"
proof (rule lock_exclusive [OF kv_laws, where e = second and b = True])
  show "TryLock kv_redis Answered 7 1 ''paper_lock:'' second kv_empty =
      (Inr True, snd (TryLock kv_redis Answered 7 1 ''paper_lock:'' second kv_empty))"
    by (simp add: lock_exec_simps)
qed (simp_all add: second_def max_int64_def)

text \<open>
  The expiration is cut to whole seconds only after the default has been applied: with an
  expiration below one second \<open>TryLock\<close> on a free resource reports success, yet the key is
  gone again at once, and the next client gets the lock too.
\<close>

lemma sub_second_lock_not_held:
  assumes "redis_laws R" and "0 < rid" and "0 < h" and "0 < e" and "e < second"
    and "r_get R (lock_key p rid) s = None" and "0 < h'"
  shows "fst (TryLock R Answered rid h p e s) = Inr True \<and>
    r_get R (lock_key p rid) (snd (TryLock R Answered rid h p e s)) = None \<and>
    fst (TryLock R Answered rid h' p e' (snd (TryLock R Answered rid h p e s))) = Inr True"
proof -
  let ?s1 = "snd (TryLock R Answered rid h p e s)"
  have "try_seconds e = 0"
    using assms(4,5) by (simp add: try_seconds_def whole_seconds_def)
  then have "lease_of R ?s1 (lock_key p rid) = None"
    using lock_step_refines [OF assms(1), of "Op_try Answered rid h p e" s] assms(2,3,6)
    by (simp add: new_lease_def)
  then have g: "r_get R (lock_key p rid) ?s1 = None" by simp
  show ?thesis
    using lock_ok_refines [OF assms(1), of "Op_try Answered rid h p e" s]
      lock_ok_refines [OF assms(1), of "Op_try Answered rid h' p e'" ?s1] g assms(2,3,6,7)
    by simp
qed

lemma sub_second_lock_not_held_witness:
  "fst (TryLock kv_redis Answered 7 1 ''exam_lock:'' 500000000 kv_empty) = Inr True \<and>
   r_get kv_redis (lock_key ''exam_lock:'' 7)
     (snd (TryLock kv_redis Answered 7 1 ''exam_lock:'' 500000000 kv_empty)) = None \<and>
   fst (TryLock kv_redis Answered 7 2 ''exam_lock:'' second
     (snd (TryLock kv_redis Answered 7 1 ''exam_lock:'' 500000000 kv_empty))) = Inr True"
  by (rule sub_second_lock_not_held [OF kv_laws]) (simp_all add: second_def kv_redis_def kv_empty_def)

end
