(* ===== verification/Service_Context.thy ===== *)
theory Service_Context
  imports Go_Strings
begin

text \<open>
  The request context of \<open>cmn/service-context.go\<close> as the handlers see it: the reply is built
  in the context and written once by \<open>Resp\<close> or \<open>RespErr\<close>. Error values and reply texts are
  kept as what they stand for; the bytes of the reply come from \<open>json.Marshal\<close>, a parameter,
  together with the other services a reply may reach (the cookie session, the user cache,
  the erasure of a user).
\<close>

section \<open>State\<close>

datatype 'e ctx_error =
    App 'e
  | Err_is_nil
  | Msg_is_nil
  | Bad_reply_data
  | Invalid_session
  | Session_error

datatype 'e msg_text = Lit string | Of_error "'e ctx_error"

record 'e reply_proto =
  rp_status :: int
  rp_msg :: "'e msg_text"
  rp_data :: string
  rp_row_count :: int
  rp_api :: string
  rp_method :: string
  rp_sn :: int

text \<open>
  What is written to the client: a formatted argument (\<open>Fprintf(w, "%s", s)\<close>), a text that
  itself serves as the format (\<open>Fprintf(w, s)\<close>), or the text of a marshalling error.
\<close>

datatype written = As_argument string | As_format string | Marshal_error

text \<open>The cookie session: the user id among its values, if any, and whether it is still valid.\<close>

record session =
  ss_user :: "int option"
  ss_expired :: bool

record 'e service_ctx =
  sc_err :: "'e ctx_error option"
  sc_stop :: bool
  sc_responded :: bool
  sc_has_writer :: bool
  sc_msg :: "'e reply_proto option"
  sc_path :: string
  sc_method :: string
  sc_erase :: string
  sc_session :: session
  sc_out :: "written list"
  sc_panicked :: bool

record 'e service_env =
  se_marshal :: "'e reply_proto \<Rightarrow> string option"
  se_trial_ok :: "string \<Rightarrow> bool"
  se_save :: "session \<Rightarrow> 'e ctx_error option"
  se_clean_cache :: "int \<Rightarrow> 'e ctx_error option"
  se_erase_user :: "int \<Rightarrow> 'e ctx_error option"

section \<open>Operations\<close>

text \<open>Go's integer division cuts towards zero.\<close>

definition go_div :: "int \<Rightarrow> int \<Rightarrow> int" where
  "go_div a b = (if (a < 0) = (b < 0) then abs a div abs b else - (abs a div abs b))"

definition CleanSession :: "'e service_env \<Rightarrow> 'e service_ctx \<Rightarrow> 'e service_ctx" where
  "CleanSession E c =
    (let userID = (case ss_user (sc_session c) of None \<Rightarrow> 0 | Some u \<Rightarrow> u) in
     if userID \<le> 0 then c\<lparr>sc_err := Some Invalid_session\<rparr>
     else
       let ss = \<lparr>ss_user = None, ss_expired = True\<rparr>;
           c1 = c\<lparr>sc_session := ss, sc_err := se_save E ss\<rparr>
       in if sc_err c1 \<noteq> None then c1
          else
            let c2 = c1\<lparr>sc_err := se_clean_cache E userID\<rparr>
            in if ToLower (sc_erase c2) = ''true'' then c2\<lparr>sc_err := se_erase_user E userID\<rparr> else c2)"

definition new_reply :: "'e service_ctx \<Rightarrow> 'e reply_proto" where
  "new_reply c = \<lparr>rp_status = 0, rp_msg = Lit [], rp_data = [], rp_row_count = 0,
     rp_api = sc_path c, rp_method = sc_method c, rp_sn = 0\<rparr>"

definition put_reply :: "written \<Rightarrow> 'e service_ctx \<Rightarrow> 'e service_ctx" where
  "put_reply w c = c\<lparr>sc_out := sc_out c @ [w]\<rparr>"

text \<open>The marshalled message without its closing brace, and the data once more.\<close>

definition append_data :: "string \<Rightarrow> string \<Rightarrow> string" where
  "append_data buf data = butlast buf @ ('','' @ [CHR 0x22] @ ''data'' @ [CHR 0x22] @ '':'') @ data @ ''}''"

text \<open>The message \<open>RespErr\<close> sends and the context it leaves before it writes.\<close>

definition err_message :: "'e service_ctx \<Rightarrow> 'e ctx_error \<Rightarrow> 'e reply_proto" where
  "err_message c err =
    (let m = (case sc_msg c of None \<Rightarrow> new_reply c | Some m \<Rightarrow> m)
     in m\<lparr>rp_msg := Of_error err, rp_status := (if rp_status m = 0 then -1 else rp_status m)\<rparr>)"

definition close_ctx :: "'e service_env \<Rightarrow> 'e ctx_error \<Rightarrow> 'e reply_proto \<Rightarrow> 'e service_ctx \<Rightarrow>
    'e service_ctx" where
  "close_ctx E err m1 c =
    (let c1 = c\<lparr>sc_responded := True, sc_stop := True, sc_err := Some err, sc_msg := Some m1\<rparr>
     in if go_div (rp_status m1) 100 = -410 then CleanSession E c1 else c1)"

definition send_err :: "'e service_env \<Rightarrow> 'e reply_proto \<Rightarrow> 'e service_ctx \<Rightarrow> 'e service_ctx" where
  "send_err E m1 c2 =
    (case se_marshal E m1 of
       None \<Rightarrow> put_reply Marshal_error c2
     | Some buf \<Rightarrow>
         if rp_data m1 = [] then put_reply (As_format buf) c2
         else if \<not> se_trial_ok E (rp_data m1) then c2\<lparr>sc_err := Some Bad_reply_data\<rparr>
         else put_reply (As_format (append_data buf (rp_data m1))) (c2\<lparr>sc_err := None\<rparr>))"

text \<open>
  \<open>RespErr\<close>. When the data are not valid JSON it calls itself, which returns at once because
  \<open>Responded\<close> is already set: nothing is written.
\<close>

definition RespErr :: "'e service_env \<Rightarrow> 'e service_ctx \<Rightarrow> 'e service_ctx" where
  "RespErr E c =
    (if sc_responded c then c
     else if \<not> sc_has_writer c then c
     else
       let err = (case sc_err c of None \<Rightarrow> Err_is_nil | Some e \<Rightarrow> e);
           m1 = err_message c err
       in send_err E m1 (close_ctx E err m1 c))"

definition Resp :: "'e service_env \<Rightarrow> 'e service_ctx \<Rightarrow> 'e service_ctx" where
  "Resp E c =
    (if sc_err c \<noteq> None then RespErr E c
     else if sc_responded c then c
     else if \<not> sc_has_writer c then c
     else (case sc_msg c of
             None \<Rightarrow> RespErr E (c\<lparr>sc_msg := Some (new_reply c), sc_err := Some Msg_is_nil\<rparr>)
           | Some m \<Rightarrow>
               (case se_marshal E m of
                  None \<Rightarrow> put_reply Marshal_error c
                | Some buf \<Rightarrow>
                    if rp_data m = [] then (put_reply (As_argument buf) c)\<lparr>sc_responded := True\<rparr>
                    else if \<not> se_trial_ok E (rp_data m)
                    then RespErr E (c\<lparr>sc_msg := Some (m\<lparr>rp_data := []\<rparr>),
                           sc_err := Some Bad_reply_data\<rparr>)
                    else (put_reply (As_argument (append_data buf (rp_data m))) (c\<lparr>sc_err := None\<rparr>))
                           \<lparr>sc_responded := True\<rparr>)))"

text \<open>
  How the handlers end: with an error, or with a text in the message. Without a message the
  assignment \<open>q.Msg.Msg = \<dots>\<close> panics.
\<close>

definition reply_error :: "'e service_env \<Rightarrow> 'e \<Rightarrow> 'e service_ctx \<Rightarrow> 'e service_ctx" where
  "reply_error E e c = RespErr E (c\<lparr>sc_err := Some (App e)\<rparr>)"

definition reply_ok :: "'e service_env \<Rightarrow> ('e reply_proto \<Rightarrow> 'e reply_proto) \<Rightarrow> 'e service_ctx \<Rightarrow>
    'e service_ctx" where
  "reply_ok E f c =
    (case sc_msg c of
       None \<Rightarrow> c\<lparr>sc_err := None, sc_panicked := True\<rparr>
     | Some m \<Rightarrow> Resp E (c\<lparr>sc_err := None, sc_msg := Some (f m)\<rparr>))"

section \<open>Lemmas\<close>

lemma put_reply_simps [simp]:
  "sc_out (put_reply w c) = sc_out c @ [w]" "sc_responded (put_reply w c) = sc_responded c"
  "sc_err (put_reply w c) = sc_err c" "sc_has_writer (put_reply w c) = sc_has_writer c"
  "sc_msg (put_reply w c) = sc_msg c" "sc_panicked (put_reply w c) = sc_panicked c"
  by (simp_all add: put_reply_def)

lemma CleanSession_simps [simp]:
  "sc_out (CleanSession E c) = sc_out c" "sc_responded (CleanSession E c) = sc_responded c"
  "sc_has_writer (CleanSession E c) = sc_has_writer c" "sc_msg (CleanSession E c) = sc_msg c"
  "sc_panicked (CleanSession E c) = sc_panicked c"
  by (simp_all add: CleanSession_def Let_def)

lemma close_ctx_simps [simp]:
  "sc_out (close_ctx E err m c) = sc_out c" "sc_responded (close_ctx E err m c)"
  "sc_has_writer (close_ctx E err m c) = sc_has_writer c"
  "sc_panicked (close_ctx E err m c) = sc_panicked c"
  by (simp_all add: close_ctx_def Let_def)

lemma send_err_simps [simp]:
  "sc_responded (send_err E m c) = sc_responded c"
  "sc_has_writer (send_err E m c) = sc_has_writer c"
  "sc_panicked (send_err E m c) = sc_panicked c"
  by (simp_all add: send_err_def split: option.splits)

lemma send_err_out: "\<exists>ws. sc_out (send_err E m c) = sc_out c @ ws \<and> length ws \<le> 1"
  by (auto simp: send_err_def split: option.splits)

lemma send_err_out_one:
  "rp_data m = [] \<or> se_trial_ok E (rp_data m) \<Longrightarrow> \<exists>w. sc_out (send_err E m c) = sc_out c @ [w]"
  by (auto simp: send_err_def split: option.splits)

lemma err_message_data:
  "rp_data (err_message c e) = (case sc_msg c of None \<Rightarrow> [] | Some m \<Rightarrow> rp_data m)"
  by (simp add: err_message_def new_reply_def Let_def split: option.splits)

lemma RespErr_responded [simp]: "sc_responded c \<Longrightarrow> RespErr E c = c"
  by (simp add: RespErr_def)

lemma Resp_responded [simp]: "sc_responded c \<Longrightarrow> Resp E c = c"
  by (cases "sc_err c") (simp_all add: Resp_def)

lemma RespErr_simps [simp]:
  "sc_has_writer (RespErr E c) = sc_has_writer c" "sc_panicked (RespErr E c) = sc_panicked c"
  by (simp_all add: RespErr_def Let_def)

lemma RespErr_responds: "sc_has_writer c \<Longrightarrow> sc_responded (RespErr E c)"
  by (simp add: RespErr_def Let_def)

lemma RespErr_out:
  assumes "sc_has_writer c" and "\<not> sc_responded c"
  shows "\<exists>ws. sc_out (RespErr E c) = sc_out c @ ws \<and> length ws \<le> 1"
  using assms send_err_out [of E _ "close_ctx E _ _ c"] by (simp add: RespErr_def Let_def)

lemma RespErr_out_one:
  assumes "sc_has_writer c" and "\<not> sc_responded c"
    and "\<And>m. sc_msg c = Some m \<Longrightarrow> rp_data m = [] \<or> se_trial_ok E (rp_data m)"
  shows "\<exists>w. sc_out (RespErr E c) = sc_out c @ [w]"
proof -
  have "rp_data (err_message c e) = [] \<or> se_trial_ok E (rp_data (err_message c e))" for e
    using assms(3) by (auto simp: err_message_data split: option.splits)
  then have "\<exists>w. sc_out (send_err E (err_message c e) (close_ctx E e m c)) = sc_out c @ [w]" for e m
    using send_err_out_one [of "err_message c e" E "close_ctx E e m c"] by simp
  then show ?thesis
    using assms(1,2) by (simp add: RespErr_def Let_def)
qed

lemma Resp_one:
  assumes "sc_has_writer c" and "\<not> sc_responded c" and "\<And>m. se_marshal E m \<noteq> None"
  shows "sc_responded (Resp E c) \<and> (\<exists>ws. sc_out (Resp E c) = sc_out c @ ws \<and> length ws \<le> 1)"
proof (cases "sc_err c = None \<and> sc_msg c \<noteq> None")
  case False
  then show ?thesis
    using assms(1,2) RespErr_responds RespErr_out
      RespErr_out [of "c\<lparr>sc_msg := Some (new_reply c), sc_err := Some Msg_is_nil\<rparr>" E]
    by (auto simp: Resp_def)
next
  case True
  then obtain m buf where m: "sc_msg c = Some m" and buf: "se_marshal E m = Some buf"
    using assms(3) by blast
  show ?thesis
    using True m buf assms(1,2)
      RespErr_out [of "c\<lparr>sc_msg := Some (m\<lparr>rp_data := []\<rparr>), sc_err := Some Bad_reply_data\<rparr>" E]
      RespErr_responds [of "c\<lparr>sc_msg := Some (m\<lparr>rp_data := []\<rparr>), sc_err := Some Bad_reply_data\<rparr>" E]
    by (auto simp: Resp_def)
qed

lemma Resp_RespErr: "sc_err c \<noteq> None \<Longrightarrow> Resp E c = RespErr E c"
  by (simp add: Resp_def)

lemma RespErr_no_writer [simp]: "\<not> sc_has_writer c \<Longrightarrow> RespErr E c = c"
  by (simp add: RespErr_def)

lemma Resp_no_writer [simp]: "\<not> sc_has_writer c \<Longrightarrow> Resp E c = c"
  by (simp add: Resp_def)

section \<open>A handler's calls\<close>

datatype reply_call = Call_Resp | Call_RespErr

fun call_reply :: "'e service_env \<Rightarrow> reply_call \<Rightarrow> 'e service_ctx \<Rightarrow> 'e service_ctx" where
  "call_reply E Call_Resp c = Resp E c"
| "call_reply E Call_RespErr c = RespErr E c"

lemma call_replies_done: "sc_responded c \<Longrightarrow> fold (call_reply E) calls c = c"
proof (induction calls)
  case (Cons x calls)
  then show ?case by (cases x) simp_all
qed simp

text \<open>A context as the server makes it, and services that answer.\<close>

definition demo_ctx :: "'e service_ctx" where
  "demo_ctx = \<lparr>sc_err = None, sc_stop = False, sc_responded = False, sc_has_writer = True,
     sc_msg = Some \<lparr>rp_status = 0, rp_msg = Lit [], rp_data = [], rp_row_count = 0,
       rp_api = ''/api/exam/lock'', rp_method = ''GET'', rp_sn = 0\<rparr>,
     sc_path = ''/api/exam/lock'', sc_method = ''GET'', sc_erase = [],
     sc_session = \<lparr>ss_user = Some 7, ss_expired = False\<rparr>, sc_out = [], sc_panicked = False\<rparr>"

definition demo_env :: "'e service_env" where
  "demo_env = \<lparr>se_marshal = (\<lambda>m. Some (if rp_status m = 0 then ''{}'' else ''{-1}'')),
     se_trial_ok = (\<lambda>d. d \<noteq> ''{''), se_save = (\<lambda>_. None), se_clean_cache = (\<lambda>_. None),
     se_erase_user = (\<lambda>_. None)\<rparr>"

lemmas reply_defs = Resp_def RespErr_def err_message_def close_ctx_def send_err_def CleanSession_def reply_ok_def reply_error_def put_reply_def
  append_data_def new_reply_def go_div_def demo_ctx_def demo_env_def Let_def

text \<open>
  One reply: whatever a handler calls, in whatever order, once the context has a writer
  and messages can be marshalled, at most one text is written, and the first call decides it.
\<close>

lemma one_reply:
  assumes "sc_has_writer c" and "\<not> sc_responded c" and "\<forall>m. se_marshal E m \<noteq> None"
  shows "sc_responded (call_reply E first_call c) \<and>
    fold (call_reply E) (first_call # calls) c = call_reply E first_call c \<and>
    (\<exists>ws. sc_out (fold (call_reply E) (first_call # calls) c) = sc_out c @ ws \<and> length ws \<le> 1)"
proof -
  have "sc_responded (call_reply E first_call c) \<and>
      (\<exists>ws. sc_out (call_reply E first_call c) = sc_out c @ ws \<and> length ws \<le> 1)"
    using Resp_one [of c E] RespErr_responds [of c E] RespErr_out [of c E] assms
    by (cases first_call) auto
  then show ?thesis using call_replies_done by auto
qed

lemma one_reply_witness:
  "\<exists>ws. sc_out (fold (call_reply demo_env) (Call_RespErr # [Call_Resp, Call_RespErr])
     (demo_ctx :: nat service_ctx)) = sc_out (demo_ctx :: nat service_ctx) @ ws \<and> length ws \<le> 1"
  by (rule one_reply [THEN conjunct2, THEN conjunct2]) (simp_all add: demo_ctx_def demo_env_def)

end
