(* ===== verification/Service_Registry.thy ===== *)
theory Service_Registry
  imports Go_Strings
begin

text \<open>
  The table of services of \<open>cmn/service-context.go\<close>: registering a service, finding the
  service of a request's path, and the list of addresses that asked for paths nobody serves.
\<close>

section \<open>State\<close>

text \<open>The function of a service: one of the program's, by name, or the file server.\<close>

datatype service_fn = Handler string | WebFS

record endpoint =
  ep_path :: string
  ep_pattern :: string
  ep_is_file_serve :: bool
  ep_doc_root :: string
  ep_fn :: "service_fn option"
  ep_pkg_name :: string
  ep_name :: string
  ep_domain_id :: int
  ep_default_domain :: int
  ep_access_level :: string
  ep_white_list :: bool

type_synonym services = "string \<Rightarrow> endpoint option"

definition CDomainSys :: int where "CDomainSys = 322"

section \<open>Registering\<close>

datatype add_error =
    Ep_is_nil
  | Path_empty
  | Pattern_panic
  | Doc_root_missing
  | Fn_missing
  | Name_missing
  | Already_exists string

text \<open>\<open>(?i)^/api/(.*)?$\<close>, where the dot matches no newline.\<close>

definition rIsAPI :: "string \<Rightarrow> bool" where
  "rIsAPI p \<longleftrightarrow> HasPrefix (ToLower p) ''/api/'' \<and> CHR 10 \<notin> set (drop 5 p)"

text \<open>\<open>strings.ReplaceAll(s, "//", "/")\<close>: from the left, occurrences that do not overlap.\<close>

fun squeeze_slashes :: "string \<Rightarrow> string" where
  "squeeze_slashes (a # b # s) =
    (if a = CHR ''/'' \<and> b = CHR ''/'' then CHR ''/'' # squeeze_slashes s
     else a # squeeze_slashes (b # s))"
| "squeeze_slashes s = s"

definition default_pattern :: "string \<Rightarrow> string" where
  "default_pattern path = ''(?i)^'' @ path @ ''(/.*)?$''"

text \<open>
  \<open>AddService\<close>. \<open>compiles\<close> says which patterns the regular expression package accepts
  (\<open>MustCompile\<close> panics on the others), and \<open>pkg_name\<close> the package of a function, which the
  runtime knows. The endpoint is a pointer: what the checks have filled in stays filled in.
\<close>

definition add_fn ::
    "(service_fn \<Rightarrow> string) \<Rightarrow> endpoint \<Rightarrow> add_error option \<times> endpoint" where
  "add_fn pkg_name ep =
    (if ep_is_file_serve ep
     then if ep_doc_root ep = [] then (Some Doc_root_missing, ep)
          else (None, if ep_fn ep = None then ep\<lparr>ep_fn := Some WebFS\<rparr> else ep)
     else (case ep_fn ep of
             None \<Rightarrow> (Some Fn_missing, ep)
           | Some fn \<Rightarrow>
               (None, ep\<lparr>ep_path := (if rIsAPI (ep_path ep) then ep_path ep
                              else squeeze_slashes (''/api/'' @ ep_path ep)),
                         ep_pkg_name := pkg_name fn\<rparr>)))"

definition add_defaults :: "endpoint \<Rightarrow> endpoint" where
  "add_defaults ep =
    ep\<lparr>ep_domain_id := (if ep_domain_id ep = 0 then CDomainSys else ep_domain_id ep),
       ep_default_domain := (if ep_default_domain ep = 0 then CDomainSys else ep_default_domain ep),
       ep_access_level := (if ep_access_level ep = [] then ''0'' else ep_access_level ep)\<rparr>"

definition AddService ::
    "(string \<Rightarrow> bool) \<Rightarrow> (service_fn \<Rightarrow> string) \<Rightarrow> endpoint option \<Rightarrow> services \<Rightarrow>
      add_error option \<times> endpoint option \<times> services" where
  "AddService compiles pkg_name epo S =
    (case epo of
       None \<Rightarrow> (Some Ep_is_nil, None, S)
     | Some ep \<Rightarrow>
         if ep_path ep = [] then (Some Path_empty, Some ep, S)
         else
           let ep1 = (if ep_pattern ep = [] then ep\<lparr>ep_pattern := default_pattern (ep_path ep)\<rparr> else ep)
           in if \<not> compiles (ep_pattern ep1) then (Some Pattern_panic, Some ep1, S)
              else (case add_fn pkg_name ep1 of
                      (Some e, ep2) \<Rightarrow> (Some e, Some ep2, S)
                    | (None, ep2) \<Rightarrow>
                        if ep_name ep2 = [] then (Some Name_missing, Some ep2, S)
                        else
                          let ep3 = add_defaults ep2
                          in if S (ep_path ep3) \<noteq> None
                             then (Some (Already_exists (ep_path ep3)), Some ep3, S)
                             else (None, Some ep3, S(ep_path ep3 \<mapsto> ep3))))"

section \<open>Finding\<close>

definition path_of :: "string list \<Rightarrow> string" where
  "path_of parts = ''/'' @ Join ''/'' parts"

text \<open>A prefix of the path is served under its name, or under its name and a slash.\<close>

definition served :: "services \<Rightarrow> string list \<Rightarrow> endpoint option" where
  "served S parts = (case S (path_of parts) of None \<Rightarrow> S (path_of parts @ ''/'') | Some ep \<Rightarrow> Some ep)"

function ep_loop :: "services \<Rightarrow> string list \<Rightarrow> endpoint option" where
  "ep_loop S parts =
    (if parts = [] then None
     else (case served S parts of Some ep \<Rightarrow> Some ep | None \<Rightarrow> ep_loop S (butlast parts)))"
  by pat_completeness auto
termination by (relation "measure (\<lambda>(S, parts). length parts)") auto

declare ep_loop.simps [simp del]

definition path_parts :: "string \<Rightarrow> string list" where
  "path_parts path = filter (\<lambda>w. w \<noteq> []) (Split CHR ''/'' path)"

definition EpByPath :: "services \<Rightarrow> string \<Rightarrow> endpoint option" where
  "EpByPath S path = (if path = ''/'' then S path else ep_loop S (path_parts path))"

section \<open>Attackers\<close>

text \<open>The last colon, and the first bracket.\<close>

fun index_of :: "char \<Rightarrow> string \<Rightarrow> nat option" where
  "index_of c [] = None"
| "index_of c (x # xs) = (if x = c then Some 0 else map_option Suc (index_of c xs))"

definition last_index_of :: "char \<Rightarrow> string \<Rightarrow> nat option" where
  "last_index_of c s = map_option (\<lambda>i. length s - Suc i) (index_of c (rev s))"

text \<open>\<open>net.SplitHostPort\<close>: the host of \<open>host:port\<close> or \<open>[host]:port\<close>, or an error.\<close>

definition host_of :: "string \<Rightarrow> string option" where
  "host_of hp =
    (case last_index_of CHR '':'' hp of
       None \<Rightarrow> None
     | Some i \<Rightarrow>
         if take 1 hp = ''[''
         then (case index_of CHR '']'' hp of
                 None \<Rightarrow> None
               | Some e \<Rightarrow>
                   if e + 1 \<noteq> i then None
                   else
                     let host = take (e - 1) (drop 1 hp)
                     in if CHR ''['' \<in> set (drop 1 hp) \<or> CHR '']'' \<in> set (drop (e + 1) hp)
                        then None else Some host)
         else if CHR '':'' \<in> set (take i hp) \<or> CHR ''['' \<in> set hp \<or> CHR '']'' \<in> set hp
         then None else Some (take i hp))"

record attack_check =
  ac_ep :: "endpoint option"
  ac_is_attacker :: bool
  ac_white_list :: bool
  ac_path_valid :: bool

definition IsAttacker ::
    "bool \<Rightarrow> services \<Rightarrow> string \<Rightarrow> string \<Rightarrow> string set \<Rightarrow> attack_check \<times> string set" where
  "IsAttacker AttackDefence S path remoteAddr attackers =
    (if path = [] \<or> remoteAddr = []
     then (\<lparr>ac_ep = None, ac_is_attacker = False, ac_white_list = False, ac_path_valid = False\<rparr>, attackers)
     else
       let ep = EpByPath S path; valid = (ep \<noteq> None)
       in (case host_of remoteAddr of
             None \<Rightarrow>
               (\<lparr>ac_ep = ep, ac_is_attacker = True, ac_white_list = False, ac_path_valid = valid\<rparr>, attackers)
           | Some addr \<Rightarrow>
               (\<lparr>ac_ep = ep,
                 ac_is_attacker = ((\<not> valid \<or> addr \<in> attackers) \<and> AttackDefence),
                 ac_white_list = (case ep of None \<Rightarrow> False | Some e \<Rightarrow> ep_white_list e),
                 ac_path_valid = valid\<rparr>,
                if valid then attackers else insert addr attackers)))"

text \<open>A run of requests, each its path and the remote address.\<close>

definition attack_run ::
    "bool \<Rightarrow> services \<Rightarrow> (string \<times> string) list \<Rightarrow> string set \<Rightarrow> string set" where
  "attack_run d S reqs attackers =
     fold (\<lambda>(path, addr) as. snd (IsAttacker d S path addr as)) reqs attackers"

section \<open>Lemmas\<close>

lemma ep_loop_Some:
  "ep_loop S parts = Some ep \<longleftrightarrow>
    (\<exists>n. 0 < n \<and> n \<le> length parts \<and> served S (take n parts) = Some ep \<and>
       (\<forall>m. n < m \<and> m \<le> length parts \<longrightarrow> served S (take m parts) = None))"
proof (induction S parts rule: ep_loop.induct)
  case (1 S parts)
  show ?case
  proof (cases "parts = []")
    case True
    then show ?thesis by (simp add: ep_loop.simps)
  next
    case ne: False
    then have len: "length parts > 0" by simp
    show ?thesis
    proof (cases "served S parts")
      case (Some ep')
      have "(\<exists>n. 0 < n \<and> n \<le> length parts \<and> served S (take n parts) = Some ep \<and>
          (\<forall>m. n < m \<and> m \<le> length parts \<longrightarrow> served S (take m parts) = None)) \<longleftrightarrow> ep' = ep"
        using Some len by (metis le_neq_implies_less le_refl not_less option.distinct(1) option.inject take_all)
      then show ?thesis using ne Some by (subst ep_loop.simps) simp
    next
      case None
      have t: "take n (butlast parts) = take n parts" if "n < length parts" for n
        using that by (simp add: take_butlast)
      have "ep_loop S parts = ep_loop S (butlast parts)"
        using ne None by (subst ep_loop.simps) simp
      moreover have "(\<exists>n. 0 < n \<and> n \<le> length (butlast parts) \<and>
            served S (take n (butlast parts)) = Some ep \<and>
            (\<forall>m. n < m \<and> m \<le> length (butlast parts) \<longrightarrow> served S (take m (butlast parts)) = None)) \<longleftrightarrow>
          (\<exists>n. 0 < n \<and> n \<le> length parts \<and> served S (take n parts) = Some ep \<and>
            (\<forall>m. n < m \<and> m \<le> length parts \<longrightarrow> served S (take m parts) = None))"
        (is "?l \<longleftrightarrow> ?r")
      proof
        assume ?l
        then obtain n where n: "0 < n" "n \<le> length parts - 1"
          "served S (take n (butlast parts)) = Some ep"
          "\<forall>m. n < m \<and> m \<le> length parts - 1 \<longrightarrow> served S (take m (butlast parts)) = None"
          by auto
        have "served S (take m parts) = None" if "n < m" "m \<le> length parts" for m
        proof (cases "m = length parts")
          case False
          with that have "m < length parts" by simp
          with n(4) that t [of m] show ?thesis by auto
        qed (use None in simp)
        moreover have "n < length parts" using n(2) len by linarith
        ultimately show ?r using n t [of n] by (intro exI [of _ n]) auto
      next
        assume ?r
        then obtain n where n: "0 < n" "n \<le> length parts" "served S (take n parts) = Some ep"
          "\<forall>m. n < m \<and> m \<le> length parts \<longrightarrow> served S (take m parts) = None" by blast
        then have "n < length parts" using None by (cases "n = length parts") auto
        with n t len show ?l by (intro exI [of _ n]) auto
      qed
      ultimately show ?thesis using 1 [OF ne None] by simp
    qed
  qed
qed

lemma squeeze_api: "HasPrefix (squeeze_slashes (''/api/'' @ p)) ''/api/''"
  by (cases p) (simp_all add: HasPrefix_def)

lemma lower_api: "HasPrefix p ''/api/'' \<Longrightarrow> HasPrefix (ToLower p) ''/api/''"
proof -
  assume "HasPrefix p ''/api/''"
  then have "take 5 p = ''/api/''" by (simp add: HasPrefix_def numeral_eq_Suc)
  then have "take 5 (ToLower p) = ToLower ''/api/''" by (simp add: ToLower_def take_map)
  also have "ToLower ''/api/'' = ''/api/''" by code_simp
  finally show ?thesis by (simp add: HasPrefix_def numeral_eq_Suc)
qed

lemma IsAttacker_mono: "attackers \<subseteq> snd (IsAttacker d S path addr attackers)"
  by (auto simp: IsAttacker_def Let_def split: option.splits)

lemma attack_run_mono: "attackers \<subseteq> attack_run d S reqs attackers"
proof (induction reqs arbitrary: attackers)
  case Nil
  then show ?case by (simp add: attack_run_def)
next
  case (Cons r reqs)
  obtain path addr where r: "r = (path, addr)" by force
  show ?case
    using Cons [of "snd (IsAttacker d S path addr attackers)"] IsAttacker_mono [of attackers d S path addr]
    by (auto simp: attack_run_def r)
qed


section \<open>Properties\<close>

text \<open>
  (C38) The most specific service wins: for any path but the root \<open>EpByPath\<close> answers with the
  service of the longest non-empty prefix of the path's segments that is served, and with
  nothing exactly when no prefix is.
\<close>

theorem EpByPath_longest:
  assumes "path \<noteq> ''/''"
  shows "EpByPath S path = Some ep \<longleftrightarrow>
    (\<exists>n. 0 < n \<and> n \<le> length (path_parts path) \<and> served S (take n (path_parts path)) = Some ep \<and>
       (\<forall>m. n < m \<and> m \<le> length (path_parts path) \<longrightarrow> served S (take m (path_parts path)) = None))"
  using assms ep_loop_Some [of S "path_parts path" ep] by (simp add: EpByPath_def)

definition demo_endpoint :: "string \<Rightarrow> endpoint" where
  "demo_endpoint path = \<lparr>ep_path = path, ep_pattern = [], ep_is_file_serve = False, ep_doc_root = [],
     ep_fn = Some (Handler ''exam''), ep_pkg_name = [], ep_name = ''exam'', ep_domain_id = 0,
     ep_default_domain = 0, ep_access_level = [], ep_white_list = False\<rparr>"

theorem EpByPath_longest_witness:
  "EpByPath [''/api/exam'' \<mapsto> demo_endpoint ''a'', ''/api/exam/lock/'' \<mapsto> demo_endpoint ''b'']
     ''/api/exam//lock/7'' = Some (demo_endpoint ''b'')"
proof -
  have p: "path_parts ''/api/exam//lock/7'' = [''api'', ''exam'', ''lock'', ''7'']" by code_simp
  show ?thesis
    by (subst EpByPath_longest)
      (simp, unfold p, rule exI [of _ 3], auto simp: served_def path_of_def numeral_3_eq_3
        less_Suc_eq_le le_Suc_eq)
qed

text \<open>
  The table only grows by the service it was asked for: an error leaves it alone, and
  without one the service stands under a path that was free, below \<open>/api/\<close> unless it serves
  files, with its defaults filled in, and every other path keeps its service.
\<close>

lemma AddService_extends:
  "(case AddService compiles pkg_name epo S of
      (Some err, epo', S') \<Rightarrow> S' = S
    | (None, epo', S') \<Rightarrow>
        (\<exists>ep'. epo' = Some ep' \<and> S (ep_path ep') = None \<and> S' = S(ep_path ep' \<mapsto> ep') \<and>
           ep_fn ep' \<noteq> None \<and> ep_domain_id ep' \<noteq> 0 \<and> ep_access_level ep' \<noteq> [] \<and>
           (ep_is_file_serve ep' \<or> HasPrefix (ToLower (ep_path ep')) ''/api/'')))"
  using lower_api [OF squeeze_api]
  by (auto simp: AddService_def add_fn_def add_defaults_def rIsAPI_def CDomainSys_def Let_def
      split: option.splits prod.splits if_splits)

text \<open>
  Once an attacker, always an attacker: after an address has asked for a path that nobody
  serves, and whatever requests come in between, every later request of that address is
  judged an attack while the defence is on.
\<close>

lemma attacker_stays:
  assumes "path \<noteq> []" and "EpByPath S path = None" and "host_of addr = Some host"
    and "path' \<noteq> []" and "host_of addr' = Some host"
  shows "ac_is_attacker (fst (IsAttacker True S path' addr'
    (attack_run d' S reqs (snd (IsAttacker d S path addr attackers)))))"
proof -
  have ne: "addr \<noteq> []" "addr' \<noteq> []"
    using assms(3,5) by (auto simp: host_of_def last_index_of_def)
  then have "host \<in> snd (IsAttacker d S path addr attackers)"
    using assms(1,2,3) by (simp add: IsAttacker_def Let_def)
  then have "host \<in> attack_run d' S reqs (snd (IsAttacker d S path addr attackers))"
    using attack_run_mono by blast
  then show ?thesis using ne assms(4,5) by (simp add: IsAttacker_def Let_def)
qed

lemma attacker_stays_witness:
  "ac_is_attacker (fst (IsAttacker True [''/api'' \<mapsto> demo_endpoint ''/api''] ''/api'' ''10.0.0.1:99''
     (attack_run False [''/api'' \<mapsto> demo_endpoint ''/api''] [(''/api'', ''[::1]:80'')]
       (snd (IsAttacker False [''/api'' \<mapsto> demo_endpoint ''/api''] ''/wp-admin'' ''10.0.0.1:80'' {})))))"
proof (rule attacker_stays)
  have "path_parts ''/wp-admin'' = [''wp-admin'']" by code_simp
  then show "EpByPath [''/api'' \<mapsto> demo_endpoint ''/api''] ''/wp-admin'' = None"
    by (simp add: EpByPath_def ep_loop.simps served_def path_of_def)
  show "host_of ''10.0.0.1:80'' = Some ''10.0.0.1''" "host_of ''10.0.0.1:99'' = Some ''10.0.0.1''"
    by code_simp+
qed simp_all

end
