(* ===== verification/Lock_Handlers.thy ===== *)
theory Lock_Handlers
  imports Redis_Lock Service_Context Exam_Schema
begin

text \<open>
  The edit-lock endpoints of the question bank (\<open>QuestionLock\<close>), the papers (\<open>PaperLock\<close>) and
  the exams (\<open>examLock\<close>): \<open>GET\<close> takes the lock, \<open>PUT\<close> renews it, \<open>DELETE\<close> gives it back, and the
  permission check of the last one. A handler works on the request context and the store of
  Redis. \<open>force\<close> are the test hooks of the request (none in production), \<open>d\<close> the fate of the one
  request to Redis.
\<close>

datatype edit_error =
    Invalid_user int
  | Invalid_number string
  | Invalid_id int
  | Lock_failed lock_error
  | Forced string
  | Unsupported_method string
  | Authority_failed
  | Invalid_user_or_exam int int
  | Permission_query_failed
  | Permission_forced
  | No_permission
  | Edited_by_other

definition QuestionLockPrefix :: string where "QuestionLockPrefix = ''question_lock:''"
definition QuestionLockExpiration :: int where "QuestionLockExpiration = 30 * 60 * second"
definition paper_LOCK_PREFIX :: string where "paper_LOCK_PREFIX = ''paper_lock:''"
definition paper_LOCK_EXPIRATION :: int where "paper_LOCK_EXPIRATION = 5 * 60 * second"
definition exam_LOCK_PREFIX :: string where "exam_LOCK_PREFIX = ''exam_lock:''"
definition exam_LOCK_EXPIRATION :: int where "exam_LOCK_EXPIRATION = 5 * 60 * second"

type_synonym ctx = "edit_error service_ctx"
type_synonym env = "edit_error service_env"

definition say :: "string \<Rightarrow> edit_error reply_proto \<Rightarrow> edit_error reply_proto" where
  "say text m = m\<lparr>rp_msg := Lit text\<rparr>"

definition say_success :: "edit_error reply_proto \<Rightarrow> edit_error reply_proto" where
  "say_success m = m\<lparr>rp_msg := Lit ''success'', rp_status := 0\<rparr>"

text \<open>The error of a call, or the one a test hook puts in its place.\<close>

definition forced_err :: "(string \<Rightarrow> bool) \<Rightarrow> string \<Rightarrow> lock_error + 'a \<Rightarrow> edit_error option" where
  "forced_err force name r =
    (if force name then Some (Forced name)
     else (case r of Inl e \<Rightarrow> Some (Lock_failed e) | Inr _ \<Rightarrow> None))"

definition reply_result :: "env \<Rightarrow> (edit_error reply_proto \<Rightarrow> edit_error reply_proto) \<Rightarrow>
    edit_error option \<Rightarrow> ctx \<Rightarrow> ctx" where
  "reply_result E f err c = (case err of Some e \<Rightarrow> reply_error E e c | None \<Rightarrow> reply_ok E f c)"

section \<open>Questions\<close>

definition QuestionLock ::
    "env \<Rightarrow> 's redis \<Rightarrow> (string \<Rightarrow> bool) \<Rightarrow> delivery \<Rightarrow> string \<Rightarrow> string \<Rightarrow> null_int \<Rightarrow> ctx \<Rightarrow> 's \<Rightarrow> ctx \<times> 's" where
  "QuestionLock E R force d httpMethod questionIDStr sysUserID c s =
    (let userID = Int64 sysUserID; method = ToLower httpMethod in
     if userID \<le> 0 then (reply_error E (Invalid_user userID) c, s)
     else if method \<notin> {''get'', ''put'', ''delete''} then (reply_error E (Unsupported_method method) c, s)
     else (case ParseInt64 questionIDStr of
             None \<Rightarrow> (reply_error E (Invalid_number questionIDStr) c, s)
           | Some questionID \<Rightarrow>
               if questionID \<le> 0 then (reply_error E (Invalid_id questionID) c, s)
               else if method = ''get''
               then (case TryLock R d questionID userID QuestionLockPrefix QuestionLockExpiration s of
                       (r, s') \<Rightarrow> (reply_result E say_success (forced_err force ''cmn.TryLock'' r) c, s'))
               else if method = ''put''
               then (case RefreshLock R d questionID userID QuestionLockPrefix QuestionLockExpiration s of
                       (r, s') \<Rightarrow> (reply_result E say_success (forced_err force ''cmn.RefreshLock'' r) c, s'))
               else (case ReleaseLock R d questionID userID QuestionLockPrefix s of
                       (r, s') \<Rightarrow> (reply_result E say_success (forced_err force ''cmn.ReleaseLock'' r) c, s'))))"

section \<open>Papers\<close>

text \<open>
  An id that is not positive is answered with an error, but the branch does not return: the
  lock function is called all the same, and its outcome is answered a second time.
\<close>

definition paper_id_check :: "env \<Rightarrow> int \<Rightarrow> ctx \<Rightarrow> ctx" where
  "paper_id_check E paperID c = (if paperID \<le> 0 then reply_error E (Invalid_id paperID) c else c)"

definition PaperLock ::
    "env \<Rightarrow> 's redis \<Rightarrow> delivery \<Rightarrow> string \<Rightarrow> string \<Rightarrow> null_int \<Rightarrow> ctx \<Rightarrow> 's \<Rightarrow> ctx \<times> 's" where
  "PaperLock E R d httpMethod paperIDStr sysUserID c s =
    (let userID = Int64 sysUserID; method = ToLower httpMethod in
     if userID \<le> 0 then (reply_error E (Invalid_user userID) c, s)
     else if method \<notin> {''get'', ''put'', ''delete''} then (reply_error E (Unsupported_method method) c, s)
     else (case ParseInt64 paperIDStr of
             None \<Rightarrow> (reply_error E (Invalid_number paperIDStr) c, s)
           | Some paperID \<Rightarrow>
               let c1 = paper_id_check E paperID c in
               if method = ''get''
               then (case TryLock R d paperID userID paper_LOCK_PREFIX paper_LOCK_EXPIRATION s of
                       (r, s') \<Rightarrow> (reply_result E say_success (forced_err (\<lambda>_. False) [] r) c1, s'))
               else if method = ''put''
               then (case RefreshLock R d paperID userID paper_LOCK_PREFIX paper_LOCK_EXPIRATION s of
                       (r, s') \<Rightarrow> (reply_result E say_success (forced_err (\<lambda>_. False) [] r) c1, s'))
               else (case ReleaseLock R d paperID userID paper_LOCK_PREFIX s of
                       (r, s') \<Rightarrow> (reply_result E say_success (forced_err (\<lambda>_. False) [] r) c1, s'))))"

section \<open>Exams\<close>

text \<open>
  Who may open an exam: a student who is enrolled in one of its sessions, or a member of the
  staff if the exam belongs to a domain within reach. \<open>test\<close> is the value of the context key
  \<open>test\<close>, if it is set.
\<close>

definition student_enrolled :: "exam_db \<Rightarrow> int \<Rightarrow> int \<Rightarrow> bool" where
  "student_enrolled db examID userID \<longleftrightarrow>
     list_ex (\<lambda>e. ex_student_id e = userID \<and> ex_status e \<noteq> ''08'' \<and>
        list_ex (\<lambda>s. es_id s = ex_session_id e \<and> es_exam_id s = examID \<and>
           es_status s \<notin> {''00'', ''14''}) (exam_sessions db)) (examinees db)"

definition exam_in_domains :: "exam_db \<Rightarrow> int \<Rightarrow> int list \<Rightarrow> bool" where
  "exam_in_domains db examID domains \<longleftrightarrow>
     list_ex (\<lambda>x. ei_id x = examID \<and>
        (case ei_domain_id x of None \<Rightarrow> False | Some i \<Rightarrow> i \<in> set domains)) (exam_infos db)"

definition validateUserExamPermission ::
    "(string \<Rightarrow> bool) \<Rightarrow> string option \<Rightarrow> bool \<Rightarrow> exam_db \<Rightarrow> int \<Rightarrow> int \<Rightarrow> string \<Rightarrow> int list \<Rightarrow>
      edit_error + bool" where
  "validateUserExamPermission force test query_ok db userID examID domain domains =
    (if test = Some ''normal-resp'' then Inr True
     else if test = Some ''validateUserExamPermission-false'' then Inr False
     else if test = Some ''validateUserExamPermission-error'' then Inl Permission_forced
     else if userID \<le> 0 \<or> examID \<le> 0 then Inl (Invalid_user_or_exam userID examID)
     else if Contains domain ''^student''
     then if \<not> query_ok \<or> force ''conn.QueryRow'' then Inl Permission_query_failed
          else Inr (student_enrolled db examID userID)
     else if Contains domain ''^admin'' \<or> Contains domain ''^superAdmin'' \<or> Contains domain ''^teacher''
     then if \<not> query_ok \<or> force ''conn.QueryRow'' then Inl Permission_query_failed
          else Inr (exam_in_domains db examID domains)
     else Inr False)"

text \<open>The texts of the exam endpoint, in UTF-8: the lock was taken, renewed, given back.\<close>

definition msg_lock_taken :: string where
  "msg_lock_taken = bytes
    [230, 136, 144, 229, 138, 159, 232, 142, 183, 229, 143, 150, 232, 128, 131, 232, 175, 149, 233, 148, 129]"

definition msg_lock_renewed :: string where
  "msg_lock_renewed = bytes
    [230, 136, 144, 229, 138, 159, 229, 136, 183, 230, 150, 176, 232, 128, 131, 232, 175, 149, 233, 148, 129]"

definition msg_lock_released :: string where
  "msg_lock_released = bytes
    [230, 136, 144, 229, 138, 159, 230, 184, 133, 233, 153, 164, 232, 128, 131, 232, 175, 149, 233, 148, 129]"

text \<open>
  \<open>authority\<close> is what \<open>GetUserAuthority\<close> answered: the domain of the user's role and the domains
  within reach.
\<close>

definition examLock_do ::
    "env \<Rightarrow> 's redis \<Rightarrow> (string \<Rightarrow> bool) \<Rightarrow> delivery \<Rightarrow> string \<Rightarrow> int \<Rightarrow> int \<Rightarrow> ctx \<Rightarrow> 's \<Rightarrow> ctx \<times> 's" where
  "examLock_do E R force d method examID userID c s =
    (if method = ''get''
     then (case TryLock R d examID userID exam_LOCK_PREFIX exam_LOCK_EXPIRATION s of
             (r, s') \<Rightarrow>
               (case forced_err force ''cmn.TryLock'' r of
                  Some e \<Rightarrow> (reply_error E e c, s')
                | None \<Rightarrow>
                    if force ''cmn.TryLockFailed'' \<or> r \<noteq> Inr True
                    then (reply_error E Edited_by_other c, s')
                    else (reply_ok E (say msg_lock_taken) c, s')))
     else if method = ''put''
     then (case RefreshLock R d examID userID exam_LOCK_PREFIX exam_LOCK_EXPIRATION s of
             (r, s') \<Rightarrow> (reply_result E (say msg_lock_renewed) (forced_err force ''cmn.RefreshLock'' r) c, s'))
     else if method = ''delete''
     then (case ReleaseLock R d examID userID exam_LOCK_PREFIX s of
             (r, s') \<Rightarrow> (reply_result E (say msg_lock_released) (forced_err force ''cmn.ReleaseLock'' r) c, s'))
     else (reply_error E (Unsupported_method method) c, s))"

definition examLock ::
    "env \<Rightarrow> 's redis \<Rightarrow> (string \<Rightarrow> bool) \<Rightarrow> string option \<Rightarrow> bool \<Rightarrow> exam_db \<Rightarrow> (string \<times> int list) option \<Rightarrow>
      delivery \<Rightarrow> string \<Rightarrow> string \<Rightarrow> null_int \<Rightarrow> ctx \<Rightarrow> 's \<Rightarrow> ctx \<times> 's" where
  "examLock E R force test query_ok db authority d httpMethod examIDStr sysUserID c s =
    (let userID = Int64 sysUserID in
     if userID \<le> 0 then (reply_error E (Invalid_user userID) c, s)
     else if force ''auth_mgt.GetUserAuthority'' then (reply_error E Authority_failed c, s)
     else (case authority of
             None \<Rightarrow> (reply_error E Authority_failed c, s)
           | Some (userDomain, domains) \<Rightarrow>
               (case ParseInt64 examIDStr of
                  None \<Rightarrow> (reply_error E (Invalid_number examIDStr) c, s)
                | Some examID \<Rightarrow>
                    if examID \<le> 0 then (reply_error E (Invalid_number examIDStr) c, s)
                    else if force ''validateUserExamPermission'' then (reply_error E Permission_forced c, s)
                    else (case validateUserExamPermission force test query_ok db userID examID userDomain domains of
                            Inl e \<Rightarrow> (reply_error E e c, s)
                          | Inr hasPermission \<Rightarrow>
                              if force ''validateUserExamPermissionFailed'' \<or> \<not> hasPermission
                              then (reply_error E No_permission c, s)
                              else examLock_do E R force d (ToLower httpMethod) examID userID c s))))"

section \<open>The contract of a lock endpoint\<close>

text \<open>
  What the three handlers share: whatever else they do, the store goes through at most one
  lock operation, of the user who sends the request, on a key of the endpoint's own prefix.
\<close>

definition own_op :: "'s redis \<Rightarrow> string \<Rightarrow> int \<Rightarrow> 's \<Rightarrow> 's \<Rightarrow> bool" where
  "own_op R p h s s' \<longleftrightarrow> s' = s \<or>
    (\<exists>op rid. op_holder op = Some h \<and> op_key op = Some (lock_key p rid) \<and> op_time op = 0 \<and>
       s' = lock_step R op s)"

lemma own_op_intros [simp, intro]:
  "own_op R p h s s"
  "own_op R p h s (snd (TryLock R d rid h p e s))"
  "own_op R p h s (snd (RefreshLock R d rid h p e s))"
  "own_op R p h s (snd (ReleaseLock R d rid h p s))"
  unfolding own_op_def
     apply blast
    apply (rule disjI2, rule exI [of _ "Op_try d rid h p e"], simp, blast)
   apply (rule disjI2, rule exI [of _ "Op_refresh d rid h p e"], simp, blast)
  apply (rule disjI2, rule exI [of _ "Op_release d rid h p"], simp, blast)
  done

lemma own_op_spec:
  assumes "redis_laws R" and "own_op R p h s s'"
  shows "lease_of R s' = lease_of R s \<or>
    (\<exists>op rid. op_holder op = Some h \<and> op_key op = Some (lock_key p rid) \<and> op_time op = 0 \<and>
       lease_of R s' = spec_step op (lease_of R s))"
  using assms(2) lock_step_refines [OF assms(1)] unfolding own_op_def by (metis order_refl)

lemma spec_step_others:
  assumes "m k = Some (sprint_d h', t)" and "op_holder op = Some h" and "h' \<noteq> h"
  shows "spec_step op m k = Some (sprint_d h', t)"
  using assms by (cases op) (auto simp: held_by_def)

lemma spec_step_other_key:
  assumes "op_key op = Some k'" and "k \<noteq> k'"
  shows "spec_step op m k = m k"
  using assms by (cases op) auto

locale lock_endpoint =
  fixes endpoint :: "'q \<Rightarrow> null_int \<Rightarrow> ctx \<Rightarrow> 's \<Rightarrow> ctx \<times> 's"
    and R :: "'s redis"
    and prefix_str :: string
  assumes own: "own_op R prefix_str (Int64 u) s (snd (endpoint q u c s))"
begin

lemma keeps_others:
  assumes "redis_laws R" and "lease_of R s k = Some (sprint_d h, t)" and "h \<noteq> Int64 u"
  shows "lease_of R (snd (endpoint q u c s)) k = Some (sprint_d h, t)"
  using own_op_spec [OF assms(1) own] spec_step_others assms(2,3) by metis

lemma keeps_other_keys:
  assumes "redis_laws R" and "\<And>rid. k \<noteq> lock_key prefix_str rid"
  shows "lease_of R (snd (endpoint q u c s)) k = lease_of R s k"
  using own_op_spec [OF assms(1) own] spec_step_other_key assms(2) by metis

end

text \<open>The request of the exam endpoint, and of the two others.\<close>

type_synonym question_req = "env \<times> (string \<Rightarrow> bool) \<times> delivery \<times> string \<times> string"
type_synonym paper_req = "env \<times> delivery \<times> string \<times> string"
type_synonym exam_req = "env \<times> (string \<Rightarrow> bool) \<times> string option \<times> bool \<times> exam_db \<times>
    (string \<times> int list) option \<times> delivery \<times> string \<times> string"

definition question_endpoint :: "'s redis \<Rightarrow> question_req \<Rightarrow> null_int \<Rightarrow> ctx \<Rightarrow> 's \<Rightarrow> ctx \<times> 's" where
  "question_endpoint R q u c s =
    (case q of (E, force, d, m, i) \<Rightarrow> QuestionLock E R force d m i u c s)"

definition paper_endpoint :: "'s redis \<Rightarrow> paper_req \<Rightarrow> null_int \<Rightarrow> ctx \<Rightarrow> 's \<Rightarrow> ctx \<times> 's" where
  "paper_endpoint R q u c s = (case q of (E, d, m, i) \<Rightarrow> PaperLock E R d m i u c s)"

definition exam_endpoint :: "'s redis \<Rightarrow> exam_req \<Rightarrow> null_int \<Rightarrow> ctx \<Rightarrow> 's \<Rightarrow> ctx \<times> 's" where
  "exam_endpoint R q u c s =
    (case q of (E, force, test, ok, db, a, d, m, i) \<Rightarrow>
       examLock E R force test ok db a d m i u c s)"

lemma snd_case: "snd (case x of (r, s') \<Rightarrow> (f r, s')) = snd x"
  by (simp split: prod.splits)

lemma QuestionLock_own:
  "own_op R QuestionLockPrefix (Int64 u) s (snd (QuestionLock E R force d m i u c s))"
  by (simp add: QuestionLock_def Let_def snd_case split: option.split)

lemma PaperLock_own:
  "own_op R paper_LOCK_PREFIX (Int64 u) s (snd (PaperLock E R d m i u c s))"
  by (simp add: PaperLock_def Let_def snd_case split: option.split)

lemma examLock_do_store:
  "snd (examLock_do E R force d m rid h c s) =
    (if m = ''get'' then snd (TryLock R d rid h exam_LOCK_PREFIX exam_LOCK_EXPIRATION s)
     else if m = ''put'' then snd (RefreshLock R d rid h exam_LOCK_PREFIX exam_LOCK_EXPIRATION s)
     else if m = ''delete'' then snd (ReleaseLock R d rid h exam_LOCK_PREFIX s) else s)"
  by (simp add: examLock_do_def snd_case split: prod.splits option.splits)

lemma examLock_own:
  "own_op R exam_LOCK_PREFIX (Int64 u) s (snd (examLock E R force test ok db a d m i u c s))"
  by (simp add: examLock_def Let_def examLock_do_store split: option.split sum.split prod.split)

interpretation question_ep: lock_endpoint "question_endpoint R" R QuestionLockPrefix for R
  by unfold_locales (simp add: question_endpoint_def QuestionLock_own split: prod.split)

interpretation paper_ep: lock_endpoint "paper_endpoint R" R paper_LOCK_PREFIX for R
  by unfold_locales (simp add: paper_endpoint_def PaperLock_own split: prod.split)

interpretation exam_ep: lock_endpoint "exam_endpoint R" R exam_LOCK_PREFIX for R
  by unfold_locales (simp add: exam_endpoint_def examLock_own split: prod.split)


section \<open>What the client is told\<close>

text \<open>A context as the server hands it to a handler.\<close>

definition fresh_ctx :: "ctx \<Rightarrow> bool" where
  "fresh_ctx c \<longleftrightarrow> sc_out c = [] \<and> \<not> sc_responded c \<and> sc_has_writer c \<and> sc_err c = None \<and>
     (\<exists>m. sc_msg c = Some m \<and> rp_data m = [] \<and> rp_status m = 0)"

definition told_ok :: "ctx \<Rightarrow> bool" where
  "told_ok c \<longleftrightarrow> (\<exists>b. sc_out c = [As_argument b])"

definition told_error :: "ctx \<Rightarrow> edit_error \<Rightarrow> bool" where
  "told_error c e \<longleftrightarrow> (\<exists>b m. sc_out c = [As_format b] \<and> sc_msg c = Some m \<and>
     rp_msg m = Of_error (App e) \<and> rp_status m = -1)"

lemma reply_ok_told:
  assumes "fresh_ctx c" and "\<And>m. se_marshal E m \<noteq> None" and "\<And>m. rp_data (f m) = rp_data m"
  shows "told_ok (reply_ok E f c) \<and> sc_responded (reply_ok E f c)"
proof -
  obtain m where m: "sc_msg c = Some m" "rp_data m = []" using assms(1) by (auto simp: fresh_ctx_def)
  obtain buf where "se_marshal E (f m) = Some buf" using assms(2) by blast
  then show ?thesis
    using m assms(1,3) by (auto simp: reply_ok_def Resp_def told_ok_def fresh_ctx_def)
qed

lemma reply_error_told:
  assumes "fresh_ctx c" and "\<And>m. se_marshal E m \<noteq> None"
  shows "told_error (reply_error E e c) e \<and> sc_responded (reply_error E e c)"
proof -
  obtain m where m: "sc_msg c = Some m" "rp_data m = []" "rp_status m = 0"
    using assms(1) by (auto simp: fresh_ctx_def)
  obtain buf where "se_marshal E (m\<lparr>rp_msg := Of_error (App e), rp_status := -1\<rparr>) = Some buf"
    using assms(2) by blast
  then show ?thesis
    using m assms(1)
    by (auto simp: reply_error_def RespErr_def told_error_def fresh_ctx_def err_message_def
        close_ctx_def send_err_def go_div_def Let_def)
qed

lemma told_error_not_ok [simp]: "told_error c e \<Longrightarrow> \<not> told_ok c"
  by (auto simp: told_error_def told_ok_def)

lemma reply_error_not_ok:
  assumes "fresh_ctx c" and "\<And>m. se_marshal E m \<noteq> None"
  shows "\<not> told_ok (reply_error E e c)"
  using reply_error_told [OF assms, of e] told_error_not_ok by blast

lemma say_data [simp]: "rp_data (say t m) = rp_data m" "rp_data (say_success m) = rp_data m"
  by (simp_all add: say_def say_success_def)

text \<open>Taking the lock, by what the abstract lock says.\<close>

lemma TryLock_cases:
  assumes "redis_laws R"
  obtains (got) s' where "spec_ok (Op_try d rid h p e) (lease_of R s)"
      "TryLock R d rid h p e s = (Inr True, s')"
      "lease_of R s' = (lease_of R s)(lock_key p rid := new_lease h (try_seconds e))"
  | (refused) err s' where "\<not> spec_ok (Op_try d rid h p e) (lease_of R s)"
      "TryLock R d rid h p e s = (Inl err, s')"
proof -
  obtain r s' where t: "TryLock R d rid h p e s = (r, s')" by force
  have ok: "(r = Inr True) = spec_ok (Op_try d rid h p e) (lease_of R s)"
    using lock_ok_refines [OF assms, of "Op_try d rid h p e" s] t by simp
  show thesis
  proof (cases r)
    case (Inl err)
    then show thesis using refused ok t by auto
  next
    case (Inr b)
    have "b" "lease_of R s' = (lease_of R s)(lock_key p rid := new_lease h (try_seconds e))"
      using TryLock_Inr [OF assms, of d rid h p e s b s'] t Inr by auto
    then show thesis using got ok t Inr by simp
  qed
qed

lemma told_result_ok:
  assumes "fresh_ctx c" and "\<And>m. se_marshal E m \<noteq> None"
  shows "told_ok (reply_result E say_success err c) \<longleftrightarrow> err = None"
  using reply_ok_told [OF assms, of say_success] reply_error_not_ok [OF assms]
  by (auto simp: reply_result_def split: option.splits)

lemma QuestionLock_get:
  assumes "redis_laws R" and "fresh_ctx c" and "\<And>m. se_marshal E m \<noteq> None"
    and "ToLower m = ''get''" and "ParseInt64 i = Some rid"
    and "QuestionLock E R (\<lambda>_. False) d m i u c s = (c', s')"
  shows "(told_ok c' \<longleftrightarrow> spec_ok (Op_try d rid (Int64 u) QuestionLockPrefix QuestionLockExpiration) (lease_of R s)) \<and>
    (told_ok c' \<longrightarrow> lease_of R s' (lock_key QuestionLockPrefix rid) =
       new_lease (Int64 u) (try_seconds QuestionLockExpiration))"
proof (cases "Int64 u \<le> 0 \<or> rid \<le> 0")
  case True
  then show ?thesis
    using assms(4-6) reply_error_not_ok [OF assms(2,3)] by (auto simp: QuestionLock_def Let_def split: if_splits)
next
  case False
  then have run: "(c', s') = (case TryLock R d rid (Int64 u) QuestionLockPrefix QuestionLockExpiration s of
      (r, s') \<Rightarrow> (reply_result E say_success (forced_err (\<lambda>_. False) ''cmn.TryLock'' r) c, s'))"
    using assms(4-6) by (simp add: QuestionLock_def Let_def)
  from assms(1) show ?thesis
    by (cases rule: TryLock_cases [where d = d and rid = rid and h = "Int64 u" and
          p = QuestionLockPrefix and e = QuestionLockExpiration and s = s])
      (use run told_result_ok [OF assms(2,3)] in \<open>auto simp: forced_err_def simp del: spec_ok.simps\<close>)
qed

lemma PaperLock_get:
  assumes "redis_laws R" and "fresh_ctx c" and "\<And>m. se_marshal E m \<noteq> None"
    and "ToLower m = ''get''" and "ParseInt64 i = Some rid" and "0 < rid"
    and "PaperLock E R d m i u c s = (c', s')"
  shows "(told_ok c' \<longleftrightarrow> spec_ok (Op_try d rid (Int64 u) paper_LOCK_PREFIX paper_LOCK_EXPIRATION) (lease_of R s)) \<and>
    (told_ok c' \<longrightarrow> lease_of R s' (lock_key paper_LOCK_PREFIX rid) =
       new_lease (Int64 u) (try_seconds paper_LOCK_EXPIRATION))"
proof (cases "Int64 u \<le> 0")
  case True
  then show ?thesis
    using assms(4-7) reply_error_not_ok [OF assms(2,3)] by (auto simp: PaperLock_def Let_def)
next
  case False
  then have run: "(c', s') = (case TryLock R d rid (Int64 u) paper_LOCK_PREFIX paper_LOCK_EXPIRATION s of
      (r, s') \<Rightarrow> (reply_result E say_success (forced_err (\<lambda>_. False) [] r) c, s'))"
    using assms(4-7) by (simp add: PaperLock_def paper_id_check_def Let_def)
  from assms(1) show ?thesis
    by (cases rule: TryLock_cases [where d = d and rid = rid and h = "Int64 u" and
          p = paper_LOCK_PREFIX and e = paper_LOCK_EXPIRATION and s = s])
      (use run told_result_ok [OF assms(2,3)] in \<open>auto simp: forced_err_def simp del: spec_ok.simps\<close>)
qed

text \<open>For an exam the permission comes first.\<close>

lemma examLock_get:
  assumes "redis_laws R" and "fresh_ctx c" and "\<And>m. se_marshal E m \<noteq> None"
    and "ToLower m = ''get''" and "ParseInt64 i = Some rid"
    and "examLock E R (\<lambda>_. False) test ok db (Some (role, reach)) d m i u c s = (c', s')"
  shows "(told_ok c' \<longleftrightarrow>
      spec_ok (Op_try d rid (Int64 u) exam_LOCK_PREFIX exam_LOCK_EXPIRATION) (lease_of R s) \<and>
      validateUserExamPermission (\<lambda>_. False) test ok db (Int64 u) rid role reach = Inr True) \<and>
    (told_ok c' \<longrightarrow> lease_of R s' (lock_key exam_LOCK_PREFIX rid) =
       new_lease (Int64 u) (try_seconds exam_LOCK_EXPIRATION))"
proof (cases "Int64 u \<le> 0 \<or> rid \<le> 0 \<or>
    validateUserExamPermission (\<lambda>_. False) test ok db (Int64 u) rid role reach \<noteq> Inr True")
  case True
  then show ?thesis
    using assms(4-6) reply_error_not_ok [OF assms(2,3)]
    by (auto simp: examLock_def Let_def split: sum.splits if_splits)
next
  case False
  then have run: "(c', s') = examLock_do E R (\<lambda>_. False) d ''get'' rid (Int64 u) c s"
    using assms(4-6) by (simp add: examLock_def Let_def)
  from assms(1) show ?thesis
    by (cases rule: TryLock_cases [where d = d and rid = rid and h = "Int64 u" and
          p = exam_LOCK_PREFIX and e = exam_LOCK_EXPIRATION and s = s])
      (use run False reply_ok_told [OF assms(2,3)] reply_error_not_ok [OF assms(2,3)] in
        \<open>auto simp: examLock_do_def forced_err_def simp del: spec_ok.simps\<close>)
qed


text \<open>Keys of different kinds differ already in their first character.\<close>

lemma lock_keys_differ [simp]:
  "lock_key QuestionLockPrefix i \<noteq> lock_key paper_LOCK_PREFIX j"
  "lock_key QuestionLockPrefix i \<noteq> lock_key exam_LOCK_PREFIX j"
  "lock_key paper_LOCK_PREFIX i \<noteq> lock_key exam_LOCK_PREFIX j"
  "lock_key paper_LOCK_PREFIX i \<noteq> lock_key QuestionLockPrefix j"
  "lock_key exam_LOCK_PREFIX i \<noteq> lock_key QuestionLockPrefix j"
  "lock_key exam_LOCK_PREFIX i \<noteq> lock_key paper_LOCK_PREFIX j"
  by (simp_all add: lock_key_def QuestionLockPrefix_def paper_LOCK_PREFIX_def exam_LOCK_PREFIX_def)

lemmas keeps_others_all = question_ep.keeps_others [unfolded question_endpoint_def]
  paper_ep.keeps_others [unfolded paper_endpoint_def] exam_ep.keeps_others [unfolded exam_endpoint_def]

lemmas keeps_keys_all = question_ep.keeps_other_keys [unfolded question_endpoint_def]
  paper_ep.keeps_other_keys [unfolded paper_endpoint_def]
  exam_ep.keeps_other_keys [unfolded exam_endpoint_def]

section \<open>Properties\<close>

text \<open>
  (C36) Users cannot take each other's locks: whatever a user sends to the question, paper or
  exam lock endpoint, with any test hooks, parameters, permission answers and fate of the
  request to Redis, the lock somebody else holds keeps its holder and its remaining time; and
  the question endpoint never touches a paper's or an exam's lock, even of the user's own.
\<close>

theorem edit_locks_isolated:
  assumes "redis_laws R" and "lease_of R s k = Some (sprint_d h, t)" and "h \<noteq> Int64 u"
  shows "lease_of R (snd (QuestionLock E R force d m i u c s)) k = Some (sprint_d h, t) \<and>
    lease_of R (snd (PaperLock E R d m i u c s)) k = Some (sprint_d h, t) \<and>
    lease_of R (snd (examLock E R force test ok db a d m i u c s)) k = Some (sprint_d h, t) \<and>
    lease_of R (snd (QuestionLock E R force d m i u c s)) (lock_key paper_LOCK_PREFIX rid) =
      lease_of R s (lock_key paper_LOCK_PREFIX rid) \<and>
    lease_of R (snd (QuestionLock E R force d m i u c s)) (lock_key exam_LOCK_PREFIX rid) =
      lease_of R s (lock_key exam_LOCK_PREFIX rid)"
  using keeps_others_all(1) [OF assms, where q = "(E, force, d, m, i)" and c = c]
    keeps_others_all(2) [OF assms, where q = "(E, d, m, i)" and c = c]
    keeps_others_all(3) [OF assms, where q = "(E, force, test, ok, db, a, d, m, i)" and c = c]
    keeps_keys_all(1) [OF assms(1), where k = "lock_key paper_LOCK_PREFIX rid" and
        q = "(E, force, d, m, i)" and u = u and c = c and s = s]
    keeps_keys_all(1) [OF assms(1), where k = "lock_key exam_LOCK_PREFIX rid" and
        q = "(E, force, d, m, i)" and u = u and c = c and s = s]
  by simp

theorem edit_locks_isolated_witness:
  "lease_of kv_redis (snd (QuestionLock demo_env kv_redis (\<lambda>_. False) Reply_lost ''DELETE'' ''7'' (Some 1)
     demo_ctx [''question_lock:7'' \<mapsto> (sprint_d 2, Some 500)])) ''question_lock:7'' = Some (sprint_d 2, Some 500)"
  by (rule edit_locks_isolated [OF kv_laws, THEN conjunct1]) simp_all

text \<open>
  The answer is the truth: a \<open>GET\<close> to one of the three endpoints is answered with success
  exactly when the abstract lock grants it (to the staff or student with permission, for an
  exam), and then the user holds the lock for the endpoint's full time, 30 minutes for a
  question and 5 for a paper or an exam.
\<close>

lemma lock_granted_is_held:
  assumes "redis_laws R" and "fresh_ctx c" and "\<forall>m. se_marshal E m \<noteq> None"
    and "ToLower m = ''get''" and "ParseInt64 i = Some rid" and "0 < rid"
    and "QuestionLock E R (\<lambda>_. False) d m i u c s = (c1, s1)"
    and "PaperLock E R d m i u c s = (c2, s2)"
    and "examLock E R (\<lambda>_. False) test ok db (Some (role, reach)) d m i u c s = (c3, s3)"
  shows "(told_ok c1 \<longleftrightarrow> spec_ok (Op_try d rid (Int64 u) QuestionLockPrefix QuestionLockExpiration) (lease_of R s)) \<and>
    (told_ok c2 \<longleftrightarrow> spec_ok (Op_try d rid (Int64 u) paper_LOCK_PREFIX paper_LOCK_EXPIRATION) (lease_of R s)) \<and>
    (told_ok c3 \<longleftrightarrow> spec_ok (Op_try d rid (Int64 u) exam_LOCK_PREFIX exam_LOCK_EXPIRATION) (lease_of R s) \<and>
       validateUserExamPermission (\<lambda>_. False) test ok db (Int64 u) rid role reach = Inr True) \<and>
    (told_ok c1 \<longrightarrow> lease_of R s1 (lock_key QuestionLockPrefix rid) = Some (sprint_d (Int64 u), Some 1800000)) \<and>
    (told_ok c2 \<longrightarrow> lease_of R s2 (lock_key paper_LOCK_PREFIX rid) = Some (sprint_d (Int64 u), Some 300000)) \<and>
    (told_ok c3 \<longrightarrow> lease_of R s3 (lock_key exam_LOCK_PREFIX rid) = Some (sprint_d (Int64 u), Some 300000))"
proof -
  have m: "\<And>m. se_marshal E m \<noteq> None" using assms(3) by blast
  have t: "try_seconds QuestionLockExpiration = 1800" "try_seconds paper_LOCK_EXPIRATION = 300"
    "try_seconds exam_LOCK_EXPIRATION = 300"
    by (simp_all add: try_seconds_def whole_seconds_def QuestionLockExpiration_def
        paper_LOCK_EXPIRATION_def exam_LOCK_EXPIRATION_def second_def)
  show ?thesis
    using QuestionLock_get [OF assms(1,2) m assms(4,5,7)] PaperLock_get [OF assms(1,2) m assms(4-6,8)]
      examLock_get [OF assms(1,2) m assms(4,5,9)]
    by (simp add: t new_lease_def)
qed

lemma demo_fresh: "fresh_ctx demo_ctx"
  by (simp add: fresh_ctx_def demo_ctx_def)

lemma lock_granted_is_held_witness:
  "told_ok (fst (QuestionLock demo_env kv_redis (\<lambda>_. False) Answered ''GET'' ''7'' (Some 1) demo_ctx kv_empty)) \<longleftrightarrow>
   spec_ok (Op_try Answered 7 (Int64 (Some 1)) QuestionLockPrefix QuestionLockExpiration) (lease_of kv_redis kv_empty)"
proof -
  have m: "\<forall>m. se_marshal (demo_env :: env) m \<noteq> None" by (simp add: demo_env_def)
  have g: "ToLower ''GET'' = ''get''" "ParseInt64 ''7'' = Some 7" by code_simp+
  show ?thesis
    using lock_granted_is_held [OF kv_laws demo_fresh m g _ prod.collapse [symmetric]
        prod.collapse [symmetric] prod.collapse [symmetric]]
    by simp
qed

text \<open>
  A paper id that is not positive: the handler goes on after its error reply, but as long
  as no key for such an id exists, which \<open>TryLock\<close> never makes, the store stays as it is and
  the client still gets one reply, the error.
\<close>

lemma PaperLock_bad_id:
  assumes "fresh_ctx c" and "\<forall>m. se_marshal E m \<noteq> None" and "0 < Int64 u"
    and "ToLower m \<in> {''get'', ''put'', ''delete''}" and "ParseInt64 i = Some rid" and "rid \<le> 0"
    and "r_get R (lock_key paper_LOCK_PREFIX rid) s = None"
  shows "snd (PaperLock E R d m i u c s) = s \<and> told_error (fst (PaperLock E R d m i u c s)) (Invalid_id rid)"
proof -
  let ?c1 = "reply_error E (Invalid_id rid) c"
  have told: "told_error ?c1 (Invalid_id rid)" and resp: "sc_responded ?c1"
    using reply_error_told [OF assms(1)] assms(2) by blast+
  have again: "told_error (reply_error E e ?c1) (Invalid_id rid)" for e
    using told resp by (simp add: reply_error_def told_error_def)
  have t: "TryLock R d rid (Int64 u) paper_LOCK_PREFIX e s = (Inl ResourceID_not_positive, s)" for e
    using assms(6) by (simp add: TryLock_def)
  have rf: "\<exists>err. RefreshLock R d rid (Int64 u) paper_LOCK_PREFIX e s = (Inl err, s)" for e
    using assms(7) by (cases d) (simp_all add: RefreshLock_alt eval_script_def luaRefresh_def)
  have rl: "\<exists>err. ReleaseLock R d rid (Int64 u) paper_LOCK_PREFIX s = (Inl err, s)"
    using assms(7) by (cases d) (simp_all add: ReleaseLock_def eval_script_def luaUnlock_def)
  show ?thesis
    using assms(3-6) t rf [of paper_LOCK_EXPIRATION] rl again
    by (auto simp: PaperLock_def paper_id_check_def Let_def reply_result_def forced_err_def)
qed

lemma PaperLock_bad_id_witness:
  "snd (PaperLock demo_env kv_redis Answered ''PUT'' ''-3'' (Some 1) demo_ctx kv_empty) = kv_empty \<and>
   told_error (fst (PaperLock demo_env kv_redis Answered ''PUT'' ''-3'' (Some 1) demo_ctx kv_empty)) (Invalid_id (-3))"
proof (rule PaperLock_bad_id [OF demo_fresh])
  show "ToLower ''PUT'' \<in> {''get'', ''put'', ''delete''}" "ParseInt64 ''-3'' = Some (- 3)"
    by code_simp+
qed (simp_all add: demo_env_def kv_redis_def kv_empty_def)

end
