(* ===== verification/Go_Float.thy ===== *)
theory Go_Float
  imports Complex_Main Go_Prelude
begin

text \<open>
  Go's \<open>float64\<close> as far as the program computes with it: a finite value is the rational number
  it stands for, and a sum or a decoded literal is the nearest value with 53 significant bits
  and no bit below \<open>2^-1074\<close>, ties going to the even one. Infinities do not arise in scores
  and are left out, as is the sign of zero.
\<close>

section \<open>Rounding\<close>

fun bit_length :: "nat \<Rightarrow> nat" where
  "bit_length n = (if n = 0 then 0 else Suc (bit_length (n div 2)))"

declare bit_length.simps [simp del]

definition pow2 :: "int \<Rightarrow> rat" where
  "pow2 e = (if 0 \<le> e then 2 ^ nat e else 1 / 2 ^ nat (- e))"

definition round_even :: "rat \<Rightarrow> int" where
  "round_even x =
    (let f = \<lfloor>x\<rfloor>; d = x - of_int f
     in if d < 1 / 2 then f else if 1 / 2 < d then f + 1 else if even f then f else f + 1)"

text \<open>The exponent of the last significant bit.\<close>

definition f64_exp :: "rat \<Rightarrow> int" where
  "f64_exp x =
    (case quotient_of \<bar>x\<bar> of (p, q) \<Rightarrow>
       let k = int (bit_length (nat p)) - int (bit_length (nat q));
           e = (if pow2 k \<le> \<bar>x\<bar> then k - 52 else k - 53)
       in max e (-1074))"

definition f64_round :: "rat \<Rightarrow> rat" where
  "f64_round x =
    (if x = 0 then 0 else of_int (round_even (x / pow2 (f64_exp x))) * pow2 (f64_exp x))"

definition f64_add :: "rat \<Rightarrow> rat \<Rightarrow> rat" where
  "f64_add x y = f64_round (x + y)"

section \<open>Exact values\<close>

lemma pow2_powi: "pow2 e = 2 powi e"
  unfolding pow2_def power_int_def by (simp only: power_one_over inverse_eq_divide)

lemma pow2_pos [simp]: "0 < pow2 e" by (simp add: pow2_def)

lemma pow2_not_0 [simp]: "pow2 e \<noteq> 0" by (metis pow2_pos less_irrefl)

lemma abs_pow2 [simp]: "\<bar>pow2 e\<bar> = pow2 e" by (simp add: less_imp_le)

lemma pow2_add: "pow2 (a + b) = pow2 a * pow2 b"
  by (simp add: pow2_powi power_int_add)

lemma pow2_less_iff [simp]: "pow2 a < pow2 b \<longleftrightarrow> a < b"
proof
  show "pow2 a < pow2 b \<Longrightarrow> a < b"
    by (metis linorder_not_less pow2_powi power_int_increasing one_le_numeral)
  show "a < b \<Longrightarrow> pow2 a < pow2 b"
    by (simp add: pow2_powi power_int_strict_increasing)
qed

lemma pow2_nat: "0 \<le> e \<Longrightarrow> pow2 e = 2 ^ nat e" by (simp add: pow2_def)

lemma less_bit_length: "n < 2 ^ bit_length n"
proof (induction n rule: bit_length.induct)
  case (1 n)
  show ?case
  proof (cases "n = 0")
    case False
    with 1 have "n div 2 < 2 ^ bit_length (n div 2)" by simp
    then have "n < 2 * 2 ^ bit_length (n div 2)" by linarith
    then show ?thesis using False by (subst bit_length.simps) simp
  qed (simp add: bit_length.simps)
qed

lemma bit_length_le: "0 < n \<Longrightarrow> 2 ^ (bit_length n - 1) \<le> n"
proof (induction n rule: bit_length.induct)
  case (1 n)
  show ?case
  proof (cases "n div 2 = 0")
    case True
    then show ?thesis using 1 by (simp add: bit_length.simps)
  next
    case False
    then have "2 ^ (bit_length (n div 2) - 1) \<le> n div 2" "0 < bit_length (n div 2)"
      using 1 by (simp_all add: bit_length.simps [of "n div 2"])
    then have "2 * 2 ^ (bit_length (n div 2) - 1) \<le> n" by linarith
    then show ?thesis
      using 1(2) \<open>0 < bit_length (n div 2)\<close>
      by (subst bit_length.simps) (simp flip: power_Suc)
  qed
qed

lemma pow2_bit_length:
  assumes "0 < p"
  shows "pow2 (int (bit_length (nat p)) - 1) \<le> of_int p" and "of_int p < pow2 (int (bit_length (nat p)))"
proof -
  let ?n = "nat p"
  have pos: "0 < bit_length ?n" using assms by (subst bit_length.simps) simp
  have p: "(of_int p :: rat) = of_nat ?n" using assms by simp
  have "(2::rat) ^ (bit_length ?n - 1) \<le> of_nat ?n"
    using bit_length_le [of ?n] assms by (metis of_nat_le_iff of_nat_numeral of_nat_power zero_less_nat_eq)
  then show "pow2 (int (bit_length ?n) - 1) \<le> of_int p"
    using pos by (simp add: p pow2_def nat_diff_distrib)
  have "(of_nat ?n :: rat) < 2 ^ bit_length ?n"
    using less_bit_length [of ?n] by (metis of_nat_less_iff of_nat_numeral of_nat_power)
  then show "of_int p < pow2 (int (bit_length ?n))" by (simp add: p pow2_def)
qed

text \<open>
  The exponent leaves 53 significant bits, and, unless it is the least one, not fewer.
\<close>

lemma f64_exp_bounds:
  assumes "x \<noteq> 0"
  shows "-1074 \<le> f64_exp x" and "\<bar>x\<bar> < pow2 (f64_exp x + 53)"
    and "f64_exp x = -1074 \<or> pow2 (f64_exp x + 52) \<le> \<bar>x\<bar>"
proof -
  obtain p q where pq: "quotient_of \<bar>x\<bar> = (p, q)" by force
  have q: "0 < q" using quotient_of_denom_pos [OF pq] .
  have x: "\<bar>x\<bar> = of_int p / of_int q" using quotient_of_div [OF pq] .
  have p: "0 < p" using assms x q by (metis abs_of_pos divide_pos_pos of_int_0_less_iff zero_less_abs_iff
        zero_less_divide_iff not_less_iff_gr_or_eq)
  define bp where "bp = int (bit_length (nat p))"
  define bq where "bq = int (bit_length (nat q))"
  define k where "k = bp - bq"
  have "pow2 (bp - 1) \<le> \<bar>x\<bar> * of_int q"
    using pow2_bit_length(1) [OF p] x q by (simp add: bp_def)
  also have "\<dots> < \<bar>x\<bar> * pow2 bq"
    using pow2_bit_length(2) [OF q] assms by (simp add: bq_def)
  finally have "pow2 (k - 1) * pow2 bq < \<bar>x\<bar> * pow2 bq"
    by (simp add: k_def flip: pow2_add)
  then have low: "pow2 (k - 1) \<le> \<bar>x\<bar>" by (simp add: mult_less_cancel_right_pos)
  have "\<bar>x\<bar> * pow2 (bq - 1) \<le> \<bar>x\<bar> * of_int q"
    using pow2_bit_length(1) [OF q] by (intro mult_left_mono) (simp_all add: bq_def)
  also have "\<dots> < pow2 bp"
    using pow2_bit_length(2) [OF p] x q by (simp add: bp_def)
  finally have "\<bar>x\<bar> * pow2 (bq - 1) < pow2 (k + 1) * pow2 (bq - 1)"
    by (simp add: k_def flip: pow2_add)
  then have high: "\<bar>x\<bar> < pow2 (k + 1)" by (simp add: mult_less_cancel_right_pos)
  define e where "e = (if pow2 k \<le> \<bar>x\<bar> then k - 52 else k - 53)"
  have fe: "f64_exp x = max e (-1074)"
    by (simp add: f64_exp_def pq k_def e_def bp_def bq_def Let_def)
  have e1: "pow2 (e + 52) \<le> \<bar>x\<bar>" using low by (simp add: e_def)
  have e2: "\<bar>x\<bar> < pow2 (e + 53)" using high by (auto simp: e_def add.commute)
  show "-1074 \<le> f64_exp x" by (simp add: fe)
  show "\<bar>x\<bar> < pow2 (f64_exp x + 53)"
  proof (cases "e < -1074")
    case True
    then have "pow2 (e + 53) < pow2 (f64_exp x + 53)" by (simp add: fe)
    with e2 show ?thesis by (rule less_trans)
  qed (use e2 in \<open>simp add: fe max_def\<close>)
  show "f64_exp x = -1074 \<or> pow2 (f64_exp x + 52) \<le> \<bar>x\<bar>"
    using e1 by (simp add: fe max_def)
qed

lemmas f64_exp_le = f64_exp_bounds(3)

lemma f64_exp_eq:
  assumes "pow2 (e + 52) \<le> \<bar>x\<bar>" and "\<bar>x\<bar> < pow2 (e + 53)" and "-1074 \<le> e"
  shows "f64_exp x = e"
proof -
  have x: "x \<noteq> 0" using less_le_trans [OF pow2_pos assms(1)] by auto
  have "pow2 (e + 52) < pow2 (f64_exp x + 53)"
    using assms(1) f64_exp_bounds(2) [OF x] by (rule le_less_trans)
  moreover have "f64_exp x = -1074 \<or> pow2 (f64_exp x + 52) < pow2 (e + 53)"
    using f64_exp_bounds(3) [OF x] assms(2) le_less_trans by blast
  ultimately show ?thesis using assms(3) by auto
qed

lemma round_even_near: "\<bar>x - of_int n\<bar> < 1 / 2 \<Longrightarrow> round_even x = n"
proof -
  assume a: "\<bar>x - of_int n\<bar> < 1 / 2"
  show "round_even x = n"
  proof (cases "of_int n \<le> x")
    case True
    then have "\<lfloor>x\<rfloor> = n" using a by (intro floor_unique) (auto simp: abs_if split: if_splits)
    then show ?thesis using a True by (simp add: round_even_def Let_def)
  next
    case False
    then have "\<lfloor>x\<rfloor> = n - 1" using a by (intro floor_unique) (auto simp: abs_if split: if_splits)
    then show ?thesis using a False by (simp add: round_even_def Let_def)
  qed
qed

text \<open>How a value is rounded, given its exponent and its significand.\<close>

lemma f64_round_eq:
  assumes "pow2 (e + 52) \<le> \<bar>x\<bar>" and "\<bar>x\<bar> < pow2 (e + 53)" and "-1074 \<le> e"
    and "\<bar>x / pow2 e - of_int n\<bar> < 1 / 2"
  shows "f64_round x = of_int n * pow2 e"
proof -
  have "x \<noteq> 0" using less_le_trans [OF pow2_pos assms(1)] by auto
  then show ?thesis
    using f64_exp_eq [OF assms(1-3)] round_even_near [OF assms(4)] by (simp add: f64_round_def)
qed

lemma round_even_of_int [simp]: "round_even (of_int n) = n"
  by (simp add: round_even_def)

lemma f64_round_exact:
  assumes "x = of_int m * pow2 a" and "\<bar>m\<bar> < 2 ^ 53" and "-1074 \<le> a"
  shows "f64_round x = x"
proof (cases "x = 0")
  case True
  then show ?thesis by (simp add: f64_round_def)
next
  case False
  let ?e = "f64_exp x"
  have "?e \<le> a"
  proof (cases "?e = -1074")
    case False
    then have "pow2 (?e + 52) \<le> \<bar>x\<bar>" using f64_exp_le [OF \<open>x \<noteq> 0\<close>] by simp
    also have "\<bar>x\<bar> = of_int \<bar>m\<bar> * pow2 a" using assms(1) by (simp add: abs_mult)
    also have "\<dots> < pow2 53 * pow2 a"
    proof -
      have "(of_int \<bar>m\<bar> :: rat) < of_int (2 ^ 53)" using assms(2) by (simp only: of_int_less_iff)
      then have "(of_int \<bar>m\<bar> :: rat) < pow2 53" by (simp add: pow2_def)
      then show ?thesis by (rule mult_strict_right_mono) simp
    qed
    finally have "pow2 (?e + 52) < pow2 (53 + a)" by (simp add: pow2_add)
    then show ?thesis by simp
  qed (use assms(3) in simp)
  then have a: "pow2 a = 2 ^ nat (a - ?e) * pow2 ?e"
    using pow2_add [of "a - ?e" ?e] pow2_nat [of "a - ?e"] by simp
  define e where "e = ?e"
  have "x / pow2 e = of_int m * (2 ^ nat (a - e) * pow2 e) / pow2 e"
    by (subst assms(1)) (simp only: a e_def)
  also have "\<dots> = of_int (m * 2 ^ nat (a - e))"
    by simp
  finally have "f64_round x = x / pow2 e * pow2 e"
    using False by (simp only: f64_round_def if_False round_even_of_int flip: e_def)
  then show ?thesis using pow2_pos [of e] by simp
qed

text \<open>
  Multiples of a fixed power of two add exactly while the sum is small: whole points and
  halves, for instance.
\<close>

definition f64_sum :: "rat list \<Rightarrow> rat" where
  "f64_sum xs = foldl f64_add 0 xs"

definition multiple_of_pow2 :: "int \<Rightarrow> rat \<Rightarrow> bool" where
  "multiple_of_pow2 a x \<longleftrightarrow> (\<exists>m. x = of_int m * pow2 a)"

lemma multiple_of_pow2_add:
  "multiple_of_pow2 a x \<Longrightarrow> multiple_of_pow2 a y \<Longrightarrow> multiple_of_pow2 a (x + y)"
  unfolding multiple_of_pow2_def by (metis of_int_add distrib_right)

lemma f64_add_exact:
  assumes "multiple_of_pow2 a x" and "multiple_of_pow2 a y" and "\<bar>x + y\<bar> < pow2 (53 + a)" and "-1074 \<le> a"
  shows "f64_add x y = x + y"
proof -
  obtain m where m: "x + y = of_int m * pow2 a"
    using multiple_of_pow2_add [OF assms(1,2)] by (auto simp: multiple_of_pow2_def)
  then have "of_int \<bar>m\<bar> * pow2 a < 2 ^ 53 * pow2 a"
    using assms(3) by (simp add: abs_mult pow2_add pow2_nat)
  then have "(of_int \<bar>m\<bar> :: rat) < 2 ^ 53" by (simp only: mult_less_cancel_right_pos pow2_pos)
  then have "\<bar>m\<bar> < 2 ^ 53" by (metis of_int_less_iff of_int_numeral of_int_power)
  then show ?thesis using f64_round_exact [OF m _ assms(4)] by (simp add: f64_add_def)
qed

lemma f64_sum_exact:
  assumes "\<And>x. x \<in> set xs \<Longrightarrow> multiple_of_pow2 a x \<and> 0 \<le> x" and "sum_list xs < pow2 (53 + a)"
    and "-1074 \<le> a"
  shows "f64_sum xs = sum_list xs"
proof -
  have "foldl f64_add acc xs = acc + sum_list xs"
    if "multiple_of_pow2 a acc" "0 \<le> acc" "acc + sum_list xs < pow2 (53 + a)" for acc
    using that assms(1)
  proof (induction xs arbitrary: acc)
    case (Cons x xs)
    have x: "multiple_of_pow2 a x" "0 \<le> x" using Cons.prems(4) by auto
    have nn: "0 \<le> sum_list xs" using Cons.prems(4) by (intro sum_list_nonneg) auto
    have "f64_add acc x = acc + x"
      using f64_add_exact [OF Cons.prems(1) x(1) _ assms(3)] Cons.prems(2,3) x nn by simp
    then show ?case
      using Cons.IH [of "acc + x"] Cons.prems x multiple_of_pow2_add by (simp add: add.assoc)
  qed simp
  moreover have "multiple_of_pow2 a 0" unfolding multiple_of_pow2_def by (rule exI [of _ 0]) simp
  ultimately show ?thesis using assms(2) by (simp add: f64_sum_def)
qed

text \<open>Three literals whose sum goes astray.\<close>

lemma f64_eleven_tenths: "f64_round (11 / 10) = 4953959590107546 / 2 ^ 52"
  by (subst f64_round_eq [of "-52" _ 4953959590107546]) (simp_all add: pow2_def)

lemma f64_22_tenths: "f64_round (11 / 5) = 4953959590107546 / 2 ^ 51"
  by (subst f64_round_eq [of "-51" _ 4953959590107546]) (simp_all add: pow2_def)

lemma f64_33_tenths: "f64_round (33 / 10) = 7430939385161318 / 2 ^ 51"
  by (subst f64_round_eq [of "-51" _ 7430939385161318]) (simp_all add: pow2_def)

lemma f64_sum_astray:
  "f64_sum [f64_round (11 / 10), f64_round (11 / 5)] = 7430939385161319 / 2 ^ 51"
proof -
  have "f64_round (4953959590107546 / 2 ^ 52) = 4953959590107546 / 2 ^ 52"
    by (rule f64_round_exact [of _ 4953959590107546 "-52"]) (simp_all add: pow2_def)
  moreover have "f64_round (4953959590107546 / 2 ^ 52 + 4953959590107546 / 2 ^ 51) = 7430939385161319 / 2 ^ 51"
    by (subst f64_round_eq [of "-51" _ 7430939385161319]) (simp_all add: pow2_def)
  ultimately show ?thesis
    unfolding f64_eleven_tenths f64_22_tenths by (simp only: f64_sum_def f64_add_def foldl.simps add_0)
qed

section \<open>How far rounding goes\<close>

lemma round_even_error: "\<bar>x - of_int (round_even x)\<bar> \<le> 1 / 2"
proof -
  have "of_int \<lfloor>x\<rfloor> \<le> x" "x < of_int \<lfloor>x\<rfloor> + 1" by linarith+
  then show ?thesis by (auto simp: round_even_def Let_def)
qed

lemma f64_round_error:
  assumes "\<bar>x\<bar> \<le> 2 ^ 24"
  shows "\<bar>f64_round x - x\<bar> \<le> 1 / 2 ^ 29"
proof (cases "x = 0")
  case True
  then show ?thesis by (simp add: f64_round_def)
next
  case False
  let ?u = "pow2 (f64_exp x)"
  have "?u \<le> pow2 (- 28)"
    using f64_exp_bounds(3) [OF False]
  proof
    assume low: "pow2 (f64_exp x + 52) \<le> \<bar>x\<bar>"
    show ?thesis
    proof (rule ccontr)
      assume "\<not> ?thesis"
      then have "- 28 < f64_exp x" by (metis pow2_less_iff not_less)
      then have "pow2 24 < pow2 (f64_exp x + 52)" by (simp only: pow2_less_iff)
      also have "\<dots> \<le> 2 ^ 24" using low assms by simp
      finally show False by (simp add: pow2_def)
    qed
  next
    assume "f64_exp x = -1074"
    then have "?u < pow2 (- 28)" unfolding pow2_less_iff by simp
    then show ?thesis by (rule less_imp_le)
  qed
  moreover have "\<bar>f64_round x - x\<bar> \<le> 1 / 2 * ?u"
  proof -
    have "f64_round x - x = (of_int (round_even (x / ?u)) - x / ?u) * ?u"
      using False by (simp add: f64_round_def algebra_simps)
    then have "\<bar>f64_round x - x\<bar> = \<bar>x / ?u - of_int (round_even (x / ?u))\<bar> * ?u"
      by (simp add: abs_mult abs_minus_commute)
    also have "\<dots> \<le> 1 / 2 * ?u" by (rule mult_right_mono [OF round_even_error less_imp_le [OF pow2_pos]])
    finally show ?thesis .
  qed
  ultimately show ?thesis by (simp add: pow2_def)
qed

text \<open>A sum of \<open>n\<close> values is at most \<open>n\<close> of these errors away from the exact one.\<close>

lemma f64_sum_error:
  assumes "\<bar>a\<bar> + sum_list (map abs xs) + of_nat (length xs) / 2 ^ 29 \<le> 2 ^ 24"
  shows "\<bar>foldl f64_add a xs - (a + sum_list xs)\<bar> \<le> of_nat (length xs) / 2 ^ 29"
  using assms
proof (induction xs arbitrary: a)
  case (Cons x xs)
  define d where "d = (1 / 2 ^ 29 :: rat)"
  define n where "n = (of_nat (length xs) / 2 ^ 29 :: rat)"
  have len: "of_nat (length (x # xs)) / 2 ^ 29 = n + d" by (simp add: n_def d_def add_divide_distrib)
  have pos: "0 \<le> sum_list (map abs xs)" "0 \<le> n" "0 \<le> d"
    by (rule sum_list_nonneg) (auto simp: n_def d_def)
  have tri: "\<bar>a + x\<bar> \<le> \<bar>a\<bar> + \<bar>x\<bar>" by (rule abs_triangle_ineq)
  have bound: "\<bar>a\<bar> + \<bar>x\<bar> + sum_list (map abs xs) + (n + d) \<le> 2 ^ 24"
    using Cons.prems unfolding len by simp
  have "\<bar>a + x\<bar> \<le> 2 ^ 24" using tri bound pos by linarith
  then have err: "\<bar>f64_add a x - (a + x)\<bar> \<le> d"
    unfolding f64_add_def d_def by (rule f64_round_error)
  with tri have "\<bar>f64_add a x\<bar> \<le> \<bar>a\<bar> + \<bar>x\<bar> + d" by linarith
  with bound have "\<bar>f64_add a x\<bar> + sum_list (map abs xs) + n \<le> 2 ^ 24" by linarith
  from Cons.IH [OF this [unfolded n_def], folded n_def] err
  show ?case unfolding len foldl.simps sum_list.Cons by linarith
qed simp

end
