(* ===== verification/Go_Json.thy ===== *)
theory Go_Json
  imports Go_Float Go_Strings
begin

text \<open>
  The part of \<open>encoding/json\<close> the validators rely on: a JSON document as a tree, and how
  \<open>Unmarshal\<close> fills strings, integers, floats, slices and structures from it. A document that
  does not fit the type gives an error (the decoder goes on after the first mismatch but
  returns it in the end, so what it has filled in by then is never read).
\<close>

text \<open>A number keeps whether its literal is an integer: only such a literal fits an \<open>int\<close>.\<close>

datatype json_num = Integer_literal int | Decimal_literal rat

datatype json =
    JNull
  | JBool bool
  | JNum json_num
  | JStr string
  | JArr "json list"
  | JObj "(string \<times> json) list"

text \<open>The bytes of a \<open>JSONText\<close>: none, something that is not JSON, or a document.\<close>

datatype raw_json = No_bytes | Malformed | Parsed json

fun num_value :: "json_num \<Rightarrow> rat" where
  "num_value (Integer_literal n) = of_int n"
| "num_value (Decimal_literal x) = x"

text \<open>
  A \<open>null\<close> leaves what is there. An integer must fit 64 bits; a float must not exceed
  the largest finite value after rounding.
\<close>

fun dec_string :: "string \<Rightarrow> json \<Rightarrow> string option" where
  "dec_string old JNull = Some old"
| "dec_string old (JStr s) = Some s"
| "dec_string old _ = None"

fun dec_int :: "int \<Rightarrow> json \<Rightarrow> int option" where
  "dec_int old JNull = Some old"
| "dec_int old (JNum (Integer_literal n)) = (if min_int64 \<le> n \<and> n \<le> max_int64 then Some n else None)"
| "dec_int old _ = None"

fun dec_float :: "rat \<Rightarrow> json \<Rightarrow> rat option" where
  "dec_float old JNull = Some old"
| "dec_float old (JNum x) =
    (if \<bar>f64_round (num_value x)\<bar> < pow2 1024 then Some (f64_round (num_value x)) else None)"
| "dec_float old _ = None"

fun dec_all :: "(json \<Rightarrow> 'a option) \<Rightarrow> json list \<Rightarrow> 'a list option" where
  "dec_all f [] = Some []"
| "dec_all f (j # js) =
    (case f j of None \<Rightarrow> None
     | Some x \<Rightarrow> (case dec_all f js of None \<Rightarrow> None | Some xs \<Rightarrow> Some (x # xs)))"

fun dec_slice :: "(json \<Rightarrow> 'a option) \<Rightarrow> json \<Rightarrow> 'a list option" where
  "dec_slice f JNull = Some []"
| "dec_slice f (JArr js) = dec_all f js"
| "dec_slice f _ = None"

fun dec_fields :: "(string \<Rightarrow> json \<Rightarrow> 'r \<Rightarrow> 'r option) \<Rightarrow> (string \<times> json) list \<Rightarrow> 'r \<Rightarrow> 'r option" where
  "dec_fields set_field [] r = Some r"
| "dec_fields set_field ((k, j) # kvs) r =
    (case set_field k j r of None \<Rightarrow> None | Some r' \<Rightarrow> dec_fields set_field kvs r')"

fun dec_struct :: "(string \<Rightarrow> json \<Rightarrow> 'r \<Rightarrow> 'r option) \<Rightarrow> 'r \<Rightarrow> json \<Rightarrow> 'r option" where
  "dec_struct set_field zero JNull = Some zero"
| "dec_struct set_field zero (JObj kvs) = dec_fields set_field kvs zero"
| "dec_struct set_field zero _ = None"

text \<open>
  A key names a field if they agree up to case; the Kelvin sign and the long s fold to \<open>k\<close>
  and \<open>s\<close>.
\<close>

fun fold_key :: "string \<Rightarrow> string" where
  "fold_key (a # b # c # s) =
    (if [a, b, c] = bytes [226, 132, 170] then CHR ''k'' # fold_key s
     else if [a, b] = bytes [197, 191] then CHR ''s'' # fold_key (c # s)
     else lower_char a # fold_key (b # c # s))"
| "fold_key [a, b] = (if [a, b] = bytes [197, 191] then ''s'' else [lower_char a, lower_char b])"
| "fold_key [a] = [lower_char a]"
| "fold_key [] = []"

declare fold_key.simps [simp del]

definition unmarshal :: "(json \<Rightarrow> 'a option) \<Rightarrow> raw_json \<Rightarrow> 'a option" where
  "unmarshal dec raw = (case raw of Parsed j \<Rightarrow> dec j | _ \<Rightarrow> None)"

definition dec_strings :: "json \<Rightarrow> string list option" where
  "dec_strings = dec_slice (dec_string [])"

lemma dec_all_JStr [simp]: "dec_all (dec_string old) (map JStr ss) = Some ss"
  by (induction ss) simp_all

lemma dec_strings_JStr [simp]: "dec_strings (JArr (map JStr ss)) = Some ss"
  by (simp add: dec_strings_def)

lemma unmarshal_Parsed [simp]: "unmarshal dec (Parsed j) = dec j"
  by (simp add: unmarshal_def)

end
