(* ===== verification/Question_Validation.thy ===== *)
theory Question_Validation
  imports Go_Json
begin

text \<open>
  The checks of \<open>serve/question_bank/utils.go\<close> and \<open>validateQuestion\<close>: a question is stored
  only if its options and answers fit its type. Error texts are kept as constructors.
\<close>

section \<open>Data\<close>

record QuestionOption =
  qo_label :: string
  qo_value :: string

record SubjectiveAnswer =
  sa_index :: int
  sa_answer :: string
  sa_alternative :: "string list"
  sa_score :: rat
  sa_rule :: string

record question =
  q_type :: string
  q_content :: null_string
  q_options :: raw_json
  q_answers :: raw_json
  q_score :: "rat option"
  q_difficulty :: string
  q_tags :: raw_json
  q_belong_to :: null_int

definition Float64 :: "rat option \<Rightarrow> rat" where
  "Float64 x = (case x of None \<Rightarrow> 0 | Some v \<Rightarrow> v)"

datatype question_error =
    Question_is_nil
  | Type_unsupported string
  | Difficulty_unsupported string
  | Score_not_positive
  | BelongTo_not_positive
  | Content_empty
  | Tags_malformed
  | Tag_empty
  | Options_malformed
  | Option_count nat
  | Label_empty
  | Value_empty
  | Label_repeated string
  | Label_not_A_or_B string
  | Answers_malformed
  | Answer_count nat
  | Answer_not_in_options string
  | Answer_repeated string
  | Answer_not_A_or_B string
  | No_answers
  | No_blanks
  | Blank_count_differs nat nat
  | Index_below_one int
  | Index_beyond int nat
  | Index_repeated int
  | Answer_score_not_positive rat
  | Answer_empty int
  | Rule_empty int
  | Total_differs rat rat

datatype id_error = Ids_empty | Id_not_positive int | Id_repeated int

section \<open>Decoding\<close>

definition option_field :: "string \<Rightarrow> json \<Rightarrow> QuestionOption \<Rightarrow> QuestionOption option" where
  "option_field k j r =
    (if fold_key k = ''label'' then map_option (\<lambda>s. r\<lparr>qo_label := s\<rparr>) (dec_string (qo_label r) j)
     else if fold_key k = ''value'' then map_option (\<lambda>s. r\<lparr>qo_value := s\<rparr>) (dec_string (qo_value r) j)
     else Some r)"

definition dec_options :: "json \<Rightarrow> QuestionOption list option" where
  "dec_options = dec_slice (dec_struct option_field \<lparr>qo_label = [], qo_value = []\<rparr>)"

definition answer_field :: "string \<Rightarrow> json \<Rightarrow> SubjectiveAnswer \<Rightarrow> SubjectiveAnswer option" where
  "answer_field k j r =
    (if fold_key k = ''index'' then map_option (\<lambda>i. r\<lparr>sa_index := i\<rparr>) (dec_int (sa_index r) j)
     else if fold_key k = ''answer'' then map_option (\<lambda>s. r\<lparr>sa_answer := s\<rparr>) (dec_string (sa_answer r) j)
     else if fold_key k = ''alternative_answer''
     then map_option (\<lambda>ss. r\<lparr>sa_alternative := ss\<rparr>) (dec_strings j)
     else if fold_key k = ''score'' then map_option (\<lambda>x. r\<lparr>sa_score := x\<rparr>) (dec_float (sa_score r) j)
     else if fold_key k = ''grading_rule'' then map_option (\<lambda>s. r\<lparr>sa_rule := s\<rparr>) (dec_string (sa_rule r) j)
     else Some r)"

definition dec_answers :: "json \<Rightarrow> SubjectiveAnswer list option" where
  "dec_answers = dec_slice (dec_struct answer_field
     \<lparr>sa_index = 0, sa_answer = [], sa_alternative = [], sa_score = 0, sa_rule = []\<rparr>)"

section \<open>Identifiers\<close>

fun check_ids :: "int list \<Rightarrow> int set \<Rightarrow> id_error + unit" where
  "check_ids [] seen = Inr ()"
| "check_ids (i # is) seen =
    (if i \<le> 0 then Inl (Id_not_positive i)
     else if i \<in> seen then Inl (Id_repeated i)
     else check_ids is (insert i seen))"

definition validateIDs :: "int list \<Rightarrow> id_error + unit" where
  "validateIDs ids = (if ids = [] then Inl Ids_empty else check_ids ids {})"

section \<open>Choice questions\<close>

text \<open>The loop over the options, with the labels seen.\<close>

fun check_options :: "QuestionOption list \<Rightarrow> string set \<Rightarrow> question_error + string set" where
  "check_options [] labels = Inr labels"
| "check_options (r # rs) labels =
    (if is_blank (qo_label r) then Inl Label_empty
     else if is_blank (qo_value r) then Inl Value_empty
     else if qo_label r \<in> labels then Inl (Label_repeated (qo_label r))
     else check_options rs (insert (qo_label r) labels))"

definition validateSingleChoiceQuestion :: "question \<Rightarrow> question_error + unit" where
  "validateSingleChoiceQuestion q =
    (case unmarshal dec_options (q_options q) of
       None \<Rightarrow> Inl Options_malformed
     | Some options \<Rightarrow>
         if length options < 2 then Inl (Option_count (length options))
         else and_then (check_options options {}) (\<lambda>optionLabels.
           case unmarshal dec_strings (q_answers q) of
             None \<Rightarrow> Inl Answers_malformed
           | Some answers \<Rightarrow>
               if length answers \<noteq> 1 then Inl (Answer_count (length answers))
               else if answers ! 0 \<notin> optionLabels then Inl (Answer_not_in_options (answers ! 0))
               else Inr ()))"

fun check_choices :: "string set \<Rightarrow> string list \<Rightarrow> string set \<Rightarrow> question_error + unit" where
  "check_choices optionLabels [] answerSet = Inr ()"
| "check_choices optionLabels (a # as) answerSet =
    (if a \<notin> optionLabels then Inl (Answer_not_in_options a)
     else if a \<in> answerSet then Inl (Answer_repeated a)
     else check_choices optionLabels as (insert a answerSet))"

definition validateMultipleChoiceQuestion :: "question \<Rightarrow> question_error + unit" where
  "validateMultipleChoiceQuestion q =
    (case unmarshal dec_options (q_options q) of
       None \<Rightarrow> Inl Options_malformed
     | Some options \<Rightarrow>
         if length options < 3 then Inl (Option_count (length options))
         else and_then (check_options options {}) (\<lambda>optionLabels.
           case unmarshal dec_strings (q_answers q) of
             None \<Rightarrow> Inl Answers_malformed
           | Some answers \<Rightarrow>
               if length options \<le> length answers then Inl (Answer_count (length answers))
               else check_choices optionLabels answers {}))"

fun check_true_false :: "QuestionOption list \<Rightarrow> question_error + unit" where
  "check_true_false [] = Inr ()"
| "check_true_false (r # rs) =
    (if is_blank (qo_label r) then Inl Label_empty
     else if is_blank (qo_value r) then Inl Value_empty
     else if qo_label r \<notin> {''A'', ''B''} then Inl (Label_not_A_or_B (qo_label r))
     else check_true_false rs)"

definition validateTrueFalseQuestion :: "question \<Rightarrow> question_error + unit" where
  "validateTrueFalseQuestion q =
    (case unmarshal dec_options (q_options q) of
       None \<Rightarrow> Inl Options_malformed
     | Some options \<Rightarrow>
         if length options \<noteq> 2 then Inl (Option_count (length options))
         else and_then (check_true_false options) (\<lambda>_.
           case unmarshal dec_strings (q_answers q) of
             None \<Rightarrow> Inl Answers_malformed
           | Some answers \<Rightarrow>
               if length answers \<noteq> 1 then Inl (Answer_count (length answers))
               else if answers ! 0 \<noteq> ''A'' \<and> answers ! 0 \<noteq> ''B'' then Inl (Answer_not_A_or_B (answers ! 0))
               else Inr ()))"

section \<open>Blanks\<close>

text \<open>
  The regular expression \<open><span[^>]*class="blank-item"[^>]*>.*?</span>\<close>: the attributes
  reach to the first \<open>>\<close>, and the dot matches anything but a newline.
\<close>

definition blank_attr :: string where
  "blank_attr = ''class='' @ [CHR 0x22] @ ''blank-item'' @ [CHR 0x22]"

fun find_close :: "string \<Rightarrow> string option" where
  "find_close [] = None"
| "find_close (c # cs) =
    (if HasPrefix (c # cs) ''</span>'' then Some (drop 7 (c # cs))
     else if c = CHR 10 then None else find_close cs)"

definition match_blank :: "string \<Rightarrow> string option" where
  "match_blank s =
    (if HasPrefix s ''<span''
     then let rest = drop 5 s;
              attrs = takeWhile (\<lambda>c. c \<noteq> CHR ''>'') rest;
              after = dropWhile (\<lambda>c. c \<noteq> CHR ''>'') rest
          in if after = [] \<or> \<not> Contains attrs blank_attr then None else find_close (tl after)
     else None)"

lemma find_close_length: "find_close s = Some r \<Longrightarrow> length r < length s"
  by (induction s) (auto split: if_splits)

lemma match_blank_length: "match_blank s = Some r \<Longrightarrow> length r < length s"
proof -
  assume m: "match_blank s = Some r"
  have len: "length (dropWhile (\<lambda>c. c \<noteq> CHR ''>'') (drop 5 s)) \<le> length s"
    using length_dropWhile_le [of "\<lambda>c. c \<noteq> CHR ''>''" "drop 5 s"] by simp
  have "find_close (tl (dropWhile (\<lambda>c. c \<noteq> CHR ''>'') (drop 5 s))) = Some r"
    using m by (simp add: match_blank_def Let_def split: if_splits)
  from find_close_length [OF this] len show ?thesis by simp
qed

function count_matches :: "string \<Rightarrow> nat" where
  "count_matches s =
    (case match_blank s of
       Some r \<Rightarrow> Suc (count_matches r)
     | None \<Rightarrow> (case s of [] \<Rightarrow> 0 | c # cs \<Rightarrow> count_matches cs))"
  by pat_completeness auto
termination by (relation "measure length") (auto dest: match_blank_length)

declare count_matches.simps [simp del]

definition countFillInBlanks :: "string \<Rightarrow> nat" where
  "countFillInBlanks content = count_matches (ToLower content)"

section \<open>Questions answered in writing\<close>

text \<open>
  The loop over the answers, with the indices seen and the total so far; the loop of the
  fill-in validator is the same but keeps no total.
\<close>

fun check_answers :: "nat \<Rightarrow> SubjectiveAnswer list \<Rightarrow> int set \<Rightarrow> rat \<Rightarrow> question_error + rat" where
  "check_answers n [] indexSet totalScore = Inr totalScore"
| "check_answers n (a # as) indexSet totalScore =
    (if sa_index a < 1 then Inl (Index_below_one (sa_index a))
     else if sa_index a > int n then Inl (Index_beyond (sa_index a) n)
     else if sa_index a \<in> indexSet then Inl (Index_repeated (sa_index a))
     else if sa_score a \<le> 0 then Inl (Answer_score_not_positive (sa_score a))
     else if is_blank (sa_answer a) then Inl (Answer_empty (sa_index a))
     else if is_blank (sa_rule a) then Inl (Rule_empty (sa_index a))
     else check_answers n as (insert (sa_index a) indexSet) (f64_add totalScore (sa_score a)))"

definition validateFillInBlankQuestion :: "question \<Rightarrow> question_error + unit" where
  "validateFillInBlankQuestion q =
    (case unmarshal dec_answers (q_answers q) of
       None \<Rightarrow> Inl Answers_malformed
     | Some answers \<Rightarrow>
         if answers = [] then Inl No_answers
         else
           let blankCount = countFillInBlanks (String (q_content q))
           in if blankCount = 0 then Inl No_blanks
              else if blankCount \<noteq> length answers then Inl (Blank_count_differs blankCount (length answers))
              else and_then (check_answers (length answers) answers {} 0) (\<lambda>_. Inr ()))"

definition validateEssayQuestion :: "question \<Rightarrow> question_error + unit" where
  "validateEssayQuestion q =
    (case unmarshal dec_answers (q_answers q) of
       None \<Rightarrow> Inl Answers_malformed
     | Some answers \<Rightarrow>
         if answers = [] then Inl No_answers
         else and_then (check_answers (length answers) answers {} 0) (\<lambda>totalScore.
           if totalScore \<noteq> Float64 (q_score q) then Inl (Total_differs totalScore (Float64 (q_score q)))
           else Inr ()))"

definition validateComprehensiveQuestion :: "question \<Rightarrow> question_error + unit" where
  "validateComprehensiveQuestion q =
    (case unmarshal dec_answers (q_answers q) of
       None \<Rightarrow> Inl Answers_malformed
     | Some answers \<Rightarrow>
         if answers = [] then Inl No_answers
         else and_then (check_answers (length answers) answers {} 0) (\<lambda>totalScore.
           if totalScore \<noteq> Float64 (q_score q) then Inl (Total_differs totalScore (Float64 (q_score q)))
           else Inr ()))"

definition validateExerciseQuestion :: "question \<Rightarrow> question_error + unit" where
  "validateExerciseQuestion q =
    (case unmarshal dec_answers (q_answers q) of
       None \<Rightarrow> Inl Answers_malformed
     | Some answers \<Rightarrow>
         if answers = [] then Inl No_answers
         else and_then (check_answers (length answers) answers {} 0) (\<lambda>totalScore.
           if totalScore \<noteq> Float64 (q_score q) then Inl (Total_differs totalScore (Float64 (q_score q)))
           else Inr ()))"

section \<open>Questions\<close>

definition QuestionTypes :: "string list" where
  "QuestionTypes = [''00'', ''02'', ''04'', ''06'', ''08'', ''10'', ''12'', ''test'']"

definition QuestionDifficulty :: "string list" where
  "QuestionDifficulty = [''00'', ''02'', ''04'', ''06'', ''08'']"

definition check_tags :: "raw_json \<Rightarrow> question_error + unit" where
  "check_tags raw =
    (if raw = No_bytes then Inr ()
     else (case unmarshal dec_strings raw of
             None \<Rightarrow> Inl Tags_malformed
           | Some tags \<Rightarrow> if list_ex is_blank tags then Inl Tag_empty else Inr ()))"

definition validate_by_type :: "question \<Rightarrow> question_error + unit" where
  "validate_by_type q =
    (if q_type q = ''00'' then validateSingleChoiceQuestion q
     else if q_type q = ''02'' then validateMultipleChoiceQuestion q
     else if q_type q = ''04'' then validateTrueFalseQuestion q
     else if q_type q = ''06'' then validateFillInBlankQuestion q
     else if q_type q = ''08'' then validateEssayQuestion q
     else if q_type q = ''10'' then validateComprehensiveQuestion q
     else if q_type q = ''12'' then validateExerciseQuestion q
     else Inl (Type_unsupported (q_type q)))"

definition validateQuestion :: "question option \<Rightarrow> question_error + unit" where
  "validateQuestion qo =
    (case qo of
       None \<Rightarrow> Inl Question_is_nil
     | Some q \<Rightarrow>
         if q_type q \<notin> set QuestionTypes then Inl (Type_unsupported (q_type q))
         else if q_difficulty q \<notin> set QuestionDifficulty then Inl (Difficulty_unsupported (q_difficulty q))
         else if Float64 (q_score q) \<le> 0 then Inl Score_not_positive
         else if Int64 (q_belong_to q) \<le> 0 then Inl BelongTo_not_positive
         else if q_content q = None \<or> is_blank (String (q_content q)) then Inl Content_empty
         else and_then (check_tags (q_tags q)) (\<lambda>_. validate_by_type q))"


section \<open>What the loops decide\<close>

lemma check_ids_ok:
  "check_ids ids seen = Inr () \<longleftrightarrow> (\<forall>i \<in> set ids. 0 < i) \<and> distinct ids \<and> set ids \<inter> seen = {}"
  by (induction ids arbitrary: seen) auto

lemma check_options_ok:
  "check_options rs labels = Inr L \<longleftrightarrow>
    (\<forall>r \<in> set rs. \<not> is_blank (qo_label r) \<and> \<not> is_blank (qo_value r)) \<and>
    distinct (map qo_label rs) \<and> qo_label ` set rs \<inter> labels = {} \<and> L = labels \<union> qo_label ` set rs"
  by (induction rs arbitrary: labels) auto

lemma check_choices_ok:
  "check_choices labels as seen = Inr () \<longleftrightarrow> set as \<subseteq> labels \<and> distinct as \<and> set as \<inter> seen = {}"
  by (induction as arbitrary: seen) auto

lemma check_true_false_ok:
  "check_true_false rs = Inr () \<longleftrightarrow>
    (\<forall>r \<in> set rs. \<not> is_blank (qo_label r) \<and> \<not> is_blank (qo_value r) \<and> qo_label r \<in> {''A'', ''B''})"
  by (induction rs) auto

definition answer_ok :: "SubjectiveAnswer \<Rightarrow> bool" where
  "answer_ok a \<longleftrightarrow> 0 < sa_score a \<and> \<not> is_blank (sa_answer a) \<and> \<not> is_blank (sa_rule a)"

lemma check_answers_ok:
  "check_answers n as seen acc = Inr t \<longleftrightarrow>
    (\<forall>a \<in> set as. answer_ok a \<and> 1 \<le> sa_index a \<and> sa_index a \<le> int n) \<and>
    distinct (map sa_index as) \<and> sa_index ` set as \<inter> seen = {} \<and>
    t = foldl f64_add acc (map sa_score as)"
  by (induction as arbitrary: seen acc) (auto simp: answer_ok_def)

text \<open>\<open>n\<close> different indices between 1 and \<open>n\<close> are all of them.\<close>

lemma indices_all:
  assumes "distinct (map f xs)" and "\<forall>x \<in> set xs. 1 \<le> f x \<and> f x \<le> int (length xs)"
  shows "f ` set xs = {1..int (length xs)}"
proof (rule card_subset_eq)
  show "card (f ` set xs) = card {1..int (length xs)}"
    using distinct_card [OF assms(1)] by simp
qed (use assms(2) in auto)

definition answers_ok :: "SubjectiveAnswer list \<Rightarrow> bool" where
  "answers_ok as \<longleftrightarrow> as \<noteq> [] \<and> list_all answer_ok as \<and> distinct (map sa_index as) \<and>
     sa_index ` set as = {1..int (length as)}"

lemma check_answers_all:
  "as \<noteq> [] \<Longrightarrow> check_answers (length as) as {} 0 = Inr t \<longleftrightarrow>
    answers_ok as \<and> t = f64_sum (map sa_score as)"
  using indices_all [of sa_index as]
  by (auto simp: check_answers_ok answers_ok_def list_all_iff f64_sum_def)

section \<open>Specification\<close>

definition options_ok :: "QuestionOption list \<Rightarrow> bool" where
  "options_ok rs \<longleftrightarrow> list_all (\<lambda>r. \<not> is_blank (qo_label r) \<and> \<not> is_blank (qo_value r)) rs"

definition choice_spec :: "question \<Rightarrow> bool" where
  "choice_spec q \<longleftrightarrow> (\<exists>rs as. unmarshal dec_options (q_options q) = Some rs \<and>
     unmarshal dec_strings (q_answers q) = Some as \<and> options_ok rs \<and> distinct (map qo_label rs) \<and>
     distinct as \<and> set as \<subseteq> qo_label ` set rs \<and>
     (if q_type q = ''00'' then 2 \<le> length rs \<and> length as = 1
      else 3 \<le> length rs \<and> length as < length rs))"

definition true_false_spec :: "question \<Rightarrow> bool" where
  "true_false_spec q \<longleftrightarrow> (\<exists>rs a. unmarshal dec_options (q_options q) = Some rs \<and>
     unmarshal dec_strings (q_answers q) = Some [a] \<and> options_ok rs \<and> length rs = 2 \<and>
     qo_label ` set rs \<subseteq> {''A'', ''B''} \<and> a \<in> {''A'', ''B''})"

definition written_spec :: "question \<Rightarrow> bool" where
  "written_spec q \<longleftrightarrow> (\<exists>as. unmarshal dec_answers (q_answers q) = Some as \<and> answers_ok as \<and>
     (if q_type q = ''06'' then countFillInBlanks (String (q_content q)) = length as
      else f64_sum (map sa_score as) = Float64 (q_score q)))"

definition question_spec :: "question \<Rightarrow> bool" where
  "question_spec q \<longleftrightarrow>
     q_difficulty q \<in> {''00'', ''02'', ''04'', ''06'', ''08''} \<and> 0 < Float64 (q_score q) \<and>
     0 < Int64 (q_belong_to q) \<and> \<not> is_blank (String (q_content q)) \<and>
     (q_tags q = No_bytes \<or> (\<exists>tags. unmarshal dec_strings (q_tags q) = Some tags \<and> (\<forall>t \<in> set tags. \<not> is_blank t))) \<and>
     (q_type q \<in> {''00'', ''02''} \<and> choice_spec q \<or> q_type q = ''04'' \<and> true_false_spec q \<or>
      q_type q \<in> {''06'', ''08'', ''10'', ''12''} \<and> written_spec q)"

lemma single_choice_iff:
  "q_type q = ''00'' \<Longrightarrow> validateSingleChoiceQuestion q = Inr () \<longleftrightarrow> choice_spec q"
  by (auto simp: validateSingleChoiceQuestion_def choice_spec_def options_ok_def list_all_iff
      and_then_Inr_iff check_options_ok length_Suc_conv split: option.splits)

lemma multiple_choice_iff:
  "q_type q = ''02'' \<Longrightarrow> validateMultipleChoiceQuestion q = Inr () \<longleftrightarrow> choice_spec q"
  by (auto simp: validateMultipleChoiceQuestion_def choice_spec_def options_ok_def list_all_iff
      and_then_Inr_iff check_options_ok check_choices_ok split: option.splits)

lemma true_false_iff: "validateTrueFalseQuestion q = Inr () \<longleftrightarrow> true_false_spec q"
  by (auto simp: validateTrueFalseQuestion_def true_false_spec_def options_ok_def list_all_iff
      and_then_Inr_iff check_true_false_ok length_Suc_conv split: option.splits)

lemma fill_in_iff:
  "q_type q = ''06'' \<Longrightarrow> validateFillInBlankQuestion q = Inr () \<longleftrightarrow> written_spec q"
  by (auto simp: validateFillInBlankQuestion_def written_spec_def Let_def and_then_Inr_iff
      check_answers_all answers_ok_def split: option.splits)

lemma essay_iff:
  "q_type q \<noteq> ''06'' \<Longrightarrow> validateEssayQuestion q = Inr () \<longleftrightarrow> written_spec q"
  by (auto simp: validateEssayQuestion_def written_spec_def and_then_Inr_iff
      check_answers_all answers_ok_def split: option.splits)

lemma comprehensive_iff:
  "q_type q \<noteq> ''06'' \<Longrightarrow> validateComprehensiveQuestion q = Inr () \<longleftrightarrow> written_spec q"
  by (auto simp: validateComprehensiveQuestion_def written_spec_def and_then_Inr_iff
      check_answers_all answers_ok_def split: option.splits)

lemma exercise_iff:
  "q_type q \<noteq> ''06'' \<Longrightarrow> validateExerciseQuestion q = Inr () \<longleftrightarrow> written_spec q"
  by (auto simp: validateExerciseQuestion_def written_spec_def and_then_Inr_iff
      check_answers_all answers_ok_def split: option.splits)

lemma validate_by_type_iff:
  "validate_by_type q = Inr () \<longleftrightarrow>
    (q_type q \<in> {''00'', ''02''} \<and> choice_spec q \<or> q_type q = ''04'' \<and> true_false_spec q \<or>
     q_type q \<in> {''06'', ''08'', ''10'', ''12''} \<and> written_spec q)"
  by (simp add: validate_by_type_def single_choice_iff multiple_choice_iff true_false_iff fill_in_iff
      essay_iff comprehensive_iff exercise_iff)

lemma check_tags_iff:
  "check_tags raw = Inr () \<longleftrightarrow> raw = No_bytes \<or>
    (\<exists>tags. unmarshal dec_strings raw = Some tags \<and> (\<forall>t \<in> set tags. \<not> is_blank t))"
  by (auto simp: check_tags_def list_ex_iff split: option.splits)

lemma is_blank_Nil [simp]: "is_blank []" by (simp add: is_blank_def)

lemma validateQuestion_ok: "validateQuestion (Some q) = Inr () \<longleftrightarrow> question_spec q"
proof -
  have "q_content q = None \<or> is_blank (String (q_content q)) \<longleftrightarrow> is_blank (String (q_content q))"
    by (cases "q_content q") simp_all
  moreover have "validate_by_type q = Inr () \<Longrightarrow> q_type q \<in> set QuestionTypes"
    by (auto simp: validate_by_type_iff QuestionTypes_def)
  ultimately show ?thesis
    unfolding question_spec_def validate_by_type_iff [symmetric] check_tags_iff [symmetric]
    by (auto simp: validateQuestion_def QuestionDifficulty_def and_then_Inr_iff)
qed

section \<open>Counting blanks\<close>

lemma of_char_lower:
  "(of_char (lower_char c) :: nat) =
    (let n = (of_char c :: nat) in if 65 \<le> n \<and> n \<le> 90 then n + 32 else n)"
  by (simp add: lower_char_def Let_def)

lemma lower_char_special [simp]:
  "lower_char c = CHR ''<'' \<longleftrightarrow> c = CHR ''<''" "lower_char c = CHR 10 \<longleftrightarrow> c = CHR 10"
proof -
  have "of_char (lower_char c) = (60 :: nat) \<longleftrightarrow> of_char c = (60 :: nat)"
    "of_char (lower_char c) = (10 :: nat) \<longleftrightarrow> of_char c = (10 :: nat)"
    by (auto simp: of_char_lower Let_def)
  moreover have "of_char (CHR ''<'') = (60 :: nat)" "of_char (CHR 10) = (10 :: nat)" by simp_all
  ultimately show "lower_char c = CHR ''<'' \<longleftrightarrow> c = CHR ''<''" "lower_char c = CHR 10 \<longleftrightarrow> c = CHR 10"
    by (metis of_char_eq_iff)+
qed

definition blank_marker :: "string \<Rightarrow> string" where
  "blank_marker inner = ''<span '' @ blank_attr @ ''>'' @ inner @ ''</span>''"

lemma ToLower_append [simp]: "ToLower (s @ t) = ToLower s @ ToLower t"
  by (simp add: ToLower_def)

lemma ToLower_marker: "ToLower (blank_marker inner) = blank_marker (ToLower inner)"
proof -
  have "ToLower ''<span '' = ''<span ''" "ToLower blank_attr = blank_attr" "ToLower ''>'' = ''>''"
    "ToLower ''</span>'' = ''</span>''"
    by code_simp+
  then show ?thesis by (simp only: blank_marker_def ToLower_append)
qed

lemma match_blank_other: "c \<noteq> CHR ''<'' \<Longrightarrow> match_blank (c # s) = None"
  by (simp add: match_blank_def HasPrefix_def)

lemma count_matches_text: "CHR ''<'' \<notin> set t \<Longrightarrow> count_matches (t @ s) = count_matches s"
proof (induction t)
  case (Cons c t)
  then show ?case by (subst append_Cons, subst count_matches.simps) (auto simp: match_blank_other)
qed simp

lemma find_close_inner:
  "CHR ''<'' \<notin> set inner \<Longrightarrow> CHR 10 \<notin> set inner \<Longrightarrow> find_close (inner @ ''</span>'' @ s) = Some s"
  by (induction inner) (auto simp: HasPrefix_def)

lemma count_matches_marker:
  assumes "CHR ''<'' \<notin> set inner" and "CHR 10 \<notin> set inner"
  shows "count_matches (blank_marker inner @ s) = Suc (count_matches s)"
proof -
  have "match_blank (blank_marker inner @ s) = Some s"
    using find_close_inner [OF assms, of s]
    by (simp add: match_blank_def blank_marker_def blank_attr_def HasPrefix_def Let_def)
  then show ?thesis by (subst count_matches.simps) simp
qed

text \<open>Texts with a blank after each, and a last text.\<close>

fun blank_content :: "(string \<times> string) list \<Rightarrow> string \<Rightarrow> string" where
  "blank_content [] t = t"
| "blank_content ((text, inner) # ps) t = text @ blank_marker inner @ blank_content ps t"

lemma ToLower_content:
  "ToLower (blank_content ps t) = blank_content (map (\<lambda>(a, b). (ToLower a, ToLower b)) ps) (ToLower t)"
  by (induction ps t rule: blank_content.induct) (simp_all add: ToLower_marker)

lemma ToLower_free [simp]:
  "CHR ''<'' \<in> set (ToLower s) \<longleftrightarrow> CHR ''<'' \<in> set s" "CHR 10 \<in> set (ToLower s) \<longleftrightarrow> CHR 10 \<in> set s"
  unfolding ToLower_def by (induction s) (simp_all add: eq_commute [of "CHR ''<''"] eq_commute [of "CHR 10"])

lemma count_matches_content:
  assumes "\<forall>(a, b) \<in> set ps. CHR ''<'' \<notin> set a \<and> CHR ''<'' \<notin> set b \<and> CHR 10 \<notin> set b"
    and "CHR ''<'' \<notin> set t"
  shows "count_matches (blank_content ps t) = length ps"
  using assms
proof (induction ps t rule: blank_content.induct)
  case (1 t)
  have "count_matches [] = 0" by (subst count_matches.simps) (simp add: match_blank_def HasPrefix_def)
  then show ?case using count_matches_text [of t "[]"] 1 by simp
next
  case (2 a b ps t)
  then show ?case by (simp add: count_matches_text count_matches_marker)
qed

section \<open>Properties\<close>

text \<open>
  (C37) What is accepted: \<open>validateQuestion\<close> lets exactly the questions pass that meet the
  specification: a known type and difficulty, a positive score, an owner, content and no
  empty tag; for a choice question options with different, non-empty labels and answers among
  them, without repetition and fewer than the options; for a question answered in writing one
  complete answer with a positive score for each of the numbers from 1 up to their count,
  which is the number of blanks of a fill-in question and makes up the question's score in
  the other types.
\<close>

theorem validateQuestion_spec:
  "validateQuestion qo = Inr () \<longleftrightarrow> (case qo of None \<Rightarrow> False | Some q \<Rightarrow> question_spec q)"
  using validateQuestion_ok by (simp add: validateQuestion_def split: option.splits)

text \<open>
  Blanks are counted right: in a text made of pieces without \<open><\<close>, with a blank marked by
  a span after each piece and no tag or line break inside the blanks, the count is the number
  of blanks.
\<close>

lemma blanks_counted:
  assumes "\<forall>(a, b) \<in> set ps. CHR ''<'' \<notin> set a \<and> CHR ''<'' \<notin> set b \<and> CHR 10 \<notin> set b"
    and "CHR ''<'' \<notin> set t"
  shows "countFillInBlanks (blank_content ps t) = length ps"
  unfolding countFillInBlanks_def ToLower_content
  by (subst count_matches_content) (use assms in auto)

lemma blanks_counted_witness:
  "countFillInBlanks (blank_content [(''The capital is '', ''...''), ('' of '', ''___'')] ''.'') = 2"
  by (subst blanks_counted) simp_all

definition demo_answer :: "int \<Rightarrow> rat \<Rightarrow> json" where
  "demo_answer i x = JObj [(''index'', JNum (Integer_literal i)), (''Answer'', JStr ''model''),
     (''score'', JNum (Decimal_literal x)), (''grading_rule'', JStr ''rule'')]"

definition demo_question :: "string \<Rightarrow> json \<Rightarrow> json \<Rightarrow> rat \<Rightarrow> question" where
  "demo_question ty opts ans x = \<lparr>q_type = ty, q_content = Some ''content'', q_options = Parsed opts,
     q_answers = Parsed ans, q_score = Some x, q_difficulty = ''04'', q_tags = No_bytes,
     q_belong_to = Some 3\<rparr>"

definition demo_option :: "string \<Rightarrow> string \<Rightarrow> json" where
  "demo_option l v = JObj [(''label'', JStr l), (''value'', JStr v)]"

lemma not_blank_demo [simp]:
  "\<not> is_blank ''model''" "\<not> is_blank ''rule''" "\<not> is_blank ''content''" "\<not> is_blank ''A''"
  "\<not> is_blank ''B''" "\<not> is_blank ''C''" "\<not> is_blank ''yes''" "\<not> is_blank ''no''"
  by (simp_all add: is_graphic_def)

lemma fold_key_demo [simp]:
  "fold_key ''index'' = ''index''" "fold_key ''Answer'' = ''answer''" "fold_key ''score'' = ''score''"
  "fold_key ''grading_rule'' = ''grading_rule''" "fold_key ''label'' = ''label''"
  "fold_key ''value'' = ''value''"
  by code_simp+

lemma dec_demo_answer:
  assumes "\<bar>f64_round x\<bar> < pow2 1024" and "min_int64 \<le> i" and "i \<le> max_int64"
  shows "dec_struct answer_field \<lparr>sa_index = 0, sa_answer = [], sa_alternative = [], sa_score = 0,
      sa_rule = []\<rparr> (demo_answer i x) =
    Some \<lparr>sa_index = i, sa_answer = ''model'', sa_alternative = [], sa_score = f64_round x, sa_rule = ''rule''\<rparr>"
  using assms by (simp add: demo_answer_def answer_field_def)

lemma dec_demo_option:
  "dec_struct option_field \<lparr>qo_label = [], qo_value = []\<rparr> (demo_option l v) = Some \<lparr>qo_label = l, qo_value = v\<rparr>"
  by (simp add: demo_option_def option_field_def)

lemma small_float: "0 \<le> x \<Longrightarrow> x < 100 \<Longrightarrow> \<bar>x\<bar> < pow2 1024"
proof -
  assume "0 \<le> x" and "x < 100"
  moreover have "pow2 7 < pow2 1024" by simp
  moreover have "pow2 7 = 128" by (simp add: pow2_def)
  ultimately show ?thesis by linarith
qed

text \<open>
  Totals that need no rounding are judged right: if the scores of a complete list of
  answers are multiples of one power of two and their sum has at most 53 bits above it (whole
  and half points, say), an essay, comprehensive or exercise question is accepted exactly when
  the scores add up to the question's score.
\<close>

lemma exact_total_decides:
  assumes "q_type q \<in> {''08'', ''10'', ''12''}"
    and "unmarshal dec_answers (q_answers q) = Some as" and "answers_ok as"
    and "\<forall>a \<in> set as. multiple_of_pow2 e (sa_score a)" and "-1074 \<le> e"
    and "sum_list (map sa_score as) < pow2 (53 + e)"
  shows "validate_by_type q = Inr () \<longleftrightarrow> sum_list (map sa_score as) = Float64 (q_score q)"
proof -
  have "f64_sum (map sa_score as) = sum_list (map sa_score as)"
    by (rule f64_sum_exact [OF _ assms(6,5)])
      (use assms(3,4) in \<open>auto simp: answers_ok_def list_all_iff answer_ok_def less_imp_le\<close>)
  then show ?thesis using assms(1-3) by (auto simp: validate_by_type_iff written_spec_def)
qed

lemma f64_half: "f64_round (5 / 2) = 5 / 2"
  by (rule f64_round_exact [of _ 5 "-1"]) (simp_all add: pow2_def)

definition half_answers :: "SubjectiveAnswer list" where
  "half_answers = map (\<lambda>i. \<lparr>sa_index = i, sa_answer = ''model'', sa_alternative = [], sa_score = 5 / 2,
     sa_rule = ''rule''\<rparr>) [2, 1]"

lemma exact_total_decides_witness:
  "validate_by_type (demo_question ''08'' JNull (JArr [demo_answer 2 (5 / 2), demo_answer 1 (5 / 2)]) 5) = Inr () \<longleftrightarrow>
   sum_list (map sa_score half_answers) = Float64 (Some 5)"
proof -
  let ?q = "demo_question ''08'' JNull (JArr [demo_answer 2 (5 / 2), demo_answer 1 (5 / 2)]) 5"
  have "unmarshal dec_answers (q_answers ?q) = Some half_answers"
    using small_float [of "5 / 2"]
    by (simp add: demo_question_def dec_answers_def dec_demo_answer f64_half half_answers_def
        min_int64_def max_int64_def)
  moreover have "answers_ok half_answers"
    by (auto simp: answers_ok_def half_answers_def answer_ok_def)
  moreover have "multiple_of_pow2 (-1) (5 / 2)"
    unfolding multiple_of_pow2_def by (rule exI [of _ 5]) (simp add: pow2_def)
  ultimately show ?thesis
    using exact_total_decides [of ?q half_answers "-1"]
    by (simp add: demo_question_def half_answers_def pow2_def)
qed

text \<open>
  Decimal totals are not: an essay question of 3.3 points whose two parts score 1.1 and
  2.2 is refused, because the sum of the floats is the next float above the one 3.3 stands for.
\<close>

lemma decimal_total_rejected:
  "validateQuestion (Some (demo_question ''08'' JNull
      (JArr [demo_answer 1 (11 / 10), demo_answer 2 (11 / 5)]) (f64_round (33 / 10)))) =
    Inl (Total_differs (7430939385161319 / 2 ^ 51) (7430939385161318 / 2 ^ 51)) \<and>
   (11 / 10 + 11 / 5 :: rat) = 33 / 10"
proof -
  let ?q = "demo_question ''08'' JNull (JArr [demo_answer 1 (11 / 10), demo_answer 2 (11 / 5)]) (f64_round (33 / 10))"
  let ?a = "\<lambda>i x. \<lparr>sa_index = i, sa_answer = ''model'', sa_alternative = [], sa_score = f64_round x,
     sa_rule = ''rule''\<rparr>"
  have pos: "0 < f64_round (11 / 10)" "0 < f64_round (11 / 5)"
    by (simp_all only: f64_eleven_tenths f64_22_tenths) simp_all
  have small: "\<bar>f64_round (11 / 10)\<bar> < pow2 1024" "\<bar>f64_round (11 / 5)\<bar> < pow2 1024"
    unfolding f64_eleven_tenths f64_22_tenths by (rule small_float; simp)+
  have dec: "unmarshal dec_answers (q_answers ?q) = Some [?a 1 (11 / 10), ?a 2 (11 / 5)]"
    using dec_demo_answer [OF small(1), of 1] dec_demo_answer [OF small(2), of 2]
    by (simp add: demo_question_def dec_answers_def min_int64_def max_int64_def)
  have "check_answers 2 [?a 1 (11 / 10), ?a 2 (11 / 5)] {} 0 =
      Inr (f64_sum [f64_round (11 / 10), f64_round (11 / 5)])"
    unfolding check_answers_ok using pos by (auto simp: answer_ok_def f64_sum_def)
  then have "check_answers 2 [?a 1 (11 / 10), ?a 2 (11 / 5)] {} 0 = Inr (7430939385161319 / 2 ^ 51)"
    by (simp only: f64_sum_astray)
  then have "validateEssayQuestion ?q = Inl (Total_differs (7430939385161319 / 2 ^ 51) (f64_round (33 / 10)))"
    unfolding validateEssayQuestion_def dec
    by (simp add: demo_question_def Float64_def f64_33_tenths numeral_2_eq_2
        del: check_answers.simps)
  then show ?thesis
    by (simp add: validateQuestion_def demo_question_def QuestionTypes_def QuestionDifficulty_def
        Float64_def f64_33_tenths check_tags_def validate_by_type_def)
qed

text \<open>
  Two choice questions that slip through: one with several answers to choose from but no
  correct one, and a true/false question whose two options are both labelled A.
\<close>

lemma weak_choice_questions:
  "validateQuestion (Some (demo_question ''02''
      (JArr [demo_option ''A'' ''yes'', demo_option ''B'' ''no'', demo_option ''C'' ''no'']) (JArr []) 2)) = Inr () \<and>
   validateQuestion (Some (demo_question ''04''
      (JArr [demo_option ''A'' ''yes'', demo_option ''A'' ''no'']) (JArr [JStr ''B'']) 2)) = Inr ()"
  by (simp add: validateQuestion_def demo_question_def QuestionTypes_def QuestionDifficulty_def
      Float64_def check_tags_def validate_by_type_def validateMultipleChoiceQuestion_def
      validateTrueFalseQuestion_def dec_options_def dec_demo_option dec_strings_def)

end
