(* ===== verification/Exam_Answering.thy ===== *)
theory Exam_Answering
  imports Exam_Schema Go_Float
begin

text \<open>
  Answering an exam or a practice, \<open>serve/paper_respondence\<close>: when a student may enter and hand
  in, the saving of answers, handing in, leaving, and the invigilator's permission to come in
  late. \<open>now\<close> is the clock in milliseconds; \<open>fault\<close> says which statements the database fails.
  The context keys with which the tests force errors are absent in a running system and are
  left out, and so are the parts of a reply that only pass rows on.
\<close>

section \<open>Constants\<close>

definition StartTimeNotArrived :: int where "StartTimeNotArrived = 1"
definition EndTimeArrived :: int where "EndTimeArrived = 2"
definition ExamSubmitted :: int where "ExamSubmitted = 3"
definition LateEntryTimeArrived :: int where "LateEntryTimeArrived = 4"
definition ExamCanBeEnter :: int where "ExamCanBeEnter = 5"

definition ExamModeOnline :: string where "ExamModeOnline = ''00''"
definition ExamTypeFixed :: string where "ExamTypeFixed = ''00''"
definition SUBMIT :: string where "SUBMIT = ''0''"
definition INIT :: string where "INIT = ''1''"
definition STATUS :: string where "STATUS = ''2''"
definition ALLOW :: string where "ALLOW = ''3''"
definition ExamOverStatus :: string where "ExamOverStatus = ''10''"
definition NormalStatus :: string where "NormalStatus = ''00''"
definition MakeupExam :: string where "MakeupExam = ''04''"
definition CanBeEnterStatus :: string where "CanBeEnterStatus = ''16''"
definition QuestionCanNotAnswer :: string where "QuestionCanNotAnswer = ''02''"
definition practiceSubmitted :: string where "practiceSubmitted = ''06''"
definition ExamType :: string where "ExamType = ''00''"
definition PracticeType :: string where "PracticeType = ''02''"
definition WrongPracticeType :: string where "WrongPracticeType = ''04''"
definition StudentDomainId :: int where "StudentDomainId = 2008"
definition ExamInvigilator :: int where "ExamInvigilator = 2004"

lemmas answering_consts = StartTimeNotArrived_def EndTimeArrived_def ExamSubmitted_def
  LateEntryTimeArrived_def ExamCanBeEnter_def ExamModeOnline_def ExamTypeFixed_def SUBMIT_def
  INIT_def STATUS_def ALLOW_def ExamOverStatus_def NormalStatus_def MakeupExam_def
  CanBeEnterStatus_def QuestionCanNotAnswer_def practiceSubmitted_def ExamType_def
  PracticeType_def WrongPracticeType_def

section \<open>State\<close>

record student_answer =
  an_type :: string
  an_examinee_id :: "int option"
  an_practice_id :: "int option"
  an_question_id :: int
  an_answer :: string
  an_creator :: int
  an_create_time :: int
  an_updated_by :: "int option"
  an_update_time :: "int option"
  an_status :: string
  an_score :: "rat option"

text \<open>A row of \<open>t_practice_submissions\<close>, or of \<open>t_practice_wrong_submissions\<close>.\<close>

record practice_row =
  pr_id :: int
  pr_status :: string
  pr_start_time :: "int option"
  pr_end_time :: "int option"
  pr_last_start :: "int option"
  pr_last_end :: "int option"
  pr_elapsed :: "int option"
  pr_updated_by :: "int option"
  pr_update_time :: "int option"

record answer_db =
  ad_exam :: exam_db
  ad_answers :: "student_answer list"
  ad_practice :: "practice_row list"
  ad_wrong :: "practice_row list"

datatype resp_error =
    Exam_not_started
  | Over_entry_time
  | Exam_over
  | Submit_time_not_arrived
  | Already_submitted
  | Unknown_use string
  | Unknown_type string
  | Sql_failed string
  | No_row string
  | Unique_violation
  | Empty_statement
  | Practice_gone
  | Ids_not_positive
  | Request_invalid
  | Body_unreadable
  | Body_empty
  | Body_malformed
  | Method_not_allowed string
  | Domain_not_allowed

section \<open>The examinee's own row\<close>

text \<open>
  \<open>getExamineeInfo\<close>: the row of the view for the session and the student; the view sorts by
  id, the newest first, and only the first row is read.
\<close>

definition getExamineeInfo :: "exam_db \<Rightarrow> int \<Rightarrow> int \<Rightarrow> (examinee \<times> exam_session \<times> exam_info) option" where
  "getExamineeInfo db sessionID studentID =
    (case filter (\<lambda>e. ex_session_id e = sessionID \<and> ex_student_id e = studentID \<and>
            examinee_view db e \<noteq> None) (rev (sort_key ex_id (examinees db))) of
       [] \<Rightarrow> None
     | e # _ \<Rightarrow> (case examinee_view db e of None \<Rightarrow> None | Some (s, x) \<Rightarrow> Some (e, s, x)))"

text \<open>A fixed, online exam: only here the late-entry and early-submission times count.\<close>

definition fixed_online :: "exam_session \<Rightarrow> exam_info \<Rightarrow> bool" where
  "fixed_online s x \<longleftrightarrow> es_period_mode s = ExamTypeFixed \<and> ei_mode x = ExamModeOnline"

definition check_use :: "int \<Rightarrow> string \<Rightarrow> examinee \<Rightarrow> exam_session \<Rightarrow> exam_info \<Rightarrow> resp_error + int" where
  "check_use now use e s x =
    (if use = INIT
     then if now < es_start_time s then Inl Exam_not_started
          else if now > Int64 (actual_end_time s e) then Inl Exam_over
          else if ex_status e = CanBeEnterStatus \<or> ex_start_time e \<noteq> None then Inr 0
          else if now > allow_entry_time s \<and> allow_entry_time s \<noteq> es_start_time s \<and> fixed_online s x
          then Inl Over_entry_time
          else Inr 0
     else if use = SUBMIT
     then if now < es_start_time s then Inl Exam_not_started
          else if ex_end_time e \<noteq> None then Inr ExamSubmitted
          else if now < allow_submit_time s - 1000 \<and> fixed_online s x then Inl Submit_time_not_arrived
          else Inr 0
     else if use = STATUS
     then if now < es_start_time s then Inr StartTimeNotArrived
          else if now > Int64 (actual_end_time s e) then Inr EndTimeArrived
          else if ex_end_time e \<noteq> None then Inr ExamSubmitted
          else if ex_status e = CanBeEnterStatus \<or> ex_start_time e \<noteq> None then Inr ExamCanBeEnter
          else if now > allow_entry_time s \<and> fixed_online s x then Inr LateEntryTimeArrived
          else Inr ExamCanBeEnter
     else if use = ALLOW
     then if now < es_start_time s then Inl Exam_not_started
          else if now > Int64 (actual_end_time s e) then Inl Exam_over
          else if ex_end_time e \<noteq> None then Inl Already_submitted
          else Inr 0
     else Inl (Unknown_use use))"

definition checkExamCondition ::
    "(string \<Rightarrow> bool) \<Rightarrow> int \<Rightarrow> exam_db \<Rightarrow> int \<Rightarrow> int \<Rightarrow> string \<Rightarrow> resp_error + int" where
  "checkExamCondition fault now db sessionID studentID use =
    (if fault ''getExamineeInfo'' then Inl (Sql_failed ''getExamineeInfo'')
     else (case getExamineeInfo db sessionID studentID of
             None \<Rightarrow> Inl (No_row ''getExamineeInfo'')
           | Some (e, s, x) \<Rightarrow> check_use now use e s x))"

section \<open>Answers\<close>

text \<open>
  The statements without a \<open>WHERE\<close> target: with both ids at most 0 the statement is the empty
  string, which the driver refuses because of its three arguments.
\<close>

definition setAnswerCanNotUpdate ::
    "(string \<Rightarrow> bool) \<Rightarrow> int \<Rightarrow> int \<Rightarrow> int \<Rightarrow> int \<Rightarrow> answer_db \<Rightarrow> resp_error + answer_db" where
  "setAnswerCanNotUpdate fault now examineeId practiceSubmissionId userId db =
    (let freeze = (\<lambda>a. a\<lparr>an_status := QuestionCanNotAnswer, an_updated_by := Some userId,
           an_update_time := Some now\<rparr>)
     in if fault ''setAnswerCanNotUpdate'' then Inl (Sql_failed ''setAnswerCanNotUpdate'')
        else if 0 < examineeId
        then Inr (db\<lparr>ad_answers := sql_update (\<lambda>a. an_examinee_id a = Some examineeId) freeze (ad_answers db)\<rparr>)
        else if 0 < practiceSubmissionId
        then Inr (db\<lparr>ad_answers := sql_update (\<lambda>a. an_practice_id a = Some practiceSubmissionId) freeze (ad_answers db)\<rparr>)
        else Inl Empty_statement)"

definition gone :: "string \<Rightarrow> bool" where "gone st \<longleftrightarrow> st \<in> {''04'', ''10''}"

definition checkPracticeSubmission :: "(string \<Rightarrow> bool) \<Rightarrow> answer_db \<Rightarrow> int \<Rightarrow> resp_error + unit" where
  "checkPracticeSubmission fault db i =
    (if fault ''checkPracticeSubmission'' then Inl (Sql_failed ''checkPracticeSubmission'')
     else if list_ex (\<lambda>p. pr_id p = i \<and> gone (pr_status p)) (ad_practice db)
     then Inl Practice_gone else Inr ())"

definition checkWrongPracticeSubmission :: "(string \<Rightarrow> bool) \<Rightarrow> answer_db \<Rightarrow> int \<Rightarrow> resp_error + unit" where
  "checkWrongPracticeSubmission fault db i =
    (if fault ''checkWrongPracticeSubmission'' then Inl (Sql_failed ''checkWrongPracticeSubmission'')
     else if list_ex (\<lambda>p. pr_id p = i \<and> gone (pr_status p)) (ad_wrong db)
     then Inl Practice_gone else Inr ())"

record save_req =
  sv_examinee :: int
  sv_practice :: int
  sv_type :: string
  sv_question :: int
  sv_answer :: string
  sv_student :: int

text \<open>
  \<open>INSERT \<dots> ON CONFLICT (k, question_id) DO UPDATE \<dots> WHERE status <> '02'\<close> for the unique pair
  \<open>k\<close> that is the conflict target: a row with the same pair is updated if it may still be
  answered, and then the statement returns it; otherwise it returns no row. A \<open>NULL\<close> never
  conflicts. A conflict on the other unique pair is an error.
\<close>

definition same_key :: "(student_answer \<Rightarrow> int option) \<Rightarrow> student_answer \<Rightarrow> student_answer \<Rightarrow> bool" where
  "same_key key a b \<longleftrightarrow> key a \<noteq> None \<and> key a = key b \<and> an_question_id a = an_question_id b"

definition overwrite :: "student_answer \<Rightarrow> student_answer \<Rightarrow> student_answer" where
  "overwrite new old =
    old\<lparr>an_type := an_type new, an_answer := an_answer new, an_updated_by := an_updated_by new,
        an_update_time := an_update_time new\<rparr>"

definition upsert ::
    "(student_answer \<Rightarrow> int option) \<Rightarrow> (student_answer \<Rightarrow> int option) \<Rightarrow> student_answer \<Rightarrow> answer_db \<Rightarrow>
      resp_error + answer_db" where
  "upsert key other new db =
    (if list_ex (same_key key new) (ad_answers db)
     then if list_ex (\<lambda>a. same_key key new a \<and> an_status a \<noteq> QuestionCanNotAnswer) (ad_answers db)
          then Inr (db\<lparr>ad_answers := sql_update
                  (\<lambda>a. same_key key new a \<and> an_status a \<noteq> QuestionCanNotAnswer) (overwrite new) (ad_answers db)\<rparr>)
          else Inl (No_row ''insertOrUpdateAnswer'')
     else if list_ex (same_key other new) (ad_answers db) then Inl Unique_violation
     else Inr (db\<lparr>ad_answers := ad_answers db @ [new]\<rparr>))"

definition new_answer :: "int \<Rightarrow> save_req \<Rightarrow> student_answer" where
  "new_answer now r =
    \<lparr>an_type = sv_type r,
     an_examinee_id = (if sv_type r = ExamType then Some (sv_examinee r) else None),
     an_practice_id = (if sv_type r = ExamType then None else Some (sv_practice r)),
     an_question_id = sv_question r, an_answer = sv_answer r, an_creator = sv_student r,
     an_create_time = now, an_updated_by = Some (sv_student r), an_update_time = Some now,
     an_status = ''00'', an_score = None\<rparr>"

definition insertOrUpdateAnswer ::
    "(string \<Rightarrow> bool) \<Rightarrow> int \<Rightarrow> save_req \<Rightarrow> answer_db \<Rightarrow> resp_error + answer_db" where
  "insertOrUpdateAnswer fault now r db =
    and_then (if sv_examinee r \<le> 0 \<and> 0 < sv_practice r
              then checkPracticeSubmission fault db (sv_practice r) else Inr ()) (\<lambda>_.
    if sv_type r \<noteq> ExamType \<and> sv_type r \<noteq> PracticeType then Inl (Unknown_type (sv_type r))
    else if fault ''insertOrUpdateAnswer'' then Inl (Sql_failed ''insertOrUpdateAnswer'')
    else if 0 < sv_examinee r then upsert an_examinee_id an_practice_id (new_answer now r) db
    else if 0 < sv_practice r then upsert an_practice_id an_examinee_id (new_answer now r) db
    else Inl Empty_statement)"

section \<open>Handing in\<close>

record submit_req =
  su_type :: string
  su_exam :: int
  su_examinee :: int
  su_session :: int
  su_practice_submission :: int
  su_wrong_submission :: int
  su_practice :: int
  su_student :: int

text \<open>What is passed to the automatic marking that is started on the side.\<close>

record mark_request =
  mk_examinee :: int
  mk_session :: int
  mk_practice_submission :: int
  mk_practice :: int
  mk_wrong_submission :: int

definition hand_in :: "int \<Rightarrow> int \<Rightarrow> examinee \<Rightarrow> examinee" where
  "hand_in now student e =
    e\<lparr>ex_end_time := Some now, ex_status := ExamOverStatus, ex_updated_by := Some student,
      ex_update_time := Some now\<rparr>"

definition submit_exam ::
    "(string \<Rightarrow> bool) \<Rightarrow> int \<Rightarrow> submit_req \<Rightarrow> answer_db \<Rightarrow> resp_error + answer_db \<times> mark_request" where
  "submit_exam fault now u db =
    (if su_exam u \<le> 0 \<or> su_session u \<le> 0 \<or> su_examinee u \<le> 0 then Inl Ids_not_positive
     else and_then (checkExamCondition fault now (ad_exam db) (su_session u) (su_student u) SUBMIT) (\<lambda>status.
       let w = (\<lambda>e. ex_id e = su_examinee u \<and> ex_end_time e = None \<and> ex_start_time e \<noteq> None);
           db1 = db\<lparr>ad_exam := (ad_exam db)\<lparr>examinees :=
                   sql_update w (hand_in now (su_student u)) (examinees (ad_exam db))\<rparr>\<rparr>;
           mk = \<lparr>mk_examinee = su_examinee u, mk_session = su_session u, mk_practice_submission = 0,
                 mk_practice = 0, mk_wrong_submission = 0\<rparr>
       in if status = ExamSubmitted then Inr (db, mk)
          else if fault ''updateExaminee'' then Inl (Sql_failed ''updateExaminee'')
          else if sql_count w (examinees (ad_exam db)) = 0 then Inl (No_row ''updateExaminee'')
          else and_then (setAnswerCanNotUpdate fault now (su_examinee u) 0 (su_student u) db1) (\<lambda>db2.
                 Inr (db2, mk))))"

definition close_practice :: "int \<Rightarrow> string \<Rightarrow> practice_row \<Rightarrow> practice_row" where
  "close_practice now st p = p\<lparr>pr_end_time := Some now, pr_status := st\<rparr>"

definition open_practice :: "int \<Rightarrow> practice_row \<Rightarrow> bool" where
  "open_practice i p \<longleftrightarrow> pr_id p = i \<and> pr_status p = NormalStatus \<and> pr_end_time p = None"

definition submit_practice ::
    "(string \<Rightarrow> bool) \<Rightarrow> int \<Rightarrow> submit_req \<Rightarrow> answer_db \<Rightarrow> resp_error + answer_db \<times> mark_request" where
  "submit_practice fault now u db =
    (if su_practice_submission u \<le> 0 \<or> su_practice u \<le> 0 then Inl Ids_not_positive
     else and_then (checkPracticeSubmission fault db (su_practice_submission u)) (\<lambda>_.
          and_then (setAnswerCanNotUpdate fault now 0 (su_practice_submission u) (su_student u) db) (\<lambda>db1.
          if fault ''submitPractice'' then Inl (Sql_failed ''submitPractice'')
          else if sql_count (open_practice (su_practice_submission u)) (ad_practice db1) = 0
          then Inl (No_row ''submitPractice'')
          else Inr (db1\<lparr>ad_practice := sql_update (open_practice (su_practice_submission u))
                      (close_practice now practiceSubmitted) (ad_practice db1)\<rparr>,
                    \<lparr>mk_examinee = 0, mk_session = 0, mk_practice_submission = su_practice_submission u,
                     mk_practice = su_practice u, mk_wrong_submission = 0\<rparr>))))"

definition submit_wrong ::
    "(string \<Rightarrow> bool) \<Rightarrow> int \<Rightarrow> submit_req \<Rightarrow> answer_db \<Rightarrow> resp_error + answer_db \<times> mark_request" where
  "submit_wrong fault now u db =
    (if su_wrong_submission u \<le> 0 \<or> su_practice u \<le> 0 then Inl Ids_not_positive
     else and_then (checkWrongPracticeSubmission fault db (su_wrong_submission u)) (\<lambda>_.
          and_then (setAnswerCanNotUpdate fault now 0 (su_practice_submission u) (su_student u) db) (\<lambda>db1.
          if fault ''submitPractice'' then Inl (Sql_failed ''submitPractice'')
          else if sql_count (open_practice (su_wrong_submission u)) (ad_wrong db1) = 0
          then Inl (No_row ''submitPractice'')
          else Inr (db1\<lparr>ad_wrong := sql_update (open_practice (su_wrong_submission u))
                      (close_practice now ''06'') (ad_wrong db1)\<rparr>,
                    \<lparr>mk_examinee = 0, mk_session = 0, mk_practice_submission = su_practice_submission u,
                     mk_practice = su_practice u, mk_wrong_submission = su_wrong_submission u\<rparr>))))"

definition submit_body ::
    "(string \<Rightarrow> bool) \<Rightarrow> int \<Rightarrow> submit_req \<Rightarrow> answer_db \<Rightarrow> resp_error + answer_db \<times> mark_request" where
  "submit_body fault now u db =
    (if su_type u = ExamType then submit_exam fault now u db
     else if su_type u = PracticeType then submit_practice fault now u db
     else if su_type u = WrongPracticeType then submit_wrong fault now u db
     else Inl (Unknown_type (su_type u)))"

text \<open>The body of a request: unreadable, empty, not the expected JSON, or a request.\<close>

datatype 'r http_body = Unreadable | No_body | Bad_json | Decoded 'r

fun read_body :: "'r http_body \<Rightarrow> resp_error + 'r" where
  "read_body Unreadable = Inl Body_unreadable"
| "read_body No_body = Inl Body_empty"
| "read_body Bad_json = Inl Body_malformed"
| "read_body (Decoded r) = Inr r"

definition checkDomain :: "int list \<Rightarrow> int \<Rightarrow> resp_error + unit" where
  "checkDomain domains domainID = (if domainID \<in> set domains then Inr () else Inl Domain_not_allowed)"

text \<open>
  \<open>Submit\<close>: the reply, the database and the marking that was started. The reply is sent, and
  the marking started, by the body; the deferred function commits afterwards, and an error of
  the commit is only logged.
\<close>

definition Submit ::
    "(string \<Rightarrow> bool) \<Rightarrow> int \<Rightarrow> string \<Rightarrow> int list \<Rightarrow> null_int \<Rightarrow> submit_req http_body \<Rightarrow> answer_db \<Rightarrow>
      (resp_error + unit) \<times> answer_db \<times> mark_request option" where
  "Submit fault now httpMethod domains sysUserID body db =
    (if ToLower httpMethod \<noteq> ''post'' then (Inl (Method_not_allowed httpMethod), db, None)
     else (case and_then (checkDomain domains StudentDomainId) (\<lambda>_. read_body body) of
             Inl e \<Rightarrow> (Inl e, db, None)
           | Inr r \<Rightarrow>
               let u = r\<lparr>su_student := Int64 sysUserID\<rparr> in
               if su_type u \<notin> {''00'', ''02'', ''04''} \<or> su_student u = 0 then (Inl Request_invalid, db, None)
               else if fault ''beginTx'' then (Inl (Sql_failed ''beginTx''), db, None)
               else (case submit_body fault now u db of
                       Inl e \<Rightarrow> (Inl e, db, None)
                     | Inr (db', mk) \<Rightarrow> (Inr (), if fault ''commit'' then db else db', Some mk))))"

section \<open>Saving an answer\<close>

definition StudentAnswer_post ::
    "(string \<Rightarrow> bool) \<Rightarrow> int \<Rightarrow> int list \<Rightarrow> null_int \<Rightarrow> save_req http_body \<Rightarrow> answer_db \<Rightarrow>
      (resp_error + unit) \<times> answer_db" where
  "StudentAnswer_post fault now domains sysUserID body db =
    (case and_then (checkDomain domains StudentDomainId) (\<lambda>_. read_body body) of
       Inl e \<Rightarrow> (Inl e, db)
     | Inr r \<Rightarrow>
         let u = r\<lparr>sv_student := Int64 sysUserID\<rparr> in
         if sv_type u \<notin> {''00'', ''02''} \<or> sv_question u = 0 \<or> sv_answer u = [] \<or> sv_student u = 0
         then (Inl Request_invalid, db)
         else if fault ''beginTx'' then (Inl (Sql_failed ''beginTx''), db)
         else (case insertOrUpdateAnswer fault now u db of
                 Inl e \<Rightarrow> (Inl e, db)
               | Inr db' \<Rightarrow> (Inr (), if fault ''commit'' then db else db')))"

section \<open>Entering\<close>

definition may_begin :: "int \<Rightarrow> examinee \<Rightarrow> bool" where
  "may_begin i e \<longleftrightarrow> ex_id e = i \<and> ex_end_time e = None \<and> ex_start_time e = None \<and>
     ex_status e \<in> {CanBeEnterStatus, NormalStatus, MakeupExam}"

definition saveStudentBeginTimeForExam ::
    "(string \<Rightarrow> bool) \<Rightarrow> int \<Rightarrow> int \<Rightarrow> int \<Rightarrow> exam_db \<Rightarrow> resp_error + exam_db" where
  "saveStudentBeginTimeForExam fault now examineeID student db =
    (if fault ''selectStartTime'' then Inl (Sql_failed ''selectStartTime'')
     else (case sql_first (\<lambda>e. ex_id e = examineeID) (examinees db) of
             None \<Rightarrow> Inl (No_row ''selectStartTime'')
           | Some e \<Rightarrow>
               if ex_start_time e \<noteq> None then Inr db
               else if fault ''updateStartTime'' then Inl (Sql_failed ''updateStartTime'')
               else if sql_count (may_begin examineeID) (examinees db) = 0 then Inl (No_row ''updateStartTime'')
               else Inr (db\<lparr>examinees := sql_update (may_begin examineeID)
                      (\<lambda>e. e\<lparr>ex_start_time := Some now, ex_update_time := Some now,
                              ex_updated_by := Some student\<rparr>) (examinees db)\<rparr>)))"

text \<open>
  Entering an exam, the part of \<open>InitRespondent\<close> between the queries of what is shown: a student
  the invigilator has let in skips the time checks.
\<close>

definition init_exam ::
    "(string \<Rightarrow> bool) \<Rightarrow> int \<Rightarrow> int \<Rightarrow> int \<Rightarrow> exam_db \<Rightarrow> resp_error + exam_db" where
  "init_exam fault now sessionID student db =
    (if fault ''getExamineeInfo'' then Inl (Sql_failed ''getExamineeInfo'')
     else (case getExamineeInfo db sessionID student of
             None \<Rightarrow> Inl (No_row ''getExamineeInfo'')
           | Some (e, s, x) \<Rightarrow>
               if ex_end_time e \<noteq> None then Inl Already_submitted
               else and_then (if ex_status e \<noteq> CanBeEnterStatus
                              then checkExamCondition fault now db sessionID student INIT else Inr 0) (\<lambda>_.
                      saveStudentBeginTimeForExam fault now (ex_id e) student db)))"

definition may_be_let_in :: "exam_db \<Rightarrow> int \<Rightarrow> int \<Rightarrow> int \<Rightarrow> examinee \<Rightarrow> bool" where
  "may_be_let_in db sessionID student teacher e \<longleftrightarrow>
     ex_session_id e = sessionID \<and> ex_student_id e = student \<and> ex_status e = NormalStatus \<and>
     list_ex (\<lambda>s. es_id s = ex_session_id e \<and> teacher \<in> set (es_reviewer_ids s)) (exam_sessions db)"

definition allow_enter ::
    "(string \<Rightarrow> bool) \<Rightarrow> int \<Rightarrow> int \<Rightarrow> int \<Rightarrow> int \<Rightarrow> exam_db \<Rightarrow> resp_error + exam_db" where
  "allow_enter fault now sessionID student teacher db =
    and_then (checkExamCondition fault now db sessionID student ALLOW) (\<lambda>_.
      let w = may_be_let_in db sessionID student teacher
      in if fault ''allow'' then Inl (Sql_failed ''allow'')
         else if sql_count w (examinees db) = 0 then Inl (No_row ''allow'')
         else Inr (db\<lparr>examinees := sql_update w
                (\<lambda>e. e\<lparr>ex_updated_by := Some teacher, ex_update_time := Some now,
                        ex_status := CanBeEnterStatus\<rparr>) (examinees db)\<rparr>))"

definition AllowStudentCanBeInExam ::
    "(string \<Rightarrow> bool) \<Rightarrow> int \<Rightarrow> string \<Rightarrow> int list \<Rightarrow> null_int \<Rightarrow> (int \<times> int) http_body \<Rightarrow> exam_db \<Rightarrow>
      (resp_error + unit) \<times> exam_db" where
  "AllowStudentCanBeInExam fault now httpMethod domains sysUserID body db =
    (if ToLower httpMethod \<noteq> ''post'' then (Inl (Method_not_allowed httpMethod), db)
     else (case and_then (checkDomain domains ExamInvigilator) (\<lambda>_. read_body body) of
             Inl e \<Rightarrow> (Inl e, db)
           | Inr (sessionID, student) \<Rightarrow>
               let teacher = Int64 sysUserID in
               if teacher \<le> 0 \<or> sessionID < 1 \<or> student < 1 then (Inl Request_invalid, db)
               else if fault ''beginTx'' then (Inl (Sql_failed ''beginTx''), db)
               else (case allow_enter fault now sessionID student teacher db of
                       Inl e \<Rightarrow> (Inl e, db)
                     | Inr db' \<Rightarrow> (Inr (), if fault ''commit'' then db else db'))))"

section \<open>Leaving\<close>

text \<open>
  \<open>elapsed_seconds + (now - last_start_time) / 1000.0\<close>, stored in an integer column: rounded to
  the nearest, halves away from zero; \<open>NULL\<close> if one of the two is.
\<close>

definition add_seconds :: "int option \<Rightarrow> int \<Rightarrow> int option \<Rightarrow> int option" where
  "add_seconds elapsed now last_start =
    (case (elapsed, last_start) of
       (Some e, Some l) \<Rightarrow>
         let ms = 1000 * e + (now - l)
         in Some (if 0 \<le> ms then (ms + 500) div 1000 else - ((- ms + 500) div 1000))
     | _ \<Rightarrow> None)"

definition leave_practice :: "int \<Rightarrow> int \<Rightarrow> practice_row \<Rightarrow> practice_row" where
  "leave_practice now student p =
    p\<lparr>pr_last_end := Some now, pr_elapsed := add_seconds (pr_elapsed p) now (pr_last_start p),
      pr_updated_by := Some student, pr_update_time := Some now\<rparr>"

definition HandleExit ::
    "(string \<Rightarrow> bool) \<Rightarrow> int \<Rightarrow> int \<Rightarrow> int \<Rightarrow> int \<Rightarrow> int \<Rightarrow> answer_db \<Rightarrow> (resp_error + unit) \<times> answer_db" where
  "HandleExit fault now examineeID practiceSubmissionID wrongSubmissionID student db =
    (let pw = (\<lambda>i p. pr_id p = i \<and> pr_status p = NormalStatus);
         ew = (\<lambda>e. ex_id e = examineeID \<and> (ex_status e = CanBeEnterStatus \<or> ex_status e = NormalStatus))
     in if examineeID \<le> 0 \<and> practiceSubmissionID \<le> 0 \<and> wrongSubmissionID \<le> 0 then (Inl Ids_not_positive, db)
        else if student \<le> 0 then (Inl Request_invalid, db)
        else if fault ''HandleExit'' then (Inl (Sql_failed ''HandleExit''), db)
        else if 0 < practiceSubmissionID
        then if sql_count (pw practiceSubmissionID) (ad_practice db) = 0 then (Inl (No_row ''HandleExit''), db)
             else (Inr (), db\<lparr>ad_practice := sql_update (pw practiceSubmissionID) (leave_practice now student)
                     (ad_practice db)\<rparr>)
        else if 0 < examineeID
        then if sql_count ew (examinees (ad_exam db)) = 0 then (Inl (No_row ''HandleExit''), db)
             else (Inr (), db\<lparr>ad_exam := (ad_exam db)\<lparr>examinees := sql_update ew
                     (\<lambda>e. e\<lparr>ex_updated_by := Some student, ex_update_time := Some now,
                             ex_exit_cnt := ex_exit_cnt e + 1\<rparr>) (examinees (ad_exam db))\<rparr>\<rparr>)
        else if sql_count (pw wrongSubmissionID) (ad_wrong db) = 0 then (Inl (No_row ''HandleExit''), db)
             else (Inr (), db\<lparr>ad_wrong := sql_update (pw wrongSubmissionID) (leave_practice now student)
                     (ad_wrong db)\<rparr>))"

section \<open>The times of an examinee\<close>

text \<open>One request to the module, whatever fails meanwhile.\<close>

inductive answering_step :: "answer_db \<Rightarrow> answer_db \<Rightarrow> bool" where
  submit: "answering_step db (fst (snd (Submit fault now m domains user body db)))"
| save: "answering_step db (snd (StudentAnswer_post fault now domains user sbody db))"
| enter: "init_exam fault now sid student (ad_exam db) = Inr x \<Longrightarrow> answering_step db (db\<lparr>ad_exam := x\<rparr>)"
| allow: "answering_step db
    (db\<lparr>ad_exam := snd (AllowStudentCanBeInExam fault now m domains user abody (ad_exam db))\<rparr>)"
| exit_: "answering_step db (snd (HandleExit fault now i p w student db))"

inductive_cases answering_stepE: "answering_step db db'"

definition exam_times :: "examinee \<Rightarrow> int option \<times> int option" where
  "exam_times e = (ex_start_time e, ex_end_time e)"

definition examinee_key :: "examinee \<Rightarrow> int \<times> int \<times> int" where
  "examinee_key e = (ex_id e, ex_session_id e, ex_student_id e)"

text \<open>First the begin is set, then the end, each once.\<close>

definition times_edge :: "int option \<times> int option \<Rightarrow> int option \<times> int option \<Rightarrow> bool" where
  "times_edge = (\<lambda>(a, b) (a', b').
     (a = None \<and> a' \<noteq> None \<and> b = None \<and> b' = None) \<or> (a \<noteq> None \<and> a' = a \<and> b = None \<and> b' \<noteq> None))"

text \<open>The ways a request changes the examinees.\<close>

datatype examinee_change =
    Hand_in int int int
  | Begin int int int
  | Let_in exam_db int int int int
  | Note_exit int int int

fun change_where :: "examinee_change \<Rightarrow> examinee \<Rightarrow> bool" where
  "change_where (Hand_in i now student) e = (ex_id e = i \<and> ex_end_time e = None \<and> ex_start_time e \<noteq> None)"
| "change_where (Begin i now student) e = may_begin i e"
| "change_where (Let_in db sid student teacher now) e = may_be_let_in db sid student teacher e"
| "change_where (Note_exit i now student) e =
    (ex_id e = i \<and> (ex_status e = CanBeEnterStatus \<or> ex_status e = NormalStatus))"

fun change_row :: "examinee_change \<Rightarrow> examinee \<Rightarrow> examinee" where
  "change_row (Hand_in i now student) e = hand_in now student e"
| "change_row (Begin i now student) e =
    e\<lparr>ex_start_time := Some now, ex_update_time := Some now, ex_updated_by := Some student\<rparr>"
| "change_row (Let_in db sid student teacher now) e =
    e\<lparr>ex_updated_by := Some teacher, ex_update_time := Some now, ex_status := CanBeEnterStatus\<rparr>"
| "change_row (Note_exit i now student) e =
    e\<lparr>ex_updated_by := Some student, ex_update_time := Some now, ex_exit_cnt := ex_exit_cnt e + 1\<rparr>"

text \<open>The conditions and the changes as functions.\<close>

lemma change_funs:
  "change_where (Hand_in i now student) = (\<lambda>e. ex_id e = i \<and> ex_end_time e = None \<and> ex_start_time e \<noteq> None)"
  "change_where (Begin i now student) = may_begin i"
  "change_where (Let_in db sid student teacher now) = may_be_let_in db sid student teacher"
  "change_where (Note_exit i now student) =
     (\<lambda>e. ex_id e = i \<and> (ex_status e = CanBeEnterStatus \<or> ex_status e = NormalStatus))"
  "change_row (Hand_in i now student) = hand_in now student"
  "change_row (Begin i now student) =
     (\<lambda>e. e\<lparr>ex_start_time := Some now, ex_update_time := Some now, ex_updated_by := Some student\<rparr>)"
  "change_row (Let_in db sid student teacher now) =
     (\<lambda>e. e\<lparr>ex_updated_by := Some teacher, ex_update_time := Some now, ex_status := CanBeEnterStatus\<rparr>)"
  "change_row (Note_exit i now student) =
     (\<lambda>e. e\<lparr>ex_updated_by := Some student, ex_update_time := Some now, ex_exit_cnt := ex_exit_cnt e + 1\<rparr>)"
  by (simp_all add: fun_eq_iff)

definition changed :: "examinee list \<Rightarrow> examinee list \<Rightarrow> bool" where
  "changed es es' \<longleftrightarrow> es' = es \<or> (\<exists>c. es' = sql_update (change_where c) (change_row c) es)"

lemma changed_same [simp]: "changed es es" by (simp add: changed_def)

lemma setAnswer_exam:
  "setAnswerCanNotUpdate fault now i p u db = Inr db' \<Longrightarrow> ad_exam db' = ad_exam db"
  by (auto simp: setAnswerCanNotUpdate_def Let_def split: if_splits)

lemma submit_body_changed:
  assumes "submit_body fault now u db = Inr (db', mk)"
  shows "changed (examinees (ad_exam db)) (examinees (ad_exam db'))"
proof (cases "su_type u = ExamType")
  case True
  then have "submit_exam fault now u db = Inr (db', mk)" using assms by (simp add: submit_body_def)
  then have "examinees (ad_exam db') = examinees (ad_exam db) \<or>
      examinees (ad_exam db') = sql_update (change_where (Hand_in (su_examinee u) now (su_student u)))
        (change_row (Hand_in (su_examinee u) now (su_student u))) (examinees (ad_exam db))"
    by (auto simp: submit_exam_def and_then_Inr_iff Let_def change_funs split: if_splits dest!: setAnswer_exam)
  then show ?thesis unfolding changed_def by blast
next
  case False
  then have "ad_exam db' = ad_exam db"
    using assms
    by (auto simp: submit_body_def submit_practice_def submit_wrong_def and_then_Inr_iff
        split: if_splits dest!: setAnswer_exam)
  then show ?thesis by simp
qed

lemma insertOrUpdate_exam:
  "insertOrUpdateAnswer fault now r db = Inr db' \<Longrightarrow> ad_exam db' = ad_exam db"
  by (auto simp: insertOrUpdateAnswer_def upsert_def and_then_Inr_iff split: if_splits)

lemma saveBegin_changed:
  assumes "saveStudentBeginTimeForExam fault now i student db = Inr db'"
  shows "changed (examinees db) (examinees db')"
proof -
  have "examinees db' = examinees db \<or>
      examinees db' = sql_update (change_where (Begin i now student)) (change_row (Begin i now student)) (examinees db)"
    using assms by (auto simp: saveStudentBeginTimeForExam_def change_funs split: if_splits option.splits)
  then show ?thesis unfolding changed_def by blast
qed

lemma allow_changed:
  assumes "allow_enter fault now sid student teacher db = Inr db'"
  shows "changed (examinees db) (examinees db')"
proof -
  have "examinees db' = sql_update (change_where (Let_in db sid student teacher now))
      (change_row (Let_in db sid student teacher now)) (examinees db)"
    using assms by (auto simp: allow_enter_def and_then_Inr_iff Let_def change_funs split: if_splits)
  then show ?thesis unfolding changed_def by blast
qed

lemma HandleExit_changed:
  "changed (examinees (ad_exam db)) (examinees (ad_exam (snd (HandleExit fault now i p w student db))))"
proof -
  have "examinees (ad_exam (snd (HandleExit fault now i p w student db))) = examinees (ad_exam db) \<or>
      examinees (ad_exam (snd (HandleExit fault now i p w student db))) =
        sql_update (change_where (Note_exit i now student)) (change_row (Note_exit i now student)) (examinees (ad_exam db))"
    by (simp add: HandleExit_def Let_def change_funs)
  then show ?thesis unfolding changed_def by blast
qed

lemma answering_step_changed:
  assumes "answering_step db db'"
  shows "changed (examinees (ad_exam db)) (examinees (ad_exam db'))"
  using assms
proof (cases rule: answering_step.cases)
  case (submit fault now m domains user body)
  then show ?thesis
    by (auto simp: Submit_def Let_def split: sum.splits prod.splits dest: submit_body_changed)
next
  case (save fault now domains user sbody)
  then show ?thesis
    by (auto simp: StudentAnswer_post_def Let_def split: sum.splits dest: insertOrUpdate_exam)
next
  case (enter fault now sid student x)
  then show ?thesis
    by (auto simp: init_exam_def and_then_Inr_iff split: if_splits option.splits
        dest: saveBegin_changed)
next
  case (allow fault now m domains user abody)
  then show ?thesis
    by (auto simp: AllowStudentCanBeInExam_def Let_def split: sum.splits prod.splits dest: allow_changed)
next
  case (exit_ fault now i p w student)
  then show ?thesis using HandleExit_changed by simp
qed

lemma change_row_simps [simp]: "examinee_key (change_row c e) = examinee_key e"
  by (cases c) (simp_all add: examinee_key_def hand_in_def)

lemma change_row_times:
  "change_where c e \<Longrightarrow> exam_times (change_row c e) = exam_times e \<or>
    times_edge (exam_times e) (exam_times (change_row c e))"
  by (cases c) (auto simp: exam_times_def times_edge_def hand_in_def may_begin_def)

interpretation examinee_times: status_table "\<lambda>db. examinees (ad_exam db)" examinee_key exam_times
  times_edge answering_step
proof unfold_locales
  fix s s' i
  assume "answering_step s s'" and i: "i < length (examinees (ad_exam s))"
  from answering_step_changed [OF this(1)] consider "examinees (ad_exam s') = examinees (ad_exam s)"
    | c where "examinees (ad_exam s') = sql_update (change_where c) (change_row c) (examinees (ad_exam s))"
    unfolding changed_def by blast
  then show "exam_times (examinees (ad_exam s') ! i) = exam_times (examinees (ad_exam s) ! i) \<or>
      times_edge (exam_times (examinees (ad_exam s) ! i)) (exam_times (examinees (ad_exam s') ! i))"
    by cases (simp_all add: sql_update_status i change_row_times)
qed (auto dest!: answering_step_changed simp: changed_def nth_sql_update)

section \<open>What is handed in stays\<close>

definition frozen :: "student_answer \<Rightarrow> bool" where
  "frozen a \<longleftrightarrow> an_status a = QuestionCanNotAnswer"

lemma upsert_frozen:
  assumes "upsert key other new db = Inr db'" and "i < length (ad_answers db)"
    and "frozen (ad_answers db ! i)"
  shows "i < length (ad_answers db') \<and> ad_answers db' ! i = ad_answers db ! i"
  using assms by (auto simp: upsert_def frozen_def nth_sql_update nth_append split: if_splits)

lemma post_frozen:
  assumes "i < length (ad_answers db)" and "frozen (ad_answers db ! i)"
  shows "i < length (ad_answers (snd (StudentAnswer_post fault now domains user body db))) \<and>
    ad_answers (snd (StudentAnswer_post fault now domains user body db)) ! i = ad_answers db ! i"
  using assms
  by (auto simp: StudentAnswer_post_def Let_def insertOrUpdateAnswer_def and_then_Inr_iff
      split: sum.splits if_splits dest: upsert_frozen)

record post =
  po_fault :: "string \<Rightarrow> bool"
  po_now :: int
  po_domains :: "int list"
  po_user :: null_int
  po_body :: "save_req http_body"

definition run_posts :: "post list \<Rightarrow> answer_db \<Rightarrow> answer_db" where
  "run_posts posts db = fold (\<lambda>p d.
     snd (StudentAnswer_post (po_fault p) (po_now p) (po_domains p) (po_user p) (po_body p) d)) posts db"

lemma run_posts_frozen:
  assumes "i < length (ad_answers db)" and "frozen (ad_answers db ! i)"
  shows "ad_answers (run_posts posts db) ! i = ad_answers db ! i"
  using assms
proof (induction posts arbitrary: db)
  case (Cons p posts)
  from post_frozen [OF Cons.prems, of "po_fault p" "po_now p" "po_domains p" "po_user p" "po_body p"]
  show ?case using Cons.IH Cons.prems by (simp add: run_posts_def)
qed (simp add: run_posts_def)

lemma submit_exam_freezes:
  assumes "submit_exam fault now u db = Inr (db', mk)"
    and "getExamineeInfo (ad_exam db) (su_session u) (su_student u) = Some (e, s, x)"
    and "ex_end_time e = None"
    and "i < length (ad_answers db)" and "an_examinee_id (ad_answers db ! i) = Some (su_examinee u)"
  shows "length (ad_answers db') = length (ad_answers db) \<and> frozen (ad_answers db' ! i) \<and>
    an_answer (ad_answers db' ! i) = an_answer (ad_answers db ! i)"
proof -
  have "checkExamCondition fault now (ad_exam db) (su_session u) (su_student u) SUBMIT \<noteq> Inr ExamSubmitted"
    using assms(2,3) by (simp add: checkExamCondition_def check_use_def answering_consts)
  then show ?thesis
    using assms(1,4,5)
    by (auto simp: submit_exam_def and_then_Inr_iff setAnswerCanNotUpdate_def Let_def nth_sql_update
        frozen_def split: if_splits)
qed

lemma Submit_ok_iff:
  "Submit fault now m domains user (Decoded u) db = (Inr (), db', mk) \<longleftrightarrow>
    ToLower m = ''post'' \<and> StudentDomainId \<in> set domains \<and> su_type u \<in> {''00'', ''02'', ''04''} \<and>
    Int64 user \<noteq> 0 \<and> \<not> fault ''beginTx'' \<and>
    (\<exists>d k. submit_body fault now (u\<lparr>su_student := Int64 user\<rparr>) db = Inr (d, k) \<and> mk = Some k \<and>
       db' = (if fault ''commit'' then db else d))"
proof (cases "StudentDomainId \<in> set domains")
  case True
  then show ?thesis
    by (cases "submit_body fault now (u\<lparr>su_student := Int64 user\<rparr>) db")
      (auto simp: Submit_def checkDomain_def Let_def split: if_splits)
qed (auto simp: Submit_def checkDomain_def Let_def split: if_splits)

section \<open>A small database\<close>

definition an_session :: "int option \<Rightarrow> exam_session" where
  "an_session late =
    \<lparr>es_id = 7, es_exam_id = 1, es_status = ''04'', es_start_time = 1000, es_end_time = 900000,
     es_mark_method = ''00'', es_period_mode = ''00'', es_duration = None, es_late_entry_time = late,
     es_early_submission_time = Some 10, es_update_time = None, es_actual_end_time = None,
     es_reviewer_ids = [40], es_mark_mode = None\<rparr>"

definition an_exam :: exam_info where
  "an_exam = \<lparr>ei_id = 1, ei_status = ''04'', ei_create_time = 0, ei_update_time = None, ei_files = [],
     ei_domain_id = None, ei_mode = ''00''\<rparr>"

definition an_examinee :: "int \<Rightarrow> int \<Rightarrow> int option \<Rightarrow> examinee" where
  "an_examinee i student begin_time =
    \<lparr>ex_id = i, ex_student_id = student, ex_session_id = 7, ex_paper_id = 31, ex_status = ''00'',
     ex_start_time = begin_time, ex_end_time = None, ex_extra_time = None, ex_update_time = None,
     ex_updated_by = None, ex_exit_cnt = 0\<rparr>"

definition an_row :: "int \<Rightarrow> int \<Rightarrow> string \<Rightarrow> student_answer" where
  "an_row examinee question text =
    \<lparr>an_type = ''00'', an_examinee_id = Some examinee, an_practice_id = None, an_question_id = question,
     an_answer = text, an_creator = 21, an_create_time = 1500, an_updated_by = None,
     an_update_time = None, an_status = ''00'', an_score = None\<rparr>"

definition an_db :: answer_db where
  "an_db = \<lparr>ad_exam = \<lparr>exam_infos = [an_exam], exam_sessions = [an_session None],
       examinees = [an_examinee 11 21 (Some 1200), an_examinee 12 22 (Some 1300)],
       exam_paper_ids = [31], user_ids = [21, 22]\<rparr>,
     ad_answers = [an_row 11 5 ''x'', an_row 12 5 ''y''], ad_practice = [], ad_wrong = []\<rparr>"

definition an_submit :: "int \<Rightarrow> submit_req" where
  "an_submit examinee = \<lparr>su_type = ''00'', su_exam = 1, su_examinee = examinee, su_session = 7,
     su_practice_submission = 0, su_wrong_submission = 0, su_practice = 0, su_student = 0\<rparr>"

lemmas an_defs = an_db_def an_session_def an_exam_def an_examinee_def an_row_def an_submit_def

lemma an_info:
  "getExamineeInfo (ad_exam an_db) 7 21 = Some (an_examinee 11 21 (Some 1200), an_session None, an_exam)"
  by (simp add: getExamineeInfo_def examinee_view_def session_by_id_def exam_by_id_def sql_first_def
      an_defs insort_key_def sort_key_def)

lemma an_check: "check_use 800000 SUBMIT (an_examinee 11 21 (Some 1200)) (an_session None) an_exam = Inr 0"
  by (simp add: check_use_def answering_consts allow_submit_time_def fixed_online_def an_defs)

section \<open>Properties\<close>

text \<open>
  (C10) A paper that is handed in is final: once \<open>Submit\<close> has handed in an examinee's exam and
  the transaction is committed, no answer that the examinee had changes any more, whatever
  answers anybody saves afterwards.
\<close>

theorem handed_in_paper_is_final:
  assumes "Submit fault now m domains user (Decoded u) db = (Inr (), db', mk)"
    and "su_type u = ExamType" and "\<not> fault ''commit''"
    and "getExamineeInfo (ad_exam db) (su_session u) (Int64 user) = Some (e, s, x)"
    and "ex_end_time e = None"
    and "i < length (ad_answers db)" and "an_examinee_id (ad_answers db ! i) = Some (su_examinee u)"
  shows "an_answer (ad_answers (run_posts posts db') ! i) = an_answer (ad_answers db ! i)"
proof -
  from assms(1-3) obtain mk' where
    "submit_exam fault now (u\<lparr>su_student := Int64 user\<rparr>) db = Inr (db', mk')"
    by (auto simp: Submit_ok_iff submit_body_def)
  from submit_exam_freezes [OF this, of e s x i] assms(4-7)
  have "length (ad_answers db') = length (ad_answers db)" "frozen (ad_answers db' ! i)"
    "an_answer (ad_answers db' ! i) = an_answer (ad_answers db ! i)"
    by simp_all
  then show ?thesis using run_posts_frozen [of i db' posts] assms(6) by simp
qed

lemma an_submit_exam:
  assumes "i \<in> {11, 12}"
  shows "\<exists>db' mk. submit_exam (\<lambda>_. False) 800000 ((an_submit i)\<lparr>su_student := 21\<rparr>) an_db = Inr (db', mk)"
proof -
  have "checkExamCondition (\<lambda>_. False) 800000 (ad_exam an_db) 7 21 SUBMIT = Inr 0"
    by (simp add: checkExamCondition_def an_info an_check)
  then show ?thesis
    using assms by (auto simp: submit_exam_def setAnswerCanNotUpdate_def ExamSubmitted_def Let_def an_defs)
qed

definition late_post :: post where
  "late_post = \<lparr>po_fault = \<lambda>_. False, po_now = 900000, po_domains = [2008], po_user = Some 21,
     po_body = Decoded \<lparr>sv_examinee = 11, sv_practice = 0, sv_type = ''00'', sv_question = 5,
       sv_answer = ''y'', sv_student = 0\<rparr>\<rparr>"

theorem handed_in_paper_is_final_witness:
  "an_answer (ad_answers (run_posts [late_post] (fst (snd (Submit (\<lambda>_. False) 800000 ''POST'' [2008] (Some 21)
     (Decoded (an_submit 11)) an_db)))) ! 0) = ''x''"
proof -
  obtain db' mk where sub: "submit_exam (\<lambda>_. False) 800000 ((an_submit 11)\<lparr>su_student := 21\<rparr>) an_db = Inr (db', mk)"
    using an_submit_exam [of 11] by auto
  have "ToLower ''POST'' = ''post''" by code_simp
  with sub have run: "Submit (\<lambda>_. False) 800000 ''POST'' [2008] (Some 21) (Decoded (an_submit 11)) an_db =
      (Inr (), db', Some mk)"
    unfolding Submit_ok_iff by (simp add: submit_body_def StudentDomainId_def ExamType_def an_submit_def)
  have "an_answer (ad_answers (run_posts [late_post] db') ! 0) = an_answer (ad_answers an_db ! 0)"
    using handed_in_paper_is_final [OF run _ _ _ _, of "an_examinee 11 21 (Some 1200)" "an_session None" an_exam 0 "[late_post]"]
      an_info
    by (simp add: an_defs ExamType_def)
  then show ?thesis by (simp add: run) (simp add: an_defs)
qed

text \<open>
  (C11) Times are set once: over any sequence of requests, failing or not, an examinee keeps
  session and student, the time of entering never changes once it is set, and neither does the
  time of handing in.
\<close>

theorem examinee_times_final:
  assumes "answering_step\<^sup>*\<^sup>* db db'" and "i < length (examinees (ad_exam db))"
  shows "examinee_key (examinees (ad_exam db') ! i) = examinee_key (examinees (ad_exam db) ! i) \<and>
    (ex_start_time (examinees (ad_exam db) ! i) = Some t \<longrightarrow>
       ex_start_time (examinees (ad_exam db') ! i) = Some t) \<and>
    (ex_end_time (examinees (ad_exam db) ! i) = Some t' \<longrightarrow>
       ex_end_time (examinees (ad_exam db') ! i) = Some t')"
proof -
  have "exam_times (examinees (ad_exam db') ! i) \<in> {y. fst y = Some t}"
    if "ex_start_time (examinees (ad_exam db) ! i) = Some t"
    by (rule examinee_times.run_closed [OF assms]) (use that in \<open>auto simp: exam_times_def times_edge_def\<close>)
  moreover have "exam_times (examinees (ad_exam db') ! i) \<in> {y. snd y = Some t'}"
    if "ex_end_time (examinees (ad_exam db) ! i) = Some t'"
    by (rule examinee_times.run_closed [OF assms]) (use that in \<open>auto simp: exam_times_def times_edge_def\<close>)
  ultimately show ?thesis
    using examinee_times.run_key [OF assms] by (auto simp: exam_times_def)
qed

theorem examinee_times_final_witness:
  "ex_start_time (examinees (ad_exam (snd (HandleExit (\<lambda>_. False) 5000 11 0 0 21 an_db))) ! 0) = Some 1200"
  using examinee_times_final [OF r_into_rtranclp [of answering_step, OF
        answering_step.exit_ [of an_db "\<lambda>_. False" 5000 11 0 0 21]], of 0 1200]
  by (simp add: an_defs)

text \<open>
  Handing in for somebody else: the examinee to hand in is taken from the request, and
  only the student's own row is checked. A student who may hand in closes the exam of any
  other examinee who has begun, and freezes that examinee's answers.
\<close>

lemma submit_for_somebody_else:
  assumes "getExamineeInfo (ad_exam db) (su_session u) (Int64 user) = Some (e, s, x)"
    and "check_use now SUBMIT e s x = Inr 0"
    and "ToLower m = ''post''" and "StudentDomainId \<in> set domains" and "0 < Int64 user"
    and "su_type u = ExamType" and "0 < su_exam u" and "0 < su_session u" and "0 < su_examinee u"
    and "i < length (examinees (ad_exam db))" and "ex_id (examinees (ad_exam db) ! i) = su_examinee u"
    and "ex_start_time (examinees (ad_exam db) ! i) \<noteq> None" and "ex_end_time (examinees (ad_exam db) ! i) = None"
    and "ex_student_id (examinees (ad_exam db) ! i) \<noteq> Int64 user"
    and "Submit (\<lambda>_. False) now m domains user (Decoded u) db = (r, db', mk)"
  shows "r = Inr () \<and> ex_end_time (examinees (ad_exam db') ! i) = Some now \<and>
    ex_status (examinees (ad_exam db') ! i) = ''10'' \<and>
    (\<forall>j < length (ad_answers db). an_examinee_id (ad_answers db ! j) = Some (su_examinee u) \<longrightarrow>
       an_status (ad_answers db' ! j) = ''02'')"
proof -
  let ?u = "u\<lparr>su_student := Int64 user\<rparr>"
  let ?w = "\<lambda>e. ex_id e = su_examinee u \<and> ex_end_time e = None \<and> ex_start_time e \<noteq> None"
  have c: "checkExamCondition (\<lambda>_. False) now (ad_exam db) (su_session u) (Int64 user) SUBMIT = Inr 0"
    using assms(1,2) by (simp add: checkExamCondition_def)
  have n: "sql_count ?w (examinees (ad_exam db)) \<noteq> 0"
    unfolding sql_count_0_iff using assms(10-13) nth_mem by blast
  obtain d k where d: "submit_exam (\<lambda>_. False) now ?u db = Inr (d, k)"
    "d = db\<lparr>ad_exam := (ad_exam db)\<lparr>examinees :=
         sql_update ?w (hand_in now (Int64 user)) (examinees (ad_exam db))\<rparr>,
       ad_answers := sql_update (\<lambda>a. an_examinee_id a = Some (su_examinee u))
         (\<lambda>a. a\<lparr>an_status := ''02'', an_updated_by := Some (Int64 user), an_update_time := Some now\<rparr>)
         (ad_answers db)\<rparr>"
    using c n assms(7-9)
    by (simp add: submit_exam_def ExamSubmitted_def setAnswerCanNotUpdate_def Let_def
        QuestionCanNotAnswer_def del: sql_count_0_iff)
  have "Submit (\<lambda>_. False) now m domains user (Decoded u) db = (Inr (), d, Some k)"
    unfolding Submit_ok_iff using d(1) assms(3-6) by (simp add: submit_body_def ExamType_def)
  then show ?thesis
    using assms(10-13,15) d(2) by (simp add: nth_sql_update hand_in_def ExamOverStatus_def)
qed

lemma submit_for_somebody_else_witness:
  "ex_end_time (examinees (ad_exam (fst (snd (Submit (\<lambda>_. False) 800000 ''POST'' [2008] (Some 21)
     (Decoded (an_submit 12)) an_db)))) ! 1) = Some 800000"
proof -
  have p: "ToLower ''POST'' = ''post''" by code_simp
  have g: "getExamineeInfo (ad_exam an_db) (su_session (an_submit 12)) (Int64 (Some 21)) =
      Some (an_examinee 11 21 (Some 1200), an_session None, an_exam)"
    using an_info by (simp add: an_submit_def)
  have run: "Submit (\<lambda>_. False) 800000 ''POST'' [2008] (Some 21) (Decoded (an_submit 12)) an_db = (r, db', mk) \<Longrightarrow>
      ex_end_time (examinees (ad_exam db') ! 1) = Some 800000" for r db' mk
    using submit_for_somebody_else [OF g an_check p, of "[2008]" 1 r db' mk]
    by (simp add: an_defs StudentDomainId_def ExamType_def)
  obtain r db' mk where
    "Submit (\<lambda>_. False) 800000 ''POST'' [2008] (Some 21) (Decoded (an_submit 12)) an_db = (r, db', mk)"
    using prod_cases3 by blast
  then show ?thesis using run by simp
qed

text \<open>
  Two answers to one question: a student who has neither begun nor handed in and is not
  let in asks, between the start and the end, whether to enter. If the session has a latest
  time of entry after its start, the status check says yes exactly when entering is allowed;
  if it has none, entering is allowed all along, but in a fixed online exam the status check
  says, from the first millisecond after the start, that it is too late.
\<close>

lemma entry_checks_disagree:
  assumes "es_start_time s \<le> now" and "now \<le> Int64 (actual_end_time s e)"
    and "ex_status e \<noteq> CanBeEnterStatus" and "ex_start_time e = None" and "ex_end_time e = None"
  shows "(allow_entry_time s \<noteq> es_start_time s \<longrightarrow>
       (check_use now STATUS e s x = Inr ExamCanBeEnter \<longleftrightarrow> check_use now INIT e s x = Inr 0)) \<and>
    (es_late_entry_time s = None \<longrightarrow> check_use now INIT e s x = Inr 0 \<and>
       (fixed_online s x \<and> es_start_time s < now \<longrightarrow> check_use now STATUS e s x = Inr LateEntryTimeArrived))"
  using assms by (auto simp: check_use_def answering_consts allow_entry_time_def)

lemma entry_checks_disagree_witness:
  "check_use 1001 INIT (an_examinee 11 21 None) (an_session None) an_exam = Inr 0 \<and>
   check_use 1001 STATUS (an_examinee 11 21 None) (an_session None) an_exam = Inr LateEntryTimeArrived \<and>
   (check_use 1001 STATUS (an_examinee 11 21 None) (an_session (Some 5)) an_exam = Inr ExamCanBeEnter \<longleftrightarrow>
    check_use 1001 INIT (an_examinee 11 21 None) (an_session (Some 5)) an_exam = Inr 0)"
proof -
  have e: "ex_status (an_examinee 11 21 None) \<noteq> CanBeEnterStatus" "ex_start_time (an_examinee 11 21 None) = None"
    "ex_end_time (an_examinee 11 21 None) = None"
    by (simp_all add: an_defs CanBeEnterStatus_def)
  have t: "es_start_time (an_session l) \<le> 1001"
    "1001 \<le> Int64 (actual_end_time (an_session l) (an_examinee 11 21 None))" for l
    by (simp_all add: an_defs actual_end_time_def)
  show ?thesis
    using entry_checks_disagree [OF t e, of None an_exam] entry_checks_disagree [OF t e, of "Some 5" an_exam]
    by (simp add: allow_entry_time_def fixed_online_def an_defs ExamTypeFixed_def ExamModeOnline_def)
qed

text \<open>
  The reply does not wait for the commit: \<open>Submit\<close> answers with success and starts the
  marking as soon as its statements have run; if the commit then fails, the student is told
  that the work is handed in although nothing is stored.
\<close>

lemma submit_reply_ignores_commit:
  assumes "submit_body fault now (u\<lparr>su_student := Int64 user\<rparr>) db = Inr (d, k)"
    and "ToLower m = ''post''" and "StudentDomainId \<in> set domains"
    and "su_type u \<in> {''00'', ''02'', ''04''}" and "Int64 user \<noteq> 0"
    and "\<not> fault ''beginTx''" and "fault ''commit''"
  shows "Submit fault now m domains user (Decoded u) db = (Inr (), db, Some k)"
  unfolding Submit_ok_iff using assms by simp

lemma submit_reply_ignores_commit_witness:
  "\<exists>k. Submit (\<lambda>f. f = ''commit'') 800000 ''POST'' [2008] (Some 21) (Decoded (an_submit 11)) an_db =
    (Inr (), an_db, Some k)"
proof -
  have p: "ToLower ''POST'' = ''post''" by code_simp
  have "checkExamCondition (\<lambda>f. f = ''commit'') 800000 (ad_exam an_db) 7 21 SUBMIT = Inr 0"
    by (simp add: checkExamCondition_def an_info an_check)
  then obtain d k where b: "submit_body (\<lambda>f. f = ''commit'') 800000 ((an_submit 11)\<lparr>su_student := Int64 (Some 21)\<rparr>) an_db = Inr (d, k)"
    by (auto simp: submit_body_def submit_exam_def setAnswerCanNotUpdate_def ExamSubmitted_def ExamType_def Let_def an_defs)
  show ?thesis
    using submit_reply_ignores_commit [OF b p, of "[2008]"] by (simp add: StudentDomainId_def an_submit_def)
qed

end
