(* ===== verification/Go_Random.thy ===== *)
theory Go_Random
  imports Go_Prelude
begin

text \<open>
  \<open>rand.Shuffle\<close> of Go's \<open>math/rand\<close>, which marking uses to share out work and the papers of
  examinees to mix questions and options. The random numbers are a parameter.
\<close>

definition swap_at :: "nat \<Rightarrow> nat \<Rightarrow> 'a list \<Rightarrow> 'a list" where
  "swap_at i j xs = xs[i := xs ! j, j := xs ! i]"

text \<open>
  \<open>rand.Shuffle\<close>: for \<open>i\<close> from the last index down to 1, swap it with a random index up to
  \<open>i\<close>, the number \<open>rnd i\<close> taken modulo \<open>i + 1\<close>.
\<close>

fun shuffle_down :: "(nat \<Rightarrow> nat) \<Rightarrow> nat \<Rightarrow> 'a list \<Rightarrow> 'a list" where
  "shuffle_down rnd 0 xs = xs"
| "shuffle_down rnd (Suc i) xs =
    shuffle_down rnd i (swap_at (Suc i) (rnd (Suc i) mod Suc (Suc i)) xs)"

definition shuffled :: "(nat \<Rightarrow> nat) \<Rightarrow> 'a list \<Rightarrow> 'a list" where
  "shuffled rnd xs = shuffle_down rnd (length xs - 1) xs"

lemma length_swap_at [simp]: "length (swap_at i j xs) = length xs"
  by (simp add: swap_at_def)

lemma mset_swap_at: "i < length xs \<Longrightarrow> j < length xs \<Longrightarrow> mset (swap_at i j xs) = mset xs"
  unfolding swap_at_def by (cases "i = j") (simp_all add: mset_swap list_update_swap [of i j])

lemma mset_shuffle_down: "i < length xs \<or> i = 0 \<Longrightarrow> mset (shuffle_down rnd i xs) = mset xs"
proof (induction rnd i xs rule: shuffle_down.induct)
  case (2 rnd i xs)
  then have i: "Suc i < length xs" by simp
  have "rnd (Suc i) mod Suc (Suc i) < Suc (Suc i)" by simp
  with i have "rnd (Suc i) mod Suc (Suc i) < length xs" by linarith
  with i have "mset (swap_at (Suc i) (rnd (Suc i) mod Suc (Suc i)) xs) = mset xs"
    by (intro mset_swap_at)
  with 2 i show ?case by simp
qed simp

lemma mset_shuffled [simp]: "mset (shuffled rnd xs) = mset xs"
  unfolding shuffled_def by (cases xs) (simp_all add: mset_shuffle_down)

lemma length_shuffled [simp]: "length (shuffled rnd xs) = length xs"
  by (metis mset_shuffled size_mset)

lemma set_shuffled [simp]: "set (shuffled rnd xs) = set xs"
  by (metis mset_shuffled set_mset_mset)

lemma distinct_shuffled [simp]: "distinct (shuffled rnd xs) = distinct xs"
  by (metis mset_shuffled distinct_count_atmost_1 set_shuffled)

end
