(* ===== verification/Mark_Rules.thy ===== *)
theory Mark_Rules
  imports Question_Validation Go_Random
begin

text \<open>
  The rules of marking, \<open>serve/mark/utils.go\<close> and the parts of \<open>serve/mark/mark.go\<close> that only
  compute: comparing answers, sharing examinees or question groups among markers, checking the
  points a marker gives, and the mean of several markers. The random numbers of
  \<open>rand.Shuffle\<close> are a parameter.
\<close>

section \<open>Data\<close>

record query_cond =
  qc_teacher :: int
  qc_session :: int
  qc_examinee :: int
  qc_practice :: int
  qc_submission :: int
  qc_wrong :: int
  qc_question :: int

record t_mark =
  rm_teacher :: null_int
  rm_examinee :: null_int
  rm_question :: null_int
  rm_session :: null_int
  rm_practice :: null_int
  rm_submission :: null_int
  rm_details :: raw_json
  rm_status :: null_string
  rm_score :: "rat option"
  rm_creator :: null_int
  rm_create_time :: null_int
  rm_updated_by :: null_int
  rm_update_time :: null_int

text \<open>A row of \<open>t_mark_info\<close>; the two lists are JSON arrays in the table, \<open>None\<close> is \<open>NULL\<close>.\<close>

record mark_info =
  mi_session :: null_int
  mi_practice :: null_int
  mi_teacher :: int
  mi_count :: int
  mi_examinees :: "int list option"
  mi_questions :: "int list option"
  mi_creator :: int
  mi_create_time :: int
  mi_updated_by :: int
  mi_update_time :: null_int
  mi_status :: string

record mark_detail =
  dt_analyze :: string
  dt_index :: int
  dt_score :: rat

text \<open>A subjective question with its group, as the join of the paper's tables delivers it.\<close>

record question_row =
  qr_group :: int
  qr_id :: null_int
  qr_score :: "rat option"
  qr_type :: string
  qr_answers :: raw_json
  qr_session :: null_int
  qr_practice :: null_int

record question_set =
  qs_group :: int
  qs_score :: rat
  qs_questions :: "question_row list"

datatype mark_error =
    Neither_session_nor_practice
  | Session_and_practice
  | Parts_not_positive int
  | Question_missing
  | Teacher_missing
  | Creator_missing
  | Examinee_missing
  | Submission_missing
  | Session_or_practice_missing
  | Mark_sql string
  | Mark_no_row string
  | Mark_unique_violation
  | Mark_json string
  | No_standard_answer
  | No_results
  | Index_out_of_range
  | Nil_pointer
  | Set_count nat
  | Question_count nat
  | Detail_beyond int int
  | Detail_negative int rat
  | Detail_above int rat rat
  | Status_empty
  | Target_missing
  | Teacher_invalid
  | Ids_invalid
  | Markers_invalid
  | Examinees_empty
  | Mark_mode_invalid string
  | No_marker_rows
  | Request_status_invalid string
  | Status_invalid
  | Which_invalid string
  | Types_missing
  | Question_kind_invalid string
  | Examinee_invalid
  | Submission_invalid
  | Config_wrong
  | Answer_ids_invalid
  | Body_invalid
  | Task_count_wrong
  | Model_failed
  | Ai_negative rat
  | Ai_above rat rat

section \<open>Conditions and results\<close>

definition validateExamSessionOrPractice :: "query_cond \<Rightarrow> mark_error + unit" where
  "validateExamSessionOrPractice c =
    (if qc_practice c \<le> 0 \<and> qc_session c \<le> 0 then Inl Neither_session_nor_practice
     else if 0 < qc_practice c \<and> 0 < qc_session c then Inl Session_and_practice
     else Inr ())"

definition validateMarkingResult :: "t_mark \<Rightarrow> mark_error + unit" where
  "validateMarkingResult m =
    (if Int64 (rm_question m) \<le> 0 then Inl Question_missing
     else if Int64 (rm_teacher m) \<le> 0 then Inl Teacher_missing
     else if Int64 (rm_creator m) \<le> 0 then Inl Creator_missing
     else if 0 < Int64 (rm_session m)
     then if Int64 (rm_examinee m) \<le> 0 then Inl Examinee_missing else Inr ()
     else if 0 < Int64 (rm_practice m)
     then if Int64 (rm_submission m) \<le> 0 then Inl Submission_missing else Inr ()
     else Inl Session_or_practice_missing)"

definition joinWhereClause :: "string list \<Rightarrow> string" where
  "joinWhereClause clauses = (if clauses = [] then [] else '' AND '' @ Join '' AND '' clauses)"

section \<open>Comparing answers\<close>

text \<open>A Go map from strings to counters: a missing key counts as 0.\<close>

definition count_map :: "string list \<Rightarrow> string \<Rightarrow> nat" where
  "count_map xs = foldl (\<lambda>m v. m(v := m v + 1)) (\<lambda>_. 0) xs"

definition compareSlices :: "string list \<Rightarrow> string list \<Rightarrow> bool" where
  "compareSlices a b \<longleftrightarrow>
     length a = length b \<and> list_all (\<lambda>k. count_map b k = count_map a k) (remdups a)"

lemma count_map_from: "foldl (\<lambda>m v. m(v := m v + 1)) m xs k = m k + count (mset xs) k"
  by (induction xs arbitrary: m) auto

lemma count_map_mset: "count_map xs k = count (mset xs) k"
  unfolding count_map_def count_map_from by simp

lemma compareSlices_count: "compareSlices a b \<longleftrightarrow> mset a = mset b"
proof
  assume "compareSlices a b"
  then have len: "size (mset a) = size (mset b)" and k: "\<And>k. k \<in> set a \<Longrightarrow> count (mset b) k = count (mset a) k"
    by (auto simp: compareSlices_def list_all_iff count_map_mset)
  have "count (mset a) x \<le> count (mset b) x" for x
  proof (cases "x \<in> set a")
    case True
    then show ?thesis using k [OF True] by linarith
  next
    case False
    then have "count (mset a) x = 0" by (metis count_mset_0_iff)
    then show ?thesis by linarith
  qed
  then have "mset a \<subseteq># mset b" by (simp add: subseteq_mset_def)
  with len show "mset a = mset b"
    by (metis mset_subset_size subset_mset.less_le less_irrefl)
next
  assume "mset a = mset b"
  then show "compareSlices a b"
    by (auto simp: compareSlices_def list_all_iff count_map_mset dest: mset_eq_length)
qed

section \<open>Shuffling and splitting\<close>

definition shuffleSlice :: "(nat \<Rightarrow> nat) \<Rightarrow> 'a list \<Rightarrow> 'a list" where
  "shuffleSlice rnd xs = shuffled rnd xs"

text \<open>
  \<open>split_parts xs sz remainder k i start\<close>: the last \<open>k\<close> rounds of the loop, from part \<open>i\<close>
  on. A part is the slice from \<open>start\<close> to \<open>end\<close>.
\<close>

fun split_parts :: "'a list \<Rightarrow> nat \<Rightarrow> nat \<Rightarrow> nat \<Rightarrow> nat \<Rightarrow> nat \<Rightarrow> 'a list list" where
  "split_parts xs sz remainder 0 i start = []"
| "split_parts xs sz remainder (Suc k) i start =
    (let stop = start + sz + (if i < remainder then 1 else 0)
     in take (stop - start) (drop start xs) # split_parts xs sz remainder k (Suc i) stop)"

definition randomSplit :: "(nat \<Rightarrow> nat) \<Rightarrow> 'a list \<Rightarrow> int \<Rightarrow> mark_error + 'a list list" where
  "randomSplit rnd xs n =
    (if n \<le> 0 then Inl (Parts_not_positive n)
     else let shuffled = shuffleSlice rnd xs; k = nat n
          in Inr (split_parts shuffled (length shuffled div k) (length shuffled mod k) k 0 0))"

lemma mset_shuffleSlice [simp]: "mset (shuffleSlice rnd xs) = mset xs"
  unfolding shuffleSlice_def by simp

lemma length_shuffleSlice [simp]: "length (shuffleSlice rnd xs) = length xs"
  by (metis mset_shuffleSlice size_mset)

lemma length_split_parts [simp]: "length (split_parts xs sz r k i start) = k"
  by (induction xs sz r k i start rule: split_parts.induct) (simp_all add: Let_def)


text \<open>
  What \<open>k\<close> rounds cut off: \<open>sz\<close> elements each and one more for every part below \<open>remainder\<close>.
\<close>

definition cut_length :: "nat \<Rightarrow> nat \<Rightarrow> nat \<Rightarrow> nat \<Rightarrow> nat" where
  "cut_length sz remainder k i = k * sz + (min remainder (i + k) - min remainder i)"

lemma cut_length_Suc:
  "cut_length sz r (Suc k) i = (sz + (if i < r then 1 else 0)) + cut_length sz r k (Suc i)"
  by (auto simp: cut_length_def)

lemma concat_split_parts:
  "concat (split_parts xs sz r k i start) = take (cut_length sz r k i) (drop start xs)"
proof (induction xs sz r k i start rule: split_parts.induct)
  case (2 xs sz r k i start)
  let ?n = "sz + (if i < r then 1 else 0)"
  have "concat (split_parts xs sz r (Suc k) i start) =
      take ?n (drop start xs) @ take (cut_length sz r k (Suc i)) (drop ?n (drop start xs))"
    using 2 [OF refl] by (simp add: Let_def ac_simps)
  also have "\<dots> = take (cut_length sz r (Suc k) i) (drop start xs)"
    by (simp only: cut_length_Suc take_add)
  finally show ?case .
qed (simp add: cut_length_def)

lemma part_length:
  assumes "start + cut_length sz r k i \<le> length xs" and "j < k"
  shows "length (split_parts xs sz r k i start ! j) = sz + (if i + j < r then 1 else 0)"
  using assms
proof (induction xs sz r k i start arbitrary: j rule: split_parts.induct)
  case (2 xs sz r k i start)
  let ?n = "sz + (if i < r then 1 else 0)"
  have "start + ?n + cut_length sz r k (Suc i) \<le> length xs"
    using 2(2) by (simp only: cut_length_Suc)
  with 2(1) [OF refl, of "j - 1"] 2(3) show ?case
    by (cases j) (auto simp: Let_def)
qed simp

lemma cut_all: "0 < k \<Longrightarrow> cut_length (n div k) (n mod k) k 0 = n"
  by (simp add: cut_length_def min_absorb1 mult.commute [of k] less_imp_le)

text \<open>
  A split shares everything out: the parts together hold the elements of the slice, each as
  often as it does, and their lengths differ by at most one.
\<close>

definition fair_split :: "'a list \<Rightarrow> nat \<Rightarrow> 'a list list \<Rightarrow> bool" where
  "fair_split xs n parts \<longleftrightarrow>
     length parts = n \<and> mset (concat parts) = mset xs \<and>
     (\<forall>p \<in> set parts. \<forall>q \<in> set parts. length p \<le> length q + 1)"

lemma randomSplit_fair:
  assumes "randomSplit rnd xs n = Inr parts"
  shows "0 < n \<and> fair_split xs (nat n) parts"
proof -
  let ?s = "shuffleSlice rnd xs" and ?k = "nat n"
  let ?sz = "length ?s div ?k" and ?r = "length ?s mod ?k"
  from assms have n: "0 < ?k" and p: "parts = split_parts ?s ?sz ?r ?k 0 0"
    by (auto simp: randomSplit_def Let_def split: if_splits)
  have cut: "cut_length ?sz ?r ?k 0 = length ?s" using n by (rule cut_all)
  have len: "length x \<in> {?sz, ?sz + 1}" if "x \<in> set parts" for x
  proof -
    from that p obtain j where "j < ?k" and "x = parts ! j" by (auto simp: in_set_conv_nth)
    then show ?thesis using part_length [of 0 ?sz ?r ?k 0 ?s j] cut p by simp
  qed
  have "length x \<le> length y + 1" if "x \<in> set parts" and "y \<in> set parts" for x y
    using len [OF that(1)] len [OF that(2)] by auto
  then show ?thesis using n cut p by (simp add: fair_split_def concat_split_parts)
qed

lemma randomSplit_total: "0 < n \<Longrightarrow> \<exists>parts. randomSplit rnd xs n = Inr parts"
  by (simp add: randomSplit_def Let_def)


section \<open>Who marks what\<close>

record marker_req =
  hr_markers :: "int list"
  hr_examinees :: "int list"
  hr_mode :: string
  hr_session :: int
  hr_practice :: int
  hr_status :: string
  hr_sessions :: "int list"
  hr_practices :: "int list"

definition new_info ::
    "int \<Rightarrow> int \<Rightarrow> null_int \<Rightarrow> null_int \<Rightarrow> int \<Rightarrow> int list option \<Rightarrow> int list option \<Rightarrow> mark_info" where
  "new_info now teacherID session practice marker examinee_ids question_ids =
    \<lparr>mi_session = session, mi_practice = practice, mi_teacher = marker, mi_count = 0,
     mi_examinees = examinee_ids, mi_questions = question_ids, mi_creator = teacherID,
     mi_create_time = now, mi_updated_by = teacherID, mi_update_time = None, mi_status = ''00''\<rparr>"

text \<open>The ids of a set's questions, \<open>question.ID.Int64\<close>.\<close>

definition set_question_ids :: "question_set list \<Rightarrow> int list" where
  "set_question_ids groups = concat (map (\<lambda>g. map (\<lambda>q. Int64 (qr_id q)) (qs_questions g)) groups)"

text \<open>
  The rows \<open>HandleMarkerInfo\<close> prepares, by the mode of marking: 00 automatic, 10 one person, 02
  everybody marks everything, 04 the examinees are shared out, 06 the question groups are; 08
  is accepted and prepares nothing. \<open>query\<close> is the answer of the database to the one query,
  made in mode 06.
\<close>

definition marker_rows ::
    "(nat \<Rightarrow> nat) \<Rightarrow> int \<Rightarrow> int \<Rightarrow> marker_req \<Rightarrow> mark_error + question_set list \<Rightarrow>
      mark_error + mark_info list" where
  "marker_rows rnd now teacherID r query =
    (let session = Some (hr_session r); n = int (length (hr_markers r)) in
     if hr_mode r \<in> {''00'', ''10''}
     then if hr_mode r = ''10'' \<and> length (hr_markers r) \<noteq> 1 then Inl Markers_invalid
          else if 0 < hr_practice r
          then Inr [new_info now teacherID None (Some (hr_practice r)) teacherID None None]
          else Inr [new_info now teacherID session None teacherID None None]
     else if hr_mode r = ''02''
     then if hr_markers r = [] then Inl Markers_invalid
          else Inr (map (\<lambda>m. new_info now teacherID session None m None None) (hr_markers r))
     else if hr_mode r = ''04''
     then if hr_examinees r = [] then Inl Examinees_empty
          else (case randomSplit rnd (hr_examinees r) n of
                  Inl _ \<Rightarrow> Inr []
                | Inr parts \<Rightarrow>
                    Inr (map (\<lambda>i. new_info now teacherID session None (hr_markers r ! i) (Some (parts ! i)) None)
                      [0..<length parts]))
     else if hr_mode r = ''06''
     then and_then query (\<lambda>sets.
          and_then (randomSplit rnd sets n) (\<lambda>parts.
            Inr (map (\<lambda>i. new_info now teacherID session None (hr_markers r ! i) None
                     (Some (set_question_ids (parts ! i)))) [0..<length parts])))
     else if hr_mode r = ''08'' then Inr []
     else Inl (Mark_mode_invalid (hr_mode r)))"

lemma marker_rows_examinees:
  assumes "marker_rows rnd now t r query = Inr infos" and "hr_mode r = ''04''" and "infos \<noteq> []"
  shows "map mi_teacher infos = hr_markers r \<and>
    fair_split (hr_examinees r) (length (hr_markers r)) (map (\<lambda>i. the (mi_examinees i)) infos) \<and>
    (\<forall>i \<in> set infos. mi_examinees i \<noteq> None \<and> mi_questions i = None)"
proof -
  from assms obtain parts where p: "randomSplit rnd (hr_examinees r) (int (length (hr_markers r))) = Inr parts"
    and i: "infos = map (\<lambda>i. new_info now t (Some (hr_session r)) None (hr_markers r ! i) (Some (parts ! i)) None)
                      [0..<length parts]"
    by (auto simp: marker_rows_def Let_def split: sum.splits if_splits)
  from randomSplit_fair [OF p] have f: "fair_split (hr_examinees r) (length (hr_markers r)) parts" by simp
  then have len: "length parts = length (hr_markers r)" by (simp add: fair_split_def)
  have "map mi_teacher infos = hr_markers r" and "map (\<lambda>i. the (mi_examinees i)) infos = parts"
    using len by (auto simp: i new_info_def comp_def intro!: nth_equalityI)
  then show ?thesis using f by (auto simp: i new_info_def)
qed

lemma marker_rows_groups:
  assumes "marker_rows rnd now t r (Inr sets) = Inr infos" and "hr_mode r = ''06''"
  shows "map mi_teacher infos = hr_markers r \<and>
    mset (concat (map (\<lambda>i. the (mi_questions i)) infos)) = mset (set_question_ids sets)"
proof -
  from assms obtain parts where p: "randomSplit rnd sets (int (length (hr_markers r))) = Inr parts"
    and i: "infos = map (\<lambda>i. new_info now t (Some (hr_session r)) None (hr_markers r ! i) None
                     (Some (set_question_ids (parts ! i)))) [0..<length parts]"
    by (auto simp: marker_rows_def Let_def and_then_Inr_iff split: if_splits)
  from randomSplit_fair [OF p] have len: "length parts = length (hr_markers r)"
    and ms: "mset (concat parts) = mset sets" by (simp_all add: fair_split_def)
  have "map mi_teacher infos = hr_markers r"
    and "map (\<lambda>i. the (mi_questions i)) infos = map set_question_ids parts"
    using len by (auto simp: i new_info_def comp_def intro!: nth_equalityI)
  moreover have "concat (map set_question_ids ps) = set_question_ids (concat ps)" for ps
    by (induction ps) (simp_all add: set_question_ids_def)
  moreover have "mset (set_question_ids xs) = (\<Sum>g \<in># mset xs. mset (map (\<lambda>q. Int64 (qr_id q)) (qs_questions g)))" for xs
    by (induction xs) (simp_all add: set_question_ids_def)
  ultimately show ?thesis by (simp add: ms)
qed

section \<open>The points of one question\<close>

record given_score =
  gv_index :: int
  gv_score :: rat

definition given_field :: "string \<Rightarrow> json \<Rightarrow> given_score \<Rightarrow> given_score option" where
  "given_field k j r =
    (if fold_key k = ''index'' then map_option (\<lambda>i. r\<lparr>gv_index := i\<rparr>) (dec_int (gv_index r) j)
     else if fold_key k = ''score'' then map_option (\<lambda>x. r\<lparr>gv_score := x\<rparr>) (dec_float (gv_score r) j)
     else Some r)"

definition dec_given :: "json \<Rightarrow> given_score list option" where
  "dec_given = dec_slice (dec_struct given_field \<lparr>gv_index = 0, gv_score = 0\<rparr>)"

definition detail_field :: "string \<Rightarrow> json \<Rightarrow> mark_detail \<Rightarrow> mark_detail option" where
  "detail_field k j r =
    (if fold_key k = ''analyze'' then map_option (\<lambda>s. r\<lparr>dt_analyze := s\<rparr>) (dec_string (dt_analyze r) j)
     else if fold_key k = ''index'' then map_option (\<lambda>i. r\<lparr>dt_index := i\<rparr>) (dec_int (dt_index r) j)
     else if fold_key k = ''score'' then map_option (\<lambda>x. r\<lparr>dt_score := x\<rparr>) (dec_float (dt_score r) j)
     else Some r)"

definition dec_details :: "json \<Rightarrow> mark_detail list option" where
  "dec_details = dec_slice (dec_struct detail_field \<lparr>dt_analyze = [], dt_index = 0, dt_score = 0\<rparr>)"

text \<open>\<open>givenScoresMap\<close>: the last score given for an index, 0 for an index that is missing.\<close>

definition given_map :: "given_score list \<Rightarrow> int \<Rightarrow> rat" where
  "given_map gs = foldl (\<lambda>m g. m(gv_index g := gv_score g)) (\<lambda>_. 0) gs"

fun check_details :: "int \<Rightarrow> (int \<Rightarrow> rat) \<Rightarrow> mark_detail list \<Rightarrow> rat \<Rightarrow> mark_error + rat" where
  "check_details questionLen given [] acc = Inr acc"
| "check_details questionLen given (d # ds) acc =
    (if dt_index d > questionLen then Inl (Detail_beyond (dt_index d) questionLen)
     else if dt_score d < 0 then Inl (Detail_negative (dt_index d) (dt_score d))
     else if dt_score d > given (dt_index d) then Inl (Detail_above (dt_index d) (dt_score d) (given (dt_index d)))
     else check_details questionLen given ds (f64_add acc (dt_score d)))"

definition detail_ok :: "int \<Rightarrow> (int \<Rightarrow> rat) \<Rightarrow> mark_detail \<Rightarrow> bool" where
  "detail_ok n given d \<longleftrightarrow> dt_index d \<le> n \<and> 0 \<le> dt_score d \<and> dt_score d \<le> given (dt_index d)"

lemma check_details_ok:
  "check_details n given ds acc = Inr x \<longleftrightarrow>
    list_all (detail_ok n given) ds \<and> x = foldl f64_add acc (map dt_score ds)"
  by (induction ds arbitrary: acc) (auto simp: detail_ok_def)

lemma given_map_from:
  "foldl (\<lambda>m g. m(gv_index g := gv_score g)) m gs i =
    (case find (\<lambda>g. gv_index g = i) (rev gs) of None \<Rightarrow> m i | Some g \<Rightarrow> gv_score g)"
  by (induction gs rule: rev_induct) auto

lemma given_map_eq:
  "given_map gs i = (case find (\<lambda>g. gv_index g = i) (rev gs) of None \<Rightarrow> 0 | Some g \<Rightarrow> gv_score g)"
  by (simp add: given_map_def given_map_from)


lemma given_map_mem:
  assumes "distinct (map gv_index gs)" and "g \<in> set gs"
  shows "given_map gs (gv_index g) = gv_score g"
proof (cases "find (\<lambda>h. gv_index h = gv_index g) (rev gs)")
  case None
  with assms(2) show ?thesis by (auto simp: find_None_iff)
next
  case (Some h)
  then have "h \<in> set gs" and "gv_index h = gv_index g"
    by (auto dest: sql_first_Some [unfolded sql_first_def])
  then have "h = g" using assms by (auto simp: distinct_map inj_on_def)
  with Some show ?thesis by (simp add: given_map_eq)
qed

lemma given_map_other: "i \<notin> gv_index ` set gs \<Longrightarrow> given_map gs i = 0"
  by (auto simp: given_map_eq split: option.splits dest: sql_first_Some [unfolded sql_first_def])

text \<open>No index twice: then what is given for the parts bounds what they get together.\<close>

lemma details_within:
  assumes "list_all (detail_ok n (given_map gs)) ds" and "distinct (map dt_index ds)"
    and "distinct (map gv_index gs)" and "\<forall>g \<in> set gs. 0 \<le> gv_score g"
  shows "sum_list (map dt_score ds) \<le> sum_list (map gv_score gs)"
proof -
  let ?g = "given_map gs" and ?I = "dt_index ` set ds" and ?J = "gv_index ` set gs"
  have nonneg: "0 \<le> ?g i" for i
    by (cases "i \<in> ?J") (use assms(3,4) given_map_mem in \<open>auto simp: given_map_other\<close>)
  have "sum_list (map dt_score ds) \<le> sum_list (map ?g (map dt_index ds))"
    using assms(1) by (induction ds) (auto simp: detail_ok_def intro: add_mono)
  also have "\<dots> = sum ?g ?I" using sum_list_distinct_conv_sum_set [OF assms(2), of ?g] by simp
  also have "\<dots> = sum ?g (?I \<inter> ?J)"
    by (rule sum.mono_neutral_right) (auto simp: given_map_other)
  also have "\<dots> \<le> sum ?g ?J" by (rule sum_mono2) (auto simp: nonneg)
  also have "\<dots> = sum_list (map ?g (map gv_index gs))"
    using sum_list_distinct_conv_sum_set [OF assms(3), of ?g] by simp
  also have "\<dots> = sum_list (map gv_score gs)"
    using given_map_mem [OF assms(3)] by (simp add: comp_def cong: map_cong)
  finally show ?thesis .
qed

lemma check_details_within:
  assumes "check_details n (given_map gs) ds 0 = Inr x" and "distinct (map dt_index ds)"
    and "distinct (map gv_index gs)" and "\<forall>g \<in> set gs. 0 \<le> gv_score g"
    and "\<forall>d \<in> set ds. multiple_of_pow2 e (dt_score d)" and "-1074 \<le> e"
    and "sum_list (map gv_score gs) < pow2 (53 + e)"
  shows "x = sum_list (map dt_score ds) \<and> x \<le> sum_list (map gv_score gs)"
proof -
  from assms(1) have ok: "list_all (detail_ok n (given_map gs)) ds" and x: "x = f64_sum (map dt_score ds)"
    by (simp_all add: check_details_ok f64_sum_def)
  have le: "sum_list (map dt_score ds) \<le> sum_list (map gv_score gs)"
    by (rule details_within [OF ok assms(2-4)])
  have "f64_sum (map dt_score ds) = sum_list (map dt_score ds)"
    by (rule f64_sum_exact [of _ e]) (use ok le assms(5-7) in \<open>auto simp: list_all_iff detail_ok_def\<close>)
  with x le show ?thesis by simp
qed

section \<open>The mean of several markers\<close>

definition f64_mul :: "rat \<Rightarrow> rat \<Rightarrow> rat" where "f64_mul x y = f64_round (x * y)"

definition f64_div :: "rat \<Rightarrow> rat \<Rightarrow> rat" where "f64_div x y = f64_round (x / y)"

text \<open>\<open>math.Round\<close>: to the nearest integer, halves away from zero.\<close>

definition math_round :: "rat \<Rightarrow> rat" where
  "math_round x = (if 0 \<le> x then of_int \<lfloor>x + 1 / 2\<rfloor> else - of_int \<lfloor>1 / 2 - x\<rfloor>)"

definition final_score :: "rat list \<Rightarrow> rat" where
  "final_score scores =
     f64_div (math_round (f64_mul (f64_div (f64_sum scores) (of_nat (length scores))) 10)) 10"

text \<open>
  \<open>studentQuestionScoresMap\<close>: for each student and question the scores in the order of the
  marks. \<open>student\<close> is the examinee in an exam and the submission in a practice.
\<close>

definition mark_student :: "query_cond \<Rightarrow> t_mark \<Rightarrow> int" where
  "mark_student c m = (if 0 < qc_session c then Int64 (rm_examinee m) else Int64 (rm_submission m))"

definition mark_key :: "query_cond \<Rightarrow> t_mark \<Rightarrow> int \<times> int" where
  "mark_key c m = (mark_student c m, Int64 (rm_question m))"

definition scores_of :: "query_cond \<Rightarrow> t_mark list \<Rightarrow> int \<times> int \<Rightarrow> rat list" where
  "scores_of c marks k = map (\<lambda>m. Float64 (rm_score m)) (filter (\<lambda>m. mark_key c m = k) marks)"


lemma f64_small_multiple: "x = of_int m / 2 \<Longrightarrow> \<bar>m\<bar> < 2 ^ 53 \<Longrightarrow> f64_round x = x"
  by (rule f64_round_exact [of _ m "-1"]) (simp_all add: pow2_def)

lemma math_round_of_int [simp]: "math_round (of_int n) = of_int n"
proof -
  have "\<lfloor>of_int n + (1 / 2 :: rat)\<rfloor> = n" and "\<lfloor>(1 / 2 :: rat) - of_int n\<rfloor> = - n" by linarith+
  then show ?thesis by (simp add: math_round_def)
qed

text \<open>Whole and half points of a single marker survive the rounding to one decimal.\<close>

lemma final_score_half:
  assumes "0 \<le> m" and "m < 2 ^ 40"
  shows "final_score [of_int m / 2] = of_int m / 2"
proof -
  let ?x = "of_int m / 2 :: rat"
  have x: "f64_round ?x = ?x" by (rule f64_small_multiple) (use assms in auto)
  have ten: "f64_round (of_int (5 * m)) = of_int (5 * m)"
    by (rule f64_small_multiple [of _ "10 * m"]) (use assms in auto)
  have "f64_mul ?x 10 = of_int (5 * m)"
    unfolding f64_mul_def using ten by simp
  moreover have "f64_div (f64_sum [?x]) (of_nat (length [?x])) = ?x"
    by (simp add: f64_div_def f64_sum_def f64_add_def x)
  moreover have "f64_div (of_int (5 * m)) 10 = ?x" by (simp add: f64_div_def x)
  ultimately show ?thesis unfolding final_score_def by (simp only: math_round_of_int)
qed

text \<open>A quarter point does not: 1.25 becomes 1.3.\<close>

lemma final_score_quarter: "final_score [5 / 4] = 5854679515581645 / 2 ^ 52"
proof -
  have x: "f64_round (5 / 4) = 5 / 4" and ten: "f64_round (25 / 2) = 25 / 2"
    by (rule f64_round_exact [of _ 5 "-2"] f64_small_multiple [of _ 25]; simp add: pow2_def)+
  have "f64_div (f64_sum [5 / 4]) (of_nat (length [5 / 4 :: rat])) = 5 / 4"
    by (simp add: f64_div_def f64_sum_def f64_add_def x)
  moreover have "f64_mul (5 / 4) 10 = 25 / 2" by (simp add: f64_mul_def ten)
  moreover have "math_round (25 / 2) = 13" by (simp add: math_round_def)
  moreover have "f64_div 13 10 = 5854679515581645 / 2 ^ 52"
    unfolding f64_div_def by (subst f64_round_eq [of "-52" _ 5854679515581645]) (simp_all add: pow2_def)
  ultimately show ?thesis unfolding final_score_def by (simp only:)
qed

text \<open>
  In general the result is the number closest to one with a single decimal, and that one is
  the mean rounded to one decimal, up to an error far below a mark.
\<close>

lemma math_round_error: "\<exists>n. math_round x = of_int n \<and> \<bar>math_round x - x\<bar> \<le> 1 / 2"
proof (cases "0 \<le> x")
  case True
  have "of_int \<lfloor>x + 1 / 2\<rfloor> \<le> x + 1 / 2" "x + 1 / 2 < of_int \<lfloor>x + 1 / 2\<rfloor> + 1" by linarith+
  then have "\<bar>of_int \<lfloor>x + 1 / 2\<rfloor> - x\<bar> \<le> 1 / 2" by linarith
  then show ?thesis using True by (auto simp: math_round_def)
next
  case False
  have "of_int \<lfloor>1 / 2 - x\<rfloor> \<le> 1 / 2 - x" "1 / 2 - x < of_int \<lfloor>1 / 2 - x\<rfloor> + 1" by linarith+
  then have "\<bar>- of_int \<lfloor>1 / 2 - x\<rfloor> - x\<bar> \<le> 1 / 2" by linarith
  then show ?thesis using False by (auto simp: math_round_def intro: exI [of _ "- \<lfloor>1 / 2 - x\<rfloor>"])
qed

lemma rounding_chain:
  fixes mean s q t r d :: rat
  assumes "\<bar>s - mean\<bar> \<le> d" and "\<bar>q - s\<bar> \<le> d" and "\<bar>t - q * 10\<bar> \<le> d" and "\<bar>r - t\<bar> \<le> 1 / 2"
    and "d \<le> 1 / 400000000"
  shows "\<bar>r / 10 - mean\<bar> \<le> 1 / 20 + 1 / 100000000"
  using assms by linarith

lemma final_score_mean:
  assumes "xs \<noteq> []" and "sum_list (map abs xs) \<le> 10 ^ 6" and "length xs \<le> 10 ^ 6"
  shows "\<exists>n. final_score xs = f64_round (of_int n / 10) \<and>
    \<bar>of_int n / 10 - sum_list xs / of_nat (length xs)\<bar> \<le> 1 / 20 + 1 / 10 ^ 8"
proof -
  let ?d = "1 / 2 ^ 29 :: rat" and ?n = "of_nat (length xs) :: rat"
  let ?s = "f64_sum xs"
  have "?n \<le> of_nat (10 ^ 6)" using assms(3) by (rule of_nat_mono)
  then have n: "1 \<le> ?n" "?n \<le> 10 ^ 6" using assms(1) by (cases xs, simp_all)
  have s: "\<bar>?s - sum_list xs\<bar> \<le> ?n / 2 ^ 29"
    using f64_sum_error [of 0 xs] assms(2) n unfolding f64_sum_def by simp
  have total: "\<bar>sum_list xs\<bar> \<le> 10 ^ 6" using assms(2) sum_list_abs [of xs] by linarith
  have mean: "\<bar>?s / ?n - sum_list xs / ?n\<bar> \<le> ?d"
  proof -
    have "\<bar>?s / ?n - sum_list xs / ?n\<bar> = \<bar>?s - sum_list xs\<bar> / ?n"
      using n by (simp add: diff_divide_distrib [symmetric])
    also have "\<dots> \<le> (?n / 2 ^ 29) / ?n" by (rule divide_right_mono [OF s]) (use n in simp)
    also have "\<dots> = ?d" using assms(1) by simp
    finally show ?thesis .
  qed
  have small: "\<bar>sum_list xs / ?n\<bar> \<le> 10 ^ 6"
  proof -
    have "\<bar>sum_list xs / ?n\<bar> = \<bar>sum_list xs\<bar> / ?n" using n by simp
    also have "\<dots> \<le> \<bar>sum_list xs\<bar> / 1" by (rule divide_left_mono) (use n in auto)
    finally show ?thesis using total by simp
  qed
  define d where "d = ?d"
  have d: "0 \<le> d" "d \<le> 1 / 400000000" by (simp_all add: d_def)
  have mean': "\<bar>?s / ?n - sum_list xs / ?n\<bar> \<le> d" using mean by (simp only: d_def)
  have lim: "\<bar>sum_list xs / ?n\<bar> \<le> 1000000" "(2 :: rat) ^ 24 = 16777216" using small by simp_all
  let ?q = "f64_div ?s ?n"
  have "\<bar>?s / ?n\<bar> \<le> 2 ^ 24" unfolding lim(2) using mean' lim(1) d by linarith
  from f64_round_error [OF this] have q: "\<bar>?q - ?s / ?n\<bar> \<le> d" by (simp only: f64_div_def d_def)
  let ?t = "f64_mul ?q 10"
  have "\<bar>?q * 10\<bar> \<le> 2 ^ 24" unfolding lim(2) using q mean' lim(1) d by linarith
  from f64_round_error [OF this] have t: "\<bar>?t - ?q * 10\<bar> \<le> d" by (simp only: f64_mul_def d_def)
  obtain m where m: "math_round ?t = of_int m" "\<bar>math_round ?t - ?t\<bar> \<le> 1 / 2"
    using math_round_error by blast
  have "final_score xs = f64_round (of_int m / 10)"
    unfolding final_score_def m(1) f64_div_def [of "of_int m"] ..
  moreover have "\<bar>of_int m / 10 - sum_list xs / ?n\<bar> \<le> 1 / 20 + 1 / 10 ^ 8"
    using rounding_chain [OF mean' q t m(2) [unfolded m(1)] d(2)] by simp
  ultimately show ?thesis by blast
qed

section \<open>Keys of marks\<close>

lemma mem_mark_keys: "k \<in> mark_key c ` set marks \<longleftrightarrow> scores_of c marks k \<noteq> []"
  by (auto simp: scores_of_def filter_empty_conv)

end
