(* ===== verification/Mark_Store.thy ===== *)
theory Mark_Store
  imports Mark_Rules Exam_Answering
begin

text \<open>
  The queries and statements of \<open>serve/mark/dao.go\<close>. \<open>fault\<close> says which statements the
  database refuses. The rows of \<open>v_student_answer_question\<close> are a parameter \<open>V\<close>: the view in
  \<open>doc/abilityIndex.sql\<close> lacks a column that the query reads, so its text is not the one in use.
\<close>

section \<open>State\<close>

text \<open>
  \<open>md_practice_mode\<close> is \<open>correct_mode\<close> of \<open>t_practice\<close>, by id; \<open>md_questions\<close> the rows of the join
  of papers, groups and questions, with the sessions and practices that use them, as far as no
  row is deleted (status \<open>04\<close> or none).
\<close>

record mark_db =
  md_answer :: answer_db
  md_marks :: "t_mark list"
  md_infos :: "mark_info list"
  md_practice_mode :: "int \<Rightarrow> null_string option"
  md_questions :: "question_row list"

text \<open>The columns of the view that marking reads.\<close>

record answer_view =
  vw_session :: null_int
  vw_practice :: null_int
  vw_question :: null_int
  vw_order :: null_int
  vw_type :: null_string
  vw_score :: "rat option"
  vw_answer :: raw_json
  vw_answer_score :: "rat option"
  vw_actual :: raw_json
  vw_examinee :: null_int
  vw_submission :: null_int

record marker_cfg =
  mc_mode :: string
  mc_infos :: "mark_info list"

definition no_cfg :: marker_cfg where "no_cfg = \<lparr>mc_mode = [], mc_infos = []\<rparr>"

text \<open>The statements of one part of a request, named with the part's name in front.\<close>

definition in_part :: "string \<Rightarrow> (string \<Rightarrow> bool) \<Rightarrow> string \<Rightarrow> bool" where
  "in_part part fault f = fault (part @ ''.'' @ f)"

section \<open>Configuration of the marking\<close>

definition QueryMarkerInfo :: "(string \<Rightarrow> bool) \<Rightarrow> query_cond \<Rightarrow> mark_db \<Rightarrow> mark_error + marker_cfg" where
  "QueryMarkerInfo fault c db =
    (let E = ad_exam (md_answer db);
         mine = (\<lambda>i. mi_status i \<noteq> ''04'' \<and> (0 < qc_teacher c \<longrightarrow> mi_teacher i = qc_teacher c));
         rows = (if 0 < qc_session c
                 then filter (\<lambda>i. mine i \<and> mi_session i = Some (qc_session c) \<and>
                        session_by_id E (qc_session c) \<noteq> None \<and> mi_teacher i \<in> set (user_ids E)) (md_infos db)
                 else filter (\<lambda>i. mine i \<and> mi_practice i = Some (qc_practice c) \<and>
                        md_practice_mode db (qc_practice c) \<noteq> None) (md_infos db));
         mode = (if rows = [] then None
                 else if 0 < qc_session c
                 then (case session_by_id E (qc_session c) of None \<Rightarrow> None | Some s \<Rightarrow> es_mark_mode s)
                 else (case md_practice_mode db (qc_practice c) of None \<Rightarrow> None | Some m \<Rightarrow> m))
     in if fault ''QueryMarkerInfo'' then Inl (Mark_sql ''QueryMarkerInfo'')
        else Inr \<lparr>mc_mode = String mode, mc_infos = rows\<rparr>)"

text \<open>
  The restriction to a marker's questions: in the modes 06 and 08 the first configuration row
  names them; \<open>NULL\<close> reads as \<open>{}\<close>, which is not a list.
\<close>

definition allowed_questions :: "marker_cfg \<Rightarrow> mark_error + int list option" where
  "allowed_questions cfg =
    (if mc_mode cfg \<in> {''06'', ''08''}
     then (case mc_infos cfg of
             [] \<Rightarrow> Inl Config_wrong
           | i # _ \<Rightarrow> (case mi_questions i of None \<Rightarrow> Inl Answer_ids_invalid | Some ids \<Rightarrow> Inr (Some ids)))
     else Inr None)"

definition among :: "int list option \<Rightarrow> null_int \<Rightarrow> bool" where
  "among ids i \<longleftrightarrow> (case ids of None \<Rightarrow> True | Some is \<Rightarrow> i \<in> Some ` set is)"

section \<open>Answers and questions\<close>

text \<open>A comparison with \<open>NULL\<close> is not true.\<close>

definition scored_wrong :: "answer_view \<Rightarrow> bool" where
  "scored_wrong v \<longleftrightarrow> vw_score v \<noteq> None \<and> vw_answer_score v \<noteq> None \<and> vw_score v \<noteq> vw_answer_score v"

definition QueryStudentAnswers ::
    "(string \<Rightarrow> bool) \<Rightarrow> answer_view list \<Rightarrow> string \<Rightarrow> query_cond \<Rightarrow> marker_cfg \<Rightarrow>
      mark_error + answer_view list" where
  "QueryStudentAnswers fault rows questionType c cfg =
    (if questionType \<notin> {''00'', ''02''} then Inl (Question_kind_invalid questionType)
     else and_then (if 0 < qc_session c
          then if qc_examinee c \<le> 0 then Inl Examinee_invalid
               else Inr (\<lambda>v. vw_examinee v = Some (qc_examinee c))
          else if qc_submission c \<le> 0 then Inl Submission_invalid
               else Inr (\<lambda>v. vw_submission v = Some (qc_submission c) \<and>
                           (0 < qc_wrong c \<longrightarrow> scored_wrong v))) (\<lambda>student.
     let types = (if questionType = ''00'' then {''00'', ''02'', ''04''} else {''06'', ''08''})
     in and_then (allowed_questions cfg) (\<lambda>ids.
     if fault ''QueryStudentAnswers'' then Inl (Mark_sql ''QueryStudentAnswers'')
     else Inr (order_nulls_last vw_order
            (filter (\<lambda>v. student v \<and> vw_type v \<in> Some ` types \<and> among ids (vw_question v)) rows)))))"

text \<open>\<open>[]*SubjectiveAnswer\<close>: an element \<open>null\<close> is a nil pointer.\<close>

definition dec_answer_ptrs :: "json \<Rightarrow> SubjectiveAnswer option list option" where
  "dec_answer_ptrs = dec_slice (\<lambda>j. if j = JNull then Some None else map_option Some (dec_struct answer_field
     \<lparr>sa_index = 0, sa_answer = [], sa_alternative = [], sa_score = 0, sa_rule = []\<rparr> j))"

fun add_question :: "question_row \<Rightarrow> question_set list \<Rightarrow> question_set list" where
  "add_question q [] =
    [\<lparr>qs_group = qr_group q, qs_score = f64_add 0 (Float64 (qr_score q)), qs_questions = [q]\<rparr>]"
| "add_question q (s # ss) =
    (if qs_group s = qr_group q
     then s\<lparr>qs_score := f64_add (qs_score s) (Float64 (qr_score q)), qs_questions := qs_questions s @ [q]\<rparr> # ss
     else s # add_question q ss)"

text \<open>
  \<open>QuerySubjectiveQuestions\<close>: \<open>DISTINCT\<close> drops the session and the practice, the rows are
  collected by group. The sets come in the order of their groups; the order in which Go ranges
  over its map is not fixed, and no caller depends on it.
\<close>

definition QuerySubjectiveQuestions ::
    "(string \<Rightarrow> bool) \<Rightarrow> mark_db \<Rightarrow> string list \<Rightarrow> query_cond \<Rightarrow> marker_cfg \<Rightarrow>
      mark_error + question_set list" where
  "QuerySubjectiveQuestions fault db types c cfg =
    (if types = [] then Inl Types_missing
     else and_then
       (if 0 < qc_question c then Inr (\<lambda>q. qr_id q = Some (qc_question c))
        else if 0 < qc_session c
        then and_then (allowed_questions cfg) (\<lambda>ids.
               Inr (\<lambda>q. qr_session q = Some (qc_session c) \<and> among ids (qr_id q)))
        else if 0 < qc_practice c then Inr (\<lambda>q. qr_practice q = Some (qc_practice c))
        else Inr (\<lambda>q. True)) (\<lambda>w.
       let rows = remdups (map (\<lambda>q. q\<lparr>qr_session := None, qr_practice := None\<rparr>)
             (filter (\<lambda>q. qr_type q \<in> set types \<and> w q) (md_questions db)))
       in if fault ''QuerySubjectiveQuestions'' then Inl (Mark_sql ''QuerySubjectiveQuestions'')
          else if \<not> list_all (\<lambda>q. unmarshal dec_answer_ptrs (qr_answers q) \<noteq> None) rows
          then Inl (Mark_json ''answers'')
          else Inr (fold add_question
                 (sort_key qr_group (sort_key (\<lambda>q. Int64 (qr_id q)) rows)) [])))"

definition QueryExamSessionStatus :: "(string \<Rightarrow> bool) \<Rightarrow> mark_db \<Rightarrow> int \<Rightarrow> mark_error + string" where
  "QueryExamSessionStatus fault db i =
    (if fault ''QueryExamSessionStatus'' then Inl (Mark_sql ''QueryExamSessionStatus'')
     else (case session_by_id (ad_exam (md_answer db)) i of
             None \<Rightarrow> Inl (Mark_no_row ''QueryExamSessionStatus'')
           | Some s \<Rightarrow> Inr (es_status s)))"

section \<open>Statements\<close>

text \<open>The mode of \<open>UpdateMarkerInfoStatus\<close> gives one clause; the text of the statement is built from it.\<close>

definition info_clause :: "string \<Rightarrow> mark_error + string" where
  "info_clause mode =
    (if mode = ''00'' then Inr ''exam_session_id = ANY($1)''
     else if mode = ''02'' then Inr ''practice_id = ANY($1)''
     else Inl (Which_invalid mode))"

definition update_info_text :: "string \<Rightarrow> string" where
  "update_info_text cond =
     ''UPDATE t_mark_info SET status = $2, updated_by = $3, update_time = $4 WHERE '' @ cond @ '' RETURNING id''"

text \<open>\<open>parses\<close> says which texts the database accepts as a statement.\<close>

definition UpdateMarkerInfoStatus ::
    "(string \<Rightarrow> bool) \<Rightarrow> (string \<Rightarrow> bool) \<Rightarrow> int \<Rightarrow> int \<Rightarrow> int list \<Rightarrow> string \<Rightarrow> string \<Rightarrow>
      mark_db \<Rightarrow> mark_error + mark_db" where
  "UpdateMarkerInfoStatus parses fault now teacherID ids mode status db =
    (if teacherID \<le> 0 then Inl Teacher_invalid
     else if ids = [] then Inl Ids_invalid
     else if status \<notin> {''00'', ''02'', ''04''} then Inl Status_invalid
     else and_then (info_clause mode) (\<lambda>clause.
       if \<not> parses (update_info_text (joinWhereClause [clause])) \<or> fault ''UpdateMarkerInfoStatus''
       then Inl (Mark_sql ''UpdateMarkerInfoStatus'')
       else Inr (db\<lparr>md_infos := sql_update
              (\<lambda>i. (if mode = ''00'' then mi_session i else mi_practice i) \<in> Some ` set ids)
              (\<lambda>i. i\<lparr>mi_status := status, mi_updated_by := teacherID, mi_update_time := Some now\<rparr>)
              (md_infos db)\<rparr>)))"

text \<open>\<open>UpsertMarkingResults\<close>: the two unique keys of \<open>t_mark\<close>; \<open>NULL\<close> conflicts with nothing.\<close>

definition exam_mark_key :: "t_mark \<Rightarrow> null_int list" where
  "exam_mark_key m = [rm_examinee m, rm_question m, rm_teacher m, rm_session m]"

definition practice_mark_key :: "t_mark \<Rightarrow> null_int list" where
  "practice_mark_key m = [rm_question m, rm_teacher m, rm_practice m, rm_submission m]"

definition conflicts :: "(t_mark \<Rightarrow> null_int list) \<Rightarrow> t_mark \<Rightarrow> t_mark \<Rightarrow> bool" where
  "conflicts key a b \<longleftrightarrow> None \<notin> set (key a) \<and> key a = key b"

definition remark :: "t_mark \<Rightarrow> t_mark \<Rightarrow> t_mark" where
  "remark new old = old\<lparr>rm_details := rm_details new, rm_score := rm_score new,
     rm_update_time := rm_create_time new, rm_updated_by := rm_creator new\<rparr>"

definition upsert_mark ::
    "(string \<Rightarrow> bool) \<Rightarrow> int \<Rightarrow> (t_mark \<Rightarrow> null_int list) \<Rightarrow> (t_mark \<Rightarrow> null_int list) \<Rightarrow> t_mark \<Rightarrow>
      mark_db \<Rightarrow> mark_error + mark_db" where
  "upsert_mark fault now key other m db =
    (let new = m\<lparr>rm_status := (if String (rm_status m) = [] then Some ''00'' else rm_status m),
                 rm_create_time := Some now, rm_updated_by := None, rm_update_time := None\<rparr>
     in if fault ''UpsertMarkingResults'' then Inl (Mark_sql ''UpsertMarkingResults'')
        else if list_ex (conflicts key new) (md_marks db)
        then Inr (db\<lparr>md_marks := sql_update (conflicts key new) (remark new) (md_marks db)\<rparr>)
        else if list_ex (conflicts other new) (md_marks db) then Inl Mark_unique_violation
        else Inr (db\<lparr>md_marks := md_marks db @ [new]\<rparr>))"

text \<open>Which key is used is read off the first mark, so an empty list panics.\<close>

definition UpsertMarkingResults ::
    "(string \<Rightarrow> bool) \<Rightarrow> int \<Rightarrow> t_mark list \<Rightarrow> mark_db \<Rightarrow> mark_error + mark_db" where
  "UpsertMarkingResults fault now marks db =
    (case marks of
       [] \<Rightarrow> Inl Index_out_of_range
     | m # _ \<Rightarrow>
         if 0 < Int64 (rm_session m)
         then for_each (upsert_mark fault now exam_mark_key practice_mark_key) marks db
         else for_each (upsert_mark fault now practice_mark_key exam_mark_key) marks db)"

text \<open>The rows of \<open>t_student_answers\<close> that one update of \<open>UpdateStudentAnswerScore\<close> hits.\<close>

definition is_answer :: "query_cond \<Rightarrow> int \<times> int \<Rightarrow> student_answer \<Rightarrow> bool" where
  "is_answer c k a \<longleftrightarrow>
     (if 0 < qc_session c then an_examinee_id a else an_practice_id a) = Some (fst k) \<and>
     an_question_id a = snd k"

definition score_answer :: "int \<Rightarrow> query_cond \<Rightarrow> rat \<Rightarrow> student_answer \<Rightarrow> student_answer" where
  "score_answer now c x a =
     a\<lparr>an_score := Some x, an_update_time := Some now, an_updated_by := Some (qc_teacher c)\<rparr>"

definition put_score ::
    "(string \<Rightarrow> bool) \<Rightarrow> int \<Rightarrow> query_cond \<Rightarrow> t_mark list \<Rightarrow> int \<times> int \<Rightarrow> student_answer list \<Rightarrow>
      mark_error + student_answer list" where
  "put_score fault now c marks k answers =
    (if fault ''UpdateStudentAnswerScore'' then Inl (Mark_sql ''UpdateStudentAnswerScore'')
     else if sql_count (is_answer c k) answers = 0 then Inl (Mark_no_row ''UpdateStudentAnswerScore'')
     else Inr (sql_update (is_answer c k) (score_answer now c (final_score (scores_of c marks k))) answers))"

definition no_student :: "query_cond \<Rightarrow> mark_error" where
  "no_student c = (if 0 < qc_session c then Examinee_missing else Submission_missing)"

text \<open>
  The two loops over Go's maps run through the keys in an order the language leaves open;
  \<open>ord\<close> stands for it.
\<close>

definition UpdateStudentAnswerScore ::
    "(string \<Rightarrow> bool) \<Rightarrow> int \<Rightarrow> ((int \<times> int) list \<Rightarrow> (int \<times> int) list) \<Rightarrow> t_mark list \<Rightarrow> query_cond \<Rightarrow>
      mark_db \<Rightarrow> mark_error + mark_db" where
  "UpdateStudentAnswerScore fault now ord marks c db =
    (if marks = [] then Inl No_results
     else if list_ex (\<lambda>m. mark_student c m \<le> 0) marks then Inl (no_student c)
     else and_then (for_each (put_score fault now c marks) (ord (remdups (map (mark_key c) marks)))
            (ad_answers (md_answer db))) (\<lambda>answers.
          Inr (db\<lparr>md_answer := (md_answer db)\<lparr>ad_answers := answers\<rparr>\<rparr>)))"

definition practice_set_status :: "int \<Rightarrow> query_cond \<Rightarrow> string \<Rightarrow> practice_row \<Rightarrow> practice_row" where
  "practice_set_status now c st p =
     p\<lparr>pr_status := st, pr_updated_by := Some (qc_teacher c), pr_update_time := Some now\<rparr>"

definition UpdateExamSessionOrPracticeSubmissionStatus ::
    "(string \<Rightarrow> bool) \<Rightarrow> int \<Rightarrow> query_cond \<Rightarrow> string \<Rightarrow> mark_db \<Rightarrow> mark_error + mark_db" where
  "UpdateExamSessionOrPracticeSubmissionStatus fault now c st db =
    (let A = md_answer db; E = ad_exam A; bad = fault ''UpdateStatus'';
         sql = Mark_sql ''UpdateStatus''; none = Mark_no_row ''UpdateStatus'' in
     if st = [] then Inl Status_empty
     else if 0 < qc_wrong c
     then if bad then Inl sql
          else if sql_count (\<lambda>p. pr_id p = qc_wrong c) (ad_wrong A) = 0 then Inl none
          else Inr (db\<lparr>md_answer := A\<lparr>ad_wrong := sql_update (\<lambda>p. pr_id p = qc_wrong c)
                       (practice_set_status now c st) (ad_wrong A)\<rparr>\<rparr>)
     else if 0 < qc_session c
     then if bad then Inl sql
          else if sql_count (\<lambda>s. es_id s = qc_session c) (exam_sessions E) = 0 then Inl none
          else Inr (db\<lparr>md_answer := A\<lparr>ad_exam := E\<lparr>exam_sessions := sql_update (\<lambda>s. es_id s = qc_session c)
                       (\<lambda>s. s\<lparr>es_status := st, es_update_time := Some now\<rparr>) (exam_sessions E)\<rparr>\<rparr>\<rparr>)
     else if 0 < qc_submission c
     then if bad then Inl sql
          else if sql_count (\<lambda>p. pr_id p = qc_submission c) (ad_practice A) = 0 then Inl none
          else Inr (db\<lparr>md_answer := A\<lparr>ad_practice := sql_update (\<lambda>p. pr_id p = qc_submission c)
                       (practice_set_status now c st) (ad_practice A)\<rparr>\<rparr>)
     else Inl Target_missing)"

end
