(* ===== verification/Marking.thy ===== *)
theory Marking
  imports Mark_Store
begin

text \<open>
  Marking, \<open>serve/mark/mark.go\<close>: the automatic marking that a hand-in starts, the task for the
  language model and its result, the marks a teacher saves, the submission of the results, and
  the configuration of who marks what. A request works in one transaction; the cache in Redis
  and the task queue are changed at once and not rolled back. \<open>rnd\<close> and \<open>ord\<close> stand for the
  random numbers and the order of Go's maps, \<open>V\<close> for the view of the answers.
\<close>

section \<open>State\<close>

record ai_question =
  aq_id :: int
  aq_score :: rat
  aq_answer :: string
  aq_rule :: string

record ai_task =
  at_questions :: "ai_question list"
  at_answers :: "(int \<times> string) list"
  at_cond :: query_cond
  at_count :: int

text \<open>
  \<open>mw_cache\<close> holds the question sets under the keys \<open>exam_session:<id>\<close> and \<open>practice:<id>\<close>
  (their expiry is the removal of a key, at any time between two requests), \<open>mw_checking\<close> the
  sessions with a key \<open>exam_session:<id>state_update\<close>, and \<open>mw_checks\<close> the checks started, with
  their delay in milliseconds.
\<close>

record mark_world =
  mw_db :: mark_db
  mw_cache :: "string \<Rightarrow> question_set list option"
  mw_tasks :: "ai_task list"
  mw_checking :: "int set"
  mw_checks :: "(int \<times> int \<times> int) list"

definition ExamSessionStatusSubmitted :: string where "ExamSessionStatusSubmitted = ''10''"
definition PracticeSubmissionStatusSubmitted :: string where "PracticeSubmissionStatusSubmitted = ''08''"

text \<open>The deferred end of a transaction: it is committed if there is no error.\<close>

definition mark_tx ::
    "(string \<Rightarrow> bool) \<Rightarrow> mark_db \<Rightarrow> mark_error + 'a \<times> mark_db \<Rightarrow> (mark_error + 'a) \<times> mark_db" where
  "mark_tx fault db r =
    (case r of
       Inl e \<Rightarrow> (Inl e, db)
     | Inr (x, db') \<Rightarrow> if fault ''commit'' then (Inl (Mark_sql ''commit''), db) else (Inr x, db'))"

section \<open>Marking objective questions\<close>

text \<open>\<open>struct \<open>{ Answer []string }\<close>\<close>\<close>

definition dec_student_answer :: "json \<Rightarrow> string list option" where
  "dec_student_answer = dec_struct (\<lambda>k j old.
     if fold_key k = ''answer'' then dec_strings j else Some old) []"

definition objective_points :: "answer_view \<Rightarrow> mark_error + rat" where
  "objective_points v =
    (case unmarshal dec_strings (vw_actual v) of
       None \<Rightarrow> Inl (Mark_json ''ActualAnswers'')
     | Some standard \<Rightarrow>
         if standard = [] then Inl No_standard_answer
         else if vw_answer v = No_bytes then Inr 0
         else (case unmarshal dec_student_answer (vw_answer v) of
                 None \<Rightarrow> Inl (Mark_json ''Answer'')
               | Some answers \<Rightarrow> Inr (if compareSlices answers standard then Float64 (vw_score v) else 0)))"

definition objective_mark :: "int \<Rightarrow> query_cond \<Rightarrow> answer_view \<Rightarrow> rat \<Rightarrow> t_mark" where
  "objective_mark now c v x =
    \<lparr>rm_teacher = None, rm_examinee = vw_examinee v, rm_question = vw_question v, rm_session = vw_session v,
     rm_practice = vw_practice v, rm_submission = vw_submission v,
     rm_details = Parsed (JArr [JObj [(''analyze'', JStr []), (''index'', JNum (Integer_literal 0)),
       (''score'', JNum (Decimal_literal x))]]),
     rm_status = Some ''00'', rm_score = Some x, rm_creator = Some (qc_teacher c),
     rm_create_time = Some now, rm_updated_by = Some (qc_teacher c), rm_update_time = Some now\<rparr>"

fun objective_marks :: "int \<Rightarrow> query_cond \<Rightarrow> answer_view list \<Rightarrow> mark_error + t_mark list" where
  "objective_marks now c [] = Inr []"
| "objective_marks now c (v # vs) =
    and_then (objective_points v) (\<lambda>x. and_then (objective_marks now c vs) (\<lambda>ms.
      Inr (objective_mark now c v x # ms)))"

definition question_key :: "query_cond \<Rightarrow> string" where
  "question_key c = (if 0 < qc_session c then ''exam_session:'' @ sprint_d (qc_session c)
                     else ''practice:'' @ sprint_d (qc_practice c))"

definition cached_types :: "string list" where "cached_types = [''06'', ''08'', ''10'']"

definition getSubjectQuestionsFromRedis ::
    "(string \<Rightarrow> bool) \<Rightarrow> mark_db \<Rightarrow> query_cond \<Rightarrow> (string \<Rightarrow> question_set list option) \<Rightarrow>
      (mark_error + question_set list) \<times> (string \<Rightarrow> question_set list option)" where
  "getSubjectQuestionsFromRedis fault db c cache =
    (let k = question_key c in
     if fault ''redis.Get'' then (Inl (Mark_sql ''redis.Get''), cache)
     else (case cache k of
       None \<Rightarrow>
         (case QuerySubjectiveQuestions fault db cached_types c no_cfg of
            Inl e \<Rightarrow> (Inl e, cache)
          | Inr qs \<Rightarrow> if fault ''redis.Set'' then (Inl (Mark_sql ''redis.Set''), cache)
                      else (Inr qs, cache(k \<mapsto> qs)))
     | Some qs \<Rightarrow> if fault ''redis.Expire'' then (Inl (Mark_sql ''redis.Expire''), cache) else (Inr qs, cache)))"

definition updateToSubmissionStatus ::
    "(string \<Rightarrow> bool) \<Rightarrow> int \<Rightarrow> query_cond \<Rightarrow> mark_db \<Rightarrow> mark_error + mark_db" where
  "updateToSubmissionStatus fault now c db =
     UpdateExamSessionOrPracticeSubmissionStatus fault now c
       (if 0 < qc_session c then ExamSessionStatusSubmitted else PracticeSubmissionStatusSubmitted) db"

definition markObjectiveQuestionAnswers ::
    "(string \<Rightarrow> bool) \<Rightarrow> int \<Rightarrow> ((int \<times> int) list \<Rightarrow> (int \<times> int) list) \<Rightarrow> (mark_db \<Rightarrow> answer_view list) \<Rightarrow>
      query_cond \<Rightarrow> (string \<Rightarrow> question_set list option) \<Rightarrow> mark_db \<Rightarrow>
      (mark_error + mark_db) \<times> (string \<Rightarrow> question_set list option)" where
  "markObjectiveQuestionAnswers fault now ord V c cache db =
    (case QueryStudentAnswers fault (V db) ''00'' c no_cfg of
       Inl e \<Rightarrow> (Inl e, cache)
     | Inr [] \<Rightarrow> (Inr db, cache)
     | Inr answers \<Rightarrow>
         (case and_then (objective_marks now c answers) (\<lambda>ms.
                 UpdateStudentAnswerScore fault now ord ms c db) of
            Inl e \<Rightarrow> (Inl e, cache)
          | Inr db1 \<Rightarrow>
              (case getSubjectQuestionsFromRedis fault db1 c cache of
                 (Inl e, cache1) \<Rightarrow> (Inl e, cache1)
               | (Inr qs, cache1) \<Rightarrow>
                   (if qs \<noteq> [] then Inr db1 else updateToSubmissionStatus fault now c db1, cache1))))"

section \<open>The task for the language model\<close>

definition numbered :: "int \<Rightarrow> string \<Rightarrow> string" where
  "numbered i s = bytes [239, 188, 136] @ sprint_d i @ bytes [239, 188, 137] @ s @ [CHR 10]"

fun number_lines :: "int \<Rightarrow> string list \<Rightarrow> string" where
  "number_lines i [] = []"
| "number_lines i (s # ss) = numbered i s @ number_lines (i + 1) ss"

definition task_answer :: "query_cond \<Rightarrow> answer_view \<Rightarrow> mark_error + int \<times> string" where
  "task_answer c v =
    (let q = Int64 (vw_question v); e = Int64 (vw_examinee v); s = Int64 (vw_submission v);
         raw = (if vw_answer v = No_bytes then Parsed (JObj [(''answer'', JArr [])]) else vw_answer v)
     in if q \<le> 0 then Inl Question_missing
        else if e \<le> 0 \<and> s \<le> 0 then Inl Examinee_missing
        else if 0 < qc_session c \<and> e \<le> 0 then Inl Examinee_missing
        else if 0 < qc_practice c \<and> s \<le> 0 then Inl Submission_missing
        else (case unmarshal dec_student_answer raw of
                None \<Rightarrow> Inl (Mark_json ''Answer'')
              | Some answers \<Rightarrow> Inr (q, number_lines 1 answers)))"

fun task_texts :: "SubjectiveAnswer option list \<Rightarrow> mark_error + string \<times> string" where
  "task_texts [] = Inr ([], [])"
| "task_texts (None # as) = Inl Nil_pointer"
| "task_texts (Some a # as) =
    and_then (task_texts as) (\<lambda>(t, r).
      Inr (numbered (sa_index a) (sa_answer a) @ t, numbered (sa_index a) (sa_rule a) @ r))"

definition task_question :: "question_row \<Rightarrow> mark_error + ai_question" where
  "task_question q =
    (if Int64 (qr_id q) \<le> 0 then Inl Question_missing
     else (case unmarshal dec_answer_ptrs (qr_answers q) of
             None \<Rightarrow> Inl (Mark_json ''answers'')
           | Some [] \<Rightarrow> Inl No_standard_answer
           | Some as \<Rightarrow> and_then (task_texts as) (\<lambda>(t, r).
               Inr \<lparr>aq_id = Int64 (qr_id q), aq_score = Float64 (qr_score q), aq_answer = t, aq_rule = r\<rparr>)))"

fun try_all :: "('a \<Rightarrow> mark_error + 'b) \<Rightarrow> 'a list \<Rightarrow> mark_error + 'b list" where
  "try_all f [] = Inr []"
| "try_all f (x # xs) = and_then (f x) (\<lambda>y. and_then (try_all f xs) (\<lambda>ys. Inr (y # ys)))"

definition generateAIMarkTask ::
    "(string \<Rightarrow> bool) \<Rightarrow> query_cond \<Rightarrow> question_row list \<Rightarrow> answer_view list \<Rightarrow> mark_error + ai_task" where
  "generateAIMarkTask fault c questions answers =
    and_then (try_all (task_answer c) answers) (\<lambda>as.
    and_then (try_all task_question questions) (\<lambda>qs.
      if fault ''SendTask'' then Inl (Mark_sql ''SendTask'')
      else Inr \<lparr>at_questions = qs, at_answers = as, at_cond = c, at_count = 1\<rparr>))"

section \<open>Automatic marking\<close>

text \<open>
  The part of \<open>AutoMark\<close> after the objective questions: it does not write to the database.
  \<open>db0\<close> is what the other connection sees, \<open>db1\<close> what the transaction does.
\<close>

definition subjective_task ::
    "(string \<Rightarrow> bool) \<Rightarrow> (mark_db \<Rightarrow> answer_view list) \<Rightarrow> query_cond \<Rightarrow> mark_db \<Rightarrow> mark_db \<Rightarrow>
      (string \<Rightarrow> question_set list option) \<Rightarrow>
      (mark_error + ai_task list) \<times> (string \<Rightarrow> question_set list option)" where
  "subjective_task fault V c db0 db1 cache =
    (case QueryMarkerInfo fault c db0 of
       Inl e \<Rightarrow> (Inl e, cache)
     | Inr cfg \<Rightarrow>
         if mc_mode cfg \<noteq> ''00'' \<and> qc_wrong c \<le> 0 then (Inr [], cache)
         else (case mc_infos cfg of
                 [i] \<Rightarrow>
                   let c1 = c\<lparr>qc_teacher := mi_teacher i\<rparr> in
                   (case getSubjectQuestionsFromRedis (in_part ''subjective'' fault) db1 c1 cache of
                      (Inl e, cache1) \<Rightarrow> (Inl e, cache1)
                    | (Inr qs, cache1) \<Rightarrow>
                        (and_then (QueryStudentAnswers (in_part ''subjective'' fault) (V db0) ''02'' c1 cfg) (\<lambda>answers.
                         and_then (generateAIMarkTask fault c1 (concat (map qs_questions qs)) answers) (\<lambda>t.
                           Inr [t])), cache1))
               | _ \<Rightarrow> (Inl Config_wrong, cache)))"

definition AutoMark ::
    "(string \<Rightarrow> bool) \<Rightarrow> int \<Rightarrow> ((int \<times> int) list \<Rightarrow> (int \<times> int) list) \<Rightarrow> (mark_db \<Rightarrow> answer_view list) \<Rightarrow>
      query_cond \<Rightarrow> mark_world \<Rightarrow> (mark_error + unit) \<times> mark_world" where
  "AutoMark fault now ord V c w =
    (case validateExamSessionOrPractice c of
       Inl e \<Rightarrow> (Inl e, w)
     | Inr _ \<Rightarrow>
         if fault ''begin'' then (Inl (Mark_sql ''begin''), w)
         else (case markObjectiveQuestionAnswers fault now ord V c (mw_cache w) (mw_db w) of
                 (Inl e, cache1) \<Rightarrow> (Inl e, w\<lparr>mw_cache := cache1\<rparr>)
               | (Inr db1, cache1) \<Rightarrow>
                   (case subjective_task fault V c (mw_db w) db1 cache1 of
                      (Inl e, cache2) \<Rightarrow> (Inl e, w\<lparr>mw_cache := cache2\<rparr>)
                    | (Inr ts, cache2) \<Rightarrow>
                        (case mark_tx fault (mw_db w) (Inr ((), db1)) of
                           (r, db) \<Rightarrow> (r, w\<lparr>mw_db := db, mw_cache := cache2, mw_tasks := mw_tasks w @ ts\<rparr>)))))"


text \<open>The condition with which \<open>Submit\<close> starts the marking.\<close>

definition request_cond :: "mark_request \<Rightarrow> query_cond" where
  "request_cond r =
    \<lparr>qc_teacher = 0, qc_session = mk_session r, qc_examinee = mk_examinee r, qc_practice = mk_practice r,
     qc_submission = mk_practice_submission r, qc_wrong = mk_wrong_submission r, qc_question = 0\<rparr>"

section \<open>The result of the language model\<close>

record ai_result =
  ar_question :: int
  ar_score :: rat
  ar_analyze :: string

text \<open>\<open>AIMark\<close> asks the service, whose answer is \<open>reply\<close>, only if there is something to mark.\<close>

definition AIMark :: "mark_error + ai_result list \<Rightarrow> ai_task \<Rightarrow> mark_error + ai_result list" where
  "AIMark reply t = (if at_questions t = [] \<or> at_answers t = [] then Inr [] else reply)"

definition ai_score_map :: "ai_question list \<Rightarrow> int \<Rightarrow> rat" where
  "ai_score_map qs = foldl (\<lambda>m q. m(aq_id q := aq_score q)) (\<lambda>_. 0) qs"

definition ai_mark :: "int \<Rightarrow> query_cond \<Rightarrow> ai_result \<Rightarrow> t_mark" where
  "ai_mark now c r =
    (let exam = 0 < qc_session c in
     \<lparr>rm_teacher = Some (qc_teacher c), rm_examinee = (if exam then Some (qc_examinee c) else None),
      rm_question = Some (ar_question r), rm_session = (if exam then Some (qc_session c) else None),
      rm_practice = (if exam then None else Some (qc_practice c)),
      rm_submission = (if exam then None else Some (qc_submission c)),
      rm_details = Parsed (JArr [JObj [(''analyze'', JStr (ar_analyze r)), (''index'', JNum (Integer_literal 1)),
        (''score'', JNum (Decimal_literal (ar_score r)))]]),
      rm_status = None, rm_score = Some (ar_score r), rm_creator = Some (qc_teacher c),
      rm_create_time = Some now, rm_updated_by = None, rm_update_time = None\<rparr>)"

definition ai_check :: "int \<Rightarrow> query_cond \<Rightarrow> (int \<Rightarrow> rat) \<Rightarrow> ai_result \<Rightarrow> mark_error + t_mark" where
  "ai_check now c given r =
    (if ar_score r < 0 then Inl (Ai_negative (ar_score r))
     else if ar_score r > given (ar_question r) then Inl (Ai_above (ar_score r) (given (ar_question r)))
     else Inr (ai_mark now c r))"

text \<open>
  What follows the last task: a practice is marked; for an exam the check of its session is
  started unless one is running already.
\<close>

definition ai_finish ::
    "(string \<Rightarrow> bool) \<Rightarrow> int \<Rightarrow> query_cond \<Rightarrow> mark_db \<Rightarrow> mark_world \<Rightarrow> (mark_error + unit \<times> mark_db) \<times> mark_world" where
  "ai_finish fault now c db w =
    (if 0 < qc_session c
     then if fault ''redis.Exists'' then (Inl (Mark_sql ''redis.Exists''), w)
          else if qc_session c \<in> mw_checking w then (Inr ((), db), w)
          else if fault ''queryEndTime'' then (Inl (Mark_sql ''queryEndTime''), w)
          else (case session_by_id (ad_exam (md_answer db)) (qc_session c) of
                  None \<Rightarrow> (Inl (Mark_no_row ''queryEndTime''), w)
                | Some s \<Rightarrow>
                    let w1 = w\<lparr>mw_checks := mw_checks w @ [(qc_session c, qc_teacher c, es_end_time s + 5000 - now)]\<rparr>
                    in if fault ''redis.SetCheck'' then (Inl (Mark_sql ''redis.SetCheck''), w1)
                       else (Inr ((), db), w1\<lparr>mw_checking := insert (qc_session c) (mw_checking w1)\<rparr>))
     else if 0 < qc_practice c \<or> 0 < qc_wrong c
     then (and_then (UpdateExamSessionOrPracticeSubmissionStatus fault now c PracticeSubmissionStatusSubmitted db)
             (\<lambda>db1. Inr ((), db1)), w)
     else (Inr ((), db), w))"

definition handleAIMarkTask ::
    "(string \<Rightarrow> bool) \<Rightarrow> int \<Rightarrow> ((int \<times> int) list \<Rightarrow> (int \<times> int) list) \<Rightarrow> mark_error + ai_result list \<Rightarrow>
      ai_task \<Rightarrow> mark_world \<Rightarrow> (mark_error + unit) \<times> mark_world" where
  "handleAIMarkTask fault now ord reply t w =
    (let c = at_cond t in
     if at_count t \<le> 0 then (Inl Task_count_wrong, w)
     else if qc_teacher c \<le> 0 then (Inl Teacher_invalid, w)
     else (case and_then (validateExamSessionOrPractice c) (\<lambda>_.
              if fault ''GetChatModel'' then Inl Model_failed else AIMark reply t) of
       Inl e \<Rightarrow> (Inl e, w)
     | Inr results \<Rightarrow>
         if fault ''begin'' then (Inl (Mark_sql ''begin''), w)
         else (case and_then (try_all (ai_check now c (ai_score_map (at_questions t))) results) (\<lambda>marks.
                    and_then (UpsertMarkingResults fault now marks (mw_db w)) (\<lambda>db1.
                    UpdateStudentAnswerScore fault now ord marks c db1)) of
                 Inl e \<Rightarrow> (Inl e, w)
               | Inr db2 \<Rightarrow>
                   (case (if at_count t = 1 then ai_finish fault now c db2 w else (Inr ((), db2), w)) of
                      (r, w1) \<Rightarrow> (case mark_tx fault (mw_db w) r of
                                    (res, db) \<Rightarrow> (res, w1\<lparr>mw_db := db\<rparr>))))))"

section \<open>The check of a session\<close>

text \<open>
  \<open>v_exam_unmarked_student_count\<close>: of the examinees of a session who have handed in, those
  with an answer that has no score; no row if nobody has.
\<close>

definition unmarked_count :: "mark_db \<Rightarrow> int \<Rightarrow> nat option" where
  "unmarked_count db i =
    (let es = filter (\<lambda>e. ex_session_id e = i \<and> ex_status e = ''10'') (examinees (ad_exam (md_answer db)))
     in if es = [] then None
        else Some (length (remdups (map ex_id (filter (\<lambda>e. list_ex (\<lambda>a. an_examinee_id a = Some (ex_id e) \<and>
               an_score a = None) (ad_answers (md_answer db))) es)))))"

text \<open>One round of \<open>startExamSessionStatusCheck\<close>: whether the check is over, and the new state.\<close>

definition checkStatus ::
    "(string \<Rightarrow> bool) \<Rightarrow> int \<Rightarrow> int \<Rightarrow> int \<Rightarrow> mark_world \<Rightarrow> bool \<times> mark_world" where
  "checkStatus fault now examSessionID teacherID w =
    (case QueryExamSessionStatus fault (mw_db w) examSessionID of
       Inl _ \<Rightarrow> (False, w)
     | Inr st \<Rightarrow>
         if st = ''08''
         then if fault ''unmarkedCount'' then (False, w)
              else (case unmarked_count (mw_db w) examSessionID of
                      None \<Rightarrow> (False, w)
                    | Some n \<Rightarrow>
                        if n = 0
                        then (case UpdateExamSessionOrPracticeSubmissionStatus fault now
                                \<lparr>qc_teacher = teacherID, qc_session = examSessionID, qc_examinee = 0, qc_practice = 0,
                                 qc_submission = 0, qc_wrong = 0, qc_question = 0\<rparr>
                                ExamSessionStatusSubmitted (mw_db w) of
                                Inl _ \<Rightarrow> (False, w)
                              | Inr db \<Rightarrow>
                                  if fault ''redis.Del'' then (False, w\<lparr>mw_db := db\<rparr>)
                                  else (True, w\<lparr>mw_db := db, mw_checking := mw_checking w - {examSessionID}\<rparr>))
                        else (False, w))
         else (st = ''10'', w))"


section \<open>Marks of a teacher\<close>

text \<open>
  The points of a saved mark: the question is looked up alone, the parts are checked against the
  scores given for them, and their sum becomes the score of the mark.
\<close>

definition all_subjective :: "string list" where "all_subjective = [''06'', ''08'', ''10'', ''12'']"

definition question_cond :: "int \<Rightarrow> query_cond" where
  "question_cond q = \<lparr>qc_teacher = 0, qc_session = 0, qc_examinee = 0, qc_practice = 0, qc_submission = 0,
     qc_wrong = 0, qc_question = q\<rparr>"

definition marking_total :: "question_set list \<Rightarrow> t_mark \<Rightarrow> mark_error + rat" where
  "marking_total sets m =
    (case sets of
       [s] \<Rightarrow>
         (case qs_questions s of
            [q] \<Rightarrow>
              (case unmarshal dec_given (qr_answers q) of
                 None \<Rightarrow> Inl (Mark_json ''answers'')
               | Some gs \<Rightarrow>
                   (case unmarshal dec_details (rm_details m) of
                      None \<Rightarrow> Inl (Mark_json ''MarkDetails'')
                    | Some ds \<Rightarrow> check_details (int (length gs)) (given_map gs) ds 0))
          | qs \<Rightarrow> Inl (Question_count (length qs)))
     | _ \<Rightarrow> Inl (Set_count (length sets)))"

definition checkAndSaveMarkingResult ::
    "(string \<Rightarrow> bool) \<Rightarrow> int \<Rightarrow> t_mark \<Rightarrow> mark_db \<Rightarrow> mark_error + mark_db" where
  "checkAndSaveMarkingResult fault now m db =
    and_then (QuerySubjectiveQuestions fault db all_subjective (question_cond (Int64 (rm_question m))) no_cfg)
      (\<lambda>sets. and_then (marking_total sets m) (\<lambda>x.
        UpsertMarkingResults fault now [m\<lparr>rm_score := Some x\<rparr>] db))"

text \<open>
  \<open>saveMarkingResults\<close>: the decoded mark (\<open>None\<close> for a body that does not decode) is the user's
  own; an ended session becomes one that is being marked. \<open>counts\<close> are the two counting
  queries for the reply, which only read.
\<close>

definition mark_cond :: "int \<Rightarrow> t_mark \<Rightarrow> query_cond" where
  "mark_cond teacher m = \<lparr>qc_teacher = teacher, qc_session = Int64 (rm_session m), qc_examinee = 0,
     qc_practice = Int64 (rm_practice m), qc_submission = 0, qc_wrong = 0, qc_question = Int64 (rm_question m)\<rparr>"

definition begin_marking ::
    "(string \<Rightarrow> bool) \<Rightarrow> int \<Rightarrow> query_cond \<Rightarrow> mark_db \<Rightarrow> mark_error + mark_db" where
  "begin_marking fault now c db =
    (if 0 < qc_session c
     then and_then (QueryExamSessionStatus fault db (qc_session c)) (\<lambda>st.
            if st = ''06''
            then UpdateExamSessionOrPracticeSubmissionStatus fault now c PracticeSubmissionStatusSubmitted db
            else Inr db)
     else Inr db)"

definition saveMarkingResults ::
    "(string \<Rightarrow> bool) \<Rightarrow> int \<Rightarrow> (mark_db \<Rightarrow> (int \<times> int) option) \<Rightarrow> null_int \<Rightarrow> t_mark option \<Rightarrow>
      mark_db \<Rightarrow> (mark_error + int \<times> int) \<times> mark_db" where
  "saveMarkingResults fault now counts userID body db =
    (case body of
       None \<Rightarrow> (Inl Body_invalid, db)
     | Some m0 \<Rightarrow>
         let c = mark_cond (Int64 userID) m0;
             m = m0\<lparr>rm_creator := userID, rm_teacher := userID\<rparr>
         in (case and_then (validateExamSessionOrPractice c) (\<lambda>_. validateMarkingResult m) of
               Inl e \<Rightarrow> (Inl e, db)
             | Inr _ \<Rightarrow>
                 if fault ''begin'' then (Inl (Mark_sql ''begin''), db)
                 else mark_tx fault db
                   (and_then (begin_marking fault now c db) (\<lambda>db1.
                    and_then (checkAndSaveMarkingResult fault now m db1) (\<lambda>db2.
                      case counts db2 of
                        None \<Rightarrow> Inl (Mark_no_row ''QueryMarkedPersonAndQuestionCount'')
                      | Some p \<Rightarrow> if fault ''QueryMarkedPersonAndQuestionCount''
                                  then Inl (Mark_sql ''QueryMarkedPersonAndQuestionCount'')
                                  else Inr (p, db2))))))"

section \<open>Submitting results\<close>

text \<open>
  \<open>QueryMarkingResults\<close> for an exam session or one submission of a practice, as \<open>submitResult\<close>
  asks for it: the marks of the teacher who submits. \<open>kinds\<close> are the types of the questions by
  id, as far as a question is not deleted; \<open>latest\<close> is the join with the latest submission of a
  practice. The marks come in the order of the table; the order of the query counts only where
  one question of a student has several marks.
\<close>

definition QueryMarkingResults ::
    "(string \<Rightarrow> bool) \<Rightarrow> (int \<Rightarrow> string option) \<Rightarrow> (t_mark \<Rightarrow> bool) \<Rightarrow> string list \<Rightarrow> query_cond \<Rightarrow>
      mark_db \<Rightarrow> mark_error + t_mark list" where
  "QueryMarkingResults fault kinds latest types c db =
    (let asked = (if 0 < qc_session c
           then (\<lambda>m. rm_session m = Some (qc_session c) \<and>
                  (0 < qc_examinee c \<longrightarrow> rm_examinee m = Some (qc_examinee c)) \<and>
                  (0 < qc_question c \<longrightarrow> rm_question m = Some (qc_question c)))
           else (\<lambda>m. rm_practice m = Some (qc_practice c) \<and>
                  (if 0 < qc_submission c then rm_submission m = Some (qc_submission c) else latest m)));
         typed = (\<lambda>m. case rm_question m of None \<Rightarrow> False
                      | Some q \<Rightarrow> (case kinds q of None \<Rightarrow> False | Some k \<Rightarrow> k \<in> set types))
     in if types = [] then Inl Types_missing
        else if fault ''QueryMarkingResults'' then Inl (Mark_sql ''QueryMarkingResults'')
        else Inr (filter (\<lambda>m. typed m \<and> asked m \<and> (0 < qc_teacher c \<longrightarrow> rm_teacher m = Some (qc_teacher c)))
               (md_marks db)))"

definition submitResult ::
    "(string \<Rightarrow> bool) \<Rightarrow> int \<Rightarrow> ((int \<times> int) list \<Rightarrow> (int \<times> int) list) \<Rightarrow> (int \<Rightarrow> string option) \<Rightarrow>
      (t_mark \<Rightarrow> bool) \<Rightarrow> query_cond \<Rightarrow> mark_db \<Rightarrow> (mark_error + unit) \<times> mark_db" where
  "submitResult fault now ord kinds latest c db =
    (case validateExamSessionOrPractice c of
       Inl e \<Rightarrow> (Inl e, db)
     | Inr _ \<Rightarrow>
         if fault ''begin'' then (Inl (Mark_sql ''begin''), db)
         else mark_tx fault db
           (and_then (QueryMarkingResults fault kinds latest all_subjective c db) (\<lambda>results.
            and_then (UpdateStudentAnswerScore fault now ord results c db) (\<lambda>db1.
            and_then (updateToSubmissionStatus fault now c db1) (\<lambda>db2. Inr ((), db2))))))"

section \<open>Who marks what\<close>

text \<open>
  \<open>HandleMarkerInfo\<close> works in the transaction of its caller: status 00 inserts the rows of a
  configuration, 02 deletes configurations.
\<close>

definition group_cond :: "int \<Rightarrow> marker_req \<Rightarrow> query_cond" where
  "group_cond teacherID r = \<lparr>qc_teacher = teacherID, qc_session = hr_session r, qc_examinee = 0, qc_practice = 0,
     qc_submission = 0, qc_wrong = 0, qc_question = 0\<rparr>"

definition HandleMarkerInfo ::
    "(string \<Rightarrow> bool) \<Rightarrow> (string \<Rightarrow> bool) \<Rightarrow> (nat \<Rightarrow> nat) \<Rightarrow> int \<Rightarrow> int \<Rightarrow> marker_req \<Rightarrow> mark_db \<Rightarrow>
      mark_error + mark_db" where
  "HandleMarkerInfo parses fault rnd now teacherID r db =
    (if teacherID \<le> 0 then Inl Teacher_invalid
     else if hr_status r = ''00''
     then if hr_session r \<le> 0 \<and> hr_practice r \<le> 0 then Inl Session_or_practice_missing
          else and_then (marker_rows rnd now teacherID r
                 (QuerySubjectiveQuestions fault db cached_types (group_cond teacherID r) no_cfg)) (\<lambda>infos.
               if infos = [] then Inl No_marker_rows
               else if fault ''InsertMarkInfo'' then Inl (Mark_sql ''InsertMarkInfo'')
               else Inr (db\<lparr>md_infos := md_infos db @ infos\<rparr>))
     else if hr_status r = ''02''
     then if hr_practices r \<noteq> []
          then UpdateMarkerInfoStatus parses fault now teacherID (hr_practices r) ''02'' ''04'' db
          else if hr_sessions r = [] then Inl Ids_invalid
          else UpdateMarkerInfoStatus parses fault now teacherID (hr_sessions r) ''00'' ''04'' db
     else Inl (Request_status_invalid (hr_status r)))"

end
