(* ===== verification/Mark_Props.thy ===== *)
theory Mark_Props
  imports Marking Exam_Lifecycle
begin

text \<open>
  What marking promises: how work is shared out, what is written as a score and when a session
  counts as marked; and where the code falls short of it.
\<close>

section \<open>Scores\<close>

lemma put_scores_fault:
  "fault ''UpdateStudentAnswerScore'' \<Longrightarrow> ks \<noteq> [] \<Longrightarrow>
    for_each (put_score fault now c marks) ks answers = Inl (Mark_sql ''UpdateStudentAnswerScore'')"
  by (cases ks) (simp_all add: put_score_def)

lemma is_answer_score [simp]: "is_answer c k (score_answer now c' x a) = is_answer c k a"
  by (simp add: is_answer_def score_answer_def)

lemma is_answer_unique: "is_answer c k a \<Longrightarrow> is_answer c k' a \<Longrightarrow> k = k'"
  by (cases k; cases k') (auto simp: is_answer_def)

lemma count_is_answer [simp]:
  "sql_count (is_answer c k) (sql_update p (score_answer now c' x) t) = sql_count (is_answer c k) t"
  by (induction t) (simp_all add: sql_count_def sql_simps)

text \<open>All keys done: each answer of one of them has the score of its own key.\<close>

definition scored :: "int \<Rightarrow> query_cond \<Rightarrow> t_mark list \<Rightarrow> (int \<times> int) set \<Rightarrow> student_answer \<Rightarrow> student_answer" where
  "scored now c marks K a =
    (if \<exists>k \<in> K. is_answer c k a
     then score_answer now c (final_score (scores_of c marks (THE k. is_answer c k a))) a else a)"

lemma scored_none [simp]: "scored now c marks {} = (\<lambda>a. a)"
  by (simp add: fun_eq_iff scored_def)

lemma the_key: "is_answer c k a \<Longrightarrow> (THE k. is_answer c k a) = k"
  by (rule the_equality) (auto dest: is_answer_unique)

lemma scored_insert:
  assumes "k \<notin> K"
  shows "scored now c marks K (if is_answer c k a then score_answer now c (final_score (scores_of c marks k)) a else a)
    = scored now c marks (insert k K) a"
proof (cases "is_answer c k a")
  case True
  then have "\<not> is_answer c k' a" if "k' \<in> K" for k' using assms that is_answer_unique by metis
  with True show ?thesis by (auto simp: scored_def the_key)
next
  case False
  then show ?thesis by (auto simp: scored_def)
qed

lemma put_scores:
  assumes "\<not> fault ''UpdateStudentAnswerScore''" and "distinct ks"
  shows "for_each (put_score fault now c marks) ks answers =
    (if \<exists>k \<in> set ks. sql_count (is_answer c k) answers = 0 then Inl (Mark_no_row ''UpdateStudentAnswerScore'')
     else Inr (map (scored now c marks (set ks)) answers))"
  using assms(2)
proof (induction ks arbitrary: answers)
  case Nil
  then show ?case by simp
next
  case (Cons k ks)
  let ?u = "sql_update (is_answer c k) (score_answer now c (final_score (scores_of c marks k))) answers"
  have m: "map (scored now c marks (set ks)) ?u = map (scored now c marks (set (k # ks))) answers"
    using Cons.prems by (simp add: sql_update_def scored_insert)
  show ?case
  proof (cases "sql_count (is_answer c k) answers = 0")
    case True
    then show ?thesis using assms(1) by (simp add: put_score_def)
  next
    case False
    then have "for_each (put_score fault now c marks) (k # ks) answers = for_each (put_score fault now c marks) ks ?u"
      using assms(1) by (auto simp: put_score_def)
    also have "\<dots> = (if \<exists>k' \<in> set ks. sql_count (is_answer c k') answers = 0
        then Inl (Mark_no_row ''UpdateStudentAnswerScore'')
        else Inr (map (scored now c marks (set (k # ks))) answers))"
      using Cons.IH [of ?u] Cons.prems m by simp
    finally show ?thesis using False by simp
  qed
qed

definition valid_order :: "((int \<times> int) list \<Rightarrow> (int \<times> int) list) \<Rightarrow> bool" where
  "valid_order ord \<longleftrightarrow> (\<forall>ks. mset (ord ks) = mset ks)"

lemma valid_orderD:
  assumes "valid_order ord"
  shows "set (ord ks) = set ks" and "distinct (ord ks) \<longleftrightarrow> distinct ks" and "ord ks = [] \<longleftrightarrow> ks = []"
  using assms unfolding valid_order_def
  by (metis set_mset_mset, metis mset_eq_imp_distinct_iff, metis mset_zero_iff)


lemma update_scores_eq:
  assumes "valid_order ord"
  shows "UpdateStudentAnswerScore fault now ord marks c db =
    (if marks = [] then Inl No_results
     else if \<exists>m \<in> set marks. mark_student c m \<le> 0 then Inl (no_student c)
     else if fault ''UpdateStudentAnswerScore'' then Inl (Mark_sql ''UpdateStudentAnswerScore'')
     else if \<exists>m \<in> set marks. \<forall>a \<in> set (ad_answers (md_answer db)). \<not> is_answer c (mark_key c m) a
     then Inl (Mark_no_row ''UpdateStudentAnswerScore'')
     else Inr (db\<lparr>md_answer := (md_answer db)\<lparr>ad_answers := map (\<lambda>a.
         if \<exists>m \<in> set marks. is_answer c (mark_key c m) a
         then score_answer now c (final_score (scores_of c marks (THE k. is_answer c k a))) a else a)
       (ad_answers (md_answer db))\<rparr>\<rparr>))"
proof (cases "fault ''UpdateStudentAnswerScore''")
  case True
  with valid_orderD(3) [OF assms, of "remdups (map (mark_key c) marks)"] show ?thesis
    by (auto simp: UpdateStudentAnswerScore_def put_scores_fault list_ex_iff)
next
  case False
  with valid_orderD(1,2) [OF assms, of "remdups (map (mark_key c) marks)"] show ?thesis
    by (auto simp: UpdateStudentAnswerScore_def put_scores list_ex_iff scored_def)
qed

text \<open>
  (C12) The scores that are written: in whatever order Go runs through its maps, the update of
  the scores fails if there is no mark, a mark has no student, the database refuses the
  statement, or a mark is for an answer that does not exist; otherwise exactly the answers
  with marks change, each gets the score of its own marks, and the rest of the database stays.
  The score of up to a million marks whose absolute values add up to at most a million is the
  floating-point number of a value with one decimal, and that value is their exact mean rounded:
  it is not farther from the mean than 1/20, up to a hundred-millionth.
\<close>

theorem scores_written:
  assumes "valid_order ord"
  shows "UpdateStudentAnswerScore fault now ord marks c db =
    (if marks = [] then Inl No_results
     else if \<exists>m \<in> set marks. mark_student c m \<le> 0 then Inl (no_student c)
     else if fault ''UpdateStudentAnswerScore'' then Inl (Mark_sql ''UpdateStudentAnswerScore'')
     else if \<exists>m \<in> set marks. \<forall>a \<in> set (ad_answers (md_answer db)). \<not> is_answer c (mark_key c m) a
     then Inl (Mark_no_row ''UpdateStudentAnswerScore'')
     else Inr (db\<lparr>md_answer := (md_answer db)\<lparr>ad_answers := map (\<lambda>a.
         if \<exists>m \<in> set marks. is_answer c (mark_key c m) a
         then score_answer now c (final_score (scores_of c marks (THE k. is_answer c k a))) a else a)
       (ad_answers (md_answer db))\<rparr>\<rparr>)) \<and>
    (\<forall>m \<in> set marks. let xs = scores_of c marks (mark_key c m) in
       sum_list (map abs xs) \<le> 10 ^ 6 \<and> length xs \<le> 10 ^ 6 \<longrightarrow>
       (\<exists>n. final_score xs = f64_round (of_int n / 10) \<and>
          \<bar>of_int n / 10 - sum_list xs / of_nat (length xs)\<bar> \<le> 1 / 20 + 1 / 10 ^ 8))"
proof
  show "\<forall>m \<in> set marks. let xs = scores_of c marks (mark_key c m) in
       sum_list (map abs xs) \<le> 10 ^ 6 \<and> length xs \<le> 10 ^ 6 \<longrightarrow>
       (\<exists>n. final_score xs = f64_round (of_int n / 10) \<and>
          \<bar>of_int n / 10 - sum_list xs / of_nat (length xs)\<bar> \<le> 1 / 20 + 1 / 10 ^ 8)"
  proof
    fix m assume "m \<in> set marks"
    then have "scores_of c marks (mark_key c m) \<noteq> []" using mem_mark_keys by blast
    from final_score_mean [OF this]
    show "let xs = scores_of c marks (mark_key c m) in
       sum_list (map abs xs) \<le> 10 ^ 6 \<and> length xs \<le> 10 ^ 6 \<longrightarrow>
       (\<exists>n. final_score xs = f64_round (of_int n / 10) \<and>
          \<bar>of_int n / 10 - sum_list xs / of_nat (length xs)\<bar> \<le> 1 / 20 + 1 / 10 ^ 8)"
      by (simp add: Let_def)
  qed
qed (rule update_scores_eq [OF assms])

section \<open>A small database\<close>

lemma final_score_int: "0 \<le> m \<Longrightarrow> m < 2 ^ 39 \<Longrightarrow> final_score [of_int m] = of_int m"
  using final_score_half [of "2 * m"] by simp

lemma final_score_0 [simp]: "final_score [0] = 0"
  using final_score_half [of 0] by simp

lemma final_score_3_4: "final_score [3, 4] = 7 / 2"
proof -
  have r: "f64_round 3 = 3" "f64_round 7 = 7" "f64_round (7 / 2) = 7 / 2" "f64_round 35 = 35"
    using f64_small_multiple [of 3 6] f64_small_multiple [of 7 14] f64_small_multiple [of "7 / 2" 7]
      f64_small_multiple [of 35 70] by simp_all
  have "math_round 35 = 35" using math_round_of_int [of 35] by simp
  then show ?thesis
    by (simp add: final_score_def f64_sum_def f64_add_def f64_div_def f64_mul_def r)
qed

definition mk_answer :: "int \<Rightarrow> int \<Rightarrow> student_answer" where
  "mk_answer examinee question =
    \<lparr>an_type = ''00'', an_examinee_id = Some examinee, an_practice_id = None, an_question_id = question,
     an_answer = ''x'', an_creator = 21, an_create_time = 1500, an_updated_by = None,
     an_update_time = None, an_status = ''02'', an_score = None\<rparr>"

definition mk_mark :: "int \<Rightarrow> int \<Rightarrow> int \<Rightarrow> rat \<Rightarrow> t_mark" where
  "mk_mark teacher examinee question x =
    \<lparr>rm_teacher = Some teacher, rm_examinee = Some examinee, rm_question = Some question,
     rm_session = Some 7, rm_practice = None, rm_submission = None, rm_details = No_bytes,
     rm_status = Some ''00'', rm_score = Some x, rm_creator = Some teacher, rm_create_time = Some 1,
     rm_updated_by = None, rm_update_time = None\<rparr>"

definition demo_sitting :: "string \<Rightarrow> exam_session" where
  "demo_sitting st = (an_session None)\<lparr>es_status := st\<rparr>"

definition mk_db :: "string \<Rightarrow> student_answer list \<Rightarrow> t_mark list \<Rightarrow> question_row list \<Rightarrow> mark_db" where
  "mk_db st answers marks questions =
    \<lparr>md_answer = an_db\<lparr>ad_exam := (ad_exam an_db)\<lparr>exam_sessions := [demo_sitting st]\<rparr>, ad_answers := answers\<rparr>,
     md_marks = marks, md_infos = [], md_practice_mode = (\<lambda>_. None), md_questions = questions\<rparr>"

definition mk_cond :: "int \<Rightarrow> int \<Rightarrow> query_cond" where
  "mk_cond teacher examinee =
    \<lparr>qc_teacher = teacher, qc_session = 7, qc_examinee = examinee, qc_practice = 0, qc_submission = 0,
     qc_wrong = 0, qc_question = 0\<rparr>"

lemmas mk_defs = mk_answer_def mk_mark_def demo_sitting_def mk_db_def mk_cond_def

theorem scores_written_witness:
  "map_sum id (\<lambda>d. map an_score (ad_answers (md_answer d)))
     (UpdateStudentAnswerScore (\<lambda>_. False) 5 rev [mk_mark 1 11 5 3, mk_mark 2 11 5 4] (mk_cond 1 0)
       (mk_db ''08'' [mk_answer 11 5, mk_answer 12 5] [] [])) = Inr [Some (7 / 2), None]"
proof -
  have v: "valid_order rev" by (simp add: valid_order_def)
  have k: "(THE k. is_answer (mk_cond 1 0) k (mk_answer 11 5)) = (11, 5)"
    by (rule the_key) (simp add: is_answer_def mk_defs)
  have sc: "scores_of (mk_cond 1 0) [mk_mark 1 11 5 3, mk_mark 2 11 5 4] (11, 5) = [3, 4]"
    by (simp add: scores_of_def mark_key_def mark_student_def mk_defs Float64_def)
  have m: "mark_key (mk_cond 1 0) (mk_mark t 11 5 x) = (11, 5)" "mark_student (mk_cond 1 0) (mk_mark t 11 5 x) = 11" for t x
    by (simp_all add: mark_key_def mark_student_def mk_defs)
  have a: "is_answer (mk_cond 1 0) (11, 5) (mk_answer 11 5)" "\<not> is_answer (mk_cond 1 0) (11, 5) (mk_answer 12 5)"
    "ad_answers (md_answer (mk_db st as ms qs)) = as" "an_score (mk_answer 12 5) = None" for st as ms qs
    by (simp_all add: is_answer_def mk_defs)
  show ?thesis
    unfolding conjunct1 [OF scores_written [OF v]] by (simp add: a k m sc final_score_3_4 score_answer_def)
qed


section \<open>Sharing the work\<close>

lemma handle_insert:
  assumes "HandleMarkerInfo parses fault rnd now t r db = Inr db'" and "hr_status r = ''00''"
  obtains infos where "marker_rows rnd now t r
      (QuerySubjectiveQuestions fault db cached_types (group_cond t r) no_cfg) = Inr infos"
    and "infos \<noteq> []" and "db' = db\<lparr>md_infos := md_infos db @ infos\<rparr>"
  using assms by (auto simp: HandleMarkerInfo_def and_then_Inr_iff split: if_splits)

text \<open>
  (C13) Work is shared out fairly: when a configuration is stored, in the mode that shares the
  examinees each marker gets one row, together they have every examinee of the request exactly
  as often as it names it, and no marker has over one examinee more than another; in the mode
  that shares the question groups each marker gets one row and together they have every
  subjective question of the session once for each time the query finds it.
\<close>

theorem work_is_shared_out:
  assumes "HandleMarkerInfo parses fault rnd now t r db = Inr db'"
    and "hr_status r = ''00''" and "hr_mode r \<in> {''04'', ''06''}"
  shows "\<exists>infos. md_infos db' = md_infos db @ infos \<and> map mi_teacher infos = hr_markers r \<and>
    (hr_mode r = ''04'' \<longrightarrow>
       mset (concat (map (\<lambda>i. the (mi_examinees i)) infos)) = mset (hr_examinees r) \<and>
       (\<forall>i \<in> set infos. \<forall>j \<in> set infos.
          length (the (mi_examinees i)) \<le> length (the (mi_examinees j)) + 1)) \<and>
    (hr_mode r = ''06'' \<longrightarrow>
       (\<exists>sets. QuerySubjectiveQuestions fault db cached_types (group_cond t r) no_cfg = Inr sets \<and>
          mset (concat (map (\<lambda>i. the (mi_questions i)) infos)) = mset (set_question_ids sets)))"
proof -
  from assms(1,2) obtain infos where rows: "marker_rows rnd now t r
      (QuerySubjectiveQuestions fault db cached_types (group_cond t r) no_cfg) = Inr infos"
    and ne: "infos \<noteq> []" and db': "db' = db\<lparr>md_infos := md_infos db @ infos\<rparr>"
    by (rule handle_insert)
  consider "hr_mode r = ''04''" | "hr_mode r = ''06''" using assms(3) by blast
  then show ?thesis
  proof cases
    case 1
    with marker_rows_examinees [OF rows 1 ne] show ?thesis
      by (intro exI [of _ infos]) (auto simp: db' fair_split_def)
  next
    case 2
    with rows obtain sets where q: "QuerySubjectiveQuestions fault db cached_types (group_cond t r) no_cfg = Inr sets"
      by (auto simp: marker_rows_def Let_def and_then_Inr_iff)
    with marker_rows_groups [OF _ 2, of rnd now t sets infos] rows 2 show ?thesis
      by (intro exI [of _ infos]) (auto simp: db')
  qed
qed

definition mk_request :: marker_req where
  "mk_request = \<lparr>hr_markers = [1, 2], hr_examinees = [11, 12, 13], hr_mode = ''04'', hr_session = 7,
     hr_practice = 0, hr_status = ''00'', hr_sessions = [], hr_practices = []\<rparr>"

theorem work_is_shared_out_witness:
  "\<exists>db' infos. HandleMarkerInfo (\<lambda>_. True) (\<lambda>_. False) (\<lambda>_. 5) 9 3 mk_request (mk_db ''02'' [] [] []) = Inr db' \<and>
    md_infos db' = infos \<and> map mi_teacher infos = [1, 2] \<and>
    mset (concat (map (\<lambda>i. the (mi_examinees i)) infos)) = {#11, 12, 13#}"
proof -
  let ?db = "mk_db ''02'' [] [] []"
  have "\<exists>parts. randomSplit (\<lambda>_. 5) [11, 12, 13 :: int] 2 = Inr parts \<and> length parts = 2"
    by (simp add: randomSplit_def Let_def)
  then obtain db' where run: "HandleMarkerInfo (\<lambda>_. True) (\<lambda>_. False) (\<lambda>_. 5) 9 3 mk_request ?db = Inr db'"
    by (auto simp: HandleMarkerInfo_def mk_request_def marker_rows_def)
  have "md_infos ?db = []" by (simp add: mk_defs)
  with work_is_shared_out [OF run] run show ?thesis by (auto simp: mk_request_def)
qed

text \<open>
  Configurations are never deleted: the condition of the statement is put behind \<open>WHERE\<close>
  with an \<open>AND\<close> in front, which SQL's grammar does not allow, so every request to delete one
  fails.
\<close>

lemma marker_config_never_deleted:
  assumes "\<forall>s. \<not> parses (''UPDATE t_mark_info SET status = $2, updated_by = $3, update_time = $4 WHERE  AND '' @ s)"
    and "hr_status r = ''02''"
  shows "\<exists>e. HandleMarkerInfo parses fault rnd now t r db = Inl e"
proof -
  have "\<exists>e. UpdateMarkerInfoStatus parses fault now t ids mode ''04'' db = Inl e" for ids mode
  proof (cases "info_clause mode")
    case (Inr clause)
    have "update_info_text (joinWhereClause [clause]) =
        ''UPDATE t_mark_info SET status = $2, updated_by = $3, update_time = $4 WHERE  AND '' @ (clause @ '' RETURNING id'')"
      by (simp add: update_info_text_def joinWhereClause_def)
    then have "\<not> parses (update_info_text (joinWhereClause [clause]))" using assms(1) by metis
    with Inr show ?thesis by (simp add: UpdateMarkerInfoStatus_def)
  qed (simp add: UpdateMarkerInfoStatus_def)
  with assms(2) show ?thesis by (simp add: HandleMarkerInfo_def)
qed

lemma marker_config_never_deleted_witness:
  "\<exists>e. HandleMarkerInfo (\<lambda>s. \<not> HasPrefix s
       ''UPDATE t_mark_info SET status = $2, updated_by = $3, update_time = $4 WHERE  AND '') (\<lambda>_. False)
     (\<lambda>_. 0) 9 3 (mk_request\<lparr>hr_status := ''02'', hr_sessions := [7]\<rparr>) (mk_db ''02'' [] [] []) = Inl e"
  by (rule marker_config_never_deleted) (simp_all add: HasPrefix_def mk_request_def)

section \<open>When a session counts as marked\<close>

text \<open>The status of a session, set by \<open>UpdateExamSessionOrPracticeSubmissionStatus\<close>.\<close>

definition with_session_status :: "int \<Rightarrow> string \<Rightarrow> int \<Rightarrow> mark_db \<Rightarrow> mark_db" where
  "with_session_status i st now db =
     db\<lparr>md_answer := (md_answer db)\<lparr>ad_exam := (ad_exam (md_answer db))\<lparr>exam_sessions :=
       sql_update (\<lambda>s. es_id s = i) (\<lambda>s. s\<lparr>es_status := st, es_update_time := Some now\<rparr>)
         (exam_sessions (ad_exam (md_answer db)))\<rparr>\<rparr>\<rparr>"

lemma with_session_status_simps [simp]:
  "exam_sessions (ad_exam (md_answer (with_session_status i st now db))) =
     sql_update (\<lambda>s. es_id s = i) (\<lambda>s. s\<lparr>es_status := st, es_update_time := Some now\<rparr>)
       (exam_sessions (ad_exam (md_answer db)))"
  "examinees (ad_exam (md_answer (with_session_status i st now db))) = examinees (ad_exam (md_answer db))"
  "ad_answers (md_answer (with_session_status i st now db)) = ad_answers (md_answer db)"
  "md_marks (with_session_status i st now db) = md_marks db"
  "md_questions (with_session_status i st now db) = md_questions db"
  by (simp_all add: with_session_status_def)

lemma session_status_set:
  assumes "UpdateExamSessionOrPracticeSubmissionStatus fault now c st db = Inr db'"
    and "qc_wrong c \<le> 0" and "0 < qc_session c"
  shows "db' = with_session_status (qc_session c) st now db"
  using assms
  by (auto simp: UpdateExamSessionOrPracticeSubmissionStatus_def with_session_status_def Let_def split: if_splits)

lemma unmarked_0:
  assumes "unmarked_count db i = Some 0" and "e \<in> set (examinees (ad_exam (md_answer db)))"
    and "ex_session_id e = i" and "ex_status e = ''10''"
    and "a \<in> set (ad_answers (md_answer db))" and "an_examinee_id a = Some (ex_id e)"
  shows "an_score a \<noteq> None"
  using assms by (auto simp: unmarked_count_def Let_def filter_empty_conv list_ex_iff split: if_splits)

text \<open>
  (C14) The check marks a session only when it is time: if a round of the check changes the
  database at all, the session was being marked, somebody has handed in, every answer of
  everybody who has handed in has a score, and the one change is that the session is marked.
\<close>

theorem marked_only_when_scored:
  assumes "checkStatus fault now i t w = (b, w')" and "mw_db w' \<noteq> mw_db w"
  shows "(\<exists>s. session_by_id (ad_exam (md_answer (mw_db w))) i = Some s \<and> es_status s = ''08'') \<and>
    (\<exists>e \<in> set (examinees (ad_exam (md_answer (mw_db w)))). ex_session_id e = i \<and> ex_status e = ''10'') \<and>
    (\<forall>e \<in> set (examinees (ad_exam (md_answer (mw_db w)))). ex_session_id e = i \<and> ex_status e = ''10'' \<longrightarrow>
       (\<forall>a \<in> set (ad_answers (md_answer (mw_db w))). an_examinee_id a = Some (ex_id e) \<longrightarrow> an_score a \<noteq> None)) \<and>
    exam_sessions (ad_exam (md_answer (mw_db w'))) = sql_update (\<lambda>s. es_id s = i)
      (\<lambda>s. s\<lparr>es_status := ''10'', es_update_time := Some now\<rparr>) (exam_sessions (ad_exam (md_answer (mw_db w)))) \<and>
    ad_answers (md_answer (mw_db w')) = ad_answers (md_answer (mw_db w))"
proof -
  let ?db = "mw_db w"
  from assms have st: "QueryExamSessionStatus fault ?db i = Inr ''08''" and n: "unmarked_count ?db i = Some 0"
    and up: "UpdateExamSessionOrPracticeSubmissionStatus fault now
      \<lparr>qc_teacher = t, qc_session = i, qc_examinee = 0, qc_practice = 0, qc_submission = 0, qc_wrong = 0,
       qc_question = 0\<rparr> ExamSessionStatusSubmitted ?db = Inr (mw_db w')"
    by (auto simp: checkStatus_def split: sum.splits if_splits option.splits)
  from st have s: "\<exists>s. session_by_id (ad_exam (md_answer ?db)) i = Some s \<and> es_status s = ''08''"
    by (auto simp: QueryExamSessionStatus_def split: if_splits option.splits)
  from n have e: "\<exists>e \<in> set (examinees (ad_exam (md_answer ?db))). ex_session_id e = i \<and> ex_status e = ''10''"
    by (auto simp: unmarked_count_def Let_def filter_empty_conv split: if_splits)
  from up have i: "0 < i"
    by (auto simp: UpdateExamSessionOrPracticeSubmissionStatus_def Let_def split: if_splits)
  have "mw_db w' = with_session_status i ''10'' now ?db"
    using session_status_set [OF up] i by (simp add: ExamSessionStatusSubmitted_def)
  with s e unmarked_0 [OF n] show ?thesis by auto
qed


definition mk_world :: "mark_db \<Rightarrow> (string \<Rightarrow> question_set list option) \<Rightarrow> mark_world" where
  "mk_world db cache = \<lparr>mw_db = db, mw_cache = cache, mw_tasks = [], mw_checking = {7}, mw_checks = []\<rparr>"

definition handed_in_db :: "string \<Rightarrow> rat option \<Rightarrow> mark_db" where
  "handed_in_db st x = (let db = mk_db st [(mk_answer 11 5)\<lparr>an_score := x\<rparr>] [] [] in
     db\<lparr>md_answer := (md_answer db)\<lparr>ad_exam := (ad_exam (md_answer db))\<lparr>examinees :=
       [(an_examinee 11 21 (Some 1200))\<lparr>ex_status := ''10''\<rparr>]\<rparr>\<rparr>\<rparr>)"

lemmas handed_in_defs = handed_in_db_def mk_world_def mk_defs an_defs

theorem marked_only_when_scored_witness:
  "es_status (hd (exam_sessions (ad_exam (md_answer (mw_db (snd
     (checkStatus (\<lambda>_. False) 9 7 3 (mk_world (handed_in_db ''08'' (Some 2)) Map.empty)))))))) = ''10''"
proof -
  let ?w = "mk_world (handed_in_db ''08'' (Some 2)) Map.empty"
  obtain b w' where run: "checkStatus (\<lambda>_. False) 9 7 3 ?w = (b, w')" by (metis surj_pair)
  have "b \<and> mw_db w' \<noteq> mw_db ?w"
    using run by (auto simp: checkStatus_def QueryExamSessionStatus_def session_by_id_def sql_first_def
        unmarked_count_def UpdateExamSessionOrPracticeSubmissionStatus_def sql_count_def sql_update_def
        ExamSessionStatusSubmitted_def handed_in_defs)
  with marked_only_when_scored [OF run] run show ?thesis
    by (simp add: handed_in_defs sql_update_def)
qed


section \<open>Objective questions\<close>

lemma objective_marks_map:
  "objective_marks now c vs = Inr ms \<Longrightarrow>
    \<exists>f. ms = map (\<lambda>v. objective_mark now c v (f v)) vs \<and> (\<forall>v \<in> set vs. objective_points v = Inr (f v))"
proof (induction vs arbitrary: ms)
  case (Cons v vs)
  then obtain x ms' where x: "objective_points v = Inr x" and ms': "objective_marks now c vs = Inr ms'"
    and ms: "ms = objective_mark now c v x # ms'"
    by (auto simp: and_then_Inr_iff)
  from Cons.IH [OF ms'] obtain f where f: "ms' = map (\<lambda>v. objective_mark now c v (f v)) vs"
    and p: "\<forall>v \<in> set vs. objective_points v = Inr (f v)" by blast
  show ?case
    by (rule exI [of _ "\<lambda>u. projr (objective_points u)"])
      (use x ms f p in \<open>auto intro!: map_cong\<close>)
qed simp

definition row_key :: "query_cond \<Rightarrow> answer_view \<Rightarrow> int \<times> int" where
  "row_key c v = (if 0 < qc_session c then Int64 (vw_examinee v) else Int64 (vw_submission v), Int64 (vw_question v))"

lemma mark_key_objective [simp]: "mark_key c (objective_mark now c' v x) = row_key c v"
  by (simp add: mark_key_def mark_student_def row_key_def objective_mark_def)

lemma rm_score_objective [simp]: "rm_score (objective_mark now c v x) = Some x"
  by (simp add: objective_mark_def)

lemma scores_of_objective:
  assumes "distinct (map (row_key c) vs)" and "v \<in> set vs"
  shows "scores_of c (map (\<lambda>v. objective_mark now c v (f v)) vs) (row_key c v) = [f v]"
  using assms
proof (induction vs)
  case (Cons u us)
  show ?case
  proof (cases "u = v")
    case True
    have "filter (\<lambda>w. row_key c w = row_key c v) us = []"
      using Cons.prems True by (auto simp: filter_empty_conv image_iff)
    then show ?thesis using True by (simp add: scores_of_def Float64_def filter_map comp_def)
  next
    case False
    with Cons.prems have "v \<in> set us" and "row_key c u \<noteq> row_key c v" by auto
    with Cons show ?thesis by (simp add: scores_of_def)
  qed
qed simp

text \<open>A right answer: as many of each choice as the standard answer has, in any order.\<close>

definition answered_right :: "answer_view \<Rightarrow> bool" where
  "answered_right v \<longleftrightarrow>
     (case (unmarshal dec_student_answer (vw_answer v), unmarshal dec_strings (vw_actual v)) of
        (Some given, Some standard) \<Rightarrow> mset given = mset standard | _ \<Rightarrow> False)"

lemma objective_points_right:
  assumes "objective_points v = Inr x"
  shows "x = (if answered_right v then Float64 (vw_score v) else 0)"
proof -
  have "unmarshal dec_student_answer No_bytes = None" by (simp add: unmarshal_def)
  with assms show ?thesis
    by (auto simp: objective_points_def answered_right_def compareSlices_count split: option.splits if_splits)
qed

lemma submission_status_answers:
  "updateToSubmissionStatus fault now c db = Inr db' \<Longrightarrow> ad_answers (md_answer db') = ad_answers (md_answer db)"
  by (auto simp: updateToSubmissionStatus_def UpdateExamSessionOrPracticeSubmissionStatus_def Let_def split: if_splits)

lemma objective_done:
  assumes "markObjectiveQuestionAnswers fault now ord V c cache db = (Inr db', cache')"
    and "QueryStudentAnswers fault (V db) ''00'' c no_cfg = Inr rows" and "rows \<noteq> []"
  obtains ms db1 where "objective_marks now c rows = Inr ms"
    and "UpdateStudentAnswerScore fault now ord ms c db = Inr db1"
    and "ad_answers (md_answer db') = ad_answers (md_answer db1)"
  using assms submission_status_answers
  by (cases rows) (fastforce simp: markObjectiveQuestionAnswers_def and_then_Inr_iff
      split: sum.splits prod.splits if_splits)+

text \<open>
  (C16) Objective questions get all or nothing: when the automatic marking has run over answers
  that are each to another question or of another student, the answer to a question worth whole or
  half points has the question's full points if it
  names the choices of the standard answer, each as often, in any order, and none otherwise, an
  empty answer included.
\<close>

theorem objective_all_or_nothing:
  assumes "valid_order ord" and "markObjectiveQuestionAnswers fault now ord V c cache db = (Inr db', cache')"
    and "QueryStudentAnswers fault (V db) ''00'' c no_cfg = Inr rows" and "distinct (map (row_key c) rows)"
    and "v \<in> set rows" and "vw_score v = Some (of_int m / 2)" and "0 \<le> m" and "m < 2 ^ 40"
    and "a \<in> set (ad_answers (md_answer db'))" and "is_answer c (row_key c v) a"
  shows "an_score a = Some (if answered_right v then of_int m / 2 else 0)"
proof -
  from assms(5) have "rows \<noteq> []" by auto
  with assms(2,3) obtain ms db1 where ms: "objective_marks now c rows = Inr ms"
    and up: "UpdateStudentAnswerScore fault now ord ms c db = Inr db1"
    and db': "ad_answers (md_answer db') = ad_answers (md_answer db1)"
    by (rule objective_done)
  from objective_marks_map [OF ms] obtain f where f: "ms = map (\<lambda>v. objective_mark now c v (f v)) rows"
    and p: "\<forall>v \<in> set rows. objective_points v = Inr (f v)" by blast
  from up have "ad_answers (md_answer db1) = map (scored now c ms (mark_key c ` set ms)) (ad_answers (md_answer db))"
    unfolding update_scores_eq [OF assms(1)] by (auto simp: scored_def split: if_splits)
  with assms(9) db' obtain b where b: "a = scored now c ms (mark_key c ` set ms) b" by auto
  from assms(10) have kb: "is_answer c (row_key c v) b" by (auto simp: b scored_def split: if_splits)
  have "row_key c v \<in> mark_key c ` set ms" using assms(5) by (force simp: f)
  with kb have "an_score a = Some (final_score (scores_of c ms (row_key c v)))"
    by (auto simp: b scored_def the_key score_answer_def)
  moreover have "scores_of c ms (row_key c v) = [f v]" unfolding f by (rule scores_of_objective [OF assms(4,5)])
  moreover have "f v = (if answered_right v then of_int m / 2 else 0)"
    using objective_points_right p assms(5,6) by (fastforce simp: Float64_def)
  ultimately show ?thesis using final_score_half [OF assms(7,8)] by simp
qed


definition mk_row :: "string list \<Rightarrow> answer_view" where
  "mk_row given = \<lparr>vw_session = Some 7, vw_practice = None, vw_question = Some 5, vw_order = Some 1,
     vw_type = Some ''02'', vw_score = Some 2, vw_answer = Parsed (JObj [(''answer'', JArr (map JStr given))]),
     vw_answer_score = None, vw_actual = Parsed (JArr [JStr ''A'', JStr ''C'']),
     vw_examinee = Some 11, vw_submission = None\<rparr>"

lemma fold_key_answer [simp]: "fold_key ''answer'' = ''answer''" by code_simp

lemma mk_row_right: "answered_right (mk_row given) \<longleftrightarrow> mset given = {#''A'', ''C''#}"
  using dec_strings_JStr [of "[''A'', ''C'']"]
  by (simp add: answered_right_def mk_row_def dec_student_answer_def)

lemma mk_row_points: "objective_points (mk_row given) = Inr (if mset given = {#''A'', ''C''#} then 2 else 0)"
  using dec_strings_JStr [of "[''A'', ''C'']"]
  by (simp add: objective_points_def mk_row_def dec_student_answer_def compareSlices_count Float64_def)

lemma mk_rows:
  "QueryStudentAnswers (\<lambda>_. False) [mk_row given] ''00'' (mk_cond 0 11) no_cfg = Inr [mk_row given]"
  by (simp add: QueryStudentAnswers_def mk_row_def mk_cond_def allowed_questions_def no_cfg_def
      order_nulls_last_def among_def)

lemma mk_update:
  "UpdateStudentAnswerScore (\<lambda>_. False) 5 id [objective_mark 5 (mk_cond 0 11) (mk_row given) x] (mk_cond 0 11)
     (mk_db st [mk_answer 11 5] ms qs) =
   Inr ((mk_db st [mk_answer 11 5] ms qs)\<lparr>md_answer := (md_answer (mk_db st [mk_answer 11 5] ms qs))\<lparr>ad_answers :=
     [score_answer 5 (mk_cond 0 11) (final_score [x]) (mk_answer 11 5)]\<rparr>\<rparr>)"
  by (simp add: UpdateStudentAnswerScore_def mark_student_def put_score_def is_answer_def mark_key_def scores_of_def
      objective_mark_def Float64_def mk_row_def mk_defs sql_update_def sql_count_def)

definition no_questions :: "string \<Rightarrow> question_set list option" where "no_questions k = Some []"

lemma mk_objective:
  assumes "mset given = {#''A'', ''C''#}"
  shows "\<exists>db'. markObjectiveQuestionAnswers (\<lambda>_. False) 5 id (\<lambda>_. [mk_row given]) (mk_cond 0 11) no_questions
      (mk_db st [mk_answer 11 5] [] []) = (Inr db', no_questions) \<and>
    ad_answers (md_answer db') = [score_answer 5 (mk_cond 0 11) 2 (mk_answer 11 5)] \<and>
    exam_sessions (ad_exam (md_answer db')) = [(demo_sitting st)\<lparr>es_status := ''10'', es_update_time := Some 5\<rparr>]"
proof -
  have "final_score [2] = 2" using final_score_int [of 2] by simp
  then show ?thesis
    by (simp add: markObjectiveQuestionAnswers_def mk_rows mk_row_points assms mk_update
        getSubjectQuestionsFromRedis_def no_questions_def updateToSubmissionStatus_def)
      (simp add: UpdateExamSessionOrPracticeSubmissionStatus_def ExamSessionStatusSubmitted_def sql_count_def
        sql_update_def mk_db_def mk_cond_def demo_sitting_def an_session_def)
qed

theorem objective_all_or_nothing_witness:
  "\<exists>db'. markObjectiveQuestionAnswers (\<lambda>_. False) 5 id (\<lambda>_. [mk_row [''C'', ''A'']]) (mk_cond 0 11) no_questions
      (mk_db ''04'' [mk_answer 11 5] [] []) = (Inr db', no_questions) \<and>
    (\<forall>a. a \<in> set (ad_answers (md_answer db')) \<longrightarrow> an_score a = Some 2)"
proof -
  let ?v = "mk_row [''C'', ''A'']" and ?c = "mk_cond 0 11"
  from mk_objective [of "[''C'', ''A'']" "''04''"] obtain db' where
    run: "markObjectiveQuestionAnswers (\<lambda>_. False) 5 id (\<lambda>_. [?v]) ?c no_questions
      (mk_db ''04'' [mk_answer 11 5] [] []) = (Inr db', no_questions)"
    and as: "ad_answers (md_answer db') = [score_answer 5 ?c 2 (mk_answer 11 5)]"
    by (auto simp: add_mset_commute)
  have v: "valid_order id" by (simp add: valid_order_def)
  have a: "is_answer ?c (row_key ?c ?v) (score_answer 5 ?c 2 (mk_answer 11 5))"
    by (simp add: row_key_def is_answer_def score_answer_def mk_row_def mk_defs)
  have "an_score (score_answer 5 ?c 2 (mk_answer 11 5)) = Some (if answered_right ?v then of_int 4 / 2 else 0)"
    by (rule objective_all_or_nothing [OF v run mk_rows]) (use a as in \<open>auto simp: mk_row_def\<close>)
  then show ?thesis using run as by (auto simp: mk_row_right add_mset_commute)
qed


section \<open>The limits of a teacher's marks\<close>






lemma mark_tx_Inr: "mark_tx fault db r = (Inr x, db') \<longleftrightarrow> r = Inr (x, db') \<and> \<not> fault ''commit''"
  by (auto simp: mark_tx_def split: sum.splits prod.splits)




definition jnum :: "rat \<Rightarrow> json" where "jnum x = JNum (Decimal_literal x)"

definition part :: "int \<Rightarrow> rat \<Rightarrow> json" where
  "part i x = JObj [(''index'', JNum (Integer_literal i)), (''score'', jnum x)]"

definition mk_question :: question_row where
  "mk_question = \<lparr>qr_group = 1, qr_id = Some 5, qr_score = Some 5, qr_type = ''08'',
     qr_answers = Parsed (JArr [part 1 3, part 2 2]), qr_session = Some 7, qr_practice = None\<rparr>"

definition given_parts :: "given_score list" where
  "given_parts = [\<lparr>gv_index = 1, gv_score = 3\<rparr>, \<lparr>gv_index = 2, gv_score = 2\<rparr>]"

lemma f64_demo [simp]: "f64_round 2 = 2" "f64_round 3 = 3" "f64_round 6 = 6" "f64_round (5 / 2) = 5 / 2"
  "f64_round (9 / 2) = 9 / 2"
  using f64_small_multiple [of 2 4] f64_small_multiple [of 3 6] f64_small_multiple [of 6 12]
    f64_small_multiple [of "5 / 2" 5] f64_small_multiple [of "9 / 2" 9] by simp_all

lemma hundred_less: "(100 :: rat) < pow2 1024"
  using small_float [of 99] less_trans [of 100 "pow2 7" "pow2 1024"] by (simp add: pow2_def)

lemma dec_parts [simp]:
  "dec_given (JArr [part 1 3, part 2 2]) = Some given_parts"
  "\<exists>as. dec_answer_ptrs (JArr [part 1 3, part 2 2]) = Some as"
  "dec_details (JArr [part 2 2, part 1 (5 / 2)]) =
     Some [\<lparr>dt_analyze = [], dt_index = 2, dt_score = 2\<rparr>, \<lparr>dt_analyze = [], dt_index = 1, dt_score = 5 / 2\<rparr>]"
  "dec_details (JArr [part 1 3, part 1 3]) =
     Some [\<lparr>dt_analyze = [], dt_index = 1, dt_score = 3\<rparr>, \<lparr>dt_analyze = [], dt_index = 1, dt_score = 3\<rparr>]"
  using hundred_less
  by (simp_all add: dec_given_def dec_answer_ptrs_def dec_details_def part_def jnum_def given_field_def
      detail_field_def answer_field_def given_parts_def min_int64_def max_int64_def)

definition mk_scored :: "raw_json \<Rightarrow> t_mark" where
  "mk_scored raw = (mk_mark 3 11 5 0)\<lparr>rm_details := raw\<rparr>"

lemma mk_save:
  assumes "unmarshal dec_details raw = Some ds" and "check_details 2 (given_map given_parts) ds 0 = Inr x"
  shows "\<exists>db' t. saveMarkingResults (\<lambda>_. False) 9 (\<lambda>_. Some (1, 1)) (Some 3) (Some (mk_scored raw))
      (mk_db ''08'' [] [] [mk_question]) = (Inr (1, 1), db') \<and>
    md_marks db' = [t] \<and> rm_score t = Some x"
proof -
  let ?db = "mk_db ''08'' [] [] [mk_question]" and ?m = "(mk_scored raw)\<lparr>rm_creator := Some 3, rm_teacher := Some 3\<rparr>"
  have db: "md_questions ?db = [mk_question]" "md_marks ?db = []"
    "session_by_id (ad_exam (md_answer ?db)) 7 = Some (demo_sitting ''08'')"
    by (simp_all add: mk_db_def session_by_id_def sql_first_def demo_sitting_def an_session_def)
  have m: "rm_session ?m = Some 7" "rm_question ?m = Some 5" "rm_examinee ?m = Some 11" "rm_practice ?m = None"
    "rm_details ?m = raw"
    by (simp_all add: mk_scored_def mk_mark_def)
  have m': "rm_session (mk_scored raw) = Some 7" "rm_question (mk_scored raw) = Some 5"
    "rm_practice (mk_scored raw) = None" by (simp_all add: mk_scored_def mk_mark_def)
  have qs: "QuerySubjectiveQuestions (\<lambda>_. False) ?db all_subjective (question_cond 5) no_cfg =
      Inr [\<lparr>qs_group = 1, qs_score = f64_add 0 5, qs_questions = [mk_question\<lparr>qr_session := None\<rparr>]\<rparr>]"
    by (simp add: QuerySubjectiveQuestions_def all_subjective_def question_cond_def db)
      (simp add: mk_question_def sort_key_def insort_key_def Float64_def)
  have tot: "marking_total [\<lparr>qs_group = 1, qs_score = f64_add 0 5, qs_questions = [mk_question\<lparr>qr_session := None\<rparr>]\<rparr>] ?m
      = Inr x"
    using assms by (simp add: marking_total_def m mk_question_def) (simp add: given_parts_def m)
  show ?thesis
    by (simp add: saveMarkingResults_def Let_def mark_cond_def m' validateExamSessionOrPractice_def
        validateMarkingResult_def m begin_marking_def QueryExamSessionStatus_def db demo_sitting_def
        checkAndSaveMarkingResult_def qs tot UpsertMarkingResults_def upsert_mark_def mark_tx_def)
qed



text \<open>A number twice: both parts count, and five points become six.\<close>

lemma repeated_index_exceeds:
  "\<exists>db' t. saveMarkingResults (\<lambda>_. False) 9 (\<lambda>_. Some (1, 1)) (Some 3)
      (Some (mk_scored (Parsed (JArr [part 1 3, part 1 3])))) (mk_db ''08'' [] [] [mk_question]) =
      (Inr (1, 1), db') \<and> md_marks db' = [t] \<and> rm_score t = Some 6 \<and> sum_list (map gv_score given_parts) = 5"
proof -
  have "check_details 2 (given_map given_parts) [\<lparr>dt_analyze = [], dt_index = 1, dt_score = 3\<rparr>,
      \<lparr>dt_analyze = [], dt_index = 1, dt_score = 3\<rparr>] 0 = Inr 6"
    by (simp add: given_map_def given_parts_def f64_add_def)
  from mk_save [OF _ this, of "Parsed (JArr [part 1 3, part 1 3])"] show ?thesis
    by (auto simp: given_parts_def)
qed

section \<open>Submitting the results of an exam\<close>

text \<open>
  Other markers do not count: what a submission does to the answers and to the statuses
  depends only on the marks of the teacher who submits; without a mark of that teacher it fails.
\<close>

lemma others_marks_ignored:
  assumes "0 < qc_teacher c"
  shows "fst (submitResult fault now ord kinds latest c db) = fst (submitResult fault now ord kinds latest c
      (db\<lparr>md_marks := filter (\<lambda>m. rm_teacher m = Some (qc_teacher c)) (md_marks db)\<rparr>)) \<and>
    md_answer (snd (submitResult fault now ord kinds latest c db)) = md_answer (snd (submitResult fault now ord kinds
      latest c (db\<lparr>md_marks := filter (\<lambda>m. rm_teacher m = Some (qc_teacher c)) (md_marks db)\<rparr>))) \<and>
    ((\<forall>m \<in> set (md_marks db). rm_teacher m \<noteq> Some (qc_teacher c)) \<longrightarrow>
       (\<exists>e. fst (submitResult fault now ord kinds latest c db) = Inl e))"
proof -
  let ?db = "db\<lparr>md_marks := filter (\<lambda>m. rm_teacher m = Some (qc_teacher c)) (md_marks db)\<rparr>"
  have q: "QueryMarkingResults fault kinds latest all_subjective c ?db =
      QueryMarkingResults fault kinds latest all_subjective c db"
    using assms by (auto simp: QueryMarkingResults_def Let_def conj_commute conj_left_commute intro!: filter_cong)
  have u: "map_sum id md_answer (UpdateStudentAnswerScore fault now ord ms c ?db) =
      map_sum id md_answer (UpdateStudentAnswerScore fault now ord ms c db)" for ms
    by (simp add: UpdateStudentAnswerScore_def and_then_def split: sum.splits)
  have s: "md_answer d = md_answer d' \<Longrightarrow> map_sum id md_answer (updateToSubmissionStatus fault now c d) =
      map_sum id md_answer (updateToSubmissionStatus fault now c d')" for d d'
    by (simp add: updateToSubmissionStatus_def UpdateExamSessionOrPracticeSubmissionStatus_def Let_def)
  have none: "ms = []" if "QueryMarkingResults fault kinds latest all_subjective c db = Inr ms"
    and "\<forall>m \<in> set (md_marks db). rm_teacher m \<noteq> Some (qc_teacher c)" for ms
    using that assms by (auto simp: QueryMarkingResults_def Let_def filter_empty_conv split: if_splits)
  show ?thesis
  proof (cases "QueryMarkingResults fault kinds latest all_subjective c db")
    case (Inl e)
    then show ?thesis by (auto simp: submitResult_def q mark_tx_def split: sum.splits)
  next
    case (Inr ms)
    note ms = this
    show ?thesis
    proof (cases "UpdateStudentAnswerScore fault now ord ms c db")
      case (Inl e)
      with u [of ms] have "UpdateStudentAnswerScore fault now ord ms c ?db = Inl e"
        by (cases "UpdateStudentAnswerScore fault now ord ms c ?db") simp_all
      with Inl ms show ?thesis by (auto simp: submitResult_def q mark_tx_def split: sum.splits)
    next
      case (Inr d)
      with u [of ms] obtain d' where d': "UpdateStudentAnswerScore fault now ord ms c ?db = Inr d'"
        and same: "md_answer d = md_answer d'"
        by (cases "UpdateStudentAnswerScore fault now ord ms c ?db") simp_all
      have "ms \<noteq> []" using Inr by (auto simp: UpdateStudentAnswerScore_def)
      with none [OF ms] Inr d' ms s [OF same] show ?thesis
        by (cases "updateToSubmissionStatus fault now c d"; cases "updateToSubmissionStatus fault now c d'")
          (auto simp: submitResult_def q mark_tx_def split: sum.splits)
    qed
  qed
qed


lemma others_marks_ignored_witness:
  "\<exists>e. fst (submitResult (\<lambda>_. False) 5 rev (\<lambda>_. Some ''08'') (\<lambda>_. True) (mk_cond 3 0)
     (mk_db ''08'' [mk_answer 11 5] [mk_mark 1 11 5 3] [])) = Inl e"
proof -
  have "\<forall>t \<in> set (md_marks (mk_db ''08'' [mk_answer 11 5] [mk_mark 1 11 5 3] [])).
      rm_teacher t \<noteq> Some (qc_teacher (mk_cond 3 0))"
    by (simp add: mk_defs)
  moreover have "0 < qc_teacher (mk_cond 3 0)" by (simp add: mk_cond_def)
  ultimately show ?thesis using others_marks_ignored by blast
qed

section \<open>The status after automatic marking\<close>

lemma update_scores_exam:
  "UpdateStudentAnswerScore fault now ord ms c db = Inr db' \<Longrightarrow>
    ad_exam (md_answer db') = ad_exam (md_answer db) \<and> md_questions db' = md_questions db"
  by (auto simp: UpdateStudentAnswerScore_def and_then_Inr_iff split: if_splits)

text \<open>No subjective question of the session, as the cache or else the database says.\<close>

definition no_subjective :: "mark_db \<Rightarrow> (string \<Rightarrow> question_set list option) \<Rightarrow> query_cond \<Rightarrow> bool" where
  "no_subjective db cache c \<longleftrightarrow>
     (case cache (question_key c) of
        Some qs \<Rightarrow> qs = []
      | None \<Rightarrow> \<forall>q \<in> set (md_questions db). qr_session q = Some (qc_session c) \<longrightarrow> qr_type q \<notin> set cached_types)"

lemma no_subjective_query:
  assumes "no_subjective db cache c" and "qc_question c \<le> 0" and "0 < qc_session c"
    and "getSubjectQuestionsFromRedis fault db c cache = (Inr qs, cache')"
  shows "qs = []"
proof (cases "cache (question_key c)")
  case None
  with assms(4) have q: "QuerySubjectiveQuestions fault db cached_types c no_cfg = Inr qs"
    by (auto simp: getSubjectQuestionsFromRedis_def Let_def split: if_splits sum.splits)
  from None assms(1) have none: "filter (\<lambda>q. qr_type q \<in> set cached_types \<and> qr_session q = Some (qc_session c))
      (md_questions db) = []"
    by (auto simp: no_subjective_def filter_empty_conv)
  have "cached_types \<noteq> []" by (simp add: cached_types_def)
  then show ?thesis using q assms(2,3) none
    by (auto simp: QuerySubjectiveQuestions_def allowed_questions_def no_cfg_def among_def Let_def split: if_splits)
qed (use assms in \<open>auto simp: no_subjective_def getSubjectQuestionsFromRedis_def Let_def split: if_splits\<close>)

lemma objective_marks_session:
  assumes "markObjectiveQuestionAnswers fault now ord V c cache db = (Inr db', cache')"
    and "QueryStudentAnswers fault (V db) ''00'' c no_cfg = Inr rows" and "rows \<noteq> []"
    and "no_subjective db cache c" and "qc_question c \<le> 0" and "0 < qc_session c" and "qc_wrong c \<le> 0"
  shows "exam_sessions (ad_exam (md_answer db')) = sql_update (\<lambda>s. es_id s = qc_session c)
      (\<lambda>s. s\<lparr>es_status := ''10'', es_update_time := Some now\<rparr>) (exam_sessions (ad_exam (md_answer db))) \<and>
    examinees (ad_exam (md_answer db')) = examinees (ad_exam (md_answer db))"
proof -
  from assms(1-3) obtain ms db1 qs where up: "UpdateStudentAnswerScore fault now ord ms c db = Inr db1"
    and qs: "getSubjectQuestionsFromRedis fault db1 c cache = (Inr qs, cache')"
    and fin: "Inr db' = (if qs \<noteq> [] then Inr db1 else updateToSubmissionStatus fault now c db1)"
    by (cases rows) (fastforce simp: markObjectiveQuestionAnswers_def and_then_Inr_iff
      split: sum.splits prod.splits)+
  note same = update_scores_exam [OF up]
  have "no_subjective db1 cache c" using assms(4) same by (simp add: no_subjective_def split: option.splits)
  from no_subjective_query [OF this assms(5,6) qs] fin
  have "updateToSubmissionStatus fault now c db1 = Inr db'" by simp
  then have "UpdateExamSessionOrPracticeSubmissionStatus fault now c ''10'' db1 = Inr db'"
    using assms(6) by (simp add: updateToSubmissionStatus_def ExamSessionStatusSubmitted_def)
  from session_status_set [OF this assms(7,6)] same show ?thesis by simp
qed

lemma AutoMark_ok:
  assumes "AutoMark fault now ord V c w = (Inr (), w')"
  obtains cache' where "markObjectiveQuestionAnswers fault now ord V c (mw_cache w) (mw_db w) = (Inr (mw_db w'), cache')"
proof -
  from assms obtain db1 cache1 where "markObjectiveQuestionAnswers fault now ord V c (mw_cache w) (mw_db w) = (Inr db1, cache1)"
    and "mw_db w' = db1"
    by (auto simp: AutoMark_def mark_tx_Inr split: sum.splits if_splits prod.splits)
  then show thesis using that by blast
qed

text \<open>
  (C17) The first hand-in closes the marking: in an exam without subjective questions the
  automatic marking that follows one student's hand-in sets the whole session to marked, while
  the rows of all examinees stay as they are, open ones included; no timer event moves the
  session from there.
\<close>

theorem first_hand_in_marks_session:
  assumes "Submit submit_fault now m domains user (Decoded u) (md_answer db) = (Inr (), A, Some r)"
    and "su_type u = ExamType"
    and "AutoMark fault now' ord V (request_cond r) (w\<lparr>mw_db := db\<lparr>md_answer := A\<rparr>\<rparr>) = (Inr (), w')"
    and "QueryStudentAnswers fault (V (db\<lparr>md_answer := A\<rparr>)) ''00'' (request_cond r) no_cfg = Inr rows"
    and "rows \<noteq> []" and "no_subjective db (mw_cache w) (request_cond r)"
    and "i < length (exam_sessions (ad_exam A))" and "es_id (exam_sessions (ad_exam A) ! i) = su_session u"
    and "life_step\<^sup>*\<^sup>* (ad_exam (md_answer (mw_db w'))) E"
  shows "es_status (exam_sessions E ! i) = ''10'' \<and>
    examinees (ad_exam (md_answer (mw_db w'))) = examinees (ad_exam A)"
proof -
  from assms(1,2) obtain d where "submit_exam submit_fault now (u\<lparr>su_student := Int64 user\<rparr>) (md_answer db) = Inr (d, r)"
    by (auto simp: Submit_ok_iff submit_body_def)
  then have r: "mk_session r = su_session u" "0 < su_session u" "mk_wrong_submission r = 0"
    by (auto simp: submit_exam_def Let_def and_then_Inr_iff split: if_splits)
  then have c: "qc_session (request_cond r) = su_session u" "qc_question (request_cond r) \<le> 0"
    "qc_wrong (request_cond r) \<le> 0"
    by (simp_all add: request_cond_def)
  from assms(3) obtain cache' where obj: "markObjectiveQuestionAnswers fault now' ord V (request_cond r) (mw_cache w)
      (db\<lparr>md_answer := A\<rparr>) = (Inr (mw_db w'), cache')"
    by (rule AutoMark_ok) simp
  have ns: "no_subjective (db\<lparr>md_answer := A\<rparr>) (mw_cache w) (request_cond r)"
    using assms(6) by (simp add: no_subjective_def split: option.splits)
  have marked: "exam_sessions (ad_exam (md_answer (mw_db w'))) = sql_update (\<lambda>s. es_id s = su_session u)
      (\<lambda>s. s\<lparr>es_status := ''10'', es_update_time := Some now'\<rparr>) (exam_sessions (ad_exam A)) \<and>
    examinees (ad_exam (md_answer (mw_db w'))) = examinees (ad_exam A)"
    using objective_marks_session [OF obj assms(4,5) ns] c r(2) by simp
  then have st: "es_status (exam_sessions (ad_exam (md_answer (mw_db w'))) ! i) = ''10''"
    and len: "i < length (exam_sessions (ad_exam (md_answer (mw_db w'))))"
    using assms(7,8) by (simp_all add: nth_sql_update)
  have "es_status (exam_sessions E ! i) = es_status (exam_sessions (ad_exam (md_answer (mw_db w'))) ! i)"
    by (rule session_table.run_final [OF assms(9) len]) (simp add: st session_edge_def)
  with st marked show ?thesis by simp
qed


lemma demo_auto:
  assumes "a \<in> set (ad_answers (md_answer d))" and "is_answer (mk_cond 0 11) (11, 5) a"
    and "s \<in> set (exam_sessions (ad_exam (md_answer d)))" and "es_id s = 7" and "md_infos d = []"
  shows "\<exists>w'. AutoMark (\<lambda>_. False) 5 id (\<lambda>_. [mk_row given]) (mk_cond 0 11) (mk_world d no_questions) = (Inr (), w')"
proof -
  let ?c = "mk_cond 0 11"
  obtain x where x: "objective_points (mk_row given) = Inr x" by (simp add: mk_row_points)
  have key: "mark_key ?c (objective_mark 5 ?c (mk_row given) x) = (11, 5)"
    by (simp add: row_key_def mk_row_def mk_cond_def)
  have "mark_student ?c (objective_mark 5 ?c (mk_row given) x) = 11" using key by (simp add: mark_key_def)
  moreover have "sql_count (is_answer ?c (11, 5)) (ad_answers (md_answer d)) \<noteq> 0" using assms(1,2) by auto
  ultimately obtain d1 where up: "UpdateStudentAnswerScore (\<lambda>_. False) 5 id [objective_mark 5 ?c (mk_row given) x] ?c d = Inr d1"
    using key by (simp add: UpdateStudentAnswerScore_def put_score_def)
  have cs: "qc_session ?c = 7" "qc_wrong ?c = 0" "qc_practice ?c = 0" by (simp_all add: mk_cond_def)
  have "\<not> (\<forall>s \<in> set (exam_sessions (ad_exam (md_answer d1))). es_id s \<noteq> 7)"
    using update_scores_exam [OF up] assms(3,4) by auto
  then obtain d2 where "updateToSubmissionStatus (\<lambda>_. False) 5 ?c d1 = Inr d2"
    by (simp add: updateToSubmissionStatus_def UpdateExamSessionOrPracticeSubmissionStatus_def Let_def cs
        ExamSessionStatusSubmitted_def)
  then have obj: "markObjectiveQuestionAnswers (\<lambda>_. False) 5 id (\<lambda>_. [mk_row given]) ?c no_questions d = (Inr d2, no_questions)"
    by (simp add: markObjectiveQuestionAnswers_def mk_rows x up getSubjectQuestionsFromRedis_def no_questions_def)
  have "subjective_task (\<lambda>_. False) (\<lambda>_. [mk_row given]) ?c d d2 no_questions = (Inr [], no_questions)"
    by (simp add: subjective_task_def QueryMarkerInfo_def cs assms(5) Let_def)
  with obj show ?thesis
    by (simp add: AutoMark_def validateExamSessionOrPractice_def cs mk_world_def mark_tx_def)
qed

theorem first_hand_in_marks_session_witness:
  "\<exists>A r w'. Submit (\<lambda>_. False) 800000 ''POST'' [2008] (Some 21) (Decoded (an_submit 11)) an_db = (Inr (), A, Some r) \<and>
    AutoMark (\<lambda>_. False) 5 id (\<lambda>_. [mk_row [''B'']]) (request_cond r)
      (mk_world ((mk_db ''04'' [] [] [])\<lparr>md_answer := A\<rparr>) no_questions) = (Inr (), w') \<and>
    es_status (exam_sessions (ad_exam (md_answer (mw_db w'))) ! 0) = ''10'' \<and>
    ex_status (examinees (ad_exam (md_answer (mw_db w'))) ! 1) = ''00''"
proof -
  let ?db = "(mk_db ''04'' [] [] [])\<lparr>md_answer := an_db\<rparr>"
  from an_submit_exam [of 11] obtain A r
    where sub: "submit_exam (\<lambda>_. False) 800000 ((an_submit 11)\<lparr>su_student := 21\<rparr>) an_db = Inr (A, r)" by auto
  then have r: "request_cond r = mk_cond 0 11"
    by (auto simp: submit_exam_def Let_def and_then_Inr_iff request_cond_def mk_cond_def an_submit_def split: if_splits)
  have chk: "checkExamCondition (\<lambda>_. False) 800000 (ad_exam an_db) 7 21 SUBMIT = Inr 0"
    by (simp add: checkExamCondition_def an_info an_check)
  from sub chk have A: "exam_sessions (ad_exam A) = [an_session None]"
    "\<exists>a \<in> set (ad_answers A). is_answer (mk_cond 0 11) (11, 5) a"
    "ex_status (examinees (ad_exam A) ! 1) = ''00''"
    by (auto simp: submit_exam_def Let_def and_then_Inr_iff setAnswerCanNotUpdate_def ExamSubmitted_def an_defs
        sql_update_def is_answer_def mk_cond_def hand_in_def split: if_splits)
  have "ToLower ''POST'' = ''post''" by code_simp
  with sub have run: "Submit (\<lambda>_. False) 800000 ''POST'' [2008] (Some 21) (Decoded (an_submit 11))
      (md_answer ?db) = (Inr (), A, Some r)"
    unfolding Submit_ok_iff by (simp add: submit_body_def StudentDomainId_def ExamType_def an_submit_def)
  from A(2) obtain a where "a \<in> set (ad_answers (md_answer (?db\<lparr>md_answer := A\<rparr>)))"
    and "is_answer (mk_cond 0 11) (11, 5) a" by auto
  then obtain w' where auto: "AutoMark (\<lambda>_. False) 5 id (\<lambda>_. [mk_row [''B'']]) (request_cond r)
      ((mk_world ?db no_questions)\<lparr>mw_db := ?db\<lparr>md_answer := A\<rparr>\<rparr>) = (Inr (), w')"
    using demo_auto [of a "?db\<lparr>md_answer := A\<rparr>" "an_session None" "[''B'']"] A(1) r
    by (auto simp: mk_world_def an_session_def mk_db_def)
  have "es_status (exam_sessions (ad_exam (md_answer (mw_db w'))) ! 0) = ''10'' \<and>
      examinees (ad_exam (md_answer (mw_db w'))) = examinees (ad_exam A)"
    by (rule first_hand_in_marks_session [OF run _ auto _ _ _ _ _ rtranclp.rtrancl_refl,
          where rows = "[mk_row [''B'']]"])
      (simp_all add: r mk_rows A an_submit_def an_session_def ExamType_def no_subjective_def mk_world_def no_questions_def)
  with run auto A(3) show ?thesis by (auto simp: mk_world_def mk_db_def)
qed

end
