(* ===== verification/Paper_Rules.thy ===== *)
theory Paper_Rules
  imports Question_Validation Go_Random
begin

text \<open>
  What \<open>serve/examPaper\<close> does to one question: \<open>shuffleOptionsAndMapAnswers\<close> of \<open>utils.go\<close>, which
  mixes the options of a choice question and carries its standard answers over, and the answers
  of a written question as \<open>GenerateExamPaper\<close> stores them.
\<close>

datatype paper_error =
    Id_invalid int
  | Paper_sql string
  | Paper_no_row
  | Paper_json string
  | No_groups
  | Order_missing
  | Group_lost int
  | Sub_scores_differ nat nat
  | Sheet_request_invalid
  | Sheet_empty
  | Question_lost int
  | Delete_ids_invalid "int list"
  | Delete_nothing

section \<open>Options\<close>

definition enc_option :: "QuestionOption \<Rightarrow> json" where
  "enc_option r = JObj [(''label'', JStr (qo_label r)), (''value'', JStr (qo_value r))]"

text \<open>\<open>json.Marshal\<close> of the options: the slice is nil exactly if it came from \<open>null\<close>.\<close>

definition enc_options :: "raw_json \<Rightarrow> QuestionOption list \<Rightarrow> raw_json" where
  "enc_options source opts =
    (if source = Parsed JNull then Parsed JNull else Parsed (JArr (map enc_option opts)))"

text \<open>\<open>labelToValue\<close>: a later option overwrites an earlier one with its label; a missing key reads as empty.\<close>

definition label_value :: "QuestionOption list \<Rightarrow> string \<Rightarrow> string" where
  "label_value opts = foldl (\<lambda>m r. m(qo_label r := qo_value r)) (\<lambda>_. []) opts"

fun map_answers :: "(string \<Rightarrow> string) \<Rightarrow> QuestionOption list \<Rightarrow> string list \<Rightarrow> string list" where
  "map_answers value opts [] = []"
| "map_answers value opts (a # as) =
    (case find (\<lambda>r. qo_value r = value a) opts of
       None \<Rightarrow> map_answers value opts as
     | Some r \<Rightarrow> qo_label r # map_answers value opts as)"

definition shuffle_values :: "(nat \<Rightarrow> nat) \<Rightarrow> QuestionOption list \<Rightarrow> QuestionOption list" where
  "shuffle_values rnd opts =
    map2 (\<lambda>r v. r\<lparr>qo_value := v\<rparr>) opts (shuffled rnd (map qo_value opts))"

text \<open>The result is the new answers and the new options.\<close>

definition shuffleOptionsAndMapAnswers ::
    "(nat \<Rightarrow> nat) \<Rightarrow> raw_json \<Rightarrow> raw_json \<Rightarrow> paper_error + raw_json \<times> raw_json" where
  "shuffleOptionsAndMapAnswers rnd Options Answers =
    (case unmarshal dec_options Options of
       None \<Rightarrow> Inl (Paper_json ''options'')
     | Some opts \<Rightarrow>
         let opts' = shuffle_values rnd opts
         in (case unmarshal dec_strings Answers of
               None \<Rightarrow> Inl (Paper_json ''answers'')
             | Some originals \<Rightarrow>
                 Inr (Parsed (JArr (map JStr (map_answers (label_value opts) opts' originals))),
                      enc_options Options opts')))"

lemma dec_enc_option [simp]:
  "dec_struct option_field \<lparr>qo_label = [], qo_value = []\<rparr> (enc_option r) = Some r"
  by (simp add: enc_option_def option_field_def)

lemma dec_all_enc [simp]:
  "(\<And>x. dec (enc x) = Some x) \<Longrightarrow> dec_all dec (map enc xs) = Some xs"
  by (induction xs) simp_all

lemma dec_enc_options:
  assumes "unmarshal dec_options source = Some opts" and "length opts' = length opts"
  shows "unmarshal dec_options (enc_options source opts') = Some opts'"
proof (cases "source = Parsed JNull")
  case True
  with assms have "opts' = []" by (simp add: dec_options_def)
  with True show ?thesis by (simp add: enc_options_def dec_options_def)
next
  case False
  have "dec_all (dec_struct option_field \<lparr>qo_label = [], qo_value = []\<rparr>) (map enc_option opts') = Some opts'"
    by (rule dec_all_enc) (rule dec_enc_option)
  with False show ?thesis by (simp add: enc_options_def dec_options_def)
qed

section \<open>What mixing keeps\<close>

lemma label_value_from:
  "foldl (\<lambda>m r. m(qo_label r := qo_value r)) m opts l =
    (case find (\<lambda>r. qo_label r = l) (rev opts) of None \<Rightarrow> m l | Some r \<Rightarrow> qo_value r)"
  by (induction opts rule: rev_induct) auto

lemma label_value_mem:
  assumes "distinct (map qo_label opts)" and "r \<in> set opts"
  shows "label_value opts (qo_label r) = qo_value r"
proof -
  have "find (\<lambda>q. qo_label q = qo_label r) (rev opts) \<noteq> None"
    using assms(2) by (auto simp: find_None_iff)
  then obtain r' where f: "find (\<lambda>q. qo_label q = qo_label r) (rev opts) = Some r'" by blast
  then have "r' \<in> set opts \<and> qo_label r' = qo_label r"
    using sql_first_Some [of "\<lambda>q. qo_label q = qo_label r" "rev opts" r'] by (simp add: sql_first_def)
  with assms have "r' = r" by (auto simp: distinct_map inj_on_def)
  with f show ?thesis unfolding label_value_def label_value_from by simp
qed

lemma length_shuffle_values [simp]: "length (shuffle_values rnd opts) = length opts"
  by (simp add: shuffle_values_def)

lemma labels_shuffle_values [simp]: "map qo_label (shuffle_values rnd opts) = map qo_label opts"
  unfolding shuffle_values_def by (simp add: list_eq_iff_nth_eq)

lemma values_shuffle_values [simp]:
  "map qo_value (shuffle_values rnd opts) = shuffled rnd (map qo_value opts)"
  unfolding shuffle_values_def by (simp add: list_eq_iff_nth_eq)

lemma find_value:
  assumes "distinct (map qo_value opts)" and "r \<in> set opts"
  shows "find (\<lambda>q. qo_value q = qo_value r) opts = Some r"
  using assms by (induction opts) (auto simp: image_iff)

text \<open>The value that a label of the answers names is the value of the label it is turned into.\<close>

lemma map_answers_value:
  assumes "distinct (map qo_label opts)" and "distinct (map qo_value opts)"
    and "distinct (map qo_label opts')" and "mset (map qo_value opts') = mset (map qo_value opts)"
    and "set as \<subseteq> qo_label ` set opts"
  shows "map (label_value opts') (map_answers (label_value opts) opts' as) = map (label_value opts) as"
  using assms(5)
proof (induction as)
  case (Cons a as)
  then obtain r where r: "r \<in> set opts" "a = qo_label r" by auto
  have d: "distinct (map qo_value opts')" using assms(2,4) by (metis mset_eq_imp_distinct_iff)
  have "qo_value r \<in> qo_value ` set opts'"
    using r(1) assms(4) by (metis image_eqI list.set_map mset_eq_setD)
  then obtain r' where r': "r' \<in> set opts'" "qo_value r' = qo_value r" by auto
  have "label_value opts a = qo_value r'" using label_value_mem [OF assms(1) r(1)] r(2) r'(2) by simp
  with find_value [OF d r'(1)] label_value_mem [OF assms(3) r'(1)] Cons show ?case by simp
qed simp

section \<open>Written answers\<close>

text \<open>\<open>NonSelectQuestionAnswer\<close>: the alternatives are a slice that may be nil.\<close>

record ns_answer =
  ns_index :: int
  ns_answer :: string
  ns_alternative :: "string list option"
  ns_score :: rat
  ns_rule :: string

definition ns_field :: "string \<Rightarrow> json \<Rightarrow> ns_answer \<Rightarrow> ns_answer option" where
  "ns_field k j r =
    (if fold_key k = ''index'' then map_option (\<lambda>i. r\<lparr>ns_index := i\<rparr>) (dec_int (ns_index r) j)
     else if fold_key k = ''answer'' then map_option (\<lambda>s. r\<lparr>ns_answer := s\<rparr>) (dec_string (ns_answer r) j)
     else if fold_key k = ''alternative_answer''
     then (if j = JNull then Some (r\<lparr>ns_alternative := None\<rparr>)
           else map_option (\<lambda>ss. r\<lparr>ns_alternative := Some ss\<rparr>) (dec_strings j))
     else if fold_key k = ''score'' then map_option (\<lambda>x. r\<lparr>ns_score := x\<rparr>) (dec_float (ns_score r) j)
     else if fold_key k = ''grading_rule'' then map_option (\<lambda>s. r\<lparr>ns_rule := s\<rparr>) (dec_string (ns_rule r) j)
     else Some r)"

definition dec_ns_answers :: "json \<Rightarrow> ns_answer list option" where
  "dec_ns_answers = dec_slice (dec_struct ns_field
     \<lparr>ns_index = 0, ns_answer = [], ns_alternative = None, ns_score = 0, ns_rule = []\<rparr>)"

definition enc_ns_answer :: "ns_answer \<Rightarrow> json" where
  "enc_ns_answer r = JObj
     [(''index'', JNum (Integer_literal (ns_index r))), (''answer'', JStr (ns_answer r)),
      (''alternative_answer'', case ns_alternative r of None \<Rightarrow> JNull | Some ss \<Rightarrow> JArr (map JStr ss)),
      (''score'', JNum (Decimal_literal (ns_score r))), (''grading_rule'', JStr (ns_rule r))]"

definition enc_ns_answers :: "raw_json \<Rightarrow> ns_answer list \<Rightarrow> raw_json" where
  "enc_ns_answers source as =
    (if source = Parsed JNull then Parsed JNull else Parsed (JArr (map enc_ns_answer as)))"

text \<open>
  The loops of \<open>GenerateExamPaper\<close> over the answers of a written question: a blank gets the
  points of its place, and then every answer gets those of the question.
\<close>

definition stored_answers ::
    "string \<Rightarrow> rat option \<Rightarrow> rat list \<Rightarrow> raw_json \<Rightarrow> paper_error + raw_json" where
  "stored_answers type score sub_score answers =
    (if type \<in> {''06'', ''08'', ''10'', ''12''}
     then (case unmarshal dec_ns_answers answers of
             None \<Rightarrow> Inl (Paper_json ''answers'')
           | Some as \<Rightarrow>
               and_then
                 (if type = ''06''
                  then if length as \<noteq> length sub_score
                       then Inl (Sub_scores_differ (length as) (length sub_score))
                       else Inr (map2 (\<lambda>a x. a\<lparr>ns_score := x\<rparr>) as sub_score)
                  else Inr as)
                 (\<lambda>as1. Inr (enc_ns_answers answers (map (\<lambda>a. a\<lparr>ns_score := Float64 score\<rparr>) as1))))
     else Inr answers)"

end
