(* ===== verification/Paper_Store.thy ===== *)
theory Paper_Store
  imports Paper_Rules Exam_Answering
begin

text \<open>
  The papers of examinees, \<open>serve/examPaper/dao.go\<close>: a published paper is copied from its
  template (\<open>GenerateExamPaper\<close>), read back through the view \<open>v_exam_paper\<close>, turned into the rows of
  each student's answers (\<open>GenerateAnswerQuestion\<close>) and shown to the student
  (\<open>LoadExamPaperDetailByUserId\<close>). \<open>fault\<close> says which statements the database refuses.
\<close>

section \<open>Templates\<close>

text \<open>
  The row of \<open>v_paper\<close> as it is decoded; \<open>pt_groups\<close> is \<open>None\<close> if its groups do not decode.
\<close>

record template_question =
  tq_id :: int
  tq_type :: string
  tq_content :: null_string
  tq_options :: raw_json
  tq_answers :: raw_json
  tq_score :: "rat option"
  tq_sub_score :: "rat list"
  tq_analysis :: null_string
  tq_title :: null_string
  tq_answer_file :: raw_json
  tq_test_file :: raw_json
  tq_input :: null_string
  tq_output :: null_string
  tq_example :: raw_json
  tq_repo :: raw_json
  tq_order :: null_int
  tq_addi :: raw_json
  tq_files :: raw_json
  tq_answer_num :: nat

record template_group =
  tg_id :: int
  tg_name :: null_string
  tg_order :: null_int
  tg_questions :: "template_question list"

record paper_template =
  pt_name :: null_string
  pt_status :: null_string
  pt_groups :: "template_group list option"

section \<open>Tables\<close>

text \<open>
  \<open>t_exam_paper\<close>, its groups and its questions. A JSON column that is \<open>NULL\<close> holds no bytes.
  Rows get the ids of a sequence and the status \<open>00\<close> of the tables' defaults.
\<close>

record exam_paper =
  xp_id :: int
  xp_session :: null_int
  xp_practice :: null_int
  xp_name :: null_string
  xp_creator :: int
  xp_create_time :: int
  xp_update_time :: int
  xp_status :: string

record exam_group =
  xg_id :: int
  xg_paper :: null_int
  xg_name :: null_string
  xg_order :: null_int
  xg_creator :: int
  xg_create_time :: null_int
  xg_update_time :: null_int
  xg_status :: string

record exam_question =
  xq_id :: int
  xq_score :: "rat option"
  xq_type :: null_string
  xq_content :: null_string
  xq_options :: raw_json
  xq_answers :: raw_json
  xq_analysis :: null_string
  xq_title :: null_string
  xq_answer_file :: raw_json
  xq_test_file :: raw_json
  xq_input :: null_string
  xq_output :: null_string
  xq_example :: raw_json
  xq_repo :: raw_json
  xq_creator :: null_int
  xq_create_time :: null_int
  xq_update_time :: null_int
  xq_addi :: raw_json
  xq_order :: null_int
  xq_group :: null_int
  xq_files :: raw_json
  xq_status :: string

text \<open>The struct \<open>ExamQuestion\<close>: a question with what a student has to do with it.\<close>

record sheet_question = exam_question +
  xs_answer_num :: nat
  xs_answer :: string
  xs_score :: "rat option"

text \<open>A row of \<open>t_student_answers\<close> with the columns a paper fills.\<close>

record sheet_row = student_answer +
  sh_order :: null_int
  sh_group :: null_int
  sh_options :: raw_json
  sh_answers :: raw_json

record paper_db =
  pp_papers :: "exam_paper list"
  pp_groups :: "exam_group list"
  pp_questions :: "exam_question list"
  pp_rows :: "sheet_row list"
  pp_next_paper :: int
  pp_next_group :: int
  pp_next_question :: int

section \<open>Reading a template\<close>

text \<open>A Go map from ids to slices; the loop appends the questions of each group to its entry.\<close>

definition add_entry :: "int \<Rightarrow> 'q list \<Rightarrow> (int \<Rightarrow> 'q list option) \<Rightarrow> int \<Rightarrow> 'q list option" where
  "add_entry i qs m = m(i \<mapsto> (case m i of None \<Rightarrow> [] | Some old \<Rightarrow> old) @ qs)"

definition LoadPaperTemplateById ::
    "(string \<Rightarrow> bool) \<Rightarrow> (int \<Rightarrow> paper_template option) \<Rightarrow> int \<Rightarrow> bool \<Rightarrow>
      paper_error + paper_template \<times> template_group list \<times> (int \<Rightarrow> template_question list option)" where
  "LoadPaperTemplateById fault templates paperId withQuestions =
    (if paperId \<le> 0 then Inl (Id_invalid paperId)
     else if fault ''v_paper'' then Inl (Paper_sql ''v_paper'')
     else (case templates paperId of
             None \<Rightarrow> Inl Paper_no_row
           | Some p \<Rightarrow>
               if pt_status p = None \<or> pt_status p = Some ''02'' then Inl Paper_no_row
               else if \<not> withQuestions then Inr (p, [], Map.empty)
               else (case pt_groups p of
                       None \<Rightarrow> Inl (Paper_json ''groups'')
                     | Some gs \<Rightarrow> Inr (p, gs, fold (\<lambda>g. add_entry (tg_id g)
                           (map (\<lambda>q. q\<lparr>tq_answer_num := length (tq_sub_score q)\<rparr>) (tg_questions g))) gs Map.empty))))"

section \<open>Publishing a paper\<close>

text \<open>\<open>INSERT\<close> of several rows: the new ids are consecutive numbers of the sequence.\<close>

fun new_groups :: "int \<Rightarrow> int \<Rightarrow> int \<Rightarrow> int \<Rightarrow> template_group list \<Rightarrow> exam_group list" where
  "new_groups next paper uid now [] = []"
| "new_groups next paper uid now (g # gs) =
    \<lparr>xg_id = next, xg_paper = Some paper, xg_name = tg_name g, xg_order = tg_order g, xg_creator = uid,
     xg_create_time = Some now, xg_update_time = Some now, xg_status = ''00''\<rparr> #
    new_groups (next + 1) paper uid now gs"

text \<open>\<open>orderToNewIDMap\<close>, read from the rows that \<open>RETURNING\<close> gives; a \<open>NULL\<close> order does not scan.\<close>

fun order_ids :: "exam_group list \<Rightarrow> (int \<Rightarrow> int option) \<Rightarrow> paper_error + (int \<Rightarrow> int option)" where
  "order_ids [] m = Inr m"
| "order_ids (g # gs) m =
    (case xg_order g of None \<Rightarrow> Inl Order_missing | Some o' \<Rightarrow> order_ids gs (m(o' \<mapsto> xg_id g)))"

definition new_question :: "int \<Rightarrow> int \<Rightarrow> int \<Rightarrow> template_question \<Rightarrow> paper_error + exam_question" where
  "new_question uid now gid q =
    and_then (stored_answers (tq_type q) (tq_score q) (tq_sub_score q) (tq_answers q)) (\<lambda>answers.
      Inr \<lparr>xq_id = 0, xq_score = tq_score q, xq_type = Some (tq_type q), xq_content = tq_content q,
        xq_options = tq_options q, xq_answers = answers, xq_analysis = tq_analysis q, xq_title = tq_title q,
        xq_answer_file = tq_answer_file q, xq_test_file = tq_test_file q, xq_input = tq_input q,
        xq_output = tq_output q, xq_example = tq_example q, xq_repo = tq_repo q, xq_creator = Some uid,
        xq_create_time = Some now, xq_update_time = Some now, xq_addi = tq_addi q, xq_order = tq_order q,
        xq_group = Some gid, xq_files = tq_files q, xq_status = ''00''\<rparr>)"

fun each_ok :: "('a \<Rightarrow> 'e + 'b) \<Rightarrow> 'a list \<Rightarrow> 'e + 'b list" where
  "each_ok f [] = Inr []"
| "each_ok f (x # xs) = and_then (f x) (\<lambda>y. and_then (each_ok f xs) (\<lambda>ys. Inr (y # ys)))"

fun new_questions ::
    "int \<Rightarrow> int \<Rightarrow> (int \<Rightarrow> int option) \<Rightarrow> (int \<Rightarrow> template_question list option) \<Rightarrow> template_group list \<Rightarrow>
      paper_error + exam_question list" where
  "new_questions uid now ids pq [] = Inr []"
| "new_questions uid now ids pq (g # gs) =
    (case ids (Int64 (tg_order g)) of
       None \<Rightarrow> Inl (Group_lost (Int64 (tg_order g)))
     | Some gid \<Rightarrow>
         and_then (each_ok (new_question uid now gid)
             (case pq (tg_id g) of None \<Rightarrow> [] | Some qs \<Rightarrow> qs)) (\<lambda>new.
         and_then (new_questions uid now ids pq gs) (\<lambda>rest. Inr (new @ rest))))"

text \<open>The slices of at most \<open>n\<close> elements that a batch loop runs through.\<close>

function batches :: "nat \<Rightarrow> 'a list \<Rightarrow> 'a list list" where
  "batches n xs = (if n = 0 \<or> xs = [] then [] else take n xs # batches n (drop n xs))"
  by pat_completeness auto
termination by (relation "measure (\<lambda>(n, xs). length xs)") auto

declare batches.simps [simp del]

fun number_questions :: "int \<Rightarrow> exam_question list \<Rightarrow> exam_question list" where
  "number_questions next [] = []"
| "number_questions next (q # qs) = q\<lparr>xq_id := next\<rparr> # number_questions (next + 1) qs"

definition insert_questions :: "(string \<Rightarrow> bool) \<Rightarrow> exam_question list \<Rightarrow> paper_db \<Rightarrow> paper_error + paper_db" where
  "insert_questions fault batch db =
    (if fault ''insert_questions'' then Inl (Paper_sql ''insert_questions'')
     else Inr (db\<lparr>pp_questions := pp_questions db @ number_questions (pp_next_question db) batch,
                  pp_next_question := pp_next_question db + int (length batch)\<rparr>))"

text \<open>The transaction is the caller's, so an error leaves nothing behind.\<close>

definition GenerateExamPaper ::
    "(string \<Rightarrow> bool) \<Rightarrow> int \<Rightarrow> (int \<Rightarrow> paper_template option) \<Rightarrow> int \<Rightarrow> int \<Rightarrow> paper_db \<Rightarrow>
      paper_error + int \<times> paper_db" where
  "GenerateExamPaper fault now templates paperId uid db =
    (if paperId \<le> 0 then Inl (Id_invalid paperId)
     else if uid \<le> 0 then Inl (Id_invalid uid)
     else and_then (LoadPaperTemplateById fault templates paperId True) (\<lambda>(p, pg, pq).
       if pg = [] then Inl No_groups
       else if fault ''insert_paper'' then Inl (Paper_sql ''insert_paper'')
       else if fault ''insert_groups'' then Inl (Paper_sql ''insert_groups'')
       else
         let i = pp_next_paper db;
             paper = \<lparr>xp_id = i, xp_session = None, xp_practice = None, xp_name = pt_name p, xp_creator = uid,
                      xp_create_time = now, xp_update_time = now, xp_status = ''00''\<rparr>;
             groups = new_groups (pp_next_group db) i uid now pg;
             db1 = db\<lparr>pp_papers := pp_papers db @ [paper], pp_next_paper := i + 1,
                      pp_groups := pp_groups db @ groups,
                      pp_next_group := pp_next_group db + int (length groups)\<rparr>
         in and_then (order_ids groups Map.empty) (\<lambda>ids.
            and_then (new_questions uid now ids pq pg) (\<lambda>tqs.
            and_then (for_each (insert_questions fault) (batches 1000 tqs) db1) (\<lambda>db2.
              Inr (i, db2))))))"

section \<open>Reading a paper\<close>

text \<open>
  The groups of a paper in \<open>v_exam_paper\<close> with their questions, both in their order. The view
  gives them as JSON, and the decoder fills the fields whose names fit up to case: those of
  several words (\<open>answer_file_path\<close> for the field \<open>AnswerFilePath\<close>) do not, and \<open>files\<close> and \<open>addi\<close>
  are not in the view. A JSON column that is \<open>NULL\<close> arrives as \<open>null\<close>.
\<close>

definition text_or_null :: "raw_json \<Rightarrow> raw_json" where
  "text_or_null r = (if r = No_bytes then Parsed JNull else r)"

definition decoded_question :: "exam_question \<Rightarrow> sheet_question" where
  "decoded_question q =
    \<lparr>xq_id = xq_id q, xq_score = xq_score q, xq_type = xq_type q, xq_content = xq_content q,
     xq_options = text_or_null (xq_options q), xq_answers = text_or_null (xq_answers q),
     xq_analysis = xq_analysis q, xq_title = xq_title q, xq_answer_file = No_bytes, xq_test_file = No_bytes,
     xq_input = xq_input q, xq_output = xq_output q, xq_example = text_or_null (xq_example q),
     xq_repo = text_or_null (xq_repo q), xq_creator = None, xq_create_time = None, xq_update_time = None,
     xq_addi = No_bytes, xq_order = xq_order q, xq_group = None, xq_files = No_bytes, xq_status = xq_status q,
     xs_answer_num = 0, xs_answer = [], xs_score = None\<rparr>"

definition group_questions :: "paper_db \<Rightarrow> int \<Rightarrow> exam_question list" where
  "group_questions db g =
    order_nulls_last xq_order (filter (\<lambda>q. xq_group q = Some g \<and> xq_status q = ''00'') (pp_questions db))"

definition paper_groups :: "paper_db \<Rightarrow> int \<Rightarrow> exam_group list" where
  "paper_groups db p =
    order_nulls_last xg_order (filter (\<lambda>g. xg_paper g = Some p \<and> xg_status g \<noteq> ''02'') (pp_groups db))"

definition decoded_group :: "exam_group \<Rightarrow> exam_group" where
  "decoded_group g = g\<lparr>xg_paper := None, xg_create_time := None, xg_update_time := None\<rparr>"

text \<open>\<open>[]interface{}\<close>: any array.\<close>

definition dec_any_list :: "json \<Rightarrow> json list option" where "dec_any_list = dec_slice Some"

definition answer_count :: "raw_json \<Rightarrow> paper_error + nat" where
  "answer_count r =
    (if r = No_bytes then Inr 0
     else (case unmarshal dec_any_list r of None \<Rightarrow> Inl (Paper_json ''Answers'') | Some as \<Rightarrow> Inr (length as)))"

definition load_question :: "bool \<Rightarrow> bool \<Rightarrow> exam_question \<Rightarrow> paper_error + sheet_question" where
  "load_question withAnswers withAnalysis r =
    (let q = decoded_question r in
     and_then (answer_count (xq_answers q)) (\<lambda>n.
       Inr (q\<lparr>xs_answer_num := n,
              xq_analysis := (if withAnalysis then xq_analysis q else None),
              xq_answers := (if withAnswers then xq_answers q else No_bytes)\<rparr>)))"

type_synonym sheet = "int \<Rightarrow> sheet_question list option"

fun load_groups :: "paper_db \<Rightarrow> bool \<Rightarrow> bool \<Rightarrow> exam_group list \<Rightarrow> sheet \<Rightarrow> paper_error + sheet" where
  "load_groups db withAnswers withAnalysis [] m = Inr m"
| "load_groups db withAnswers withAnalysis (g # gs) m =
    and_then (each_ok (load_question withAnswers withAnalysis) (group_questions db (xg_id g))) (\<lambda>qs.
      load_groups db withAnswers withAnalysis gs (add_entry (xg_id g) qs m))"

definition LoadExamPaperDetailsById ::
    "(string \<Rightarrow> bool) \<Rightarrow> int \<Rightarrow> bool \<Rightarrow> bool \<Rightarrow> bool \<Rightarrow> paper_db \<Rightarrow>
      paper_error + exam_paper \<times> exam_group list \<times> sheet" where
  "LoadExamPaperDetailsById fault examPaperId withQuestions withAnswers withAnalysis db =
    (if examPaperId \<le> 0 then Inl (Id_invalid examPaperId)
     else if fault ''v_exam_paper'' then Inl (Paper_sql ''v_exam_paper'')
     else (case sql_first (\<lambda>p. xp_id p = examPaperId \<and> xp_status p = ''00'') (pp_papers db) of
             None \<Rightarrow> Inl Paper_no_row
           | Some p \<Rightarrow>
               if \<not> withQuestions then Inr (p, [], Map.empty)
               else
                 let gs = paper_groups db examPaperId
                 in if gs = [] then Inl No_groups
                    else and_then (load_groups db withAnswers withAnalysis gs Map.empty) (\<lambda>m.
                      Inr (p, map decoded_group gs, m))))"

end
