(* ===== verification/Paper_Sheets.thy ===== *)
theory Paper_Sheets
  imports Paper_Store
begin

text \<open>
  The rows that a student answers, \<open>serve/examPaper/dao.go\<close>: \<open>GenerateAnswerQuestion\<close> writes one
  for each student and question, mixed as asked for, \<open>LoadExamPaperDetailByUserId\<close> shows a student
  the own paper, and \<open>DeleteExamPaperById\<close> removes papers. \<open>rnd k\<close> are the random numbers of the
  \<open>k\<close>-th call of \<open>Shuffle\<close>.
\<close>

section \<open>Writing the rows of the students\<close>

record sheet_request =
  gr_paper :: int
  gr_category :: string
  gr_examinees :: "int list option"
  gr_submissions :: "int list option"
  gr_question_random :: bool
  gr_option_random :: bool
  gr_attempt :: int

text \<open>
  The tags of the request for \<open>cmn.Validate\<close>: \<open>required_if\<close> asks for a slice that is not nil,
  \<open>dive,gt=0\<close> for positive elements, and \<open>omitempty,min=1\<close> lets 0 pass.
\<close>

definition valid_sheet_request :: "sheet_request \<Rightarrow> bool" where
  "valid_sheet_request r \<longleftrightarrow>
     0 < gr_paper r \<and> gr_category r \<in> {''00'', ''02''} \<and>
     (gr_category r = ''00'' \<longrightarrow> gr_examinees r \<noteq> None) \<and>
     (gr_category r = ''02'' \<longrightarrow> gr_submissions r \<noteq> None) \<and>
     list_all (\<lambda>i. 0 < i) (case gr_examinees r of None \<Rightarrow> [] | Some is \<Rightarrow> is) \<and>
     list_all (\<lambda>i. 0 < i) (case gr_submissions r of None \<Rightarrow> [] | Some is \<Rightarrow> is) \<and>
     (gr_attempt r = 0 \<or> 1 \<le> gr_attempt r)"

definition sheet_students :: "sheet_request \<Rightarrow> int list" where
  "sheet_students r =
    (case if gr_category r = ''00'' then gr_examinees r else gr_submissions r of None \<Rightarrow> [] | Some is \<Rightarrow> is)"

text \<open>
  The columns the \<open>INSERT\<close> does not name (answer, score, status) are those of \<open>blank\<close>, the defaults
  of the table.
\<close>

definition sheet_of ::
    "sheet_row \<Rightarrow> sheet_request \<Rightarrow> int \<Rightarrow> int \<Rightarrow> int \<Rightarrow> int \<Rightarrow> sheet_question \<Rightarrow> int \<Rightarrow>
      raw_json \<times> raw_json \<Rightarrow> sheet_row" where
  "sheet_of blank req uid now student grp q order actual =
    blank\<lparr>an_type := gr_category req,
      an_examinee_id := (if gr_category req = ''00'' then Some student else None),
      an_practice_id := (if gr_category req = ''02'' then Some student else None),
      an_question_id := xq_id q, an_creator := uid, an_create_time := now, an_update_time := Some now,
      sh_order := Some order, sh_group := Some grp, sh_options := snd actual, sh_answers := fst actual\<rparr>"

text \<open>Options and answers of one row; a written question gets none.\<close>

definition actual_texts ::
    "(nat \<Rightarrow> nat \<Rightarrow> nat) \<Rightarrow> bool \<Rightarrow> nat \<Rightarrow> sheet_question \<Rightarrow> paper_error + (raw_json \<times> raw_json) \<times> nat" where
  "actual_texts rnd mix k q =
    (if String (xq_type q) \<in> {''00'', ''02'', ''04''}
     then if mix
          then and_then (shuffleOptionsAndMapAnswers (rnd k) (xq_options q) (xq_answers q)) (\<lambda>a. Inr (a, Suc k))
          else Inr ((xq_answers q, xq_options q), k)
     else Inr ((No_bytes, No_bytes), k))"

fun question_sheets ::
    "(nat \<Rightarrow> nat \<Rightarrow> nat) \<Rightarrow> sheet_row \<Rightarrow> sheet_request \<Rightarrow> int \<Rightarrow> int \<Rightarrow> int \<Rightarrow> int \<Rightarrow>
      sheet_question list \<Rightarrow> int \<Rightarrow> nat \<Rightarrow> paper_error + sheet_row list \<times> int \<times> nat" where
  "question_sheets rnd blank req uid now student grp [] order k = Inr ([], order, k)"
| "question_sheets rnd blank req uid now student grp (q # qs) order k =
    and_then (actual_texts rnd (gr_option_random req) k q) (\<lambda>(actual, k1).
    and_then (question_sheets rnd blank req uid now student grp qs (order + 1) k1) (\<lambda>(rows, rest).
      Inr (sheet_of blank req uid now student grp q order actual # rows, rest)))"

text \<open>
  The groups of one student. The slice of a group is mixed in place, so the next student starts
  from what this one got.
\<close>

fun group_sheets ::
    "(nat \<Rightarrow> nat \<Rightarrow> nat) \<Rightarrow> sheet_row \<Rightarrow> sheet_request \<Rightarrow> int \<Rightarrow> int \<Rightarrow> int \<Rightarrow> exam_group list \<Rightarrow> sheet \<Rightarrow>
      int \<Rightarrow> nat \<Rightarrow> paper_error + sheet_row list \<times> sheet \<times> nat" where
  "group_sheets rnd blank req uid now student [] pq order k = Inr ([], pq, k)"
| "group_sheets rnd blank req uid now student (g # gs) pq order k =
    (let qs = (case pq (xg_id g) of None \<Rightarrow> [] | Some qs \<Rightarrow> qs);
         (qs', k1) = (if gr_question_random req then (shuffled (rnd k) qs, Suc k) else (qs, k));
         pq' = (case pq (xg_id g) of None \<Rightarrow> pq | Some _ \<Rightarrow> pq(xg_id g \<mapsto> qs'))
     in and_then (question_sheets rnd blank req uid now student (xg_id g) qs' order k1) (\<lambda>(rows, order', k2).
        and_then (group_sheets rnd blank req uid now student gs pq' order' k2) (\<lambda>(rows', rest).
          Inr (rows @ rows', rest))))"

fun student_sheets ::
    "(nat \<Rightarrow> nat \<Rightarrow> nat) \<Rightarrow> sheet_row \<Rightarrow> sheet_request \<Rightarrow> int \<Rightarrow> int \<Rightarrow> exam_group list \<Rightarrow> int list \<Rightarrow>
      sheet \<Rightarrow> nat \<Rightarrow> paper_error + sheet_row list" where
  "student_sheets rnd blank req uid now gs [] pq k = Inr []"
| "student_sheets rnd blank req uid now gs (s # ss) pq k =
    and_then (group_sheets rnd blank req uid now s gs pq 1 k) (\<lambda>(rows, pq', k').
    and_then (student_sheets rnd blank req uid now gs ss pq' k') (\<lambda>rows'. Inr (rows @ rows')))"

definition insert_rows :: "(string \<Rightarrow> bool) \<Rightarrow> sheet_row list \<Rightarrow> paper_db \<Rightarrow> paper_error + paper_db" where
  "insert_rows fault batch db =
    (if fault ''insert_answers'' then Inl (Paper_sql ''insert_answers'')
     else Inr (db\<lparr>pp_rows := pp_rows db @ batch\<rparr>))"

definition GenerateAnswerQuestion ::
    "(string \<Rightarrow> bool) \<Rightarrow> (nat \<Rightarrow> nat \<Rightarrow> nat) \<Rightarrow> sheet_row \<Rightarrow> int \<Rightarrow> sheet_request \<Rightarrow> int \<Rightarrow> paper_db \<Rightarrow>
      paper_error + paper_db" where
  "GenerateAnswerQuestion fault rnd blank now req uid db =
    (if \<not> valid_sheet_request req then Inl Sheet_request_invalid
     else and_then (LoadExamPaperDetailsById fault (gr_paper req) True True True db) (\<lambda>(p, pg, pq).
          and_then (student_sheets rnd blank req uid now pg (sheet_students req) pq 0) (\<lambda>rows.
            for_each (insert_rows fault) (batches 500 rows) db)))"

section \<open>Showing a student the paper\<close>

text \<open>A \<open>NULL\<close> scans into a \<open>JSONText\<close> as \<open>{}\<close>.\<close>

definition scanned :: "raw_json \<Rightarrow> raw_json" where
  "scanned r = (if r = No_bytes then Parsed (JObj []) else r)"

record shown_row =
  sr_question :: int
  sr_order :: null_int
  sr_answer :: string
  sr_score :: "rat option"
  sr_answers :: raw_json
  sr_options :: raw_json

text \<open>The columns of the query, with its three switches.\<close>

definition show_row :: "bool \<Rightarrow> bool \<Rightarrow> bool \<Rightarrow> exam_question \<Rightarrow> sheet_row \<Rightarrow> shown_row" where
  "show_row withStudentAnswer withAnswer withAnswerScore q a =
    (let choice = (xq_type q \<in> Some ` {''00'', ''02'', ''04''}) in
     \<lparr>sr_question = an_question_id a, sr_order = sh_order a,
      sr_answer = (if withStudentAnswer then an_answer a else ''{}''),
      sr_score = (if withAnswerScore then an_score a else None),
      sr_answers = scanned (if withAnswer then if choice then sh_answers a else xq_answers q else No_bytes),
      sr_options = scanned (if choice then sh_options a else xq_options q)\<rparr>)"

definition show_rows :: "paper_db \<Rightarrow> (sheet_row \<Rightarrow> bool) \<Rightarrow> bool \<Rightarrow> bool \<Rightarrow> bool \<Rightarrow> shown_row list" where
  "show_rows db mine withStudentAnswer withAnswer withAnswerScore =
     order_nulls_last sr_order (concat (map (\<lambda>a. map (\<lambda>q. show_row withStudentAnswer withAnswer withAnswerScore q a)
       (filter (\<lambda>q. xq_id q = an_question_id a) (pp_questions db))) (filter mine (pp_rows db))))"

definition merge_question :: "bool \<Rightarrow> shown_row \<Rightarrow> sheet_question \<Rightarrow> sheet_question" where
  "merge_question withAnswerScore r q =
     q\<lparr>xs_answer := sr_answer r, xs_score := sr_score r, xq_order := sr_order r, xq_options := sr_options r,
       xq_answers := sr_answers r, xq_analysis := (if withAnswerScore then xq_analysis q else None)\<rparr>"

text \<open>
  The loop over the student's rows: a pointer into the paper for each; \<open>ids\<close> are the groups, whose
  entries make up the map.
\<close>

fun merge_rows :: "bool \<Rightarrow> int list \<Rightarrow> shown_row list \<Rightarrow> sheet \<Rightarrow> paper_error + sheet" where
  "merge_rows withAnswerScore ids [] pq = Inr pq"
| "merge_rows withAnswerScore ids (r # rs) pq =
    (if \<exists>i \<in> set ids. \<exists>qs. pq i = Some qs \<and> sr_question r \<in> xq_id ` set qs
     then merge_rows withAnswerScore ids rs (\<lambda>i. map_option (map (\<lambda>q.
            if xq_id q = sr_question r then merge_question withAnswerScore r q else q)) (pq i))
     else Inl (Question_lost (sr_question r)))"

lemma merge_rows_code [code]:
  "merge_rows withAnswerScore ids [] pq = Inr pq"
  "merge_rows withAnswerScore ids (r # rs) pq =
    (if list_ex (\<lambda>i. case pq i of None \<Rightarrow> False | Some qs \<Rightarrow> list_ex (\<lambda>q. xq_id q = sr_question r) qs) ids
     then merge_rows withAnswerScore ids rs (\<lambda>i. map_option (map (\<lambda>q.
            if xq_id q = sr_question r then merge_question withAnswerScore r q else q)) (pq i))
     else Inl (Question_lost (sr_question r)))"
proof -
  have "(\<exists>i\<in>set ids. \<exists>qs. pq i = Some qs \<and> sr_question r \<in> xq_id ` set qs) \<longleftrightarrow>
      list_ex (\<lambda>i. case pq i of None \<Rightarrow> False | Some qs \<Rightarrow> list_ex (\<lambda>q. xq_id q = sr_question r) qs) ids"
    unfolding list_ex_iff by (rule bex_cong [OF refl]) (force simp: list_ex_iff split: option.split)
  then show "merge_rows withAnswerScore ids (r # rs) pq =
    (if list_ex (\<lambda>i. case pq i of None \<Rightarrow> False | Some qs \<Rightarrow> list_ex (\<lambda>q. xq_id q = sr_question r) qs) ids
     then merge_rows withAnswerScore ids rs (\<lambda>i. map_option (map (\<lambda>q.
            if xq_id q = sr_question r then merge_question withAnswerScore r q else q)) (pq i))
     else Inl (Question_lost (sr_question r)))" by simp
qed simp

definition LoadExamPaperDetailByUserId ::
    "(string \<Rightarrow> bool) \<Rightarrow> int \<Rightarrow> int \<Rightarrow> int \<Rightarrow> bool \<Rightarrow> bool \<Rightarrow> bool \<Rightarrow> paper_db \<Rightarrow>
      paper_error + exam_paper \<times> exam_group list \<times> sheet" where
  "LoadExamPaperDetailByUserId fault examPaperId pSubmissionId examineeId withStudentAnswer withAnswer
      withAnswerScore db =
    (if examPaperId \<le> 0 then Inl (Id_invalid examPaperId)
     else if pSubmissionId \<le> 0 \<and> examineeId \<le> 0 then Inl (Id_invalid examineeId)
     else if fault ''student_answers'' then Inl (Paper_sql ''student_answers'')
     else
       let mine = (if 0 < pSubmissionId \<and> examineeId \<le> 0 then (\<lambda>a. an_practice_id a = Some pSubmissionId)
                   else (\<lambda>a. an_examinee_id a = Some examineeId));
           rows = show_rows db mine withStudentAnswer withAnswer withAnswerScore
       in if rows = [] then Inl Sheet_empty
          else and_then (LoadExamPaperDetailsById fault examPaperId True withAnswer withAnswerScore db)
            (\<lambda>(p, pg, pq). and_then (merge_rows withAnswerScore (map xg_id pg) rows pq) (\<lambda>pq'. Inr (p, pg, pq'))))"

section \<open>Deleting papers\<close>

text \<open>The foreign keys delete groups, questions and the students' rows with their paper.\<close>

definition DeleteExamPaperById ::
    "(string \<Rightarrow> bool) \<Rightarrow> int list \<Rightarrow> int list \<Rightarrow> paper_db \<Rightarrow> paper_error + paper_db" where
  "DeleteExamPaperById fault examSessionIDs practiceIDs db =
    (if examSessionIDs = [] \<and> practiceIDs = [] then Inl Delete_nothing
     else let invalid = filter (\<lambda>i. i \<le> 0) examSessionIDs @ filter (\<lambda>i. i \<le> 0) practiceIDs
     in if invalid \<noteq> [] then Inl (Delete_ids_invalid invalid)
     else if fault ''delete'' then Inl (Paper_sql ''delete'')
     else
       let papers = filter (\<lambda>p. \<not> (xp_session p \<in> Some ` set examSessionIDs \<or>
              xp_practice p \<in> Some ` set practiceIDs)) (pp_papers db);
           gone = (\<lambda>i. i \<in> xp_id ` set (pp_papers db) \<and> i \<notin> xp_id ` set papers);
           groups = filter (\<lambda>g. \<not> (\<exists>i. xg_paper g = Some i \<and> gone i)) (pp_groups db);
           group_gone = (\<lambda>i. i \<in> xg_id ` set (pp_groups db) \<and> i \<notin> xg_id ` set groups);
           questions = filter (\<lambda>q. \<not> (\<exists>i. xq_group q = Some i \<and> group_gone i)) (pp_questions db);
           question_gone = (\<lambda>i. i \<in> xq_id ` set (pp_questions db) \<and> i \<notin> xq_id ` set questions)
       in Inr (db\<lparr>pp_papers := papers, pp_groups := groups, pp_questions := questions,
                  pp_rows := filter (\<lambda>a. \<not> question_gone (an_question_id a)) (pp_rows db)\<rparr>))"

end
