(* ===== verification/Paper_Props.thy ===== *)
theory Paper_Props
  imports Paper_Sheets Marking
begin

text \<open>
  What papers promise: a published paper has the questions of its template, every student gets a
  row for every question, mixing options does not change which values are right, and a student
  is not shown the answers; and the points of blanks that publishing loses.
\<close>

section \<open>Mixed options\<close>

lemma compare_by_value:
  assumes inj: "inj_on f L" and "set as \<subseteq> L" and "set bs \<subseteq> L"
  shows "mset as = mset bs \<longleftrightarrow> mset (map f as) = mset (map f bs)"
proof
  assume "mset (map f as) = mset (map f bs)"
  then have "image_mset f (mset as) = image_mset f (mset bs)" by simp
  moreover have "image_mset (the_inv_into L f) (image_mset f (mset cs)) = mset cs" if "set cs \<subseteq> L" for cs
  proof -
    have "image_mset (the_inv_into L f \<circ> f) (mset cs) = image_mset id (mset cs)"
      by (rule image_mset_cong) (use that inj in \<open>auto simp: the_inv_into_f_f\<close>)
    then show ?thesis by (simp add: multiset.map_comp)
  qed
  ultimately show "mset as = mset bs" using assms(2,3) by metis
qed simp

lemma shuffle_done:
  assumes "shuffleOptionsAndMapAnswers rnd Op An = Inr (An', Op')"
    and "unmarshal dec_options Op = Some opts" and "unmarshal dec_strings An = Some as"
  shows "unmarshal dec_options Op' = Some (shuffle_values rnd opts) \<and>
    unmarshal dec_strings An' = Some (map_answers (label_value opts) (shuffle_values rnd opts) as)"
  using assms dec_enc_options [OF assms(2)]
  by (auto simp: shuffleOptionsAndMapAnswers_def Let_def)

lemma values_inj:
  assumes "distinct (map qo_label opts)" and "distinct (map qo_value opts)"
  shows "inj_on (label_value opts) (qo_label ` set opts)"
  using assms label_value_mem [OF assms(1)] by (auto simp: inj_on_def distinct_map)

lemma mapped_labels: "set (map_answers f opts as) \<subseteq> qo_label ` set opts"
proof (induction as)
  case (Cons a as)
  then show ?case
    by (cases "find (\<lambda>r. qo_value r = f a) opts") (auto dest: sql_first_Some [unfolded sql_first_def])
qed simp

text \<open>
  (C32) Mixing keeps the meaning of a choice question whose options have different labels and
  different values and whose answers are labels of options: the labels stay in place, the values
  are permuted, the new answers name the values the old ones named, and marking accepts a choice
  of labels exactly if it names these values.
\<close>

theorem options_keep_meaning:
  assumes "shuffleOptionsAndMapAnswers rnd Op An = Inr (An', Op')"
    and "unmarshal dec_options Op = Some opts" and "unmarshal dec_strings An = Some as"
    and "distinct (map qo_label opts)" and "distinct (map qo_value opts)" and "set as \<subseteq> qo_label ` set opts"
  shows "\<exists>opts' as'. unmarshal dec_options Op' = Some opts' \<and> unmarshal dec_strings An' = Some as' \<and>
    map qo_label opts' = map qo_label opts \<and> mset (map qo_value opts') = mset (map qo_value opts) \<and>
    map (label_value opts') as' = map (label_value opts) as \<and>
    (\<forall>given. set given \<subseteq> qo_label ` set opts \<longrightarrow>
      (compareSlices given as' \<longleftrightarrow> mset (map (label_value opts') given) = mset (map (label_value opts) as)))"
proof -
  let ?o = "shuffle_values rnd opts"
  let ?a = "map_answers (label_value opts) ?o as"
  have d: "distinct (map qo_label ?o)" "distinct (map qo_value ?o)" using assms(4,5) by simp_all
  have m: "mset (map qo_value ?o) = mset (map qo_value opts)" by simp
  have v: "map (label_value ?o) ?a = map (label_value opts) as"
    by (rule map_answers_value) (use assms d m in auto)
  have l: "qo_label ` set ?o = qo_label ` set opts" by (metis labels_shuffle_values list.set_map)
  have "compareSlices given ?a \<longleftrightarrow> mset (map (label_value ?o) given) = mset (map (label_value opts) as)"
    if "set given \<subseteq> qo_label ` set opts" for given
    unfolding compareSlices_count v [symmetric]
    by (rule compare_by_value [OF values_inj [OF d]])
      (use that l mapped_labels [of "label_value opts" ?o as] in auto)
  with shuffle_done [OF assms(1-3)] v m show ?thesis by (intro exI [of _ ?o] exI [of _ ?a]) simp
qed

theorem options_keep_meaning_witness:
  "\<exists>An' Op' opts' as'. shuffleOptionsAndMapAnswers (\<lambda>_. 0)
      (Parsed (JArr [demo_option ''A'' ''x'', demo_option ''B'' ''y''])) (Parsed (JArr [JStr ''B''])) = Inr (An', Op') \<and>
    unmarshal dec_options Op' = Some opts' \<and> unmarshal dec_strings An' = Some as' \<and>
    map (label_value opts') as' = [''y'']"
proof -
  let ?O = "Parsed (JArr [demo_option ''A'' ''x'', demo_option ''B'' ''y''])" and ?A = "Parsed (JArr [JStr ''B''])"
  let ?o = "[\<lparr>qo_label = ''A'', qo_value = ''x''\<rparr>, \<lparr>qo_label = ''B'', qo_value = ''y''\<rparr>]"
  have o': "dec_options (JArr [demo_option ''A'' ''x'', demo_option ''B'' ''y'']) = Some ?o"
    by (simp add: dec_options_def dec_demo_option)
  then have o: "unmarshal dec_options ?O = Some ?o" by simp
  have a': "dec_strings (JArr [JStr ''B'']) = Some [''B'']" by (simp add: dec_strings_def)
  then have a: "unmarshal dec_strings ?A = Some [''B'']" by simp
  obtain An' Op' where run: "shuffleOptionsAndMapAnswers (\<lambda>_. 0) ?O ?A = Inr (An', Op')"
    by (simp add: shuffleOptionsAndMapAnswers_def o' a' Let_def)
  have "label_value ?o ''B'' = ''y''" by (simp add: label_value_def)
  with options_keep_meaning [OF run o a] run show ?thesis by auto
qed

section \<open>Rows in their order\<close>

lemma insort_key_rel:
  "list_all2 R xs ys \<Longrightarrow> R x y \<Longrightarrow> (\<And>a b. R a b \<Longrightarrow> k a = k' b) \<Longrightarrow>
    list_all2 R (insort_key k x xs) (insort_key k' y ys)"
  by (induction rule: list_all2_induct) auto

lemma sort_key_rel:
  "list_all2 R xs ys \<Longrightarrow> (\<And>a b. R a b \<Longrightarrow> k a = k' b) \<Longrightarrow> list_all2 R (sort_key k xs) (sort_key k' ys)"
  by (induction rule: list_all2_induct) (auto intro: insort_key_rel)

lemma filter_rel:
  "list_all2 R xs ys \<Longrightarrow> (\<And>a b. R a b \<Longrightarrow> p a = p' b) \<Longrightarrow> list_all2 R (filter p xs) (filter p' ys)"
  by (induction rule: list_all2_induct) auto

text \<open>Sorting related rows by related keys keeps them related.\<close>

lemma order_rel:
  assumes "list_all2 R xs ys" and "\<And>a b. R a b \<Longrightarrow> k a = k' b"
  shows "list_all2 R (order_nulls_last k xs) (order_nulls_last k' ys)"
  unfolding order_nulls_last_def
  by (intro list_all2_appendI sort_key_rel filter_rel assms(1)) (use assms(2) in auto)

section \<open>What publishing writes\<close>

text \<open>
  Keys of the tables: no reference is \<open>NULL\<close>, all point to rows that exist, and the sequences
  are ahead.
\<close>

definition paper_db_wf :: "paper_db \<Rightarrow> bool" where
  "paper_db_wf db \<longleftrightarrow>
     distinct (map xp_id (pp_papers db)) \<and> distinct (map xg_id (pp_groups db)) \<and>
     distinct (map xq_id (pp_questions db)) \<and>
     (\<forall>p \<in> set (pp_papers db). xp_id p < pp_next_paper db) \<and>
     (\<forall>g \<in> set (pp_groups db). xg_id g < pp_next_group db \<and>
        (\<exists>i. xg_paper g = Some i \<and> i \<in> xp_id ` set (pp_papers db))) \<and>
     (\<forall>q \<in> set (pp_questions db). xq_id q < pp_next_question db \<and>
        (\<exists>i. xq_group q = Some i \<and> i \<in> xg_id ` set (pp_groups db))) \<and>
     0 < pp_next_paper db \<and> 0 < pp_next_group db \<and> 0 < pp_next_question db"

lemma length_new_groups [simp]: "length (new_groups n i uid now gs) = length gs"
  by (induction n i uid now gs rule: new_groups.induct) simp_all

lemma new_groups_ids: "map xg_id (new_groups n i uid now gs) = map (\<lambda>j. n + int j) [0..<length gs]"
proof (induction n i uid now gs rule: new_groups.induct)
  case (2 n i uid now g gs)
  then show ?case by (simp add: map_upt_Suc add.commute add.left_commute del: upt_Suc)
qed simp

lemma new_groups_rel:
  "list_all2 (\<lambda>t g. xg_name g = tg_name t \<and> xg_order g = tg_order t \<and> xg_paper g = Some i \<and> xg_status g = ''00'')
     ts (new_groups n i uid now ts)"
  by (induction n i uid now ts rule: new_groups.induct) simp_all

lemma set_new_groups:
  "g \<in> set (new_groups n i uid now ts) \<Longrightarrow> n \<le> xg_id g \<and> xg_id g < n + int (length ts) \<and> xg_paper g = Some i \<and>
    xg_status g = ''00''"
  by (induction n i uid now ts rule: new_groups.induct) auto

lemma distinct_new_groups: "distinct (map xg_id (new_groups n i uid now ts))"
  unfolding new_groups_ids by (simp add: distinct_map inj_on_def)

lemma map_xq_number: "map f (number_questions n qs) = map f qs" if "\<And>q i. f (q\<lparr>xq_id := i\<rparr>) = f q" for f :: "exam_question \<Rightarrow> 'b"
  by (induction n qs rule: number_questions.induct) (simp_all add: that)

lemma number_append:
  "number_questions n (xs @ ys) = number_questions n xs @ number_questions (n + int (length xs)) ys"
  by (induction n xs rule: number_questions.induct) (simp_all add: algebra_simps)

lemma length_number [simp]: "length (number_questions n qs) = length qs"
  by (induction n qs rule: number_questions.induct) simp_all

lemma number_ids: "map xq_id (number_questions n qs) = map (\<lambda>j. n + int j) [0..<length qs]"
proof (induction n qs rule: number_questions.induct)
  case (2 n q qs)
  then show ?case by (simp add: map_upt_Suc add.commute add.left_commute del: upt_Suc)
qed simp

lemma concat_batches: "0 < n \<Longrightarrow> concat (batches n xs) = xs"
  by (induction n xs rule: batches.induct) (subst batches.simps, auto)

lemma insert_batches:
  "for_each (insert_questions fault) bs db = Inr db' \<Longrightarrow>
    db' = db\<lparr>pp_questions := pp_questions db @ number_questions (pp_next_question db) (concat bs),
             pp_next_question := pp_next_question db + int (length (concat bs))\<rparr>"
proof (induction bs arbitrary: db)
  case (Cons b bs)
  from Cons.prems obtain db1 where b: "insert_questions fault b db = Inr db1"
    and bs: "for_each (insert_questions fault) bs db1 = Inr db'" by (auto split: sum.splits)
  from b have "db1 = db\<lparr>pp_questions := pp_questions db @ number_questions (pp_next_question db) b,
      pp_next_question := pp_next_question db + int (length b)\<rparr>"
    by (auto simp: insert_questions_def split: if_splits)
  with Cons.IH [OF bs] show ?case by (simp add: number_append algebra_simps)
qed simp

lemma fold_entry_other: "i \<notin> f ` set gs \<Longrightarrow> fold (\<lambda>g. add_entry (f g) (h g)) gs m i = m i"
  by (induction gs arbitrary: m) (auto simp: add_entry_def)

lemma fold_entry:
  assumes "distinct (map f gs)" and "g \<in> set gs" and "\<forall>g \<in> set gs. m (f g) = None"
  shows "fold (\<lambda>g. add_entry (f g) (h g)) gs m (f g) = Some (h g)"
  using assms
proof (induction gs arbitrary: m)
  case (Cons a gs)
  show ?case
  proof (cases "g \<in> set gs")
    case True
    have "\<forall>g \<in> set gs. add_entry (f a) (h a) m (f g) = None"
      using Cons.prems(1,3) by (auto simp: add_entry_def image_iff)
    with Cons.IH True Cons.prems(1) show ?thesis by simp
  next
    case False
    with Cons.prems have "g = a" and "f a \<notin> f ` set gs" by auto
    with Cons.prems(3) show ?thesis by (simp add: add_entry_def [of "f a"] fold_entry_other)
  qed
qed simp

lemma order_ids_other: "order_ids gs m = Inr ids \<Longrightarrow> Some i \<notin> xg_order ` set gs \<Longrightarrow> ids i = m i"
  by (induction gs m rule: order_ids.induct) (auto split: option.splits)

lemma order_ids_mem:
  "order_ids gs m = Inr ids \<Longrightarrow> distinct (map xg_order gs) \<Longrightarrow> g \<in> set gs \<Longrightarrow>
    xg_order g \<noteq> None \<and> ids (Int64 (xg_order g)) = Some (xg_id g)"
proof (induction gs m rule: order_ids.induct)
  case (2 a gs m)
  from 2(2) obtain o' where o': "xg_order a = Some o'" and run: "order_ids gs (m(o' \<mapsto> xg_id a)) = Inr ids"
    by (auto split: option.splits)
  show ?case
  proof (cases "g = a")
    case True
    have "Some o' \<notin> xg_order ` set gs" using 2(3) o' by (metis distinct.simps(2) list.set_map list.simps(9))
    with order_ids_other [OF run] o' True show ?thesis by simp
  next
    case False
    with 2(1) [OF o' run] 2(3,4) show ?thesis by simp
  qed
qed simp

lemma new_question_group:
  "new_question uid now gid t = Inr q \<Longrightarrow> xq_group q = Some gid \<and> xq_status q = ''00'' \<and> xq_id q = 0"
  by (auto simp: new_question_def and_then_Inr_iff)

lemma each_ok_rel: "each_ok f xs = Inr ys \<longleftrightarrow> list_all2 (\<lambda>x y. f x = Inr y) xs ys"
proof (induction xs arbitrary: ys)
  case (Cons x xs)
  then show ?case by (auto simp: and_then_Inr_iff list_all2_Cons1)
qed auto

lemma rel_all: "list_all2 R xs ys \<Longrightarrow> (\<And>x y. R x y \<Longrightarrow> P y) \<Longrightarrow> \<forall>y \<in> set ys. P y"
  by (induction rule: list_all2_induct) auto

lemma new_questions_groups:
  assumes "new_questions uid now ids pq gs = Inr qs" and "q \<in> set qs"
  shows "\<exists>g \<in> set gs. xq_group q = ids (Int64 (tg_order g))"
  using assms
proof (induction gs arbitrary: qs)
  case (Cons g gs)
  from Cons.prems(1) obtain gid new rest where g: "ids (Int64 (tg_order g)) = Some gid"
    and new: "each_ok (new_question uid now gid) (case pq (tg_id g) of None \<Rightarrow> [] | Some qs \<Rightarrow> qs) = Inr new"
    and rest: "new_questions uid now ids pq gs = Inr rest" and qs: "qs = new @ rest"
    by (auto simp: and_then_Inr_iff split: option.splits)
  from new have "\<forall>q \<in> set new. xq_group q = Some gid"
    unfolding each_ok_rel by (rule rel_all) (auto dest: new_question_group)
  with Cons.IH [OF rest] Cons.prems(2) qs g show ?case by auto
qed simp

text \<open>The new questions of one group are those of its template, in the template's order.\<close>

lemma new_questions_of:
  assumes "new_questions uid now ids pq gs = Inr qs" and "distinct (map (\<lambda>g. ids (Int64 (tg_order g))) gs)"
    and "g \<in> set gs"
  shows "\<exists>gid. ids (Int64 (tg_order g)) = Some gid \<and>
    each_ok (new_question uid now gid) (case pq (tg_id g) of None \<Rightarrow> [] | Some qs \<Rightarrow> qs) =
      Inr (filter (\<lambda>q. xq_group q = Some gid \<and> xq_status q = ''00'') qs)"
  using assms
proof (induction gs arbitrary: qs)
  case (Cons a gs)
  from Cons.prems(1) obtain gid new rest where a: "ids (Int64 (tg_order a)) = Some gid"
    and new: "each_ok (new_question uid now gid) (case pq (tg_id a) of None \<Rightarrow> [] | Some qs \<Rightarrow> qs) = Inr new"
    and rest: "new_questions uid now ids pq gs = Inr rest" and qs: "qs = new @ rest"
    by (auto simp: and_then_Inr_iff split: option.splits)
  from new have all: "\<forall>q \<in> set new. xq_group q = Some gid \<and> xq_status q = ''00''"
    unfolding each_ok_rel by (rule rel_all) (auto dest: new_question_group)
  show ?case
  proof (cases "g = a")
    case True
    have "Some gid \<notin> (\<lambda>g. ids (Int64 (tg_order g))) ` set gs" using Cons.prems(2) a by simp
    then have "\<forall>q \<in> set rest. xq_group q \<noteq> Some gid"
      using new_questions_groups [OF rest] by (metis image_eqI)
    then have "filter (\<lambda>q. xq_group q = Some gid \<and> xq_status q = ''00'') qs = new"
      using all qs by (auto simp: filter_empty_conv intro!: filter_True)
    with new a True show ?thesis by simp
  next
    case False
    then have g: "g \<in> set gs" using Cons.prems(3) by simp
    with Cons.IH [OF rest] Cons.prems(2) obtain gid' where g': "ids (Int64 (tg_order g)) = Some gid'"
      and ok: "each_ok (new_question uid now gid') (case pq (tg_id g) of None \<Rightarrow> [] | Some qs \<Rightarrow> qs) =
        Inr (filter (\<lambda>q. xq_group q = Some gid' \<and> xq_status q = ''00'') rest)" by auto
    have "gid' \<noteq> gid" using Cons.prems(2) g a g' by (auto simp: image_iff)
    then have "filter (\<lambda>q. xq_group q = Some gid' \<and> xq_status q = ''00'') new = []"
      using all by (auto simp: filter_empty_conv)
    with ok g' qs show ?thesis by simp
  qed
qed simp

lemma load_template:
  assumes "LoadPaperTemplateById fault T i True = Inr (t, gs, pq)" and "distinct (map tg_id gs)" and "g \<in> set gs"
  shows "pq (tg_id g) = Some (map (\<lambda>q. q\<lparr>tq_answer_num := length (tq_sub_score q)\<rparr>) (tg_questions g))"
  using assms(1) fold_entry [of tg_id gs g Map.empty "\<lambda>g. map (\<lambda>q. q\<lparr>tq_answer_num := length (tq_sub_score q)\<rparr>)
      (tg_questions g)", OF assms(2,3)]
  by (auto simp: LoadPaperTemplateById_def split: if_splits option.splits)

lemma generated:
  assumes "GenerateExamPaper fault now T paperId uid db = Inr (i, db')" and "T paperId = Some t"
    and "pt_groups t = Some gs"
  obtains pq ids qs where "LoadPaperTemplateById fault T paperId True = Inr (t, gs, pq)" and "gs \<noteq> []"
    and "i = pp_next_paper db" and "order_ids (new_groups (pp_next_group db) i uid now gs) Map.empty = Inr ids"
    and "new_questions uid now ids pq gs = Inr qs"
    and "db' = db\<lparr>pp_papers := pp_papers db @ [\<lparr>xp_id = i, xp_session = None, xp_practice = None, xp_name = pt_name t,
        xp_creator = uid, xp_create_time = now, xp_update_time = now, xp_status = ''00''\<rparr>],
      pp_next_paper := i + 1, pp_groups := pp_groups db @ new_groups (pp_next_group db) i uid now gs,
      pp_next_group := pp_next_group db + int (length gs),
      pp_questions := pp_questions db @ number_questions (pp_next_question db) qs,
      pp_next_question := pp_next_question db + int (length qs)\<rparr>"
proof -
  from assms(1) obtain p pg pq where l: "LoadPaperTemplateById fault T paperId True = Inr (p, pg, pq)"
    unfolding GenerateExamPaper_def by (auto simp: and_then_Inr_iff split: if_splits)
  then have "p = t" and "pg = gs" using assms(2,3)
    by (auto simp: LoadPaperTemplateById_def split: if_splits option.splits)
  with assms(1) l obtain ids qs where *: "pg \<noteq> []" "i = pp_next_paper db"
      "order_ids (new_groups (pp_next_group db) i uid now gs) Map.empty = Inr ids"
      "new_questions uid now ids pq gs = Inr qs"
    and ins: "for_each (insert_questions fault) (batches 1000 qs) (db\<lparr>pp_papers := pp_papers db @
        [\<lparr>xp_id = i, xp_session = None, xp_practice = None, xp_name = pt_name t,
          xp_creator = uid, xp_create_time = now, xp_update_time = now, xp_status = ''00''\<rparr>],
      pp_next_paper := i + 1, pp_groups := pp_groups db @ new_groups (pp_next_group db) i uid now gs,
      pp_next_group := pp_next_group db + int (length gs)\<rparr>) = Inr db'"
    unfolding GenerateExamPaper_def Let_def by (auto simp: and_then_Inr_iff split: if_splits)
  from insert_batches [OF ins] that [OF _ _ *(2-4)] l * \<open>p = t\<close> \<open>pg = gs\<close> show thesis
    by (simp add: concat_batches)
qed

text \<open>The rows the new paper has in the view.\<close>

lemma new_paper_groups:
  assumes "GenerateExamPaper fault now T paperId uid db = Inr (i, db')" and "T paperId = Some t"
    and "pt_groups t = Some gs" and wf: "paper_db_wf db"
  shows "paper_groups db' i = order_nulls_last xg_order (new_groups (pp_next_group db) i uid now gs)"
proof -
  from assms(1-3) obtain pq ids qs where i: "i = pp_next_paper db"
    and db': "pp_groups db' = pp_groups db @ new_groups (pp_next_group db) i uid now gs"
    by (rule generated) auto
  have "xg_paper g \<noteq> Some i" if "g \<in> set (pp_groups db)" for g
    using wf that i by (fastforce simp: paper_db_wf_def)
  then have "filter (\<lambda>g. xg_paper g = Some i \<and> xg_status g \<noteq> ''02'') (pp_groups db) = []"
    by (auto simp: filter_empty_conv)
  moreover have "filter (\<lambda>g. xg_paper g = Some i \<and> xg_status g \<noteq> ''02'') (new_groups (pp_next_group db) i uid now gs) =
      new_groups (pp_next_group db) i uid now gs"
    by (rule filter_True) (auto dest: set_new_groups)
  ultimately show ?thesis by (simp add: paper_groups_def db')
qed

text \<open>An exam question is the copy of a question of the template, apart from its id.\<close>

lemma number_filter:
  assumes "\<And>q i. p (q\<lparr>xq_id := i\<rparr>) = p q"
  shows "list_all2 (\<lambda>a b. b = a\<lparr>xq_id := xq_id b\<rparr>) (filter p qs) (filter p (number_questions n qs))"
  by (induction n qs rule: number_questions.induct) (simp_all add: assms)

lemma new_group_questions:
  assumes "GenerateExamPaper fault now T paperId uid db = Inr (i, db')" and "T paperId = Some t"
    and "pt_groups t = Some gs" and wf: "paper_db_wf db" and "distinct (map tg_order gs)"
    and "distinct (map tg_id gs)"
  shows "list_all2 (\<lambda>tg g. xg_name g = tg_name tg \<and> xg_order g = tg_order tg \<and>
      list_all2 (\<lambda>t q. \<exists>q0. new_question uid now (xg_id g) (t\<lparr>tq_answer_num := length (tq_sub_score t)\<rparr>) = Inr q0 \<and>
          q = q0\<lparr>xq_id := xq_id q\<rparr>)
        (order_nulls_last tq_order (tg_questions tg)) (group_questions db' (xg_id g)))
    (order_nulls_last tg_order gs) (paper_groups db' i)"
proof -
  let ?new = "new_groups (pp_next_group db) i uid now gs"
  from assms(1-3) obtain pq ids qs where load: "LoadPaperTemplateById fault T paperId True = Inr (t, gs, pq)"
    and ids: "order_ids ?new Map.empty = Inr ids" and qs: "new_questions uid now ids pq gs = Inr qs"
    and db': "pp_questions db' = pp_questions db @ number_questions (pp_next_question db) qs"
    by (rule generated) auto
  have rel: "list_all2 (\<lambda>t g. xg_name g = tg_name t \<and> xg_order g = tg_order t \<and> xg_paper g = Some i \<and>
      xg_status g = ''00'') gs ?new" by (rule new_groups_rel)
  have orders: "map xg_order ?new = map tg_order gs"
    using rel by (simp add: list_all2_conv_all_nth list_eq_iff_nth_eq)
  have id: "ids (Int64 (xg_order g)) = Some (xg_id g)" if "g \<in> set ?new" for g
    using order_ids_mem [OF ids _ that] orders assms(5) by simp
  have gids: "map (\<lambda>g. ids (Int64 (tg_order g))) gs = map (\<lambda>g. Some (xg_id g)) ?new"
  proof (rule nth_equalityI)
    fix j assume j: "j < length (map (\<lambda>g. ids (Int64 (tg_order g))) gs)"
    then have "xg_order (?new ! j) = tg_order (gs ! j)" using rel by (simp add: list_all2_conv_all_nth)
    with id [of "?new ! j"] j show "map (\<lambda>g. ids (Int64 (tg_order g))) gs ! j = map (\<lambda>g. Some (xg_id g)) ?new ! j"
      by simp
  qed simp
  then have d: "distinct (map (\<lambda>g. ids (Int64 (tg_order g))) gs)"
    using distinct_new_groups [of "pp_next_group db" i uid now gs] by (simp add: distinct_map inj_on_def)
  have old: "filter (\<lambda>q. xq_group q = Some gid \<and> xq_status q = ''00'') (pp_questions db) = []"
    if "pp_next_group db \<le> gid" for gid
    using wf that by (fastforce simp: paper_db_wf_def filter_empty_conv)
  have main: "list_all2 (\<lambda>t q. \<exists>q0. new_question uid now (xg_id g) (t\<lparr>tq_answer_num := length (tq_sub_score t)\<rparr>) = Inr q0 \<and>
          q = q0\<lparr>xq_id := xq_id q\<rparr>)
        (order_nulls_last tq_order (tg_questions tg)) (group_questions db' (xg_id g))"
    if tg: "tg \<in> set gs" and g: "g \<in> set ?new" and o': "xg_order g = tg_order tg" for tg g
  proof -
    let ?p = "\<lambda>q. xq_group q = Some (xg_id g) \<and> xq_status q = ''00''"
    from new_questions_of [OF qs d tg] id [OF g] o' load_template [OF load assms(6) tg]
    have "each_ok (new_question uid now (xg_id g)) (map (\<lambda>q. q\<lparr>tq_answer_num := length (tq_sub_score q)\<rparr>)
        (tg_questions tg)) = Inr (filter ?p qs)" by auto
    then have a: "list_all2 (\<lambda>t q. new_question uid now (xg_id g) (t\<lparr>tq_answer_num := length (tq_sub_score t)\<rparr>) = Inr q)
        (tg_questions tg) (filter ?p qs)"
      by (simp add: each_ok_rel list_all2_map1)
    have b: "list_all2 (\<lambda>a b. b = a\<lparr>xq_id := xq_id b\<rparr>) (filter ?p qs) (filter ?p (number_questions (pp_next_question db) qs))"
      by (rule number_filter) simp
    have "filter ?p (pp_questions db') = filter ?p (number_questions (pp_next_question db) qs)"
      using set_new_groups [OF g] by (simp add: db' old)
    with a b have "list_all2 (\<lambda>t q. \<exists>q0. new_question uid now (xg_id g) (t\<lparr>tq_answer_num := length (tq_sub_score t)\<rparr>) =
        Inr q0 \<and> q = q0\<lparr>xq_id := xq_id q\<rparr>) (tg_questions tg) (filter ?p (pp_questions db'))"
      by (simp add: list_all2_conv_all_nth)
    then show ?thesis unfolding group_questions_def
    proof (rule order_rel)
      fix a q
      assume "\<exists>q0. new_question uid now (xg_id g) (a\<lparr>tq_answer_num := length (tq_sub_score a)\<rparr>) = Inr q0 \<and>
          q = q0\<lparr>xq_id := xq_id q\<rparr>"
      then obtain q0 where "new_question uid now (xg_id g) (a\<lparr>tq_answer_num := length (tq_sub_score a)\<rparr>) = Inr q0"
        and "xq_order q = xq_order q0" by (metis exam_question.select_convs(19) exam_question.surjective
            exam_question.update_convs(1))
      then show "tq_order a = xq_order q" by (auto simp: new_question_def and_then_Inr_iff)
    qed
  qed
  have "list_all2 (\<lambda>tg g. tg \<in> set gs \<and> g \<in> set ?new \<and> xg_name g = tg_name tg \<and> xg_order g = tg_order tg) gs ?new"
    using rel by (simp add: list_all2_conv_all_nth)
  then have "list_all2 (\<lambda>tg g. tg \<in> set gs \<and> g \<in> set ?new \<and> xg_name g = tg_name tg \<and> xg_order g = tg_order tg)
      (order_nulls_last tg_order gs) (order_nulls_last xg_order ?new)"
    by (rule order_rel) simp
  then show ?thesis unfolding new_paper_groups [OF assms(1-3) wf]
    by (rule list_all2_mono) (use main in auto)
qed

section \<open>What is read back\<close>

lemma load_groups_eq:
  "load_groups db wa wb gs m =
    (if \<forall>g \<in> set gs. is_ok (each_ok (load_question wa wb) (group_questions db (xg_id g)))
     then Inr (fold (\<lambda>g. add_entry (xg_id g) (projr (each_ok (load_question wa wb) (group_questions db (xg_id g))))) gs m)
     else load_groups db wa wb gs m)"
proof (induction gs arbitrary: m)
  case (Cons g gs)
  then show ?case by (cases "each_ok (load_question wa wb) (group_questions db (xg_id g))") (auto simp: is_ok_iff)
qed simp

lemma text_or_null_simps [simp]: "text_or_null (Parsed j) = Parsed j" "text_or_null r \<noteq> No_bytes"
  by (simp_all add: text_or_null_def)

lemma answer_count_stored:
  assumes "stored_answers type score subs an = Inr r" and "type \<in> {''06'', ''08'', ''10'', ''12''}"
  shows "is_ok (answer_count (text_or_null r))"
  using assms by (auto simp: stored_answers_def enc_ns_answers_def answer_count_def dec_any_list_def is_ok_iff
      and_then_Inr_iff split: option.splits if_splits)
    (auto simp: dec_all_enc [of Some "\<lambda>x. x", simplified])

definition question_copied :: "template_question \<Rightarrow> sheet_question \<Rightarrow> bool" where
  "question_copied t s \<longleftrightarrow>
     xq_type s = Some (tq_type t) \<and> xq_score s = tq_score t \<and> xq_content s = tq_content t \<and>
     xq_options s = text_or_null (tq_options t) \<and> xq_analysis s = tq_analysis t \<and> xq_title s = tq_title t \<and>
     xq_input s = tq_input t \<and> xq_output s = tq_output t \<and> xq_example s = text_or_null (tq_example t) \<and>
     xq_repo s = text_or_null (tq_repo t) \<and> xq_order s = tq_order t \<and>
     (tq_type t \<notin> {''06'', ''08'', ''10'', ''12''} \<longrightarrow> xq_answers s = text_or_null (tq_answers t))"

lemma loaded_copy:
  assumes "new_question uid now gid (t\<lparr>tq_answer_num := n\<rparr>) = Inr q0" and "q = q0\<lparr>xq_id := j\<rparr>"
    and "tq_type t \<notin> {''06'', ''08'', ''10'', ''12''} \<longrightarrow> is_ok (answer_count (text_or_null (tq_answers t)))"
  shows "\<exists>s. load_question True True q = Inr s \<and> question_copied t s"
proof -
  from assms(1) obtain r where r: "stored_answers (tq_type t) (tq_score t) (tq_sub_score t) (tq_answers t) = Inr r"
    and q0: "xq_answers q0 = r" by (auto simp: new_question_def and_then_Inr_iff)
  have "is_ok (answer_count (text_or_null r))"
  proof (cases "tq_type t \<in> {''06'', ''08'', ''10'', ''12''}")
    case True
    with r show ?thesis by (rule answer_count_stored)
  next
    case False
    then have "r = tq_answers t" using r by (simp only: stored_answers_def if_False sum.inject)
    with False assms(3) show ?thesis by simp
  qed
  then obtain k where "answer_count (text_or_null r) = Inr k" by (auto simp: is_ok_iff)
  with assms(1,2) q0 r show ?thesis
    by (auto simp: load_question_def decoded_question_def question_copied_def new_question_def and_then_Inr_iff
        Let_def stored_answers_def)
qed

lemma each_ok_rel2:
  assumes "list_all2 R xs ys" and "\<And>x y. x \<in> set xs \<Longrightarrow> R x y \<Longrightarrow> \<exists>s. f y = Inr s \<and> S x s"
  shows "\<exists>ss. each_ok f ys = Inr ss \<and> list_all2 S xs ss"
  using assms
proof (induction rule: list_all2_induct)
  case (Cons x xs y ys)
  then obtain s ss where "f y = Inr s" "S x s" "each_ok f ys = Inr ss" "list_all2 S xs ss" by force
  then show ?case by simp
qed simp

lemma find_append_none: "\<forall>x \<in> set xs. \<not> p x \<Longrightarrow> find p (xs @ ys) = find p ys"
  by (induction xs) auto

lemma distinct_order: "distinct (map f (order_nulls_last k xs)) \<longleftrightarrow> distinct (map f xs)"
  by (metis mset_eq_imp_distinct_iff mset_map mset_order_nulls_last)

text \<open>
  (C31) A published paper is its template: if the groups of the template have different ids and
  different order numbers and the answers of its choice and judgement questions are arrays or
  \<open>null\<close>, the paper, read back, has the groups of the template in their order and in
  each the questions of the template in theirs, with type, points, texts, options and, for choice
  questions, answers unchanged.
\<close>

theorem paper_copies_template:
  assumes "GenerateExamPaper fault now T paperId uid db = Inr (i, db')" and "paper_db_wf db"
    and "T paperId = Some t" and "pt_groups t = Some gs"
    and "distinct (map tg_order gs)" and "distinct (map tg_id gs)"
    and "\<forall>g \<in> set gs. \<forall>q \<in> set (tg_questions g). tq_type q \<notin> {''06'', ''08'', ''10'', ''12''} \<longrightarrow>
      is_ok (answer_count (text_or_null (tq_answers q)))"
  shows "\<exists>p pg m. LoadExamPaperDetailsById (\<lambda>_. False) i True True True db' = Inr (p, pg, m) \<and>
    xp_name p = pt_name t \<and>
    list_all2 (\<lambda>tg g. xg_name g = tg_name tg \<and> xg_order g = tg_order tg \<and>
        (\<exists>qs. m (xg_id g) = Some qs \<and>
           list_all2 question_copied (order_nulls_last tq_order (tg_questions tg)) qs))
      (order_nulls_last tg_order gs) pg"
proof -
  let ?load = "each_ok (load_question True True)"
  let ?gs = "order_nulls_last tg_order gs" and ?pg = "paper_groups db' i"
  from assms(1,3,4) obtain pq ids qs where i: "i = pp_next_paper db" and ne: "gs \<noteq> []"
    and papers: "pp_papers db' = pp_papers db @ [\<lparr>xp_id = i, xp_session = None, xp_practice = None, xp_name = pt_name t,
        xp_creator = uid, xp_create_time = now, xp_update_time = now, xp_status = ''00''\<rparr>]"
    by (rule generated) auto
  have pos: "0 < i" using assms(2) i by (simp add: paper_db_wf_def)
  have "\<forall>p \<in> set (pp_papers db). xp_id p \<noteq> i" using assms(2) i by (auto simp: paper_db_wf_def)
  then have "sql_first (\<lambda>p. xp_id p = i \<and> xp_status p = ''00'') (pp_papers db @ [x]) =
      sql_first (\<lambda>p. xp_id p = i \<and> xp_status p = ''00'') [x]" for x
    by (simp add: sql_first_def find_append_none)
  then obtain p where p: "sql_first (\<lambda>p. xp_id p = i \<and> xp_status p = ''00'') (pp_papers db') = Some p"
    "xp_name p = pt_name t"
    unfolding papers by (simp add: sql_first_def)
  have rel: "list_all2 (\<lambda>tg g. xg_name g = tg_name tg \<and> xg_order g = tg_order tg \<and>
      (\<exists>qs. ?load (group_questions db' (xg_id g)) = Inr qs \<and>
        list_all2 question_copied (order_nulls_last tq_order (tg_questions tg)) qs)) ?gs ?pg"
  proof (rule list.rel_mono_strong [OF new_group_questions [OF assms(1,3,4,2,5,6)]], elim conjE, intro conjI)
    fix tg g
    assume tg: "tg \<in> set ?gs" and r: "list_all2 (\<lambda>t q. \<exists>q0. new_question uid now (xg_id g)
        (t\<lparr>tq_answer_num := length (tq_sub_score t)\<rparr>) = Inr q0 \<and> q = q0\<lparr>xq_id := xq_id q\<rparr>)
      (order_nulls_last tq_order (tg_questions tg)) (group_questions db' (xg_id g))"
    show "\<exists>qs. ?load (group_questions db' (xg_id g)) = Inr qs \<and>
        list_all2 question_copied (order_nulls_last tq_order (tg_questions tg)) qs"
      by (rule each_ok_rel2 [OF r]) (use tg assms(7) in \<open>auto intro!: loaded_copy\<close>)
  qed
  have ok: "\<forall>g \<in> set ?pg. is_ok (?load (group_questions db' (xg_id g)))"
    by (rule rel_all [OF rel]) auto
  have d: "distinct (map xg_id ?pg)"
    using distinct_new_groups [of "pp_next_group db" i uid now gs] unfolding new_paper_groups [OF assms(1,3,4,2)]
    by (simp add: distinct_order)
  let ?m = "fold (\<lambda>g. add_entry (xg_id g) (projr (?load (group_questions db' (xg_id g))))) ?pg Map.empty"
  have m: "?m (xg_id g) = Some (projr (?load (group_questions db' (xg_id g))))" if "g \<in> set ?pg" for g
    by (rule fold_entry [OF d that]) simp
  have "?pg \<noteq> []" using ne list_all2_lengthD [OF rel] by (metis length_0_conv mset_order_nulls_last size_mset)
  then have "LoadExamPaperDetailsById (\<lambda>_. False) i True True True db' = Inr (p, map decoded_group ?pg, ?m)"
    using ok pos p(1) load_groups_eq [of db' True True ?pg Map.empty] by (simp add: LoadExamPaperDetailsById_def Let_def)
  moreover have "list_all2 (\<lambda>tg g. xg_name g = tg_name tg \<and> xg_order g = tg_order tg \<and>
        (\<exists>qs. ?m (xg_id g) = Some qs \<and> list_all2 question_copied (order_nulls_last tq_order (tg_questions tg)) qs))
      ?gs (map decoded_group ?pg)"
    unfolding list_all2_map2
    by (rule list.rel_mono_strong [OF rel]) (auto simp: m decoded_group_def)
  ultimately show ?thesis using p(2) by blast
qed

lemma batches_small: "xs \<noteq> [] \<Longrightarrow> length xs \<le> n \<Longrightarrow> batches n xs = [xs]"
  by (cases xs) (subst batches.simps, subst batches.simps, auto)+

lemma order_singleton [simp]: "order_nulls_last k [x] = [x]"
  by (simp add: order_nulls_last_def)

definition demo_choice :: template_question where
  "demo_choice = \<lparr>tq_id = 1, tq_type = ''00'', tq_content = None, tq_options = Parsed (JArr []),
     tq_answers = Parsed (JArr [JStr ''B'']), tq_score = Some 2, tq_sub_score = [], tq_analysis = None,
     tq_title = None, tq_answer_file = No_bytes, tq_test_file = No_bytes, tq_input = None, tq_output = None,
     tq_example = No_bytes, tq_repo = No_bytes, tq_order = Some 1, tq_addi = No_bytes, tq_files = No_bytes,
     tq_answer_num = 0\<rparr>"

definition demo_template :: "template_question \<Rightarrow> int \<Rightarrow> paper_template option" where
  "demo_template q i = (if i = 4 then Some \<lparr>pt_name = Some ''paper'', pt_status = Some ''00'',
     pt_groups = Some [\<lparr>tg_id = 8, tg_name = Some ''one'', tg_order = Some 1, tg_questions = [q]\<rparr>]\<rparr> else None)"

definition no_papers :: paper_db where
  "no_papers = \<lparr>pp_papers = [], pp_groups = [], pp_questions = [], pp_rows = [], pp_next_paper = 1,
     pp_next_group = 1, pp_next_question = 1\<rparr>"

lemma demo_generated:
  assumes "new_question 3 9 1 (q\<lparr>tq_answer_num := length (tq_sub_score q)\<rparr>) = Inr x"
  shows "\<exists>db'. GenerateExamPaper (\<lambda>_. False) 9 (demo_template q) 4 3 no_papers = Inr (1, db') \<and>
    pp_questions db' = [x\<lparr>xq_id := 1\<rparr>]"
  using assms by (simp add: GenerateExamPaper_def LoadPaperTemplateById_def demo_template_def add_entry_def
      no_papers_def batches_small insert_questions_def Let_def)

theorem paper_copies_template_witness:
  "\<exists>db' p pg m. GenerateExamPaper (\<lambda>_. False) 9 (demo_template demo_choice) 4 3 no_papers = Inr (1, db') \<and>
    LoadExamPaperDetailsById (\<lambda>_. False) 1 True True True db' = Inr (p, pg, m) \<and> xp_name p = Some ''paper'' \<and>
    map xg_name pg = [Some ''one''] \<and> (\<exists>s. m (xg_id (hd pg)) = Some [s] \<and> question_copied demo_choice s)"
proof -
  have t: "demo_template demo_choice 4 = Some \<lparr>pt_name = Some ''paper'', pt_status = Some ''00'',
      pt_groups = Some [\<lparr>tg_id = 8, tg_name = Some ''one'', tg_order = Some 1, tg_questions = [demo_choice]\<rparr>]\<rparr>"
    by (simp add: demo_template_def)
  obtain x where "new_question 3 9 1 (demo_choice\<lparr>tq_answer_num := length (tq_sub_score demo_choice)\<rparr>) = Inr x"
    by (simp add: new_question_def stored_answers_def demo_choice_def)
  from demo_generated [OF this] obtain db' where
    run: "GenerateExamPaper (\<lambda>_. False) 9 (demo_template demo_choice) 4 3 no_papers = Inr (1, db')" by blast
  have wf: "paper_db_wf no_papers" by (simp add: paper_db_wf_def no_papers_def)
  have "answer_count (text_or_null (tq_answers demo_choice)) = Inr 1"
    by (simp add: demo_choice_def answer_count_def dec_any_list_def)
  with paper_copies_template [OF run wf t] run show ?thesis
    by (auto simp: list_all2_Cons1)
qed

section \<open>Every student gets every question\<close>

definition entry :: "(int \<Rightarrow> 'q list option) \<Rightarrow> int \<Rightarrow> 'q list" where
  "entry pq i = (case pq i of None \<Rightarrow> [] | Some qs \<Rightarrow> qs)"

definition same_sheet :: "sheet \<Rightarrow> sheet \<Rightarrow> bool" where
  "same_sheet pq pq' \<longleftrightarrow> (\<forall>i. mset (entry pq i) = mset (entry pq' i))"

definition sheet_student :: "sheet_request \<Rightarrow> sheet_row \<Rightarrow> int option" where
  "sheet_student req a = (if gr_category req = ''00'' then an_examinee_id a else an_practice_id a)"

lemma same_sheet_refl [simp]: "same_sheet pq pq"
  by (simp add: same_sheet_def)

lemma same_sheet_trans: "same_sheet a b \<Longrightarrow> same_sheet b c \<Longrightarrow> same_sheet a c"
  by (simp add: same_sheet_def)

lemma sheet_of_simps [simp]:
  "an_question_id (sheet_of blank req uid now s g q order x) = xq_id q"
  "sh_order (sheet_of blank req uid now s g q order x) = Some order"
  "sh_group (sheet_of blank req uid now s g q order x) = Some g"
  "gr_category req \<in> {''00'', ''02''} \<Longrightarrow> sheet_student req (sheet_of blank req uid now s g q order x) = Some s"
  by (auto simp: sheet_of_def sheet_student_def)

lemma question_sheets_rows:
  "question_sheets rnd blank req uid now s g qs order k = Inr (rows, order', k') \<Longrightarrow>
    gr_category req \<in> {''00'', ''02''} \<Longrightarrow>
    order' = order + int (length rows) \<and> map an_question_id rows = map xq_id qs \<and>
    map sh_order rows = map (\<lambda>j. Some (order + int j)) [0..<length rows] \<and>
    (\<forall>a \<in> set rows. sheet_student req a = Some s \<and> sh_group a = Some g)"
proof (induction rnd blank req uid now s g qs order k arbitrary: rows order' k' rule: question_sheets.induct)
  case (2 rnd blank req uid now s g q qs order k)
  from 2(2) obtain x k1 rows1 where x: "actual_texts rnd (gr_option_random req) k q = Inr (x, k1)"
    and r: "question_sheets rnd blank req uid now s g qs (order + 1) k1 = Inr (rows1, order', k')"
    and rows: "rows = sheet_of blank req uid now s g q order x # rows1"
    by (auto simp: and_then_Inr_iff)
  from 2(1) [OF r 2(3)] 2(3) rows show ?case
    by (simp add: map_upt_Suc add.commute add.left_commute del: upt_Suc)
qed simp

text \<open>
  What the rows \<open>rows\<close> of one student are for the groups \<open>gs\<close> of a paper \<open>pq\<close>, numbered from
  \<open>order\<close>: the groups in order, in each every question once, and in the paper's order unless
  questions are mixed.
\<close>

definition covers_paper ::
    "sheet_request \<Rightarrow> exam_group list \<Rightarrow> sheet \<Rightarrow> int \<Rightarrow> sheet_row list \<Rightarrow> bool" where
  "covers_paper req gs pq order rows \<longleftrightarrow>
     map sh_order rows = map (\<lambda>j. Some (order + int j)) [0..<length rows] \<and>
     map sh_group rows = concat (map (\<lambda>g. replicate (length (entry pq (xg_id g))) (Some (xg_id g))) gs) \<and>
     mset (map (\<lambda>a. (sh_group a, an_question_id a)) rows) =
       mset (concat (map (\<lambda>g. map (\<lambda>q. (Some (xg_id g), xq_id q)) (entry pq (xg_id g))) gs)) \<and>
     (\<not> gr_question_random req \<longrightarrow>
       map an_question_id rows = concat (map (\<lambda>g. map xq_id (entry pq (xg_id g))) gs))"

lemma same_sheet_length: "same_sheet pq pq' \<Longrightarrow> length (entry pq i) = length (entry pq' i)"
  unfolding same_sheet_def by (metis size_mset)

lemma same_sheet_groups:
  assumes "same_sheet pq pq'"
  shows "mset (concat (map (\<lambda>g. map (\<lambda>q. (Some (xg_id g), xq_id q)) (entry pq (xg_id g))) gs)) =
    mset (concat (map (\<lambda>g. map (\<lambda>q. (Some (xg_id g), xq_id q)) (entry pq' (xg_id g))) gs))"
  using assms by (induction gs) (simp_all add: same_sheet_def)

lemma covers_same:
  assumes "same_sheet pq pq'" and "\<not> gr_question_random req \<Longrightarrow> pq' = pq"
  shows "covers_paper req gs pq' order rows = covers_paper req gs pq order rows"
  using same_sheet_groups [OF assms(1), of gs] same_sheet_length [OF assms(1)] assms(2)
  by (auto simp: covers_paper_def)

lemma upt_append_map:
  "map f [0..<a] @ map (\<lambda>j. f (a + j)) [0..<b] = map f [0..<a + b]"
  by (rule nth_equalityI) (auto simp: nth_append)

lemma covers_append:
  assumes "covers_paper req gs1 pq order rows1" and "covers_paper req gs2 pq (order + int (length rows1)) rows2"
  shows "covers_paper req (gs1 @ gs2) pq order (rows1 @ rows2)"
proof -
  have "map sh_order (rows1 @ rows2) = map (\<lambda>j. Some (order + int j)) [0..<length (rows1 @ rows2)]"
    using assms upt_append_map [of "\<lambda>j. Some (order + int j)" "length rows1" "length rows2"]
    by (simp add: covers_paper_def algebra_simps)
  with assms show ?thesis by (simp add: covers_paper_def)
qed

lemma group_column:
  assumes "\<forall>a \<in> set rows. sh_group a = Some g"
  shows "map sh_group rows = replicate (length rows) (Some g) \<and>
    mset (map (\<lambda>a. (sh_group a, an_question_id a)) rows) = image_mset (Pair (Some g)) (mset (map an_question_id rows))"
  using assms by (induction rows) auto

lemma group_sheets_rows:
  "group_sheets rnd blank req uid now s gs pq order k = Inr (rows, pq', k') \<Longrightarrow>
    gr_category req \<in> {''00'', ''02''} \<Longrightarrow>
    covers_paper req gs pq order rows \<and> same_sheet pq pq' \<and> (\<not> gr_question_random req \<longrightarrow> pq' = pq) \<and>
    (\<forall>a \<in> set rows. sheet_student req a = Some s)"
proof (induction rnd blank req uid now s gs pq order k arbitrary: rows pq' k' rule: group_sheets.induct)
  case (1 rnd blank req uid now s pq order k)
  then show ?case by (simp add: covers_paper_def)
next
  case (2 rnd blank req uid now s g gs pq order k)
  define qs k1 where "qs = (if gr_question_random req then shuffled (rnd k) (entry pq (xg_id g)) else entry pq (xg_id g))"
    and "k1 = (if gr_question_random req then Suc k else k)"
  define pq1 where "pq1 = (case pq (xg_id g) of None \<Rightarrow> pq | Some _ \<Rightarrow> pq(xg_id g \<mapsto> qs))"
  have pair: "(if gr_question_random req then (shuffled (rnd k) (case pq (xg_id g) of None \<Rightarrow> [] | Some qs \<Rightarrow> qs), Suc k)
      else ((case pq (xg_id g) of None \<Rightarrow> [] | Some qs \<Rightarrow> qs), k)) = (qs, k1)"
    by (simp add: qs_def k1_def entry_def)
  from 2(2) obtain rows1 order1 k2 rows2 where
    q: "question_sheets rnd blank req uid now s (xg_id g) qs order k1 = Inr (rows1, order1, k2)"
    and r: "group_sheets rnd blank req uid now s gs pq1 order1 k2 = Inr (rows2, pq', k')"
    and rows: "rows = rows1 @ rows2"
    by (auto simp: Let_def pair and_then_Inr_iff pq1_def)
  have same: "same_sheet pq pq1" by (auto simp: same_sheet_def pq1_def qs_def entry_def split: option.splits)
  have plain: "\<not> gr_question_random req \<Longrightarrow> pq1 = pq"
    by (auto simp: pq1_def qs_def entry_def split: option.splits)
  note q' = question_sheets_rows [OF q 2(3)]
  have m: "mset qs = mset (entry pq (xg_id g))" by (simp add: qs_def)
  then have len: "length rows1 = length (entry pq (xg_id g))" using q' by (metis length_map size_mset)
  have one: "covers_paper req [g] pq order rows1"
    unfolding covers_paper_def using q' m len group_column [of rows1 "xg_id g"]
    by (simp add: qs_def multiset.map_comp comp_def)
  from 2(1) [OF refl refl pair [symmetric] pq1_def r 2(3)] have
    "covers_paper req gs pq order1 rows2 \<and> same_sheet pq pq' \<and> (\<not> gr_question_random req \<longrightarrow> pq' = pq) \<and>
      (\<forall>a \<in> set rows2. sheet_student req a = Some s)"
    using covers_same [OF same plain] same_sheet_trans [OF same] plain by auto
  with covers_append [OF one] q' rows show ?case by fastforce
qed

lemma student_sheets_rows:
  assumes "student_sheets rnd blank req uid now gs ss pq k = Inr rows" and "gr_category req \<in> {''00'', ''02''}"
    and "distinct ss"
  shows "(\<forall>s \<in> set ss. covers_paper req gs pq 1 (filter (\<lambda>a. sheet_student req a = Some s) rows)) \<and>
    (\<forall>a \<in> set rows. sheet_student req a \<in> Some ` set ss)"
  using assms
proof (induction ss arbitrary: pq k rows)
  case (Cons s ss)
  from Cons.prems(1) obtain rows1 pq1 k1 rows2 where
    g: "group_sheets rnd blank req uid now s gs pq 1 k = Inr (rows1, pq1, k1)"
    and r: "student_sheets rnd blank req uid now gs ss pq1 k1 = Inr rows2" and rows: "rows = rows1 @ rows2"
    by (auto simp: and_then_Inr_iff)
  note g' = group_sheets_rows [OF g Cons.prems(2)]
  from Cons.IH [OF r] Cons.prems(2,3) have
    r': "\<forall>s \<in> set ss. covers_paper req gs pq 1 (filter (\<lambda>a. sheet_student req a = Some s) rows2)"
    "\<forall>a \<in> set rows2. sheet_student req a \<in> Some ` set ss"
    using covers_same [of pq pq1 req] g' by auto
  have "filter (\<lambda>a. sheet_student req a = Some s) rows = rows1"
    using g' r'(2) Cons.prems(3) rows by (auto simp: filter_empty_conv intro!: filter_True)
  moreover have "filter (\<lambda>a. sheet_student req a = Some t) rows = filter (\<lambda>a. sheet_student req a = Some t) rows2"
    if "t \<in> set ss" for t
    using g' that Cons.prems(3) rows by (auto simp: filter_empty_conv)
  ultimately show ?case using g' r' rows by auto
qed simp

lemma insert_row_batches:
  "for_each (insert_rows fault) bs db = Inr db' \<Longrightarrow> db' = db\<lparr>pp_rows := pp_rows db @ concat bs\<rparr>"
proof (induction bs arbitrary: db)
  case (Cons b bs)
  then obtain db1 where b: "insert_rows fault b db = Inr db1" and bs: "for_each (insert_rows fault) bs db1 = Inr db'"
    by (auto split: sum.splits)
  from b have "db1 = db\<lparr>pp_rows := pp_rows db @ b\<rparr>" by (auto simp: insert_rows_def split: if_splits)
  with Cons.IH [OF bs] show ?case by simp
qed simp

text \<open>
  (C33) Every student of the request gets a row for every question of the paper, once, numbered
  from 1 in the order of the groups, and the questions of a group in the paper's order unless
  they are mixed; nobody else gets a row, and no row that was there changes.
\<close>

theorem one_row_per_question:
  assumes "GenerateAnswerQuestion fault rnd blank now req uid db = Inr db'"
    and "LoadExamPaperDetailsById fault (gr_paper req) True True True db = Inr (p, gs, pq)"
    and "distinct (sheet_students req)"
  shows "\<exists>rows. db' = db\<lparr>pp_rows := pp_rows db @ rows\<rparr> \<and>
    (\<forall>s \<in> set (sheet_students req). covers_paper req gs pq 1 (filter (\<lambda>a. sheet_student req a = Some s) rows)) \<and>
    (\<forall>a \<in> set rows. sheet_student req a \<in> Some ` set (sheet_students req))"
proof -
  from assms(1,2) obtain rows where v: "valid_sheet_request req"
    and r: "student_sheets rnd blank req uid now gs (sheet_students req) pq 0 = Inr rows"
    and ins: "for_each (insert_rows fault) (batches 500 rows) db = Inr db'"
    by (auto simp: GenerateAnswerQuestion_def and_then_Inr_iff split: if_splits)
  from v have c: "gr_category req \<in> {''00'', ''02''}" by (simp add: valid_sheet_request_def)
  from student_sheets_rows [OF r c assms(3)] insert_row_batches [OF ins] show ?thesis
    by (auto simp: concat_batches)
qed

section \<open>What a student sees\<close>

lemma load_question_hidden:
  "load_question False False q = Inr s \<Longrightarrow> xq_analysis s = None \<and> xq_answers s = No_bytes \<and> xs_score s = None"
  by (auto simp: load_question_def Let_def and_then_Inr_iff decoded_question_def)

definition sheet_all :: "(sheet_question \<Rightarrow> bool) \<Rightarrow> sheet \<Rightarrow> bool" where
  "sheet_all P m \<longleftrightarrow> (\<forall>i qs q. m i = Some qs \<longrightarrow> q \<in> set qs \<longrightarrow> P q)"

lemma load_groups_all:
  assumes "load_groups db wa wb gs m = Inr m'" and "sheet_all P m"
    and "\<And>q s. load_question wa wb q = Inr s \<Longrightarrow> P s"
  shows "sheet_all P m'"
  using assms
proof (induction gs arbitrary: m)
  case (Cons g gs)
  from Cons.prems(1) obtain qs where qs: "each_ok (load_question wa wb) (group_questions db (xg_id g)) = Inr qs"
    and r: "load_groups db wa wb gs (add_entry (xg_id g) qs m) = Inr m'" by (auto simp: and_then_Inr_iff)
  have "\<forall>q \<in> set qs. P q" using qs [unfolded each_ok_rel] by (rule rel_all) (rule Cons.prems(3))
  then have "sheet_all P (add_entry (xg_id g) qs m)"
    using Cons.prems(2) by (cases "m (xg_id g)") (auto simp: sheet_all_def add_entry_def)
  with Cons.IH [OF r] Cons.prems(3) show ?case by blast
qed simp

lemma merge_rows_all:
  assumes "merge_rows ws ids rs pq = Inr pq'" and "sheet_all P pq"
    and "\<And>r q. r \<in> set rs \<Longrightarrow> P q \<Longrightarrow> P (merge_question ws r q)"
  shows "sheet_all P pq'"
  using assms
proof (induction rs arbitrary: pq)
  case (Cons r rs)
  from Cons.prems(1) have "merge_rows ws ids rs (\<lambda>i. map_option (map (\<lambda>q.
      if xq_id q = sr_question r then merge_question ws r q else q)) (pq i)) = Inr pq'"
    by (simp split: if_splits)
  moreover have "sheet_all P (\<lambda>i. map_option (map (\<lambda>q. if xq_id q = sr_question r then merge_question ws r q else q)) (pq i))"
    using Cons.prems(2,3) by (auto simp: sheet_all_def)
  ultimately show ?case using Cons.IH Cons.prems(3) by simp
qed simp

lemma load_paper_groups:
  "LoadExamPaperDetailsById fault i True wa wb db = Inr (p, gs, m) \<Longrightarrow>
    load_groups db wa wb (paper_groups db i) Map.empty = Inr m \<and> gs = map decoded_group (paper_groups db i)"
  by (auto simp: LoadExamPaperDetailsById_def Let_def and_then_Inr_iff split: if_splits option.splits)

lemma merge_rows_own:
  assumes "merge_rows ws ids rs pq = Inr pq'" and "\<forall>r' \<in> set rs. sr_question r' = sr_question r \<longrightarrow> r' = r"
    and "r \<in> set rs \<or> sheet_all (\<lambda>q. xq_id q = sr_question r \<longrightarrow> xq_options q = sr_options r \<and> xq_order q = sr_order r) pq"
  shows "sheet_all (\<lambda>q. xq_id q = sr_question r \<longrightarrow> xq_options q = sr_options r \<and> xq_order q = sr_order r) pq'"
  using assms
proof (induction rs arbitrary: pq)
  case (Cons x rs)
  let ?pq = "\<lambda>i. map_option (map (\<lambda>q. if xq_id q = sr_question x then merge_question ws x q else q)) (pq i)"
  from Cons.prems(1) have run: "merge_rows ws ids rs ?pq = Inr pq'" by (simp split: if_splits)
  show ?case
  proof (cases "x = r")
    case True
    then have "sheet_all (\<lambda>q. xq_id q = sr_question r \<longrightarrow> xq_options q = sr_options r \<and> xq_order q = sr_order r) ?pq"
      by (auto simp: sheet_all_def merge_question_def)
    with Cons.IH [OF run] Cons.prems(2) show ?thesis by simp
  next
    case False
    then have "sr_question x \<noteq> sr_question r" using Cons.prems(2) by auto
    then have "r \<in> set rs \<or> sheet_all (\<lambda>q. xq_id q = sr_question r \<longrightarrow> xq_options q = sr_options r \<and> xq_order q = sr_order r) ?pq"
      using Cons.prems(3) False by (auto simp: sheet_all_def merge_question_def)
    with Cons.IH [OF run] Cons.prems(2) show ?thesis by simp
  qed
qed simp

definition sheet_owner :: "int \<Rightarrow> int \<Rightarrow> sheet_row \<Rightarrow> bool" where
  "sheet_owner ps ex a \<longleftrightarrow>
     (if 0 < ps \<and> ex \<le> 0 then an_practice_id a = Some ps else an_examinee_id a = Some ex)"

lemma user_load:
  assumes "LoadExamPaperDetailByUserId fault i ps ex sa wa ws db = Inr (p, gs, pq)"
  obtains m where "LoadExamPaperDetailsById fault i True wa ws db = Inr (p, gs, m)"
    and "merge_rows ws (map xg_id gs) (show_rows db (sheet_owner ps ex) sa wa ws) m = Inr pq"
proof -
  have mine: "(if 0 < ps \<and> ex \<le> 0 then (\<lambda>a. an_practice_id a = Some ps) else (\<lambda>a. an_examinee_id a = Some ex)) =
      sheet_owner ps ex" by (auto simp: sheet_owner_def fun_eq_iff)
  from assms show thesis
    unfolding LoadExamPaperDetailByUserId_def Let_def mine
    by (auto simp: and_then_Inr_iff split: if_splits intro: that)
qed

lemma mem_show_rows:
  "r \<in> set (show_rows db mine sa wa ws) \<longleftrightarrow>
    (\<exists>a \<in> set (pp_rows db). \<exists>q \<in> set (pp_questions db). mine a \<and> xq_id q = an_question_id a \<and> r = show_row sa wa ws q a)"
  by (auto simp: show_rows_def)

lemma show_row_simps [simp]:
  "sr_question (show_row sa wa ws q a) = an_question_id a" "sr_order (show_row sa wa ws q a) = sh_order a"
  "sr_options (show_row sa wa ws q a) =
    scanned (if xq_type q \<in> Some ` {''00'', ''02'', ''04''} then sh_options a else xq_options q)"
  "sr_score (show_row sa wa False q a) = None" "sr_answers (show_row sa False ws q a) = Parsed (JObj [])"
  by (simp_all add: show_row_def Let_def scanned_def)

text \<open>
  (C34) A student who asks for the own paper sees, for each question, the options and the place
  of the own row, and neither standard answers nor points nor explanations.
\<close>

theorem student_sees_own_sheet:
  assumes "LoadExamPaperDetailByUserId fault i ps ex sa False False db = Inr (p, gs, pq)"
    and "pq g = Some qs" and "q \<in> set qs"
  shows "xq_analysis q = None \<and> xs_score q = None \<and> xq_answers q \<in> {No_bytes, Parsed (JObj [])} \<and>
    (\<forall>a \<in> set (pp_rows db). \<forall>q0 \<in> set (pp_questions db).
       sheet_owner ps ex a \<and> an_question_id a = xq_id q \<and> xq_id q0 = xq_id q \<and>
       (\<forall>b \<in> set (pp_rows db). sheet_owner ps ex b \<and> an_question_id b = xq_id q \<longrightarrow> b = a) \<and>
       (\<forall>q1 \<in> set (pp_questions db). xq_id q1 = xq_id q \<longrightarrow> q1 = q0) \<longrightarrow>
       xq_order q = sh_order a \<and>
       xq_options q = scanned (if xq_type q0 \<in> Some ` {''00'', ''02'', ''04''} then sh_options a else xq_options q0))"
proof -
  let ?rows = "show_rows db (sheet_owner ps ex) sa False False"
  from assms(1) obtain m where l: "LoadExamPaperDetailsById fault i True False False db = Inr (p, gs, m)"
    and mr: "merge_rows False (map xg_id gs) ?rows m = Inr pq" by (rule user_load)
  have "sheet_all (\<lambda>s. xq_analysis s = None \<and> xq_answers s = No_bytes \<and> xs_score s = None) m"
    by (rule load_groups_all [OF conjunct1 [OF load_paper_groups [OF l]]])
      (auto simp: sheet_all_def dest: load_question_hidden)
  then have "sheet_all (\<lambda>s. xq_analysis s = None \<and> xs_score s = None \<and> xq_answers s \<in> {No_bytes, Parsed (JObj [])}) m"
    by (fastforce simp: sheet_all_def)
  then have "sheet_all (\<lambda>s. xq_analysis s = None \<and> xs_score s = None \<and> xq_answers s \<in> {No_bytes, Parsed (JObj [])}) pq"
    by (rule merge_rows_all [OF mr]) (auto simp: merge_question_def mem_show_rows)
  moreover have "xq_order q = sh_order a \<and>
      xq_options q = scanned (if xq_type q0 \<in> Some ` {''00'', ''02'', ''04''} then sh_options a else xq_options q0)"
    if a: "a \<in> set (pp_rows db)" "q0 \<in> set (pp_questions db)" "sheet_owner ps ex a" "an_question_id a = xq_id q"
      "xq_id q0 = xq_id q" and
      u: "\<forall>b \<in> set (pp_rows db). sheet_owner ps ex b \<and> an_question_id b = xq_id q \<longrightarrow> b = a"
      "\<forall>q1 \<in> set (pp_questions db). xq_id q1 = xq_id q \<longrightarrow> q1 = q0" for a q0
  proof -
    let ?r = "show_row sa False False q0 a"
    have r: "?r \<in> set ?rows" unfolding mem_show_rows using a by metis
    have i: "sr_question ?r = xq_id q" using a by simp
    have "\<forall>r' \<in> set ?rows. sr_question r' = sr_question ?r \<longrightarrow> r' = ?r"
    proof (intro ballI impI)
      fix r' assume "r' \<in> set ?rows" and "sr_question r' = sr_question ?r"
      then obtain b q1 where "b \<in> set (pp_rows db)" "q1 \<in> set (pp_questions db)" "sheet_owner ps ex b"
        "xq_id q1 = an_question_id b" "r' = show_row sa False False q1 b" "an_question_id b = xq_id q"
        using a(4) by (auto simp: mem_show_rows)
      with u show "r' = ?r" by metis
    qed
    from merge_rows_own [OF mr this] r i
    have "sheet_all (\<lambda>s. xq_id s = xq_id q \<longrightarrow> xq_options s = sr_options ?r \<and> xq_order s = sr_order ?r) pq" by simp
    with assms(2,3) show ?thesis by (auto simp: sheet_all_def)
  qed
  ultimately show ?thesis using assms(2,3) unfolding sheet_all_def by blast
qed

section \<open>Points of blanks\<close>

lemma dec_fields_inv:
  assumes "dec_fields f kvs r = Some r'" and "P r" and "\<And>k j r r'. f k j r = Some r' \<Longrightarrow> P r \<Longrightarrow> P r'"
  shows "P r'"
  using assms(1,2)
proof (induction kvs arbitrary: r)
  case (Cons kv kvs)
  obtain k j where kv: "kv = (k, j)" by fastforce
  with Cons.prems(1) obtain r1 where r1: "f k j r = Some r1" and run: "dec_fields f kvs r1 = Some r'"
    by (auto split: option.splits)
  show ?case by (rule Cons.IH [OF run assms(3) [OF r1 Cons.prems(2)]])
qed simp

lemma dec_all_inv:
  "dec_all f js = Some xs \<Longrightarrow> (\<And>j x. f j = Some x \<Longrightarrow> P x) \<Longrightarrow> \<forall>x \<in> set xs. P x"
  by (induction f js arbitrary: xs rule: dec_all.induct) (auto split: option.splits)

text \<open>A decoded index fits the 64 bits of an \<open>int\<close>.\<close>

lemma ns_index_range:
  assumes "dec_ns_answers j = Some as" and "a \<in> set as"
  shows "min_int64 \<le> ns_index a \<and> ns_index a \<le> max_int64"
proof -
  have one: "min_int64 \<le> ns_index x \<and> ns_index x \<le> max_int64" if "dec_struct ns_field
      \<lparr>ns_index = 0, ns_answer = [], ns_alternative = None, ns_score = 0, ns_rule = []\<rparr> j = Some x" for j x
  proof (cases j)
    case (JObj kvs)
    with that have "dec_fields ns_field kvs \<lparr>ns_index = 0, ns_answer = [], ns_alternative = None, ns_score = 0,
        ns_rule = []\<rparr> = Some x" by simp
    then show ?thesis
    proof (rule dec_fields_inv)
      fix k j r r' assume "ns_field k j r = Some r'" and "min_int64 \<le> ns_index r \<and> ns_index r \<le> max_int64"
      then show "min_int64 \<le> ns_index r' \<and> ns_index r' \<le> max_int64"
        by (auto simp: ns_field_def split: if_splits elim!: dec_int.elims)
    qed (simp add: min_int64_def max_int64_def)
  qed (use that in \<open>auto simp: min_int64_def max_int64_def\<close>)
  from assms show ?thesis
    by (cases j) (auto simp: dec_ns_answers_def dest!: dec_all_inv [OF _ one])
qed

lemma fold_keys_ns [simp]:
  "fold_key ''alternative_answer'' = ''alternative_answer''" "fold_key ''grading_rule'' = ''grading_rule''"
  "fold_key ''index'' = ''index''" "fold_key ''score'' = ''score''" "fold_key ''answer'' = ''answer''"
  by code_simp+

lemma dec_given_ns:
  assumes "min_int64 \<le> ns_index a \<and> ns_index a \<le> max_int64" and "f64_round (ns_score a) = ns_score a"
    and "\<bar>ns_score a\<bar> < pow2 1024"
  shows "dec_struct given_field \<lparr>gv_index = 0, gv_score = 0\<rparr> (enc_ns_answer a) =
    Some \<lparr>gv_index = ns_index a, gv_score = ns_score a\<rparr>"
  using assms by (simp add: enc_ns_answer_def given_field_def)

lemma dec_all_map:
  "(\<And>x. x \<in> set xs \<Longrightarrow> f (e x) = Some (g x)) \<Longrightarrow> dec_all f (map e xs) = Some (map g xs)"
  by (induction xs) simp_all

text \<open>What \<open>GenerateExamPaper\<close> stores as the points of the parts: those of the whole question.\<close>

lemma stored_points:
  assumes "stored_answers type (Some x) subs an = Inr r" and "type \<in> {''06'', ''08'', ''10'', ''12''}"
    and "f64_round x = x" and "\<bar>x\<bar> < pow2 1024"
  obtains as gs where "unmarshal dec_ns_answers an = Some as" and "unmarshal dec_given r = Some gs"
    and "map gv_index gs = map ns_index as" and "\<forall>g \<in> set gs. gv_score g = x"
proof -
  from assms(2) have "(type \<in> {''06'', ''08'', ''10'', ''12''}) = True" by simp
  note r0 = assms(1) [unfolded stored_answers_def this if_True]
  have fx: "Float64 (Some x) = x" by (simp add: Float64_def)
  from r0 obtain as where as: "unmarshal dec_ns_answers an = Some as" by (cases "unmarshal dec_ns_answers an") simp_all
  have "\<exists>as1. map ns_index as1 = map ns_index as \<and> r = enc_ns_answers an (map (\<lambda>a. a\<lparr>ns_score := x\<rparr>) as1)"
  proof (cases "type = ''06''")
    case True
    with r0 as have "length as = length subs"
      and "r = enc_ns_answers an (map (\<lambda>a. a\<lparr>ns_score := x\<rparr>) (map2 (\<lambda>a x. a\<lparr>ns_score := x\<rparr>) as subs))"
      by (auto simp: fx split: if_splits)
    then show ?thesis by (intro exI [of _ "map2 (\<lambda>a x. a\<lparr>ns_score := x\<rparr>) as subs"]) (simp add: list_eq_iff_nth_eq)
  qed (use r0 as fx in auto)
  then obtain as1 where idx: "map ns_index as1 = map ns_index as"
    and r: "r = enc_ns_answers an (map (\<lambda>a. a\<lparr>ns_score := x\<rparr>) as1)" by blast
  show thesis
  proof (cases "an = Parsed JNull")
    case True
    with as have "as = []" by (simp add: dec_ns_answers_def)
    with True r idx show thesis by (intro that [OF as, of "[]"]) (simp_all add: enc_ns_answers_def dec_given_def)
  next
    case False
    from as obtain j where j: "dec_ns_answers j = Some as" by (cases an) (simp_all add: unmarshal_def)
    have range: "min_int64 \<le> ns_index a \<and> ns_index a \<le> max_int64" if "a \<in> set as1" for a
      using ns_index_range [OF j] idx that by (metis in_set_conv_nth length_map nth_map)
    have "dec_all (dec_struct given_field \<lparr>gv_index = 0, gv_score = 0\<rparr>) (map (\<lambda>a. enc_ns_answer (a\<lparr>ns_score := x\<rparr>)) as1) =
        Some (map (\<lambda>a. \<lparr>gv_index = ns_index a, gv_score = x\<rparr>) as1)"
      by (rule dec_all_map, subst dec_given_ns) (use range assms(3,4) in auto)
    with False r have "unmarshal dec_given r = Some (map (\<lambda>a. \<lparr>gv_index = ns_index a, gv_score = x\<rparr>) as1)"
      by (simp add: enc_ns_answers_def dec_given_def comp_def)
    then show thesis by (rule that [OF as]) (use idx in \<open>simp_all add: comp_def\<close>)
  qed
qed

lemma new_questions_from:
  "new_questions uid now ids pq gs = Inr qs \<Longrightarrow> q \<in> set qs \<Longrightarrow> \<exists>t gid. new_question uid now gid t = Inr q"
proof (induction gs arbitrary: qs)
  case (Cons g gs)
  from Cons.prems(1) obtain gid new rest where
    new: "each_ok (new_question uid now gid) (case pq (tg_id g) of None \<Rightarrow> [] | Some qs \<Rightarrow> qs) = Inr new"
    and rest: "new_questions uid now ids pq gs = Inr rest" and qs: "qs = new @ rest"
    by (auto simp: and_then_Inr_iff split: option.splits)
  have "\<forall>q \<in> set new. \<exists>t gid. new_question uid now gid t = Inr q"
    using new [unfolded each_ok_rel] by (rule rel_all) blast
  with Cons.IH [OF rest] Cons.prems(2) qs show ?case by auto
qed simp

lemma mem_number: "q \<in> set (number_questions n qs) \<Longrightarrow> \<exists>q0 \<in> set qs. \<exists>j. q = q0\<lparr>xq_id := j\<rparr>"
  by (induction n qs rule: number_questions.induct) auto

lemma given_map_const: "\<forall>g \<in> set gs. gv_score g = x \<Longrightarrow> i \<in> gv_index ` set gs \<Longrightarrow> given_map gs i = x"
  by (cases "find (\<lambda>g. gv_index g = i) (rev gs)")
    (auto simp: given_map_eq find_None_iff dest: sql_first_Some [unfolded sql_first_def])

text \<open>
  Publishing gives every blank, and every part of a written question, the points of the
  whole question: the points set for each blank are lost, and a marker may give all of the
  question's points for each part.
\<close>

lemma blanks_worth_whole_question:
  assumes "GenerateExamPaper fault now T paperId uid db = Inr (i, db')" and "T paperId = Some t"
    and "pt_groups t = Some tgs" and "q \<in> set (pp_questions db')" and "q \<notin> set (pp_questions db)"
    and "xq_type q \<in> Some ` {''06'', ''08'', ''10'', ''12''}" and "xq_score q = Some x"
    and "f64_round x = x" and "0 \<le> x" and "x < pow2 1024"
  shows "\<exists>gs. unmarshal dec_given (xq_answers q) = Some gs \<and> (\<forall>g \<in> set gs. gv_score g = x) \<and>
    (\<forall>ds. (\<forall>d \<in> set ds. dt_index d \<in> gv_index ` set gs \<and> dt_index d \<le> int (length gs) \<and>
          0 \<le> dt_score d \<and> dt_score d \<le> x) \<longrightarrow>
       check_details (int (length gs)) (given_map gs) ds 0 = Inr (foldl f64_add 0 (map dt_score ds)))"
proof -
  from assms(1-3) obtain pq ids qs where qs: "new_questions uid now ids pq tgs = Inr qs"
    and db': "pp_questions db' = pp_questions db @ number_questions (pp_next_question db) qs"
    by (rule generated) auto
  with assms(4,5) obtain q0 j where "q0 \<in> set qs" and q: "q = q0\<lparr>xq_id := j\<rparr>" by (auto dest: mem_number)
  with new_questions_from [OF qs] obtain t' gid where new: "new_question uid now gid t' = Inr q0" by blast
  have r: "stored_answers (tq_type t') (tq_score t') (tq_sub_score t') (tq_answers t') = Inr (xq_answers q0)"
    "xq_type q0 = Some (tq_type t')" "xq_score q0 = tq_score t'"
    using new by (auto simp: new_question_def and_then_Inr_iff)
  have st: "stored_answers (tq_type t') (Some x) (tq_sub_score t') (tq_answers t') = Inr (xq_answers q)"
    using r q assms(7) by simp
  have ty: "tq_type t' \<in> {''06'', ''08'', ''10'', ''12''}" using r(2) q assms(6) by auto
  have "\<bar>x\<bar> < pow2 1024" using assms(9,10) by simp
  then obtain gs where gs: "unmarshal dec_given (xq_answers q) = Some gs" "\<forall>g \<in> set gs. gv_score g = x"
    by (rule stored_points [OF st ty assms(8)])
  moreover have "check_details (int (length gs)) (given_map gs) ds 0 = Inr (foldl f64_add 0 (map dt_score ds))"
    if "\<forall>d \<in> set ds. dt_index d \<in> gv_index ` set gs \<and> dt_index d \<le> int (length gs) \<and> 0 \<le> dt_score d \<and> dt_score d \<le> x"
    for ds
    unfolding check_details_ok using that given_map_const [OF gs(2)] by (auto simp: detail_ok_def list_all_iff)
  ultimately show ?thesis by blast
qed

text \<open>Blanks for 2 and 3 points: the marker gives 5 for each, and 10 of 5 points are accepted.\<close>

definition demo_blank :: template_question where
  "demo_blank = demo_choice\<lparr>tq_type := ''06'', tq_score := Some 5, tq_sub_score := [2, 3],
     tq_answers := Parsed (JArr [enc_ns_answer \<lparr>ns_index = 1, ns_answer = ''a'', ns_alternative = None, ns_score = 2,
       ns_rule = []\<rparr>, enc_ns_answer \<lparr>ns_index = 2, ns_answer = ''b'', ns_alternative = None, ns_score = 3, ns_rule = []\<rparr>])\<rparr>"

lemma dec_enc_ns:
  assumes "min_int64 \<le> i \<and> i \<le> max_int64" and "f64_round x = x" and "\<bar>x\<bar> < pow2 1024"
  shows "dec_struct ns_field \<lparr>ns_index = 0, ns_answer = [], ns_alternative = None, ns_score = 0, ns_rule = []\<rparr>
    (enc_ns_answer \<lparr>ns_index = i, ns_answer = a, ns_alternative = None, ns_score = x, ns_rule = r\<rparr>) =
    Some \<lparr>ns_index = i, ns_answer = a, ns_alternative = None, ns_score = x, ns_rule = r\<rparr>"
  using assms by (simp add: enc_ns_answer_def ns_field_def)

lemma small_floats: "f64_round 2 = 2" "f64_round 3 = 3" "f64_round 5 = 5"
  "(2 :: rat) < pow2 1024" "(3 :: rat) < pow2 1024" "(5 :: rat) < pow2 1024"
  using f64_small_multiple [of 2 4] f64_small_multiple [of 3 6] f64_small_multiple [of 5 10]
    small_float [of 2] small_float [of 3] small_float [of 5] by simp_all

lemma blanks_worth_whole_question_witness:
  "\<exists>db' q gs. GenerateExamPaper (\<lambda>_. False) 9 (demo_template demo_blank) 4 3 no_papers = Inr (1, db') \<and>
    pp_questions db' = [q] \<and> xq_score q = Some 5 \<and> unmarshal dec_given (xq_answers q) = Some gs \<and>
    (\<forall>g \<in> set gs. gv_score g = 5)"
proof -
  let ?a = "[\<lparr>ns_index = 1, ns_answer = ''a'', ns_alternative = None, ns_score = 2, ns_rule = []\<rparr>,
    \<lparr>ns_index = 2, ns_answer = ''b'', ns_alternative = None, ns_score = 3, ns_rule = []\<rparr>]"
  have d: "unmarshal dec_ns_answers (tq_answers demo_blank) = Some ?a"
    by (simp add: demo_blank_def dec_ns_answers_def dec_enc_ns small_floats min_int64_def max_int64_def)
  have f: "tq_type demo_blank = ''06''" "tq_score demo_blank = Some 5" "tq_sub_score demo_blank = [2, 3]"
    by (simp_all add: demo_blank_def)
  obtain x where x: "new_question 3 9 1 (demo_blank\<lparr>tq_answer_num := length (tq_sub_score demo_blank)\<rparr>) = Inr x"
    and xs: "xq_type x = Some ''06''" "xq_score x = Some 5"
    by (simp add: new_question_def stored_answers_def d f)
  from demo_generated [OF x] obtain db' where
    run: "GenerateExamPaper (\<lambda>_. False) 9 (demo_template demo_blank) 4 3 no_papers = Inr (1, db')"
    and q: "pp_questions db' = [x\<lparr>xq_id := 1\<rparr>]" by blast
  have t: "demo_template demo_blank 4 = Some \<lparr>pt_name = Some ''paper'', pt_status = Some ''00'',
      pt_groups = Some [\<lparr>tg_id = 8, tg_name = Some ''one'', tg_order = Some 1, tg_questions = [demo_blank]\<rparr>]\<rparr>"
    by (simp add: demo_template_def)
  have "\<exists>gs. unmarshal dec_given (xq_answers (x\<lparr>xq_id := 1\<rparr>)) = Some gs \<and> (\<forall>g \<in> set gs. gv_score g = 5)"
    using blanks_worth_whole_question [OF run t, of _ "x\<lparr>xq_id := 1\<rparr>" 5] q xs small_floats
    by (auto simp: no_papers_def)
  with run q xs show ?thesis by auto
qed

section \<open>Two students\<close>

definition demo_exam_question :: exam_question where
  "demo_exam_question = \<lparr>xq_id = 5, xq_score = Some 2, xq_type = Some ''00'', xq_content = None,
     xq_options = Parsed (JArr []), xq_answers = Parsed (JArr [JStr ''B'']), xq_analysis = Some ''why'', xq_title = None,
     xq_answer_file = No_bytes, xq_test_file = No_bytes, xq_input = None, xq_output = None, xq_example = No_bytes,
     xq_repo = No_bytes, xq_creator = Some 3, xq_create_time = None, xq_update_time = None, xq_addi = No_bytes,
     xq_order = Some 1, xq_group = Some 8, xq_files = No_bytes, xq_status = ''00''\<rparr>"

definition demo_papers :: "sheet_row list \<Rightarrow> paper_db" where
  "demo_papers rows = \<lparr>pp_papers = [\<lparr>xp_id = 1, xp_session = None, xp_practice = None, xp_name = None, xp_creator = 3,
       xp_create_time = 0, xp_update_time = 0, xp_status = ''00''\<rparr>],
     pp_groups = [\<lparr>xg_id = 8, xg_paper = Some 1, xg_name = None, xg_order = Some 1, xg_creator = 3,
       xg_create_time = None, xg_update_time = None, xg_status = ''00''\<rparr>],
     pp_questions = [demo_exam_question], pp_rows = rows, pp_next_paper = 2, pp_next_group = 9, pp_next_question = 6\<rparr>"

definition demo_req :: sheet_request where
  "demo_req = \<lparr>gr_paper = 1, gr_category = ''00'', gr_examinees = Some [21, 22], gr_submissions = None,
     gr_question_random = True, gr_option_random = False, gr_attempt = 0\<rparr>"

definition demo_row :: sheet_row where
  "demo_row = \<lparr>an_type = ''00'', an_examinee_id = Some 21, an_practice_id = None, an_question_id = 5, an_answer = [],
     an_creator = 3, an_create_time = 9, an_updated_by = None, an_update_time = None, an_status = ''00'', an_score = None,
     sh_order = Some 1, sh_group = Some 8, sh_options = Parsed (JArr [JNull]), sh_answers = Parsed (JArr [JStr ''A''])\<rparr>"

lemma demo_loaded:
  obtains p gs s where
    "LoadExamPaperDetailsById (\<lambda>_. False) 1 True wa ws (demo_papers rows) = Inr (p, gs, Map.empty(8 \<mapsto> [s]))"
    and "map xg_id gs = [8]" and "xq_id s = 5" and "xq_type s = Some ''00''"
proof -
  have g: "paper_groups (demo_papers rows) 1 = [\<lparr>xg_id = 8, xg_paper = Some 1, xg_name = None, xg_order = Some 1,
      xg_creator = 3, xg_create_time = None, xg_update_time = None, xg_status = ''00''\<rparr>]"
    and q: "group_questions (demo_papers rows) 8 = [demo_exam_question]"
    by (simp_all add: paper_groups_def group_questions_def demo_papers_def demo_exam_question_def)
  obtain s where s: "load_question wa ws demo_exam_question = Inr s" "xq_id s = 5" "xq_type s = Some ''00''"
    by (simp add: load_question_def decoded_question_def demo_exam_question_def answer_count_def dec_any_list_def Let_def)
  have "sql_first (\<lambda>p. xp_id p = 1 \<and> xp_status p = ''00'') (pp_papers (demo_papers rows)) =
      Some (hd (pp_papers (demo_papers rows)))"
    by (simp add: demo_papers_def sql_first_def)
  then have "LoadExamPaperDetailsById (\<lambda>_. False) 1 True wa ws (demo_papers rows) =
      Inr (hd (pp_papers (demo_papers rows)), map decoded_group (paper_groups (demo_papers rows) 1), Map.empty(8 \<mapsto> [s]))"
    by (simp add: LoadExamPaperDetailsById_def g q s(1) add_entry_def)
  with s(2,3) that show thesis by (simp add: g decoded_group_def)
qed

theorem one_row_per_question_witness:
  "\<exists>db' rows. GenerateAnswerQuestion (\<lambda>_. False) (\<lambda>_ _. 0) demo_row 9 demo_req 3 (demo_papers []) = Inr db' \<and>
    pp_rows db' = rows \<and> map an_question_id (filter (\<lambda>a. an_examinee_id a = Some 22) rows) = [5]"
proof -
  obtain p gs s where load: "LoadExamPaperDetailsById (\<lambda>_. False) 1 True True True (demo_papers []) =
      Inr (p, gs, Map.empty(8 \<mapsto> [s]))" and gs: "map xg_id gs = [8]" and s: "xq_id s = 5" "xq_type s = Some ''00''"
    by (rule demo_loaded)
  from gs obtain g where g: "gs = [g]" "xg_id g = 8" by (cases gs) auto
  have st: "sheet_students demo_req = [21, 22]" by (simp add: sheet_students_def demo_req_def)
  have v: "valid_sheet_request demo_req" by (simp add: valid_sheet_request_def demo_req_def)
  have r: "gr_paper demo_req = 1" "gr_question_random demo_req" "\<not> gr_option_random demo_req" "gr_category demo_req = ''00''"
    by (simp_all add: demo_req_def)
  obtain db' where run: "GenerateAnswerQuestion (\<lambda>_. False) (\<lambda>_ _. 0) demo_row 9 demo_req 3 (demo_papers []) = Inr db'"
    by (simp add: GenerateAnswerQuestion_def v r load st g actual_texts_def s shuffled_def Let_def batches_small insert_rows_def)
  have load': "LoadExamPaperDetailsById (\<lambda>_. False) (gr_paper demo_req) True True True (demo_papers []) =
      Inr (p, gs, Map.empty(8 \<mapsto> [s]))" using load r by simp
  from one_row_per_question [OF run load'] st obtain rows where rows: "pp_rows db' = rows"
    and c: "covers_paper demo_req gs (Map.empty(8 \<mapsto> [s])) 1 (filter (\<lambda>a. sheet_student demo_req a = Some 22) rows)"
    by (auto simp: demo_papers_def)
  from c g s have "mset (map (\<lambda>a. (sh_group a, an_question_id a)) (filter (\<lambda>a. sheet_student demo_req a = Some 22) rows)) =
      {#(Some 8, 5)#}" by (simp add: covers_paper_def entry_def)
  then have "image_mset snd (mset (map (\<lambda>a. (sh_group a, an_question_id a))
      (filter (\<lambda>a. an_examinee_id a = Some 22) rows))) = {#5#}"
    by (simp add: sheet_student_def r)
  then have "mset (map an_question_id (filter (\<lambda>a. an_examinee_id a = Some 22) rows)) = {#5#}"
    by (simp add: multiset.map_comp comp_def)
  then have "map an_question_id (filter (\<lambda>a. an_examinee_id a = Some 22) rows) = [5]" by (simp only: mset_single_iff)
  with run rows show ?thesis by (intro exI conjI)
qed

theorem student_sees_own_sheet_witness:
  "\<exists>p gs pq q. LoadExamPaperDetailByUserId (\<lambda>_. False) 1 0 21 False False False (demo_papers [demo_row]) = Inr (p, gs, pq) \<and>
    pq 8 = Some [q] \<and> xq_analysis q = None \<and> xq_options q = Parsed (JArr [JNull])"
proof -
  let ?db = "demo_papers [demo_row]"
  obtain p gs s where load: "LoadExamPaperDetailsById (\<lambda>_. False) 1 True False False ?db =
      Inr (p, gs, Map.empty(8 \<mapsto> [s]))" and gs: "map xg_id gs = [8]" and s: "xq_id s = 5"
    by (rule demo_loaded)
  from gs obtain g where g: "gs = [g]" "xg_id g = 8" by (cases gs) auto
  have rows: "pp_rows ?db = [demo_row]" "pp_questions ?db = [demo_exam_question]" by (simp_all add: demo_papers_def)
  have r: "an_question_id demo_row = 5" "an_examinee_id demo_row = Some 21" "xq_id demo_exam_question = 5"
    "sh_options demo_row = Parsed (JArr [JNull])" "xq_type demo_exam_question = Some ''00''"
    by (simp_all add: demo_row_def demo_exam_question_def)
  obtain pq q where run: "LoadExamPaperDetailByUserId (\<lambda>_. False) 1 0 21 False False False ?db = Inr (p, gs, pq)"
    and q: "pq 8 = Some [q]" "xq_id q = 5"
    by (simp add: LoadExamPaperDetailByUserId_def load g show_rows_def rows r s merge_question_def Let_def)
  have "xq_analysis q = None \<and> xq_options q = Parsed (JArr [JNull])"
    using student_sees_own_sheet [OF run q(1), of q] rows r q by (auto simp: sheet_owner_def scanned_def)
  with run q show ?thesis by blast
qed

section \<open>No orphans\<close>

text \<open>The operations on papers, each in a transaction that either fails or gives the new state.\<close>

inductive paper_step :: "paper_db \<Rightarrow> paper_db \<Rightarrow> bool" where
  publish: "GenerateExamPaper fault now T paperId uid db = Inr (i, db') \<Longrightarrow> paper_step db db'"
| hand_out: "GenerateAnswerQuestion fault rnd blank now req uid db = Inr db' \<Longrightarrow> paper_step db db'"
| discard: "DeleteExamPaperById fault sessions practices db = Inr db' \<Longrightarrow> paper_step db db'"

definition rows_have_questions :: "paper_db \<Rightarrow> bool" where
  "rows_have_questions db \<longleftrightarrow> (\<forall>a \<in> set (pp_rows db). an_question_id a \<in> xq_id ` set (pp_questions db))"

lemma generated_template:
  assumes "GenerateExamPaper fault now T paperId uid db = Inr (i, db')"
  obtains t gs where "T paperId = Some t" and "pt_groups t = Some gs"
proof -
  from assms obtain p pg pq where "LoadPaperTemplateById fault T paperId True = Inr (p, pg, pq)"
    unfolding GenerateExamPaper_def by (auto simp: and_then_Inr_iff split: if_splits)
  then show thesis using that by (auto simp: LoadPaperTemplateById_def split: if_splits option.splits)
qed

lemma order_ids_range:
  "order_ids gs m = Inr ids \<Longrightarrow> ids k = Some v \<Longrightarrow> v \<in> xg_id ` set gs \<or> m k = Some v"
  by (induction gs m rule: order_ids.induct) (fastforce split: option.splits if_splits)+

lemma new_question_groups:
  assumes "new_questions uid now ids pq gs = Inr qs" and "q \<in> set qs"
  obtains k gid where "xq_group q = Some gid" and "ids k = Some gid"
proof -
  from new_questions_from [OF assms] obtain t gid where "new_question uid now gid t = Inr q" by blast
  then have "xq_group q = Some gid" by (auto dest: new_question_group)
  with new_questions_groups [OF assms] that show thesis by metis
qed

lemma distinct_ints: "distinct (map (\<lambda>j. n + int j) [0..<k])"
  by (simp add: distinct_map inj_on_def)

lemma publish_wf:
  assumes "GenerateExamPaper fault now T paperId uid db = Inr (i, db')" and wf: "paper_db_wf db"
  shows "paper_db_wf db'"
proof -
  let ?n = "pp_next_group db" and ?k = "pp_next_question db"
  obtain t gs where t: "T paperId = Some t" "pt_groups t = Some gs" by (rule generated_template [OF assms(1)])
  obtain pq ids qs where i: "i = pp_next_paper db"
    and ids: "order_ids (new_groups ?n i uid now gs) Map.empty = Inr ids" and qs: "new_questions uid now ids pq gs = Inr qs"
    and db': "db' = db\<lparr>pp_papers := pp_papers db @ [\<lparr>xp_id = i, xp_session = None, xp_practice = None, xp_name = pt_name t,
        xp_creator = uid, xp_create_time = now, xp_update_time = now, xp_status = ''00''\<rparr>],
      pp_next_paper := i + 1, pp_groups := pp_groups db @ new_groups ?n i uid now gs,
      pp_next_group := ?n + int (length gs), pp_questions := pp_questions db @ number_questions ?k qs,
      pp_next_question := ?k + int (length qs)\<rparr>"
    by (rule generated [OF assms(1) t])
  have q: "\<exists>gid. xq_group q = Some gid \<and> gid \<in> xg_id ` set (new_groups ?n i uid now gs)"
    if "q \<in> set (number_questions ?k qs)" for q
  proof -
    from mem_number [OF that] obtain q0 j where q0: "q0 \<in> set qs" and q: "q = q0\<lparr>xq_id := j\<rparr>" by blast
    obtain k gid where "xq_group q0 = Some gid" and k: "ids k = Some gid" by (rule new_question_groups [OF qs q0])
    with q order_ids_range [OF ids k] show ?thesis by simp
  qed
  have qid: "?k \<le> xq_id q \<and> xq_id q < ?k + int (length qs)" if "q \<in> set (number_questions ?k qs)" for q
  proof -
    have "xq_id q \<in> set (map xq_id (number_questions ?k qs))" using that by simp
    then show ?thesis unfolding number_ids by auto
  qed
  have "distinct (map xg_id (pp_groups db'))"
    using wf distinct_new_groups [of ?n i uid now gs] by (fastforce simp: db' paper_db_wf_def dest: set_new_groups)
  moreover have "distinct (map xq_id (number_questions ?k qs))" unfolding number_ids by (rule distinct_ints)
  then have "distinct (map xq_id (pp_questions db'))" using wf qid by (fastforce simp: db' paper_db_wf_def)
  moreover have "distinct (map xp_id (pp_papers db'))" using wf i by (auto simp: db' paper_db_wf_def)
  moreover have "\<forall>p \<in> set (pp_papers db'). xp_id p < pp_next_paper db'" using wf i by (auto simp: db' paper_db_wf_def)
  moreover have "\<forall>g \<in> set (pp_groups db'). xg_id g < pp_next_group db' \<and>
      (\<exists>i. xg_paper g = Some i \<and> i \<in> xp_id ` set (pp_papers db'))"
    using wf by (fastforce simp: db' paper_db_wf_def dest: set_new_groups)
  moreover have "\<forall>q \<in> set (pp_questions db'). xq_id q < pp_next_question db' \<and>
      (\<exists>i. xq_group q = Some i \<and> i \<in> xg_id ` set (pp_groups db'))"
    using wf q qid by (fastforce simp: db' paper_db_wf_def)
  moreover have "0 < pp_next_paper db' \<and> 0 < pp_next_group db' \<and> 0 < pp_next_question db'"
    using wf i by (simp add: db' paper_db_wf_def)
  ultimately show ?thesis by (simp add: paper_db_wf_def)
qed

lemma each_ok_mem: "each_ok f xs = Inr ys \<Longrightarrow> y \<in> set ys \<Longrightarrow> \<exists>x \<in> set xs. f x = Inr y"
  by (induction xs arbitrary: ys) (auto simp: and_then_Inr_iff)

lemma load_groups_ids:
  assumes "load_groups db wa wb gs m = Inr m'" and "sheet_all (\<lambda>s. xq_id s \<in> xq_id ` set (pp_questions db)) m"
  shows "sheet_all (\<lambda>s. xq_id s \<in> xq_id ` set (pp_questions db)) m'"
  using assms
proof (induction gs arbitrary: m)
  case (Cons g gs)
  from Cons.prems(1) obtain qs where qs: "each_ok (load_question wa wb) (group_questions db (xg_id g)) = Inr qs"
    and r: "load_groups db wa wb gs (add_entry (xg_id g) qs m) = Inr m'" by (auto simp: and_then_Inr_iff)
  have "xq_id s \<in> xq_id ` set (pp_questions db)" if s: "s \<in> set qs" for s
  proof -
    from each_ok_mem [OF qs s] obtain q where "q \<in> set (pp_questions db)" and l: "load_question wa wb q = Inr s"
      by (auto simp: group_questions_def)
    moreover from l have "xq_id s = xq_id q"
      by (auto simp: load_question_def Let_def and_then_Inr_iff decoded_question_def)
    ultimately show ?thesis by simp
  qed
  then have "sheet_all (\<lambda>s. xq_id s \<in> xq_id ` set (pp_questions db)) (add_entry (xg_id g) qs m)"
    using Cons.prems(2) by (cases "m (xg_id g)") (auto simp: sheet_all_def add_entry_def)
  with Cons.IH [OF r] show ?case by blast
qed simp

lemma student_sheets_ids:
  assumes "student_sheets rnd blank req uid now gs ss pq k = Inr rows" and "gr_category req \<in> {''00'', ''02''}"
    and "sheet_all (\<lambda>s. xq_id s \<in> I) pq" and "a \<in> set rows"
  shows "an_question_id a \<in> I"
  using assms
proof (induction ss arbitrary: pq k rows)
  case (Cons s ss)
  from Cons.prems(1) obtain rows1 pq1 k1 rows2 where
    g: "group_sheets rnd blank req uid now s gs pq 1 k = Inr (rows1, pq1, k1)"
    and r: "student_sheets rnd blank req uid now gs ss pq1 k1 = Inr rows2" and rows: "rows = rows1 @ rows2"
    by (auto simp: and_then_Inr_iff)
  note g' = group_sheets_rows [OF g Cons.prems(2)]
  have sub: "xq_id q \<in> I" if "q \<in> set (entry pq i)" for q i
    using Cons.prems(3) that by (cases "pq i") (auto simp: entry_def sheet_all_def)
  have "sheet_all (\<lambda>s. xq_id s \<in> I) pq1"
    unfolding sheet_all_def
  proof (intro allI impI)
    fix i qs q assume "pq1 i = Some qs" and "q \<in> set qs"
    then have "q \<in> set (entry pq1 i)" by (simp add: entry_def)
    moreover from g' have "mset (entry pq i) = mset (entry pq1 i)" by (simp add: same_sheet_def)
    ultimately have "q \<in> set (entry pq i)" by (metis mset_eq_setD)
    then show "xq_id q \<in> I" by (rule sub)
  qed
  moreover have "an_question_id a \<in> I" if "a \<in> set rows1"
  proof -
    from g' have "mset (map (\<lambda>a. (sh_group a, an_question_id a)) rows1) =
        mset (concat (map (\<lambda>g. map (\<lambda>q. (Some (xg_id g), xq_id q)) (entry pq (xg_id g))) gs))"
      unfolding covers_paper_def by blast
    then have "set (map (\<lambda>a. (sh_group a, an_question_id a)) rows1) =
        set (concat (map (\<lambda>g. map (\<lambda>q. (Some (xg_id g), xq_id q)) (entry pq (xg_id g))) gs))" by (rule mset_eq_setD)
    moreover have "(sh_group a, an_question_id a) \<in> set (map (\<lambda>a. (sh_group a, an_question_id a)) rows1)"
      using that by simp
    ultimately have "(sh_group a, an_question_id a) \<in> set (concat (map (\<lambda>g. map (\<lambda>q. (Some (xg_id g), xq_id q))
        (entry pq (xg_id g))) gs))" by simp
    then show ?thesis using sub by auto
  qed
  ultimately show ?case using Cons.IH [OF r Cons.prems(2)] Cons.prems(4) rows by auto
qed simp

lemma hand_out_rows:
  assumes "GenerateAnswerQuestion fault rnd blank now req uid db = Inr db'"
  shows "\<exists>rows. db' = db\<lparr>pp_rows := pp_rows db @ rows\<rparr> \<and> (\<forall>a \<in> set rows. an_question_id a \<in> xq_id ` set (pp_questions db))"
proof -
  from assms obtain p gs pq rows where v: "valid_sheet_request req"
    and l: "LoadExamPaperDetailsById fault (gr_paper req) True True True db = Inr (p, gs, pq)"
    and r: "student_sheets rnd blank req uid now gs (sheet_students req) pq 0 = Inr rows"
    and ins: "for_each (insert_rows fault) (batches 500 rows) db = Inr db'"
    by (auto simp: GenerateAnswerQuestion_def and_then_Inr_iff split: if_splits)
  from v have c: "gr_category req \<in> {''00'', ''02''}" by (simp add: valid_sheet_request_def)
  have "sheet_all (\<lambda>s. xq_id s \<in> xq_id ` set (pp_questions db)) pq"
    by (rule load_groups_ids [OF conjunct1 [OF load_paper_groups [OF l]]]) (simp add: sheet_all_def)
  with student_sheets_ids [OF r c] insert_row_batches [OF ins] show ?thesis by (auto simp: concat_batches)
qed

lemma discard_wf:
  assumes "DeleteExamPaperById fault sessions practices db = Inr db'" and wf: "paper_db_wf db" "rows_have_questions db"
  shows "paper_db_wf db' \<and> rows_have_questions db'"
proof -
  define papers groups questions where
    p: "papers = filter (\<lambda>p. \<not> (xp_session p \<in> Some ` set sessions \<or> xp_practice p \<in> Some ` set practices)) (pp_papers db)"
    and g: "groups = filter (\<lambda>g. \<not> (\<exists>i. xg_paper g = Some i \<and> i \<in> xp_id ` set (pp_papers db) \<and>
      i \<notin> xp_id ` set papers)) (pp_groups db)"
    and q: "questions = filter (\<lambda>q. \<not> (\<exists>i. xq_group q = Some i \<and> i \<in> xg_id ` set (pp_groups db) \<and>
      i \<notin> xg_id ` set groups)) (pp_questions db)"
  have db': "db' = db\<lparr>pp_papers := papers, pp_groups := groups, pp_questions := questions,
      pp_rows := filter (\<lambda>a. \<not> (an_question_id a \<in> xq_id ` set (pp_questions db) \<and>
        an_question_id a \<notin> xq_id ` set questions)) (pp_rows db)\<rparr>"
    using assms(1) unfolding DeleteExamPaperById_def Let_def p [symmetric] g [symmetric] q [symmetric]
    by (auto split: if_splits)
  have "distinct (map xp_id papers)" "distinct (map xg_id groups)" "distinct (map xq_id questions)"
    using wf(1) by (simp_all add: paper_db_wf_def p g q distinct_map_filter)
  moreover have "\<forall>g \<in> set groups. \<exists>i. xg_paper g = Some i \<and> i \<in> xp_id ` set papers"
    using wf(1) by (fastforce simp: paper_db_wf_def g)
  moreover have "\<forall>q \<in> set questions. \<exists>i. xq_group q = Some i \<and> i \<in> xg_id ` set groups"
    using wf(1) by (fastforce simp: paper_db_wf_def q)
  moreover have "set papers \<subseteq> set (pp_papers db)" "set groups \<subseteq> set (pp_groups db)" "set questions \<subseteq> set (pp_questions db)"
    by (auto simp: p g q)
  ultimately have "paper_db_wf db'" using wf(1) unfolding db' paper_db_wf_def by (simp add: subset_iff)
  moreover have "rows_have_questions db'" using wf(2) by (auto simp: rows_have_questions_def db')
  ultimately show ?thesis by simp
qed

text \<open>
  (C35) No orphans: whatever papers are published, handed out and deleted, keys stay unique, every
  group belongs to a paper there is, every question to a group there is, neither reference being
  \<open>NULL\<close>, and every row of a student to a question there is.
\<close>

theorem papers_keep_references:
  assumes "paper_step\<^sup>*\<^sup>* db db'" and "paper_db_wf db" and "rows_have_questions db"
  shows "paper_db_wf db' \<and> rows_have_questions db'"
  using assms(1)
proof (induction rule: rtranclp_induct)
  case base
  show ?case using assms(2,3) by simp
next
  case (step x y)
  from step(2) show ?case
  proof cases
    case (publish fault now T paperId uid i)
    obtain t gs where t: "T paperId = Some t" "pt_groups t = Some gs" by (rule generated_template [OF publish])
    have "pp_rows y = pp_rows x \<and> set (pp_questions x) \<subseteq> set (pp_questions y)"
      by (rule generated [OF publish t]) auto
    with publish_wf [OF publish] step(3) show ?thesis by (auto simp: rows_have_questions_def)
  next
    case (hand_out fault rnd blank now req uid)
    from hand_out_rows [OF hand_out] step(3) show ?thesis by (auto simp: paper_db_wf_def rows_have_questions_def)
  next
    case discard
    with discard_wf step(3) show ?thesis by blast
  qed
qed

text \<open>A paper is published and handed out to two examinees.\<close>

definition demo_published :: paper_db where
  "demo_published = snd (projr (GenerateExamPaper (\<lambda>_. False) 9 (demo_template demo_choice) 4 3 no_papers))"

definition demo_handed_out :: paper_db where
  "demo_handed_out = projr (GenerateAnswerQuestion (\<lambda>_. False) (\<lambda>_ _. 0) demo_row 9 demo_req 3 demo_published)"

lemma demo_published_run: "paper_step no_papers demo_published"
proof -
  have "\<not> isl (GenerateExamPaper (\<lambda>_. False) 9 (demo_template demo_choice) 4 3 no_papers)" by code_simp
  then obtain i where "GenerateExamPaper (\<lambda>_. False) 9 (demo_template demo_choice) 4 3 no_papers = Inr (i, demo_published)"
    by (metis demo_published_def prod.collapse sum.collapse(2))
  then show ?thesis by (rule paper_step.publish)
qed

lemma demo_handed_out_run: "paper_step demo_published demo_handed_out"
proof -
  have "\<not> isl (GenerateAnswerQuestion (\<lambda>_. False) (\<lambda>_ _. 0) demo_row 9 demo_req 3 demo_published)" by code_simp
  then have "GenerateAnswerQuestion (\<lambda>_. False) (\<lambda>_ _. 0) demo_row 9 demo_req 3 demo_published = Inr demo_handed_out"
    by (simp add: demo_handed_out_def)
  then show ?thesis by (rule paper_step.hand_out)
qed

lemma demo_handed_out_size:
  "map xq_group (pp_questions demo_handed_out) = [Some 1] \<and> map an_question_id (pp_rows demo_handed_out) = [1, 1]"
  by code_simp

theorem papers_keep_references_witness:
  "map an_question_id (pp_rows demo_handed_out) = [1, 1] \<and> paper_db_wf demo_handed_out \<and>
   rows_have_questions demo_handed_out"
proof -
  have run: "paper_step\<^sup>*\<^sup>* no_papers demo_handed_out"
    using demo_published_run demo_handed_out_run by (blast intro: rtranclp_trans)
  have "paper_db_wf no_papers" "rows_have_questions no_papers"
    by (simp_all add: paper_db_wf_def rows_have_questions_def no_papers_def)
  from papers_keep_references [OF run this] demo_handed_out_size show ?thesis by simp
qed

end
