(* ===== verification/Exam_Allocation.thy ===== *)
theory Exam_Allocation
  imports Go_Strings Go_Random
begin

text \<open>
  Who sits and watches where, \<open>serve/exam_mgt/exam-mgt.go\<close>: examinees are spread over the rooms of
  an exam, invigilators over rooms and sessions, and an examinee gets a number. \<open>sort.Slice\<close>
  leaves rooms of one capacity in any order; \<open>srt\<close> stands for it.
\<close>

datatype allocation_error =
    Nobody_or_no_room
  | Rooms_full
  | Nothing_to_watch
  | Too_few_invigilators int

section \<open>Examinees and rooms\<close>

record exam_room =
  er_id :: null_int
  er_capacity :: null_int

record placed =
  pl_student :: int
  pl_room :: null_int
  pl_serial :: null_int

record allocation =
  al_room :: int
  al_capacity :: int
  al_count :: int

definition sorts_rooms :: "(exam_room list \<Rightarrow> exam_room list) \<Rightarrow> bool" where
  "sorts_rooms srt \<longleftrightarrow> (\<forall>rs. mset (srt rs) = mset rs \<and>
     sorted_wrt (\<lambda>a b. Int64 (er_capacity b) \<le> Int64 (er_capacity a)) (srt rs))"

text \<open>The inner loop: at most \<open>attempts\<close> rooms are tried, from \<open>i\<close> on and around.\<close>

fun find_room :: "allocation list \<Rightarrow> nat \<Rightarrow> nat \<Rightarrow> nat option" where
  "find_room as i 0 = None"
| "find_room as i (Suc attempts) =
    (if al_count (as ! i) < al_capacity (as ! i) then Some i
     else find_room as (Suc i mod length as) attempts)"

text \<open>The loop over the examinees; it gives the allocations it ends with as well.\<close>

fun place :: "placed list \<Rightarrow> allocation list \<Rightarrow> nat \<Rightarrow> allocation_error + placed list \<times> allocation list" where
  "place [] as i = Inr ([], as)"
| "place (e # es) as i =
    (case find_room as i (length as) of
       None \<Rightarrow> Inl Rooms_full
     | Some j \<Rightarrow>
         let a = (as ! j)\<lparr>al_count := al_count (as ! j) + 1\<rparr>
         in (case place es (as[j := a]) (Suc j mod length as) of
               Inl x \<Rightarrow> Inl x
             | Inr (es', as') \<Rightarrow>
                 Inr (e\<lparr>pl_room := Some (al_room a), pl_serial := Some (al_count a)\<rparr> # es', as')))"

definition allocateExamineesToRooms ::
    "(exam_room list \<Rightarrow> exam_room list) \<Rightarrow> placed list \<Rightarrow> exam_room list \<Rightarrow> allocation_error + placed list" where
  "allocateExamineesToRooms srt examinees examRooms =
    (if examinees = [] \<or> examRooms = [] then Inl Nobody_or_no_room
     else map_sum id fst (place examinees
       (map (\<lambda>r. \<lparr>al_room = Int64 (er_id r), al_capacity = Int64 (er_capacity r), al_count = 0\<rparr>) (srt examRooms)) 0))"

section \<open>Invigilators\<close>

record room_config =
  rc_room :: int
  rc_capacity :: int
  rc_invigilators :: int

record invigilation =
  iv_session :: null_int
  iv_room :: null_int
  iv_invigilator :: null_int

definition allocateInvigilatorsOnline ::
    "int list \<Rightarrow> int list \<Rightarrow> allocation_error + invigilation list" where
  "allocateInvigilatorsOnline examSessionIDs invigilatorIDs =
    (if examSessionIDs = [] \<or> invigilatorIDs = [] then Inl Nothing_to_watch
     else Inr (concat (map (\<lambda>i. map (\<lambda>s. \<lparr>iv_session = Some s, iv_room = None, iv_invigilator = Some i\<rparr>)
       examSessionIDs) invigilatorIDs)))"

text \<open>\<open>n\<close> invigilators for one room, from index \<open>k\<close> on; the loop for a room and the next index.\<close>

fun watch_room ::
    "int list \<Rightarrow> int list \<Rightarrow> int \<Rightarrow> nat \<Rightarrow> nat \<Rightarrow> allocation_error + invigilation list \<times> nat" where
  "watch_room sessions ids room 0 k = Inr ([], k)"
| "watch_room sessions ids room (Suc n) k =
    (if length ids \<le> k then Inl (Too_few_invigilators (int k + 1))
     else (case watch_room sessions ids room n (Suc k) of
             Inl e \<Rightarrow> Inl e
           | Inr (ivs, k') \<Rightarrow>
               Inr (map (\<lambda>s. \<lparr>iv_session = Some s, iv_room = Some room, iv_invigilator = Some (ids ! k)\<rparr>) sessions @ ivs,
                    k')))"

fun watch_rooms ::
    "int list \<Rightarrow> int list \<Rightarrow> room_config list \<Rightarrow> nat \<Rightarrow> allocation_error + invigilation list" where
  "watch_rooms sessions ids [] k = Inr []"
| "watch_rooms sessions ids (r # rs) k =
    and_then (watch_room sessions ids (rc_room r) (nat (rc_invigilators r)) k) (\<lambda>(ivs, k').
    and_then (watch_rooms sessions ids rs k') (\<lambda>rest. Inr (ivs @ rest)))"

definition allocateInvigilatorsToRooms ::
    "(nat \<Rightarrow> nat) \<Rightarrow> int list \<Rightarrow> room_config list \<Rightarrow> int list \<Rightarrow> allocation_error + invigilation list" where
  "allocateInvigilatorsToRooms rnd examSessionIDs examRooms invigilatorIDs =
    (if examSessionIDs = [] \<or> examRooms = [] \<or> invigilatorIDs = [] then Inl Nothing_to_watch
     else watch_rooms examSessionIDs (shuffled rnd invigilatorIDs) examRooms 0)"

section \<open>Numbers of examinees\<close>

text \<open>\<open>%06d\<close>: at least six characters, zeros between the sign and the digits.\<close>

definition pad6 :: "int \<Rightarrow> string" where
  "pad6 n =
    (if n < 0 then CHR ''-'' # replicate (5 - length (sprint_d (- n))) CHR ''0'' @ sprint_d (- n)
     else replicate (6 - length (sprint_d n)) CHR ''0'' @ sprint_d n)"

text \<open>\<open>this_year\<close> is the year of the clock, \<open>year_of\<close> the year of an instant in the zone of the server.\<close>

definition generateExamineeNumber ::
    "int \<Rightarrow> (int \<Rightarrow> int) \<Rightarrow> int \<Rightarrow> null_int \<Rightarrow> null_int list \<Rightarrow> string" where
  "generateExamineeNumber this_year year_of serialNumber examID startTimes =
    (let examYear = sprint_d ((case startTimes of
           [] \<Rightarrow> this_year
         | Some t # _ \<Rightarrow> if 0 < t then year_of t else this_year
         | None # _ \<Rightarrow> this_year) mod 100)
     in examYear @ sprint_d (Int64 examID) @ pad6 serialNumber)"


section \<open>What the allocation of rooms gives\<close>

text \<open>
  Rooms fill up together: the rooms before the current one hold \<open>l + 1\<close> examinees, the others \<open>l\<close>,
  each no more than it can take.
\<close>

definition room_takes :: "allocation \<Rightarrow> int" where
  "room_takes a = max 0 (al_capacity a)"

definition filled_to :: "allocation list \<Rightarrow> nat \<Rightarrow> int \<Rightarrow> bool" where
  "filled_to as i l \<longleftrightarrow> 0 \<le> l \<and>
     (\<forall>j<length as. al_count (as ! j) = min (room_takes (as ! j)) (l + (if j < i then 1 else 0)))"

definition free_seats :: "allocation list \<Rightarrow> int" where
  "free_seats as = (\<Sum>a\<leftarrow>as. room_takes a - al_count a)"

abbreviation add_one :: "allocation \<Rightarrow> allocation" where
  "add_one a \<equiv> a\<lparr>al_count := al_count a + 1\<rparr>"

lemma room_takes_add_one [simp]: "room_takes (add_one a) = room_takes a"
  by (simp add: room_takes_def)

lemma filled_to_next:
  assumes f: "filled_to as i l" and i: "i < length as"
    and full: "\<not> al_count (as ! i) < al_capacity (as ! i)"
  shows "\<exists>l'. filled_to as (Suc i mod length as) l'"
proof -
  have same: "filled_to as (Suc i) l"
    unfolding filled_to_def
  proof (intro conjI allI impI)
    show "0 \<le> l" using f by (simp add: filled_to_def)
    fix j assume j: "j < length as"
    have fj: "al_count (as ! j) = min (room_takes (as ! j)) (l + (if j < i then 1 else 0))"
      using f j by (simp add: filled_to_def)
    show "al_count (as ! j) = min (room_takes (as ! j)) (l + (if j < Suc i then 1 else 0))"
    proof (cases "j = i")
      case True
      then show ?thesis using fj full f by (auto simp: room_takes_def filled_to_def min_def max_def split: if_splits)
    next
      case False
      then have "j < Suc i \<longleftrightarrow> j < i" by auto
      then show ?thesis using fj by simp
    qed
  qed
  show ?thesis
  proof (cases "Suc i = length as")
    case True
    then have "filled_to as 0 (l + 1)" using same by (auto simp: filled_to_def)
    then show ?thesis using True by auto
  next
    case False
    then show ?thesis using same i by (auto simp: mod_less)
  qed
qed

lemma filled_to_add:
  assumes f: "filled_to as i l" and i: "i < length as"
    and room: "al_count (as ! i) < al_capacity (as ! i)"
  shows "\<exists>l'. filled_to (as[i := add_one (as ! i)]) (Suc i mod length as) l'"
proof -
  let ?as = "as[i := add_one (as ! i)]"
  have same: "filled_to ?as (Suc i) l"
    unfolding filled_to_def
  proof (intro conjI allI impI)
    show "0 \<le> l" using f by (simp add: filled_to_def)
    fix j assume "j < length ?as"
    then have j: "j < length as" by simp
    have fj: "al_count (as ! j) = min (room_takes (as ! j)) (l + (if j < i then 1 else 0))"
      using f j by (simp add: filled_to_def)
    show "al_count (?as ! j) = min (room_takes (?as ! j)) (l + (if j < Suc i then 1 else 0))"
    proof (cases "j = i")
      case True
      then show ?thesis using fj room f i
        by (auto simp: room_takes_def filled_to_def min_def max_def split: if_splits)
    next
      case False
      then have "j < Suc i \<longleftrightarrow> j < i" by auto
      then show ?thesis using fj False by simp
    qed
  qed
  show ?thesis
  proof (cases "Suc i = length as")
    case True
    then have "filled_to ?as 0 (l + 1)" using same by (auto simp: filled_to_def)
    then show ?thesis using True by auto
  next
    case False
    then show ?thesis using same i by (auto simp: mod_less)
  qed
qed

lemma find_room_Some:
  assumes "find_room as i k = Some j" "i < length as" "filled_to as i l"
  shows "j < length as \<and> al_count (as ! j) < al_capacity (as ! j) \<and> (\<exists>l'. filled_to as j l')"
  using assms
proof (induction as i k arbitrary: l rule: find_room.induct)
  case (2 as i attempts)
  show ?case
  proof (cases "al_count (as ! i) < al_capacity (as ! i)")
    case True
    then show ?thesis using 2 by auto
  next
    case False
    obtain l' where "filled_to as (Suc i mod length as) l'"
      using filled_to_next [OF 2(4) 2(3) False] by blast
    then show ?thesis using 2(1) [OF False] 2(2,3) False by (metis find_room.simps(2) length_greater_0_conv list.size(3) mod_less_divisor not_less_zero)
  qed
qed simp

lemma find_room_None:
  assumes "find_room as i k = None" "i < length as" "m < k"
  shows "\<not> al_count (as ! ((i + m) mod length as)) < al_capacity (as ! ((i + m) mod length as))"
  using assms
proof (induction as i k arbitrary: m rule: find_room.induct)
  case (2 as i attempts)
  have full: "\<not> al_count (as ! i) < al_capacity (as ! i)"
    and rest: "find_room as (Suc i mod length as) attempts = None"
    using 2(2) by (auto split: if_splits)
  show ?case
  proof (cases m)
    case 0
    then show ?thesis using full 2(3) by simp
  next
    case (Suc m')
    have "Suc i mod length as < length as" using 2(3) by (intro mod_less_divisor) auto
    then have "\<not> al_count (as ! ((Suc i mod length as + m') mod length as))
        < al_capacity (as ! ((Suc i mod length as + m') mod length as))"
      using 2(1) [OF full rest] 2(4) Suc by simp
    then show ?thesis using Suc by (simp add: mod_add_left_eq)
  qed
qed simp

lemma find_room_None_all:
  assumes "find_room as i (length as) = None" "i < length as" "j < length as"
  shows "al_capacity (as ! j) \<le> al_count (as ! j)"
proof -
  define m where "m = (j + length as - i) mod length as"
  have "(i + m) mod length as = (i + (j + length as - i)) mod length as"
    by (simp add: m_def mod_add_right_eq)
  also have "\<dots> = j" using assms by simp
  finally have "(i + m) mod length as = j" .
  moreover have "m < length as" unfolding m_def using assms(3) by (intro mod_less_divisor) auto
  ultimately show ?thesis using find_room_None [OF assms(1,2), of m] by (simp add: not_less)
qed

lemma find_room_all_full:
  assumes full: "\<And>j. j < length as \<Longrightarrow> al_capacity (as ! j) \<le> al_count (as ! j)"
  shows "i < length as \<Longrightarrow> find_room as i k = None"
proof (induction k arbitrary: i)
  case (Suc k)
  have "Suc i mod length as < length as" using Suc(2) by (intro mod_less_divisor) auto
  then show ?case using Suc(1) full [OF Suc(2)] by simp
qed simp

text \<open>One more examinee takes one free seat; it fails exactly when there is none.\<close>

definition within :: "allocation list \<Rightarrow> bool" where
  "within as \<longleftrightarrow> (\<forall>a\<in>set as. 0 \<le> al_count a \<and> al_count a \<le> room_takes a)"

lemma filled_within: "filled_to as i l \<Longrightarrow> within as"
  by (auto simp: filled_to_def within_def in_set_conv_nth room_takes_def)

lemma sum_list_change:
  fixes f :: "'a \<Rightarrow> int"
  shows "i < length xs \<Longrightarrow> (\<Sum>x\<leftarrow>xs[i := y]. f x) = (\<Sum>x\<leftarrow>xs. f x) - f (xs ! i) + f y"
  by (induction xs arbitrary: i) (auto split: nat.split)

lemma free_seats_add: "i < length as \<Longrightarrow> free_seats (as[i := add_one (as ! i)]) = free_seats as - 1"
  by (simp add: free_seats_def sum_list_change)

lemma free_seats_nonneg: "within as \<Longrightarrow> 0 \<le> free_seats as"
  unfolding free_seats_def within_def by (intro sum_list_nonneg) auto

lemma free_seats_none:
  assumes "within as" "\<And>j. j < length as \<Longrightarrow> al_capacity (as ! j) \<le> al_count (as ! j)"
  shows "free_seats as = 0"
proof -
  have "room_takes a - al_count a = 0" if a: "a \<in> set as" for a
  proof -
    obtain j where "j < length as" "a = as ! j" using a by (auto simp: in_set_conv_nth)
    then have "al_capacity a \<le> al_count a" using assms(2) by simp
    then show ?thesis using assms(1) a by (fastforce simp: within_def room_takes_def)
  qed
  then show ?thesis unfolding free_seats_def by (simp cong: map_cong)
qed

lemma free_seats_some:
  assumes "within as" "j < length as" "al_count (as ! j) < al_capacity (as ! j)"
  shows "0 < free_seats as"
proof -
  have "as ! j \<in> set as" using assms by simp
  then have "room_takes (as ! j) - al_count (as ! j) \<le> free_seats as"
    unfolding free_seats_def using assms(1)
    by (intro member_le_sum_list) (auto simp: within_def)
  then show ?thesis using assms(3) by (simp add: room_takes_def)
qed

lemma place_succeeds:
  assumes "filled_to as i l" "i < length as"
  shows "(\<exists>r. place es as i = Inr r) \<longleftrightarrow> int (length es) \<le> free_seats as"
  using assms
proof (induction es arbitrary: as i l)
  case Nil
  then show ?case using free_seats_nonneg [OF filled_within] by simp
next
  case (Cons e es)
  show ?case
  proof (cases "find_room as i (length as)")
    case None
    have "free_seats as = 0"
      using free_seats_none [OF filled_within [OF Cons(2)]] find_room_None_all [OF None Cons(3)] by blast
    then show ?thesis using None by simp
  next
    case (Some j)
    obtain l' where j: "j < length as" "al_count (as ! j) < al_capacity (as ! j)" "filled_to as j l'"
      using find_room_Some [OF Some Cons(3,2)] by blast
    obtain l'' where l'': "filled_to (as[j := add_one (as ! j)]) (Suc j mod length as) l''"
      using filled_to_add [OF j(3,1,2)] by blast
    have "Suc j mod length as < length (as[j := add_one (as ! j)])"
      unfolding length_list_update using j(1) by (intro mod_less_divisor) auto
    from Cons(1) [OF l'' this]
    show ?thesis using Some free_seats_add [OF j(1)]
      by (auto simp: Let_def split: sum.splits)
  qed
qed

lemma place_result:
  assumes "place es as i = Inr (es', as')" "filled_to as i l" "i < length as"
  shows "map pl_student es' = map pl_student es \<and> length as' = length as \<and>
    map al_room as' = map al_room as \<and> map al_capacity as' = map al_capacity as \<and> (\<exists>i' l'. filled_to as' i' l')"
  using assms
proof (induction es arbitrary: as i l es')
  case Nil
  then show ?case by auto
next
  case (Cons e es)
  obtain j where Some: "find_room as i (length as) = Some j" using Cons(2) by (auto split: option.splits)
  obtain l' where j: "j < length as" "al_count (as ! j) < al_capacity (as ! j)" "filled_to as j l'"
    using find_room_Some [OF Some Cons(4,3)] by blast
  let ?as = "as[j := add_one (as ! j)]"
  obtain l'' where l'': "filled_to ?as (Suc j mod length as) l''"
    using filled_to_add [OF j(3,1,2)] by blast
  have i': "Suc j mod length as < length ?as"
    unfolding length_list_update using j(1) by (intro mod_less_divisor) auto
  obtain es2 where es2: "place es ?as (Suc j mod length as) = Inr (es2, as')"
      "es' = e\<lparr>pl_room := Some (al_room (as ! j)), pl_serial := Some (al_count (as ! j) + 1)\<rparr> # es2"
    using Cons(2) Some by (auto simp: Let_def split: sum.splits)
  have "map al_room ?as = map al_room as" "map al_capacity ?as = map al_capacity as"
    using j(1) by (auto intro!: nth_equalityI simp: nth_list_update)
  then show ?case using Cons(1) [OF es2(1) l'' i'] es2(2) by simp
qed

text \<open>The numbers given out in one room go on from its count.\<close>

lemma place_serials:
  assumes "place es as i = Inr (es', as')" "filled_to as i l" "i < length as" "distinct (map al_room as)" "k < length as"
  shows "map pl_serial (filter (\<lambda>e. pl_room e = Some (al_room (as ! k))) es') =
      map Some [al_count (as ! k) + 1 .. al_count (as' ! k)] \<and> al_count (as ! k) \<le> al_count (as' ! k)"
  using assms
proof (induction es arbitrary: as i l es')
  case Nil
  then show ?case by simp
next
  case (Cons e es)
  obtain j where Some: "find_room as i (length as) = Some j" using Cons(2) by (auto split: option.splits)
  obtain l' where j: "j < length as" "al_count (as ! j) < al_capacity (as ! j)" "filled_to as j l'"
    using find_room_Some [OF Some Cons(4,3)] by blast
  let ?as = "as[j := add_one (as ! j)]"
  obtain l'' where l'': "filled_to ?as (Suc j mod length as) l''"
    using filled_to_add [OF j(3,1,2)] by blast
  have i': "Suc j mod length as < length ?as"
    unfolding length_list_update using j(1) by (intro mod_less_divisor) auto
  obtain es2 where es2: "place es ?as (Suc j mod length as) = Inr (es2, as')"
      "es' = e\<lparr>pl_room := Some (al_room (as ! j)), pl_serial := Some (al_count (as ! j) + 1)\<rparr> # es2"
    using Cons(2) Some by (auto simp: Let_def split: sum.splits)
  have rooms: "map al_room ?as = map al_room as"
    using j(1) by (auto intro!: nth_equalityI simp: nth_list_update)
  have k': "k < length ?as" using Cons(6) by simp
  have room_k: "al_room (?as ! k) = al_room (as ! k)" using j(1) Cons(6) by (simp add: nth_list_update)
  have IH: "map pl_serial (filter (\<lambda>e. pl_room e = Some (al_room (as ! k))) es2) =
      map Some [al_count (?as ! k) + 1 .. al_count (as' ! k)] \<and> al_count (?as ! k) \<le> al_count (as' ! k)"
    using Cons(1) [OF es2(1) l'' i' _ k'] rooms Cons(5) room_k by simp
  show ?case
  proof (cases "k = j")
    case True
    then have "al_count (?as ! k) = al_count (as ! k) + 1" using j(1) by simp
    then show ?thesis using IH es2(2) True by (auto simp: upto_rec1)
  next
    case False
    then have "al_room (as ! j) \<noteq> al_room (as ! k)"
      using Cons(5,6) j(1) nth_eq_iff_index_eq [of "map al_room as" j k] by simp
    moreover have "?as ! k = as ! k" using False by simp
    ultimately show ?thesis using IH es2(2) by simp
  qed
qed

lemma place_error: "place es as i = Inl x \<Longrightarrow> x = Rooms_full"
  by (induction es as i rule: place.induct) (auto simp: Let_def split: option.splits sum.splits)

lemma sorts_rooms_by_capacity: "sorts_rooms (sort_key (\<lambda>r. - Int64 (er_capacity r)))"
proof -
  have "sorted_wrt (\<lambda>a b. Int64 (er_capacity b) \<le> Int64 (er_capacity a)) (sort_key (\<lambda>r. - Int64 (er_capacity r)) rs)" for rs :: "exam_room list"
    using sorted_sort_key [of "\<lambda>r. - Int64 (er_capacity r)" rs] by (simp add: sorted_map)
  then show ?thesis by (simp add: sorts_rooms_def)
qed

text \<open>
  (C28) Examinees are placed whenever the rooms together take them all. Rooms then fill up together:
  for some level, each room holds as many as its capacity allows up to that level, at most one more in
  the first rooms; the examinees of a room are numbered 1, 2, 3 and so on in their order, and the
  examinees and their order are the ones that were passed in. When seats are short, nobody is placed.
\<close>

theorem rooms_fill_evenly:
  assumes "sorts_rooms srt" "examinees \<noteq> []" "rooms \<noteq> []" "distinct (map (\<lambda>r. Int64 (er_id r)) rooms)"
  shows "if int (length examinees) \<le> (\<Sum>r\<leftarrow>rooms. max 0 (Int64 (er_capacity r)))
    then \<exists>es i l. allocateExamineesToRooms srt examinees rooms = Inr es \<and>
      map pl_student es = map pl_student examinees \<and>
      (\<forall>k<length rooms. let r = srt rooms ! k in
        map pl_serial (filter (\<lambda>e. pl_room e = Some (Int64 (er_id r))) es) =
          map Some [1 .. min (max 0 (Int64 (er_capacity r))) (l + (if k < i then 1 else 0))])
    else allocateExamineesToRooms srt examinees rooms = Inl Rooms_full"
proof -
  define as where "as = map (\<lambda>r. \<lparr>al_room = Int64 (er_id r), al_capacity = Int64 (er_capacity r), al_count = 0\<rparr>) (srt rooms)"
  have same: "mset (srt rooms) = mset rooms" using assms(1) by (simp add: sorts_rooms_def)
  have len: "length as = length rooms" using mset_eq_length [OF same] by (simp add: as_def)
  have start: "filled_to as 0 0" by (auto simp: filled_to_def as_def room_takes_def)
  have at_0: "0 < length as" using assms(3) len by simp
  have "free_seats as = (\<Sum>r\<leftarrow>srt rooms. max 0 (Int64 (er_capacity r)))"
    by (simp add: free_seats_def as_def room_takes_def o_def)
  also have "\<dots> = (\<Sum>r\<leftarrow>rooms. max 0 (Int64 (er_capacity r)))"
    using same by (metis mset_map sum_mset_sum_list)
  finally have free: "free_seats as = (\<Sum>r\<leftarrow>rooms. max 0 (Int64 (er_capacity r)))" .
  have alloc: "allocateExamineesToRooms srt examinees rooms = map_sum id fst (place examinees as 0)"
    using assms(2,3) by (simp add: allocateExamineesToRooms_def as_def)
  have "distinct (map al_room as)"
    using assms(4) mset_eq_imp_distinct_iff [of "map (\<lambda>r. Int64 (er_id r)) (srt rooms)" "map (\<lambda>r. Int64 (er_id r)) rooms"] same
    by (simp add: as_def o_def)
  note serials = place_serials [OF _ start at_0 this]
  show ?thesis
  proof (cases "int (length examinees) \<le> free_seats as")
    case True
    then obtain es as' where r: "place examinees as 0 = Inr (es, as')"
      using place_succeeds [OF start at_0, of examinees] by auto
    obtain i l where p: "map pl_student es = map pl_student examinees" "length as' = length as"
        "map al_capacity as' = map al_capacity as" "filled_to as' i l"
      using place_result [OF r start at_0] by blast
    have "map pl_serial (filter (\<lambda>e. pl_room e = Some (Int64 (er_id (srt rooms ! k)))) es) =
          map Some [1 .. min (max 0 (Int64 (er_capacity (srt rooms ! k)))) (l + (if k < i then 1 else 0))]"
      if k: "k < length rooms" for k
    proof -
      have a: "al_room (as ! k) = Int64 (er_id (srt rooms ! k))" "al_count (as ! k) = 0"
          "al_capacity (as ! k) = Int64 (er_capacity (srt rooms ! k))"
        using k len by (simp_all add: as_def)
      have "al_capacity (as' ! k) = al_capacity (as ! k)"
        using p(2,3) k len by (metis nth_map)
      then have "al_count (as' ! k) = min (max 0 (Int64 (er_capacity (srt rooms ! k)))) (l + (if k < i then 1 else 0))"
        using p(2,4) k len a(3) by (simp add: filled_to_def room_takes_def)
      then show ?thesis using serials [OF r, of k] k len a by simp
    qed
    then show ?thesis using True free alloc r p(1) by (auto simp: Let_def)
  next
    case False
    have "place examinees as 0 \<noteq> Inr r" for r
      using False place_succeeds [OF start at_0, of examinees] by blast
    then have "place examinees as 0 = Inl Rooms_full" using place_error by (cases "place examinees as 0") auto
    then show ?thesis using False free alloc by simp
  qed
qed

definition demo_rooms :: "exam_room list" where
  "demo_rooms = [\<lparr>er_id = Some 1, er_capacity = Some 1\<rparr>, \<lparr>er_id = Some 2, er_capacity = Some 5\<rparr>,
     \<lparr>er_id = Some 3, er_capacity = Some 2\<rparr>]"

definition demo_placed :: "int \<Rightarrow> placed" where
  "demo_placed s = \<lparr>pl_student = s, pl_room = None, pl_serial = None\<rparr>"

theorem rooms_fill_evenly_witness:
  "\<exists>es. allocateExamineesToRooms (sort_key (\<lambda>r. - Int64 (er_capacity r))) (map demo_placed [1, 2, 3, 4]) demo_rooms = Inr es \<and>
     map pl_student es = [1, 2, 3, 4]"
  using rooms_fill_evenly [OF sorts_rooms_by_capacity, of "map demo_placed [1, 2, 3, 4]" demo_rooms]
  by (auto simp: demo_rooms_def demo_placed_def)

section \<open>What the allocation of invigilators gives\<close>

lemma watch_room_value:
  assumes "k \<le> length ids"
  shows "watch_room sessions ids room n k =
    (if k + n \<le> length ids
     then Inr (concat (map (\<lambda>w. map (\<lambda>s. \<lparr>iv_session = Some s, iv_room = Some room, iv_invigilator = Some w\<rparr>) sessions)
       (take n (drop k ids))), k + n)
     else Inl (Too_few_invigilators (int (length ids) + 1)))"
  using assms
proof (induction n arbitrary: k)
  case (Suc n)
  show ?case
  proof (cases "length ids \<le> k")
    case True
    then show ?thesis using Suc(2) by simp
  next
    case False
    then show ?thesis using Suc(1) [of "Suc k"] by (simp add: Cons_nth_drop_Suc [symmetric])
  qed
qed simp

text \<open>Who watches, when there are enough.\<close>

fun watches :: "int list \<Rightarrow> int list \<Rightarrow> room_config list \<Rightarrow> nat \<Rightarrow> invigilation list" where
  "watches sessions ids [] k = []"
| "watches sessions ids (r # rs) k =
    concat (map (\<lambda>w. map (\<lambda>s. \<lparr>iv_session = Some s, iv_room = Some (rc_room r), iv_invigilator = Some w\<rparr>) sessions)
      (take (nat (rc_invigilators r)) (drop k ids)))
    @ watches sessions ids rs (k + nat (rc_invigilators r))"

definition needed :: "room_config list \<Rightarrow> nat" where
  "needed rs = (\<Sum>r\<leftarrow>rs. nat (rc_invigilators r))"

lemma watch_rooms_value:
  assumes "k \<le> length ids"
  shows "watch_rooms sessions ids rs k =
    (if k + needed rs \<le> length ids then Inr (watches sessions ids rs k)
     else Inl (Too_few_invigilators (int (length ids) + 1)))"
  using assms
  by (induction rs arbitrary: k) (simp_all add: needed_def watch_room_value result_simps)

lemma watches_later:
  assumes "v \<in> set (watches sessions ids rs k)"
  shows "\<exists>m. k \<le> m \<and> m < length ids \<and> iv_invigilator v = Some (ids ! m) \<and> iv_room v \<in> Some ` rc_room ` set rs"
  using assms
proof (induction rs arbitrary: k)
  case (Cons r rs)
  consider "v \<in> set (watches sessions ids rs (k + nat (rc_invigilators r)))"
    | w s where "w \<in> set (take (nat (rc_invigilators r)) (drop k ids))"
        "v = \<lparr>iv_session = Some s, iv_room = Some (rc_room r), iv_invigilator = Some w\<rparr>"
    using Cons(2) by auto
  then show ?case
  proof cases
    case 1
    obtain m where m: "k + nat (rc_invigilators r) \<le> m" "m < length ids" "iv_invigilator v = Some (ids ! m)"
        "iv_room v \<in> Some ` rc_room ` set rs"
      using Cons(1) [OF 1] by (elim exE conjE)
    then have "k \<le> m" "iv_room v \<in> Some ` rc_room ` set (r # rs)" by auto
    then show ?thesis using m by (intro exI conjI)
  next
    case 2
    obtain m where "m < length (drop k ids)" "w = drop k ids ! m"
      using in_set_takeD [OF 2(1)] by (auto simp: in_set_conv_nth)
    then have "k \<le> k + m \<and> k + m < length ids \<and> w = ids ! (k + m)" by (auto simp: less_diff_conv add.commute)
    then show ?thesis using 2(2) by (intro exI [of _ "k + m"]) simp
  qed
qed simp

lemma filter_concat_map_one:
  assumes "distinct ss" "s \<in> set ss" "\<And>w t. P (f w t) \<longleftrightarrow> t = s"
  shows "filter P (concat (map (\<lambda>w. map (f w) ss) ws)) = map (\<lambda>w. f w s) ws"
proof -
  have "filter P (map (f w) ss) = [f w s]" for w
    using assms(1,2)
  proof (induction ss)
    case (Cons t ss)
    have "t \<notin> set ss" using Cons(2) by simp
    then show ?case
      using Cons assms(3) by (cases "t = s") (auto simp: filter_empty_conv)
  qed simp
  then show ?thesis by (induction ws) simp_all
qed

lemma watches_of_room:
  assumes "distinct sessions" "s \<in> set sessions" "distinct (map rc_room rs)" "r \<in> set rs"
    and "k + needed rs \<le> length ids"
  shows "\<exists>k'\<ge>k. filter (\<lambda>v. iv_session v = Some s \<and> iv_room v = Some (rc_room r)) (watches sessions ids rs k) =
     map (\<lambda>w. \<lparr>iv_session = Some s, iv_room = Some (rc_room r), iv_invigilator = Some w\<rparr>)
       (take (nat (rc_invigilators r)) (drop k' ids)) \<and> k' + nat (rc_invigilators r) \<le> length ids"
  using assms(3-5)
proof (induction rs arbitrary: k)
  case (Cons q rs)
  let ?P = "\<lambda>v. iv_session v = Some s \<and> iv_room v = Some (rc_room r)"
  show ?case
  proof (cases "r = q")
    case True
    have "filter ?P (watches sessions ids rs (k + nat (rc_invigilators q))) = []"
      unfolding filter_empty_conv
    proof (intro ballI notI)
      fix v assume v: "v \<in> set (watches sessions ids rs (k + nat (rc_invigilators q)))"
        and "iv_session v = Some s \<and> iv_room v = Some (rc_room r)"
      then show False using watches_later [OF v] Cons(2) True by auto
    qed
    moreover have "filter ?P (concat (map (\<lambda>w. map (\<lambda>s. \<lparr>iv_session = Some s, iv_room = Some (rc_room q), iv_invigilator = Some w\<rparr>) sessions) ws)) =
        map (\<lambda>w. \<lparr>iv_session = Some s, iv_room = Some (rc_room q), iv_invigilator = Some w\<rparr>) ws" for ws
      by (rule filter_concat_map_one [OF assms(1,2)]) (simp add: True)
    ultimately show ?thesis using True Cons(4) by (intro exI [of _ k]) (simp add: needed_def)
  next
    case False
    then have r1: "r \<in> set rs" using Cons(3) by simp
    then have "rc_room r \<in> rc_room ` set rs" by (rule imageI)
    moreover have "rc_room q \<notin> rc_room ` set rs" using Cons(2) by simp
    ultimately have "rc_room r \<noteq> rc_room q" by (intro notI) (simp only:)
    note r = r1 this
    obtain k' where k': "k + nat (rc_invigilators q) \<le> k'"
      "filter ?P (watches sessions ids rs (k + nat (rc_invigilators q))) =
        map (\<lambda>w. \<lparr>iv_session = Some s, iv_room = Some (rc_room r), iv_invigilator = Some w\<rparr>)
         (take (nat (rc_invigilators r)) (drop k' ids))" "k' + nat (rc_invigilators r) \<le> length ids"
      using Cons(1) [of "k + nat (rc_invigilators q)"] Cons(2,4) r(1) by (auto simp: needed_def add.assoc)
    have "filter ?P (concat (map (\<lambda>w. map (\<lambda>s. \<lparr>iv_session = Some s, iv_room = Some (rc_room q), iv_invigilator = Some w\<rparr>) sessions) ws)) = []" for ws
      using r(2) by (auto simp: filter_empty_conv)
    then show ?thesis using k' by (intro exI [of _ k']) simp
  qed
qed simp

lemma watches_one_room:
  assumes "distinct ids" "x \<in> set (watches sessions ids rs k)" "y \<in> set (watches sessions ids rs k)"
    and "iv_invigilator x = iv_invigilator y"
  shows "iv_room x = iv_room y"
  using assms(2,3)
proof (induction rs arbitrary: k)
  case (Cons r rs)
  let ?k = "k + nat (rc_invigilators r)"
  have apart: False if v: "v \<in> set (watches sessions ids rs ?k)"
      and w: "w \<in> set (take (nat (rc_invigilators r)) (drop k ids))" and eq: "iv_invigilator v = Some w" for v w
  proof -
    obtain m where m: "?k \<le> m" "m < length ids" "w = ids ! m" using watches_later [OF v] eq by auto
    obtain n where n: "n < nat (rc_invigilators r)" "k + n < length ids" "w = ids ! (k + n)"
      using w by (auto simp: in_set_conv_nth)
    then show False using m assms(1) by (auto simp: nth_eq_iff_index_eq)
  qed
  show ?case using Cons apart assms(4) by fastforce
qed simp

text \<open>
  (C29) Invigilators of an offline exam: unless some list is empty, the assignment succeeds exactly
  when there are as many invigilators as the rooms ask for together. In every session each room then
  has exactly as many different invigilators as it asks for, and no invigilator is in two rooms, not
  even in different sessions.
\<close>

theorem every_room_watched:
  assumes "sessions \<noteq> []" "rooms \<noteq> []" "ids \<noteq> []" "distinct sessions" "distinct (map rc_room rooms)" "distinct ids"
  shows "case allocateInvigilatorsToRooms rnd sessions rooms ids of
      Inl e \<Rightarrow> length ids < (\<Sum>r\<leftarrow>rooms. nat (rc_invigilators r))
    | Inr ivs \<Rightarrow> (\<Sum>r\<leftarrow>rooms. nat (rc_invigilators r)) \<le> length ids \<and>
        (\<forall>s\<in>set sessions. \<forall>r\<in>set rooms.
          let ws = map iv_invigilator (filter (\<lambda>v. iv_session v = Some s \<and> iv_room v = Some (rc_room r)) ivs)
          in distinct ws \<and> length ws = nat (rc_invigilators r) \<and> set ws \<subseteq> Some ` set ids) \<and>
        (\<forall>x\<in>set ivs. \<forall>y\<in>set ivs. iv_invigilator x = iv_invigilator y \<longrightarrow> iv_room x = iv_room y)"
proof -
  let ?ids = "shuffled rnd ids"
  have alloc: "allocateInvigilatorsToRooms rnd sessions rooms ids =
    (if needed rooms \<le> length ids then Inr (watches sessions ?ids rooms 0)
     else Inl (Too_few_invigilators (int (length ids) + 1)))"
    using assms(1-3) watch_rooms_value [of 0 ?ids sessions rooms] by (simp add: allocateInvigilatorsToRooms_def)
  show ?thesis
  proof (cases "needed rooms \<le> length ids")
    case False
    then show ?thesis using alloc by (simp add: needed_def)
  next
    case True
    let ?ivs = "watches sessions ?ids rooms 0"
    have posts: "let ws = map iv_invigilator (filter (\<lambda>v. iv_session v = Some s \<and> iv_room v = Some (rc_room r)) ?ivs)
        in distinct ws \<and> length ws = nat (rc_invigilators r) \<and> set ws \<subseteq> Some ` set ids"
      if s: "s \<in> set sessions" and r: "r \<in> set rooms" for s r
    proof -
      obtain k' where k': "filter (\<lambda>v. iv_session v = Some s \<and> iv_room v = Some (rc_room r)) ?ivs =
          map (\<lambda>w. \<lparr>iv_session = Some s, iv_room = Some (rc_room r), iv_invigilator = Some w\<rparr>)
            (take (nat (rc_invigilators r)) (drop k' ?ids))" "k' + nat (rc_invigilators r) \<le> length ?ids"
        using watches_of_room [OF assms(4) s assms(5) r, of 0 ?ids] True by auto
      have "set (take (nat (rc_invigilators r)) (drop k' ?ids)) \<subseteq> set ids"
        by (metis set_shuffled order_trans set_take_subset set_drop_subset)
      then show ?thesis unfolding k'(1) Let_def using k'(2) assms(6)
        by (auto simp: o_def distinct_map inj_on_def)
    qed
    have one: "iv_room x = iv_room y"
      if "x \<in> set ?ivs" "y \<in> set ?ivs" "iv_invigilator x = iv_invigilator y" for x y
      by (rule watches_one_room [OF _ that]) (simp add: assms(6))
    have "allocateInvigilatorsToRooms rnd sessions rooms ids = Inr ?ivs" using alloc True by simp
    then show ?thesis using True unfolding needed_def 
      by (simp only: sum.case conj_assoc) (intro conjI ballI impI posts one; simp)
  qed
qed

theorem every_room_watched_witness:
  "\<exists>ivs. allocateInvigilatorsToRooms (\<lambda>n. n div 2) [7, 8]
      [\<lparr>rc_room = 1, rc_capacity = 30, rc_invigilators = 2\<rparr>, \<lparr>rc_room = 2, rc_capacity = 20, rc_invigilators = 1\<rparr>]
      [101, 102, 103] = Inr ivs \<and>
    length (filter (\<lambda>v. iv_session v = Some 8 \<and> iv_room v = Some 1) ivs) = 2"
proof -
  let ?rooms = "[\<lparr>rc_room = 1, rc_capacity = 30, rc_invigilators = 2\<rparr>, \<lparr>rc_room = 2, rc_capacity = 20, rc_invigilators = 1\<rparr>]"
  have "[7, 8 :: int] \<noteq> []" "?rooms \<noteq> []" "[101, 102, 103 :: int] \<noteq> []" "distinct [7, 8 :: int]"
      "distinct (map rc_room ?rooms)" "distinct [101, 102, 103 :: int]" by simp_all
  note ok = every_room_watched [OF this, of "\<lambda>n. n div 2"]
  show ?thesis
  proof (cases "allocateInvigilatorsToRooms (\<lambda>n. n div 2) [7, 8] ?rooms [101, 102, 103]")
    case (Inl e)
    then show ?thesis using ok by simp
  next
    case (Inr ivs)
    from ok [unfolded Inr sum.case, THEN conjunct2, THEN conjunct1]
    have "\<forall>s\<in>set [7, 8]. \<forall>r\<in>set ?rooms.
        length (filter (\<lambda>v. iv_session v = Some s \<and> iv_room v = Some (rc_room r)) ivs) = nat (rc_invigilators r)"
      by (simp add: Let_def)
    then show ?thesis using Inr by simp
  qed
qed

section \<open>Numbers of examinees in an exam\<close>

lemma length_nat_digits: "n < 10 ^ Suc k \<Longrightarrow> length (nat_digits n) \<le> Suc k"
proof (induction k arbitrary: n)
  case 0
  then show ?case by (simp add: nat_digits.simps [of n])
next
  case (Suc k)
  have "n div 10 < 10 ^ Suc k" using Suc(2) by auto
  then show ?case using Suc(1) [of "n div 10"] by (simp add: nat_digits.simps [of n])
qed

lemma pad6_length: "0 \<le> n \<Longrightarrow> n < 1000000 \<Longrightarrow> length (pad6 n) = 6"
  using length_nat_digits [of "nat n" 5] by (simp add: pad6_def sprint_d_def)

lemma parse_digits_zeros: "parse_digits (replicate k (CHR ''0'') @ s) = parse_digits s"
  by (induction k) (simp_all add: parse_digits_def char_digit_def)

lemma pad6_value: "0 \<le> n \<Longrightarrow> parse_digits (pad6 n) = nat n"
  by (simp add: pad6_def sprint_d_def parse_digits_zeros)

lemma two_digits: "10 \<le> y \<Longrightarrow> y < 100 \<Longrightarrow> length (sprint_d y) = 2"
proof -
  assume y: "10 \<le> y" "y < 100"
  then have "\<not> nat y < 10" "nat y div 10 < 10" by auto
  then show ?thesis using y by (simp add: sprint_d_def nat_digits.simps [of "nat y"] nat_digits.simps [of "nat y div 10"])
qed

definition exam_year :: "int \<Rightarrow> (int \<Rightarrow> int) \<Rightarrow> null_int list \<Rightarrow> int" where
  "exam_year this_year year_of startTimes = (case startTimes of
     [] \<Rightarrow> this_year
   | Some t # _ \<Rightarrow> if 0 < t then year_of t else this_year
   | None # _ \<Rightarrow> this_year)"

lemma generateExamineeNumber_parts:
  "generateExamineeNumber y year_of n e ts = sprint_d (exam_year y year_of ts mod 100) @ sprint_d (Int64 e) @ pad6 n"
  by (simp add: generateExamineeNumber_def exam_year_def Let_def)

text \<open>
  The number of an examinee tells the exam and the place in it: with a year of two digits and a
  million serial numbers, two examinees of any two exams have the same number only when exam, year and
  serial number agree.
\<close>

lemma examinee_number_unique:
  assumes "10 \<le> exam_year y1 year_of ts1 mod 100" "10 \<le> exam_year y2 year_of ts2 mod 100"
    and "0 \<le> n1" "n1 < 1000000" "0 \<le> n2" "n2 < 1000000"
    and same: "generateExamineeNumber y1 year_of n1 e1 ts1 = generateExamineeNumber y2 year_of n2 e2 ts2"
  shows "n1 = n2 \<and> Int64 e1 = Int64 e2 \<and> exam_year y1 year_of ts1 mod 100 = exam_year y2 year_of ts2 mod 100"
proof -
  let ?y1 = "sprint_d (exam_year y1 year_of ts1 mod 100)" and ?y2 = "sprint_d (exam_year y2 year_of ts2 mod 100)"
  have "length ?y1 = length ?y2" using two_digits assms(1,2) by simp
  then have y: "?y1 = ?y2" and rest: "sprint_d (Int64 e1) @ pad6 n1 = sprint_d (Int64 e2) @ pad6 n2"
    using same unfolding generateExamineeNumber_parts by simp_all
  have "length (pad6 n1) = length (pad6 n2)" using pad6_length assms by simp
  then have p: "sprint_d (Int64 e1) = sprint_d (Int64 e2)" "pad6 n1 = pad6 n2"
    using rest by simp_all
  then have "nat n1 = nat n2" using pad6_value assms(3,5) by metis
  then show ?thesis using y p(1) assms(3,5) by simp
qed

lemma examinee_number_unique_witness:
  "generateExamineeNumber 2025 (\<lambda>_. 2025) 7 (Some 12) [] \<noteq> generateExamineeNumber 2025 (\<lambda>_. 2025) 8 (Some 12) []"
  using examinee_number_unique [of 2025 "\<lambda>_. 2025" "[]" 2025 "[]" 7 8 "Some 12" "Some 12"]
  by (auto simp: exam_year_def)

text \<open>Beyond a million the number of an examinee is no longer the number of one examinee only.\<close>

lemma examinee_number_clash:
  "generateExamineeNumber y f 1000000 (Some 1) ts = generateExamineeNumber y f 0 (Some 11) ts"
proof -
  have "replicate 5 (CHR ''0'') = ''00000''" by (simp add: numeral_eq_Suc)
  moreover have "char_of (48 :: nat) = CHR ''0''" by code_simp
  ultimately have "sprint_d 1 @ pad6 1000000 = sprint_d 11 @ pad6 0"
    by (simp add: pad6_def sprint_d_def nat_digits.simps digit_char_def)
  then show ?thesis by (simp add: generateExamineeNumber_parts)
qed

end
