(* ===== verification/Exam_Rules.thy ===== *)
theory Exam_Rules
  imports Exam_Allocation
begin

text \<open>
  Which exams may be saved, \<open>serve/exam_mgt/utils.go\<close>. \<open>now\<close> is the clock; the checks of the
  sessions are taken to run at one instant. Texts come from decoded JSON, which is valid UTF-8.
\<close>

section \<open>Requests\<close>

record session_form =
  sf_paper :: null_int
  sf_mark_method :: string
  sf_period :: null_string
  sf_duration :: null_int
  sf_shuffle :: null_string
  sf_mark_mode :: null_string
  sf_start :: null_int
  sf_end :: null_int
  sf_late :: null_int
  sf_early :: null_int

record examinee_form =
  fe_id :: int
  fe_plan :: null_int

record exam_form =
  ff_id :: null_int
  ff_name :: null_string
  ff_rules :: null_string
  ff_type :: null_string
  ff_mode :: null_string
  ff_sessions :: "session_form list"
  ff_examinees :: "examinee_form list"
  ff_rooms :: "room_config list"
  ff_invigilators :: "int list"

datatype form_error =
    Form_id_invalid int
  | Name_missing
  | Name_long nat
  | Rules_long nat
  | Type_invalid
  | Mode_invalid
  | Sessions_missing
  | Session_paper_invalid int
  | Mark_method_invalid
  | Period_mode_invalid
  | Duration_invalid int
  | Shuffle_mode_invalid
  | Mark_mode_invalid
  | Start_after_end
  | Start_passed
  | Duration_long int
  | Late_entry_long int
  | Early_submission_long int
  | Late_entry_negative
  | Early_submission_negative
  | Student_invalid int
  | Rooms_missing
  | Room_invigilators_invalid
  | Invigilators_differ int nat

section \<open>Checks\<close>

text \<open>\<open>len([]rune(s))\<close> of valid UTF-8: the bytes that do not continue a character.\<close>

definition rune_count :: "string \<Rightarrow> nat" where
  "rune_count s = length (filter (\<lambda>c. \<not> (128 \<le> (of_char c :: nat) \<and> (of_char c :: nat) < 192)) s)"

text \<open>\<open>endTime.Sub(startTime)\<close> in milliseconds; a \<open>Duration\<close> holds no more than \<open>2^63 - 1\<close> nanoseconds.\<close>

definition total_ms :: "session_form \<Rightarrow> int" where
  "total_ms s = min (Int64 (sf_end s) - Int64 (sf_start s)) 9223372036854"

text \<open>The checks of a session; the value is the loop's own copy of the session.\<close>

definition check_session :: "int \<Rightarrow> session_form \<Rightarrow> form_error + session_form" where
  "check_session now s =
    (if Int64 (sf_paper s) \<le> 0 then Inl (Session_paper_invalid (Int64 (sf_paper s)))
     else if sf_mark_method s \<notin> {''00'', ''02''} then Inl Mark_method_invalid
     else if String (sf_period s) \<notin> {''00'', ''02''} then Inl Period_mode_invalid
     else if Int64 (sf_duration s) \<le> 0 then Inl (Duration_invalid (Int64 (sf_duration s)))
     else if String (sf_shuffle s) \<notin> {''00'', ''02'', ''04'', ''06''} then Inl Shuffle_mode_invalid
     else if String (sf_mark_mode s) \<notin> {''00'', ''02'', ''04'', ''06'', ''08'', ''10''} then Inl Mark_mode_invalid
     else if Int64 (sf_end s) \<le> Int64 (sf_start s) then Inl Start_after_end
     else if Int64 (sf_start s) < now then Inl Start_passed
     else if total_ms s < Int64 (sf_duration s) * 60000 then Inl (Duration_long (Int64 (sf_duration s)))
     else
       let s' = (if sf_mark_method s \<noteq> ''00'' then s\<lparr>sf_mark_mode := map_option (\<lambda>_. ''00'') (sf_mark_mode s)\<rparr> else s)
       in if total_ms s div 60000 < Int64 (sf_late s) then Inl (Late_entry_long (Int64 (sf_late s)))
          else if total_ms s div 60000 < Int64 (sf_early s) then Inl (Early_submission_long (Int64 (sf_early s)))
          else if Int64 (sf_late s) < 0 then Inl Late_entry_negative
          else if Int64 (sf_early s) < 0 then Inl Early_submission_negative
          else Inr s')"

definition check_examinee :: "examinee_form \<Rightarrow> form_error + examinee_form" where
  "check_examinee e =
    (if fe_id e \<le> 0 then Inl (Student_invalid (fe_id e))
     else Inr (if Int64 (fe_plan e) \<le> 0 then e\<lparr>fe_plan := None\<rparr> else e))"

fun check_examinees :: "examinee_form list \<Rightarrow> form_error + examinee_form list" where
  "check_examinees [] = Inr []"
| "check_examinees (e # es) =
    and_then (check_examinee e) (\<lambda>e'. and_then (check_examinees es) (\<lambda>es'. Inr (e' # es')))"

text \<open>Students entered twice: the map \<open>examineeMap\<close> and the slice \<open>order\<close>.\<close>

type_synonym seen = "(int \<rightharpoonup> examinee_form) \<times> int list"

definition see :: "examinee_form \<Rightarrow> seen \<Rightarrow> seen" where
  "see e = (\<lambda>(m, order).
     case m (fe_id e) of
       None \<Rightarrow> (m(fe_id e \<mapsto> e), order @ [fe_id e])
     | Some cur \<Rightarrow>
         if Int64 (fe_plan cur) \<le> 0 \<and> Int64 (fe_plan e) \<noteq> 0 then (m(fe_id e \<mapsto> e), order) else (m, order))"

definition unique_examinees :: "examinee_form list \<Rightarrow> examinee_form list" where
  "unique_examinees es = (let (m, order) = fold see es (Map.empty, []) in List.map_filter m order)"

text \<open>Sums of \<open>int64\<close> wrap around.\<close>

definition wrap_int64 :: "int \<Rightarrow> int" where
  "wrap_int64 n = (n + 2 ^ 63) mod 2 ^ 64 - 2 ^ 63"

fun check_rooms :: "room_config list \<Rightarrow> int \<Rightarrow> form_error + int" where
  "check_rooms [] need = Inr need"
| "check_rooms (r # rs) need =
    (if rc_invigilators r \<le> 0 then Inl Room_invigilators_invalid
     else check_rooms rs (wrap_int64 (need + rc_invigilators r)))"

definition validateExamData :: "int \<Rightarrow> bool \<Rightarrow> exam_form \<Rightarrow> form_error + exam_form" where
  "validateExamData now isUpdate f =
    (if isUpdate \<and> Int64 (ff_id f) \<le> 0 then Inl (Form_id_invalid (Int64 (ff_id f)))
     else if String (ff_name f) = [] then Inl Name_missing
     else if 50 < rune_count (String (ff_name f)) then Inl (Name_long (rune_count (String (ff_name f))))
     else if 5000 < rune_count (String (ff_rules f)) then Inl (Rules_long (rune_count (String (ff_rules f))))
     else if String (ff_type f) \<notin> {''00'', ''02'', ''04''} then Inl Type_invalid
     else if String (ff_mode f) \<notin> {''00'', ''02''} then Inl Mode_invalid
     else if ff_sessions f = [] then Inl Sessions_missing
     else and_then (for_each (\<lambda>s _. map_sum id (\<lambda>_. ()) (check_session now s)) (ff_sessions f) ()) (\<lambda>_.
       and_then (check_examinees (ff_examinees f)) (\<lambda>es.
       let f' = f\<lparr>ff_examinees := unique_examinees es\<rparr>
       in if String (ff_mode f) = ''02'' \<and> ff_rooms f = [] \<and> ff_examinees f' \<noteq> [] then Inl Rooms_missing
          else and_then (check_rooms (ff_rooms f) 0) (\<lambda>need.
            if String (ff_mode f) = ''02'' \<and> int (length (ff_invigilators f)) \<noteq> need
            then Inl (Invigilators_differ need (length (ff_invigilators f)))
            else Inr f'))))"

section \<open>Sessions and rooms\<close>

text \<open>What a session has to look like.\<close>

definition session_ok :: "int \<Rightarrow> session_form \<Rightarrow> bool" where
  "session_ok now s \<longleftrightarrow>
     0 < Int64 (sf_paper s) \<and> sf_mark_method s \<in> {''00'', ''02''} \<and>
     sf_period s \<in> Some ` {''00'', ''02''} \<and> sf_shuffle s \<in> Some ` {''00'', ''02'', ''04'', ''06''} \<and>
     sf_mark_mode s \<in> Some ` {''00'', ''02'', ''04'', ''06'', ''08'', ''10''} \<and>
     now \<le> Int64 (sf_start s) \<and> 0 < Int64 (sf_duration s) \<and>
     (let m = total_ms s div 60000 in Int64 (sf_duration s) \<le> m \<and> Int64 (sf_late s) \<in> {0..m} \<and> Int64 (sf_early s) \<in> {0..m})"

lemma String_in: "[] \<notin> A \<Longrightarrow> String x \<in> A \<longleftrightarrow> x \<in> Some ` A"
  by (cases x) auto

lemma minutes_fit: "(d :: int) * 60000 \<le> t \<longleftrightarrow> d \<le> t div 60000"
  using div_mult_mod_eq [of t 60000] pos_mod_bound [of 60000 t] pos_mod_sign [of 60000 t] by linarith

lemma if_Inl_ok: "(\<exists>y. (if b then Inl e else x) = Inr y) \<longleftrightarrow> \<not> b \<and> (\<exists>y. x = Inr y)"
  by simp

lemma check_session_ok: "(\<exists>s'. check_session now s = Inr s') \<longleftrightarrow> session_ok now s"
proof -
  have start: "0 < Int64 (sf_duration s) \<Longrightarrow> Int64 (sf_duration s) \<le> total_ms s div 60000 \<Longrightarrow> Int64 (sf_start s) < Int64 (sf_end s)"
    unfolding minutes_fit [symmetric] by (simp add: total_ms_def)
  have "String (sf_period s) \<in> {''00'', ''02''} \<longleftrightarrow> sf_period s \<in> Some ` {''00'', ''02''}"
    "String (sf_shuffle s) \<in> {''00'', ''02'', ''04'', ''06''} \<longleftrightarrow> sf_shuffle s \<in> Some ` {''00'', ''02'', ''04'', ''06''}"
    "String (sf_mark_mode s) \<in> {''00'', ''02'', ''04'', ''06'', ''08'', ''10''} \<longleftrightarrow>
       sf_mark_mode s \<in> Some ` {''00'', ''02'', ''04'', ''06'', ''08'', ''10''}"
    by (rule String_in; simp)+
  note members = this
  show ?thesis
    unfolding check_session_def session_ok_def Let_def members if_Inl_ok not_le not_less minutes_fit
    using start by (auto simp: not_le not_less minutes_fit)
qed

lemma check_sessions_ok:
  "is_ok (for_each (\<lambda>s _. map_sum id (\<lambda>_. ()) (check_session now s)) ss ()) \<longleftrightarrow> (\<forall>s\<in>set ss. session_ok now s)"
proof (induction ss)
  case (Cons s ss)
  show ?case
  proof (cases "check_session now s")
    case (Inl e)
    then have "\<not> session_ok now s" using check_session_ok [of now s] by auto
    then show ?thesis using Inl by simp
  next
    case (Inr s')
    then have "session_ok now s" using check_session_ok [of now s] by auto
    then show ?thesis using Inr Cons by simp
  qed
qed simp

lemma check_rooms_ok:
  "check_rooms rs need = Inr n \<longleftrightarrow>
    (\<forall>r\<in>set rs. 0 < rc_invigilators r) \<and> n = fold (\<lambda>r k. wrap_int64 (k + rc_invigilators r)) rs need"
  by (induction rs arbitrary: need) (auto simp: not_le)

lemma wrap_int64_add: "wrap_int64 (wrap_int64 a + b) = wrap_int64 (a + b)"
proof -
  have "wrap_int64 (wrap_int64 a + b) = ((a + 2 ^ 63) mod 2 ^ 64 + b) mod 2 ^ 64 - 2 ^ 63"
    by (simp add: wrap_int64_def algebra_simps)
  also have "\<dots> = (a + 2 ^ 63 + b) mod 2 ^ 64 - 2 ^ 63" by (simp only: mod_add_left_eq)
  also have "\<dots> = wrap_int64 (a + b)" by (simp add: wrap_int64_def algebra_simps)
  finally show ?thesis .
qed

lemma wrap_int64_id: "min_int64 \<le> n \<Longrightarrow> n \<le> max_int64 \<Longrightarrow> wrap_int64 n = n"
  by (simp add: wrap_int64_def min_int64_def max_int64_def)

lemma fold_wrap: "fold (\<lambda>r k. wrap_int64 (k + f r)) rs (wrap_int64 a) = wrap_int64 (a + (\<Sum>r\<leftarrow>rs. f r))"
  by (induction rs arbitrary: a) (simp_all add: wrap_int64_add add.assoc)

section \<open>Students entered twice\<close>

text \<open>The first entry that names a plan decides on the plan; the order is that of the first entries.\<close>

definition chosen :: "examinee_form list \<Rightarrow> int \<Rightarrow> examinee_form" where
  "chosen es i = \<lparr>fe_id = i, fe_plan =
     (case List.find (\<lambda>e. fe_id e = i \<and> 0 < Int64 (fe_plan e)) es of None \<Rightarrow> None | Some e \<Rightarrow> fe_plan e)\<rparr>"

definition in_order :: "int list \<Rightarrow> int list" where
  "in_order ids = rev (remdups (rev ids))"

lemma in_order_snoc: "in_order (ids @ [i]) = (if i \<in> set ids then in_order ids else in_order ids @ [i])"
  by (simp add: in_order_def)

lemma find_snoc: "List.find P (xs @ [x]) = (case List.find P xs of None \<Rightarrow> if P x then Some x else None | Some y \<Rightarrow> Some y)"
  by (induction xs) simp_all

definition plan_clean :: "examinee_form \<Rightarrow> bool" where
  "plan_clean e \<longleftrightarrow> (\<forall>p. fe_plan e = Some p \<longrightarrow> 0 < p)"

lemma fold_see:
  assumes "\<forall>e\<in>set es. plan_clean e"
  shows "fold see es (Map.empty, []) =
    ((\<lambda>i. if i \<in> fe_id ` set es then Some (chosen es i) else None), in_order (map fe_id es))"
  using assms
proof (induction es rule: rev_induct)
  case Nil
  then show ?case by (simp add: in_order_def)
next
  case (snoc e es)
  have clean: "plan_clean e" and IH: "fold see es (Map.empty, []) =
      ((\<lambda>i. if i \<in> fe_id ` set es then Some (chosen es i) else None), in_order (map fe_id es))"
    using snoc by simp_all
  have other: "chosen (es @ [e]) i = chosen es i" if "i \<noteq> fe_id e" for i
    using that by (simp add: chosen_def find_snoc split: option.split)
  show ?case
  proof (cases "fe_id e \<in> fe_id ` set es")
    case False
    have "List.find (\<lambda>x. fe_id x = fe_id e \<and> 0 < Int64 (fe_plan x)) es = None"
      using False unfolding find_None_iff by (metis image_eqI)
    then have "chosen (es @ [e]) (fe_id e) = e"
      using clean by (cases "fe_plan e") (simp_all add: chosen_def find_snoc plan_clean_def)
    moreover have "see e ((\<lambda>i. if i \<in> fe_id ` set es then Some (chosen es i) else None), in_order (map fe_id es)) =
        ((\<lambda>i. if i \<in> fe_id ` set es then Some (chosen es i) else None)(fe_id e \<mapsto> e), in_order (map fe_id es) @ [fe_id e])"
      using False by (simp add: see_def)
    ultimately show ?thesis
      using False other by (auto simp: fold_append IH in_order_snoc fun_eq_iff)
  next
    case True
    let ?cur = "chosen es (fe_id e)"
    have new: "chosen (es @ [e]) (fe_id e) =
        (if Int64 (fe_plan ?cur) \<le> 0 \<and> Int64 (fe_plan e) \<noteq> 0 then e else ?cur)"
    proof (cases "List.find (\<lambda>x. fe_id x = fe_id e \<and> 0 < Int64 (fe_plan x)) es")
      case None
      then show ?thesis using clean by (cases "fe_plan e") (auto simp: chosen_def find_snoc plan_clean_def)
    next
      case (Some x)
      then have "0 < Int64 (fe_plan x)" by (auto simp: find_Some_iff)
      then show ?thesis using Some by (simp add: chosen_def find_snoc)
    qed
    have "see e ((\<lambda>i. if i \<in> fe_id ` set es then Some (chosen es i) else None), in_order (map fe_id es)) =
        ((\<lambda>i. if i \<in> fe_id ` set es then Some (chosen es i) else None)(fe_id e \<mapsto> chosen (es @ [e]) (fe_id e)),
         in_order (map fe_id es))"
      using True unfolding new by (auto simp: see_def)
    then show ?thesis using True other by (auto simp: fold_append IH in_order_snoc fun_eq_iff)
  qed
qed

lemma check_examinees_ok:
  "check_examinees es = Inr es' \<longleftrightarrow> (\<forall>e\<in>set es. 0 < fe_id e) \<and>
    es' = map (\<lambda>e. if Int64 (fe_plan e) \<le> 0 then e\<lparr>fe_plan := None\<rparr> else e) es"
  by (induction es arbitrary: es') (auto simp: check_examinee_def result_simps)

lemma unique_examinees_chosen:
  assumes "\<forall>e\<in>set es. 0 < fe_id e"
  shows "unique_examinees (map (\<lambda>e. if Int64 (fe_plan e) \<le> 0 then e\<lparr>fe_plan := None\<rparr> else e) es) =
    map (chosen es) (in_order (map fe_id es))"
proof -
  let ?f = "\<lambda>e. if Int64 (fe_plan e) \<le> 0 then e\<lparr>fe_plan := None\<rparr> else e"
  have ids: "map fe_id (map ?f es) = map fe_id es" by simp
  have "plan_clean (?f e)" for e :: examinee_form by (cases "fe_plan e") (auto simp: plan_clean_def)
  then have clean: "\<forall>e\<in>set (map ?f es). plan_clean e" unfolding set_map by blast
  have same: "chosen (map ?f es) i = chosen es i" for i
  proof -
    have "List.find (\<lambda>e. fe_id e = i \<and> 0 < Int64 (fe_plan e)) (map ?f es) =
        List.find (\<lambda>e. fe_id e = i \<and> 0 < Int64 (fe_plan e)) es"
      by (induction es) auto
    then show ?thesis by (simp add: chosen_def)
  qed
  have kept: "List.map_filter (\<lambda>i. if i \<in> fe_id ` set es then Some (chosen es i) else None) ids = map (chosen es) ids"
    if "set ids \<subseteq> fe_id ` set es" for ids
    using that by (induction ids) (auto simp: map_filter_simps)
  have sub: "set (in_order (map fe_id es)) \<subseteq> fe_id ` set es" by (simp add: in_order_def)
  have "fe_id ` set (map ?f es) = fe_id ` set es" using ids by (metis set_map)
  then show ?thesis
    unfolding unique_examinees_def fold_see [OF clean] ids Let_def prod.case same by (simp only: kept [OF sub])
qed

section \<open>What is accepted\<close>

text \<open>
  (C30) An exam is accepted exactly when it has a name of at most 50 characters, rules of at most 5000, a
  known type and mode, at least one session, sessions whose duration fits between a start that has not
  passed and the end, valid students, rooms when it is offline and has students, at least one
  invigilator for each room, and offline as many invigilators as its rooms ask for (as \<open>int64\<close>). What
  is saved differs from what was sent only in the students: each once, in the order of their first
  entries, with the plan of the first entry that names one.
\<close>

theorem accepted_exams:
  "validateExamData now isUpdate f = Inr f' \<longleftrightarrow>
     (isUpdate \<longrightarrow> 0 < Int64 (ff_id f)) \<and>
     String (ff_name f) \<noteq> [] \<and> rune_count (String (ff_name f)) \<le> 50 \<and> rune_count (String (ff_rules f)) \<le> 5000 \<and>
     ff_type f \<in> Some ` {''00'', ''02'', ''04''} \<and> ff_mode f \<in> Some ` {''00'', ''02''} \<and>
     ff_sessions f \<noteq> [] \<and> (\<forall>s\<in>set (ff_sessions f). session_ok now s) \<and>
     (\<forall>e\<in>set (ff_examinees f). 0 < fe_id e) \<and> (\<forall>r\<in>set (ff_rooms f). 0 < rc_invigilators r) \<and>
     (ff_mode f = Some ''02'' \<longrightarrow> (ff_examinees f \<noteq> [] \<longrightarrow> ff_rooms f \<noteq> []) \<and>
        int (length (ff_invigilators f)) = wrap_int64 (\<Sum>r\<leftarrow>ff_rooms f. rc_invigilators r)) \<and>
     f' = f\<lparr>ff_examinees := map (chosen (ff_examinees f)) (in_order (map fe_id (ff_examinees f)))\<rparr>"
proof -
  have need: "fold (\<lambda>r k. wrap_int64 (k + rc_invigilators r)) rs 0 = wrap_int64 (\<Sum>r\<leftarrow>rs. rc_invigilators r)" for rs
    using fold_wrap [of rc_invigilators rs 0] by (simp add: wrap_int64_id min_int64_def max_int64_def)
  have texts: "String (ff_type f) \<in> {''00'', ''02'', ''04''} \<longleftrightarrow> ff_type f \<in> Some ` {''00'', ''02'', ''04''}"
    "String (ff_mode f) \<in> {''00'', ''02''} \<longleftrightarrow> ff_mode f \<in> Some ` {''00'', ''02''}"
    by (rule String_in; simp)+
  have mode: "String (ff_mode f) = ''02'' \<longleftrightarrow> ff_mode f = Some ''02''" by (cases "ff_mode f") auto
  have ifr: "(if b then Inl e else x) = Inr y \<longleftrightarrow> \<not> b \<and> x = Inr y" for b and e :: form_error and x and y :: exam_form
    by simp
  have sess: "(\<exists>u. for_each (\<lambda>s _. map_sum id (\<lambda>_. ()) (check_session now s)) (ff_sessions f) () = Inr u) \<longleftrightarrow>
      (\<forall>s\<in>set (ff_sessions f). session_ok now s)"
    using check_sessions_ok [of now "ff_sessions f"] by (simp only: is_ok_iff)
  let ?es = "map (\<lambda>e. if Int64 (fe_plan e) \<le> 0 then e\<lparr>fe_plan := None\<rparr> else e) (ff_examinees f)"
  have none: "unique_examinees ?es = [] \<longleftrightarrow> ff_examinees f = []" if "\<forall>e\<in>set (ff_examinees f). 0 < fe_id e"
    using unique_examinees_chosen [OF that] by (simp add: in_order_def)
  show ?thesis
    unfolding validateExamData_def ifr and_then_Inr_iff Let_def check_examinees_ok check_rooms_ok need texts mode
    using sess none unique_examinees_chosen [of "ff_examinees f"] by (auto simp: not_less)
qed

definition demo_exam_form :: exam_form where
  "demo_exam_form = \<lparr>ff_id = None, ff_name = Some ''A'', ff_rules = None, ff_type = Some ''00'', ff_mode = Some ''02'',
     ff_sessions = [\<lparr>sf_paper = Some 1, sf_mark_method = ''02'', sf_period = Some ''00'', sf_duration = Some 60,
       sf_shuffle = Some ''06'', sf_mark_mode = Some ''04'', sf_start = Some 1000, sf_end = Some 3601000,
       sf_late = Some 30, sf_early = None\<rparr>],
     ff_examinees = [\<lparr>fe_id = 5, fe_plan = Some 0\<rparr>, \<lparr>fe_id = 4, fe_plan = None\<rparr>, \<lparr>fe_id = 5, fe_plan = Some 9\<rparr>],
     ff_rooms = [\<lparr>rc_room = 1, rc_capacity = 30, rc_invigilators = 2\<rparr>], ff_invigilators = [7, 8]\<rparr>"

theorem accepted_exams_witness:
  "validateExamData 900 False demo_exam_form = Inr (demo_exam_form
     \<lparr>ff_examinees := [\<lparr>fe_id = 5, fe_plan = Some 9\<rparr>, \<lparr>fe_id = 4, fe_plan = None\<rparr>]\<rparr>)"
  unfolding accepted_exams
  by (simp add: demo_exam_form_def session_ok_def total_ms_def chosen_def in_order_def rune_count_def
    wrap_int64_id min_int64_def max_int64_def)

text \<open>
  The loop over the sessions sets the marking mode of an automatic session in its own copy; what is
  saved keeps the mode that was sent.
\<close>

lemma validated_sessions:
  "validateExamData now isUpdate f = Inr f' \<Longrightarrow> ff_sessions f' = ff_sessions f"
  by (auto simp: validateExamData_def Let_def and_then_Inr_iff split: if_splits)

lemma automatic_session_keeps_mark_mode:
  "\<exists>f'. validateExamData 900 False demo_exam_form = Inr f' \<and>
     map (\<lambda>s. (sf_mark_method s, sf_mark_mode s)) (ff_sessions f') = [(''02'', Some ''04'')]"
proof -
  have "is_ok (validateExamData 900 False demo_exam_form)"
    by (simp add: validateExamData_def demo_exam_form_def check_session_def total_ms_def Let_def rune_count_def
      check_examinee_def wrap_int64_def unique_examinees_def see_def map_filter_simps)
  then show ?thesis
    using validated_sessions [of 900 False demo_exam_form] by (auto simp: is_ok_iff demo_exam_form_def)
qed

end
