(* ===== verification/Exam_Status.thy ===== *)
theory Exam_Status
  imports Exam_Allocation Exam_Lifecycle Redis_Lock Marking Paper_Sheets
begin

text \<open>
  Publishing and voiding exams, \<open>examStatus\<close> of \<open>serve/exam_mgt/exam-mgt.go\<close>: the request takes the
  edit locks of its exams, checks their states, has the papers of the examinees and the configuration
  of the marking made, moves the statuses and sets or cancels the timers.

  \<open>fault\<close> says which statements the database refuses. A query that does not run in the transaction
  reads what was committed. The keys by which tests force errors are not set.
\<close>

section \<open>State\<close>

text \<open>
  The columns that only this component reads: of a session (by id) its number, its paper and its mode
  of mixing, of a paper the published copy (no row; \<open>NULL\<close>), of an exam who made it.
\<close>

record exam_columns =
  cl_session_num :: "int \<Rightarrow> null_int"
  cl_paper :: "int \<Rightarrow> null_int"
  cl_shuffle :: "int \<Rightarrow> null_string"
  cl_published :: "int \<Rightarrow> null_int option"
  cl_creator :: "int \<Rightarrow> null_int option"

text \<open>\<open>t_student_answers\<close> is \<open>pp_rows\<close>; the columns the other parts use are also in \<open>ad_answers\<close>.\<close>

record exam_world =
  ew_mark :: mark_db
  ew_paper :: paper_db
  ew_invigilations :: "invigilation list"
  ew_records :: "null_int list"
  ew_columns :: exam_columns

abbreviation ew_exam :: "exam_world \<Rightarrow> exam_db" where
  "ew_exam w \<equiv> ad_exam (md_answer (ew_mark w))"

definition map_exam :: "(exam_db \<Rightarrow> exam_db) \<Rightarrow> exam_world \<Rightarrow> exam_world" where
  "map_exam f w = w\<lparr>ew_mark := (ew_mark w)\<lparr>md_answer := (md_answer (ew_mark w))
     \<lparr>ad_exam := f (ew_exam w)\<rparr>\<rparr>\<rparr>"

text \<open>What a request is run with besides its data.\<close>

record status_env =
  se_fault :: "string \<Rightarrow> bool"
  se_parses :: "string \<Rightarrow> bool"
  se_now :: int
  se_mark_rnd :: "int \<Rightarrow> nat \<Rightarrow> nat"
  se_paper_rnd :: "int \<Rightarrow> nat \<Rightarrow> nat \<Rightarrow> nat"
  se_blank :: sheet_row
  se_clock :: "exam_event \<Rightarrow> int"
  se_scan_ok :: "int \<Rightarrow> bool"

datatype status_error =
    Status_sql string
  | Parameter_missing
  | Status_user_invalid int
  | Authority_missing
  | Not_editable
  | Ids_not_array
  | Status_exam_invalid int
  | Lock_failed lock_error
  | Not_all_exist
  | New_status_missing
  | New_status_unknown string
  | Not_voidable
  | Not_publishable
  | Session_id_invalid int
  | Exam_started
  | Paper_not_found
  | Published_paper_invalid
  | Array_element
  | Array_type
  | Creator_not_found
  | Exam_ids_empty
  | Stale
  | In_marking mark_error
  | In_papers paper_error
  | In_timers exam_error

definition lift :: "('e \<Rightarrow> 'f) \<Rightarrow> 'e + 'a \<Rightarrow> 'f + 'a" where
  "lift f = map_sum f id"

lemma lift_simps [simp, result_simps]:
  "lift f (Inl e) = Inl (f e)" "lift f (Inr a) = Inr a"
  by (simp_all add: lift_def)

lemma lift_Inr_iff [simp, result_simps]: "lift f r = Inr a \<longleftrightarrow> r = Inr a"
  by (cases r) simp_all

lemma map_sum_Inr_iff [result_simps]: "map_sum f g r = Inr b \<longleftrightarrow> (\<exists>a. r = Inr a \<and> b = g a)"
  by (cases r) auto

section \<open>Helpers\<close>

definition getQuestionShuffledMode :: "string \<Rightarrow> bool \<times> bool" where
  "getQuestionShuffledMode mode =
    (if mode = ''00'' then (True, True)
     else if mode = ''02'' then (False, True)
     else if mode = ''04'' then (True, False)
     else (False, False))"

text \<open>
  Values of the type \<open>any\<close>. \<open>f2i\<close> is Go's conversion of a \<open>float64\<close>, which out of range depends on
  the machine.
\<close>

datatype any_elem = Elem_int int | Elem_float rat | Elem_other

datatype go_any = Any_nil | Any_int64s "int list" | Any_list "any_elem list" | Any_other

fun convert_elems :: "(rat \<Rightarrow> int) \<Rightarrow> any_elem list \<Rightarrow> status_error + int list" where
  "convert_elems f2i [] = Inr []"
| "convert_elems f2i (e # es) =
    (case e of
       Elem_int i \<Rightarrow> and_then (convert_elems f2i es) (\<lambda>is. Inr (i # is))
     | Elem_float x \<Rightarrow> and_then (convert_elems f2i es) (\<lambda>is. Inr (f2i x # is))
     | Elem_other \<Rightarrow> Inl Array_element)"

fun convertToInt64Array :: "(rat \<Rightarrow> int) \<Rightarrow> go_any \<Rightarrow> status_error + int list" where
  "convertToInt64Array f2i Any_nil = Inr []"
| "convertToInt64Array f2i (Any_int64s is) = Inr is"
| "convertToInt64Array f2i (Any_list es) = convert_elems f2i es"
| "convertToInt64Array f2i Any_other = Inl Array_type"

text \<open>A \<open>bigint[]\<close> column scanned into \<open>any\<close>.\<close>

definition scanned_ids :: "int list \<Rightarrow> go_any" where
  "scanned_ids is = Any_list (map Elem_int is)"

section \<open>Statements\<close>

definition getExamSessionIDs :: "(string \<Rightarrow> bool) \<Rightarrow> exam_db \<Rightarrow> int list \<Rightarrow> status_error + int list" where
  "getExamSessionIDs fault E examIDs =
    (if fault ''getExamSessionIDs'' then Inl (Status_sql ''getExamSessionIDs'')
     else Inr (map es_id (filter (\<lambda>s. es_exam_id s \<in> set examIDs \<and> es_status s \<noteq> ''14'') (exam_sessions E))))"

text \<open>
  \<open>GetExamSessions\<close>: what a student may see, and what everybody else gets. The column
  \<open>question_shuffled_mode\<close> is scanned into \<open>AntiCheating\<close>, in its place of the list.
\<close>

record session_info =
  si_id :: int
  si_exam :: int
  si_paper :: null_int
  si_start :: int
  si_mark_method :: string
  si_shuffle :: null_string
  si_anti_cheating :: null_string
  si_mark_mode :: null_string
  si_reviewers :: go_any

definition session_row :: "bool \<Rightarrow> exam_columns \<Rightarrow> exam_session \<Rightarrow> session_info" where
  "session_row student C s =
    \<lparr>si_id = es_id s, si_exam = es_exam_id s, si_paper = cl_paper C (es_id s), si_start = es_start_time s,
     si_mark_method = es_mark_method s, si_shuffle = None,
     si_anti_cheating = (if student then None else cl_shuffle C (es_id s)),
     si_mark_mode = (if student then None else es_mark_mode s),
     si_reviewers = (if student then Any_nil else scanned_ids (es_reviewer_ids s))\<rparr>"

definition GetExamSessions ::
    "(string \<Rightarrow> bool) \<Rightarrow> exam_world \<Rightarrow> string \<Rightarrow> int list \<Rightarrow> status_error + session_info list" where
  "GetExamSessions fault w domain examIDs =
    (case List.find (\<lambda>i. i \<le> 0) examIDs of
       Some i \<Rightarrow> Inl (Status_exam_invalid i)
     | None \<Rightarrow>
         if fault ''GetExamSessions'' then Inl (Status_sql ''GetExamSessions'')
         else Inr (map (session_row (Contains domain ''^student'') (ew_columns w))
           (order_nulls_last (\<lambda>s. cl_session_num (ew_columns w) (es_id s))
             (filter (\<lambda>s. es_exam_id s \<in> set examIDs \<and> es_status s \<noteq> ''14'') (exam_sessions (ew_exam w))))))"

text \<open>The guards that the three functions \<open>update...Status\<close> share.\<close>

definition status_guards :: "string \<Rightarrow> int \<Rightarrow> int list \<Rightarrow> status_error + unit" where
  "status_guards newStatus userID examIDs =
    (if examIDs = [] then Inl Exam_ids_empty
     else case List.find (\<lambda>i. i \<le> 0) examIDs of
       Some i \<Rightarrow> Inl (Status_exam_invalid i)
     | None \<Rightarrow>
         if userID \<le> 0 then Inl (Status_user_invalid userID)
         else if newStatus = [] then Inl New_status_missing
         else Inr ())"

definition stale_where :: "(int \<times> int) list \<Rightarrow> exam_info \<Rightarrow> bool" where
  "stale_where updateTimes x \<longleftrightarrow>
     ei_id x \<in> fst ` set updateTimes \<and> ei_update_time x \<in> Some ` snd ` set updateTimes \<and> ei_status x \<noteq> ''12''"

text \<open>\<open>updateTimes\<close> is the map's list of pairs.\<close>

definition updateExamStatus ::
    "(string \<Rightarrow> bool) \<Rightarrow> int \<Rightarrow> string \<Rightarrow> int \<Rightarrow> (int \<times> int) list \<Rightarrow> exam_db \<Rightarrow> status_error + exam_db" where
  "updateExamStatus fault now newStatus userID updateTimes E =
    and_then (status_guards newStatus userID (map fst updateTimes)) (\<lambda>_.
      if fault ''UpdateExamStatus'' then Inl (Status_sql ''UpdateExamStatus'')
      else if sql_count (stale_where updateTimes) (exam_infos E) \<noteq> length updateTimes then Inl Stale
      else Inr (E\<lparr>exam_infos := sql_update (stale_where updateTimes)
             (\<lambda>x. x\<lparr>ei_status := newStatus, ei_update_time := Some now\<rparr>) (exam_infos E)\<rparr>))"

definition updateExamSessionStatus ::
    "(string \<Rightarrow> bool) \<Rightarrow> int \<Rightarrow> string \<Rightarrow> int \<Rightarrow> int list \<Rightarrow> exam_db \<Rightarrow> status_error + exam_db" where
  "updateExamSessionStatus fault now newStatus userID examIDs E =
    and_then (status_guards newStatus userID examIDs) (\<lambda>_.
      if fault ''updateExamSessionStatus'' then Inl (Status_sql ''updateExamSessionStatus'')
      else Inr (E\<lparr>exam_sessions := sql_update (\<lambda>s. es_exam_id s \<in> set examIDs \<and> es_status s \<noteq> ''14'')
             (\<lambda>s. s\<lparr>es_status := newStatus, es_update_time := Some now\<rparr>) (exam_sessions E)\<rparr>))"

definition updateExamineeStatus ::
    "(string \<Rightarrow> bool) \<Rightarrow> int \<Rightarrow> string \<Rightarrow> int \<Rightarrow> int list \<Rightarrow> exam_db \<Rightarrow> status_error + exam_db" where
  "updateExamineeStatus fault now newStatus userID examIDs E =
    and_then (status_guards newStatus userID examIDs) (\<lambda>_.
      if fault ''updateExamineeStatus'' then Inl (Status_sql ''updateExamineeStatus'')
      else Inr (E\<lparr>examinees := sql_update
             (\<lambda>e. list_ex (\<lambda>s. es_id s = ex_session_id e \<and> es_exam_id s \<in> set examIDs) (exam_sessions E) \<and> ex_status e \<noteq> ''08'')
             (\<lambda>e. e\<lparr>ex_status := newStatus, ex_update_time := Some now, ex_updated_by := Some userID\<rparr>) (examinees E)\<rparr>))"

definition deleteInvigilationAndExamRecordInfo ::
    "(string \<Rightarrow> bool) \<Rightarrow> int list \<Rightarrow> exam_world \<Rightarrow> status_error + exam_world" where
  "deleteInvigilationAndExamRecordInfo fault examSessionIDs w =
    (if examSessionIDs = [] then Inr w
     else case List.find (\<lambda>i. i \<le> 0) examSessionIDs of
       Some i \<Rightarrow> Inl (Session_id_invalid i)
     | None \<Rightarrow>
         if fault ''deleteInvigilation'' then Inl (Status_sql ''deleteInvigilation'')
         else if fault ''deleteExamRecord'' then Inl (Status_sql ''deleteExamRecord'')
         else Inr (w\<lparr>ew_invigilations := sql_delete (\<lambda>v. iv_session v \<in> Some ` set examSessionIDs) (ew_invigilations w),
                     ew_records := sql_delete (\<lambda>r. r \<in> Some ` set examSessionIDs) (ew_records w)\<rparr>))"

section \<open>Publishing\<close>

definition append_rows :: "paper_db \<Rightarrow> exam_world \<Rightarrow> exam_world" where
  "append_rows P w = w\<lparr>ew_paper := P, ew_mark := (ew_mark w)\<lparr>md_answer := (md_answer (ew_mark w))
     \<lparr>ad_answers := ad_answers (md_answer (ew_mark w)) @
        map student_answer.truncate (drop (length (pp_rows (ew_paper w))) (pp_rows P))\<rparr>\<rparr>\<rparr>"

definition session_examinees :: "exam_db \<Rightarrow> int \<Rightarrow> int list" where
  "session_examinees E sid =
     map ex_id (filter (\<lambda>e. ex_session_id e = sid \<and> ex_status e = ''00'') (examinees E))"

definition published_paper :: "(string \<Rightarrow> bool) \<Rightarrow> exam_columns \<Rightarrow> null_int \<Rightarrow> status_error + int" where
  "published_paper fault C paper =
    (if fault ''tx.SearchExamPaperID'' then Inl Paper_not_found
     else case cl_published C (Int64 paper) of
       Some (Some i) \<Rightarrow> if i = 0 then Inl Published_paper_invalid else Inr i
     | _ \<Rightarrow> Inl Paper_not_found)"

definition exam_creator :: "(string \<Rightarrow> bool) \<Rightarrow> exam_columns \<Rightarrow> int \<Rightarrow> status_error + int" where
  "exam_creator fault C examID =
    (if fault ''tx.QueryRow'' then Inl Creator_not_found
     else case cl_creator C examID of Some (Some i) \<Rightarrow> Inr i | _ \<Rightarrow> Inl Creator_not_found)"

definition paper_request :: "int \<Rightarrow> int list \<Rightarrow> string \<Rightarrow> sheet_request" where
  "paper_request examPaperID ids mode =
    \<lparr>gr_paper = examPaperID, gr_category = ''00'', gr_examinees = Some ids, gr_submissions = None,
     gr_question_random = fst (getQuestionShuffledMode mode),
     gr_option_random = snd (getQuestionShuffledMode mode), gr_attempt = 0\<rparr>"

definition marking_request :: "session_info \<Rightarrow> int list \<Rightarrow> int list \<Rightarrow> int \<Rightarrow> marker_req" where
  "marking_request s ids reviewers creator =
    \<lparr>hr_markers = (if reviewers = [] then [creator] else reviewers), hr_examinees = ids,
     hr_mode = (if reviewers = [] then ''10'' else String (si_mark_mode s)),
     hr_session = si_id s, hr_practice = 0, hr_status = ''00'', hr_sessions = [], hr_practices = []\<rparr>"

text \<open>What is done for a session that has examinees.\<close>

definition publish_session ::
    "status_env \<Rightarrow> (rat \<Rightarrow> int) \<Rightarrow> int \<Rightarrow> session_info \<Rightarrow> int list \<Rightarrow> exam_world \<Rightarrow> status_error + exam_world" where
  "publish_session V f2i userID s ids w =
    and_then (published_paper (se_fault V) (ew_columns w) (si_paper s)) (\<lambda>examPaperID.
    and_then (lift In_papers (GenerateAnswerQuestion (se_fault V) (se_paper_rnd V (si_id s)) (se_blank V) (se_now V)
        (paper_request examPaperID ids (String (si_shuffle s))) userID (ew_paper w))) (\<lambda>P.
    if se_fault V ''assign_query'' then Inl (Status_sql ''assign_query'')
    else
      let w1 = map_exam (\<lambda>E. E\<lparr>examinees := sql_update (\<lambda>e. ex_session_id e = si_id s \<and> ex_status e \<noteq> ''08'')
              (\<lambda>e. e\<lparr>ex_paper_id := examPaperID, ex_updated_by := Some userID, ex_update_time := Some (se_now V)\<rparr>)
              (examinees E)\<rparr>) (append_rows P w)
      in and_then (convertToInt64Array f2i (si_reviewers s)) (\<lambda>reviewers.
         and_then (exam_creator (se_fault V) (ew_columns w) (si_exam s)) (\<lambda>creator.
           map_sum In_marking (\<lambda>M. w1\<lparr>ew_mark := M\<rparr>)
             (HandleMarkerInfo (se_parses V) (se_fault V) (se_mark_rnd V (si_id s)) (se_now V) userID
               (marking_request s ids reviewers creator) (ew_mark w1))))))"

text \<open>The loop over the sessions stops at the first one that nobody has to sit.\<close>

fun publish_sessions ::
    "status_env \<Rightarrow> (rat \<Rightarrow> int) \<Rightarrow> int \<Rightarrow> session_info list \<Rightarrow> exam_world \<Rightarrow> status_error + exam_world" where
  "publish_sessions V f2i userID [] w = Inr w"
| "publish_sessions V f2i userID (s # ss) w =
    (if se_fault V ''examinee_query'' then Inl (Status_sql ''examinee_query'')
     else
       let ids = session_examinees (ew_exam w) (si_id s)
       in if ids = [] then Inr w
          else and_then (publish_session V f2i userID s ids w) (publish_sessions V f2i userID ss))"

definition in_exam :: "exam_world \<Rightarrow> status_error + exam_db \<Rightarrow> status_error + exam_world" where
  "in_exam w = map_sum id (\<lambda>E. map_exam (\<lambda>_. E) w)"

text \<open>The transaction of the status 02; \<open>w\<close> is also what was committed before it.\<close>

definition publish ::
    "status_env \<Rightarrow> (rat \<Rightarrow> int) \<Rightarrow> string \<Rightarrow> int \<Rightarrow> int list \<Rightarrow> (int \<times> int) list \<Rightarrow> exam_world \<Rightarrow>
      status_error + exam_world" where
  "publish V f2i domain userID examIDs updateTimes w =
    (if se_fault V ''QueryRow.CheckStatus'' then Inl (Status_sql ''QueryRow.CheckStatus'')
     else if list_ex (\<lambda>x. ei_id x \<in> set examIDs \<and> ei_status x \<noteq> ''00'') (exam_infos (ew_exam w)) then Inl Not_publishable
     else and_then (GetExamSessions (se_fault V) w domain examIDs) (\<lambda>sessions.
       if list_ex (\<lambda>s. si_start s < se_now V) sessions then Inl Exam_started
       else and_then (publish_sessions V f2i userID sessions w) (\<lambda>w1.
            and_then (in_exam w1 (updateExamSessionStatus (se_fault V) (se_now V) ''02'' userID examIDs (ew_exam w1))) (\<lambda>w2.
            in_exam w2 (updateExamStatus (se_fault V) (se_now V) ''02'' userID updateTimes (ew_exam w2))))))"

section \<open>Voiding\<close>

definition void_request :: "int list \<Rightarrow> marker_req" where
  "void_request sessions = \<lparr>hr_markers = [], hr_examinees = [], hr_mode = [], hr_session = 0, hr_practice = 0,
     hr_status = ''02'', hr_sessions = sessions, hr_practices = []\<rparr>"

definition void_exams ::
    "status_env \<Rightarrow> int \<Rightarrow> int list \<Rightarrow> (int \<times> int) list \<Rightarrow> exam_world \<Rightarrow> status_error + exam_world" where
  "void_exams V userID examIDs updateTimes w =
    (if se_fault V ''QueryRow.CheckStatus'' then Inl (Status_sql ''QueryRow.CheckStatus'')
     else if list_ex (\<lambda>x. ei_id x \<in> set examIDs \<and> ei_status x \<notin> {''02'', ''10''}) (exam_infos (ew_exam w)) then Inl Not_voidable
     else and_then (getExamSessionIDs (se_fault V) (ew_exam w) examIDs) (\<lambda>sessions.
          and_then (deleteInvigilationAndExamRecordInfo (se_fault V) sessions w) (\<lambda>w1.
          and_then (map_sum In_marking (\<lambda>M. w1\<lparr>ew_mark := M\<rparr>)
              (HandleMarkerInfo (se_parses V) (se_fault V) (se_mark_rnd V 0) (se_now V) userID (void_request sessions) (ew_mark w1))) (\<lambda>w2.
          and_then (in_exam w2 (updateExamSessionStatus (se_fault V) (se_now V) ''16'' userID examIDs (ew_exam w2))) (\<lambda>w3.
          and_then (in_exam w3 (updateExamineeStatus (se_fault V) (se_now V) ''16'' userID examIDs (ew_exam w3))) (\<lambda>w4.
          in_exam w4 (updateExamStatus (se_fault V) (se_now V) ''16'' userID updateTimes (ew_exam w4))))))))"

section \<open>The request\<close>

text \<open>
  The loop over the exams: their ids are checked and their locks taken, one after the other. An error
  leaves the locks taken so far.
\<close>

fun lock_exams ::
    "'s redis \<Rightarrow> (int \<Rightarrow> delivery) \<Rightarrow> int \<Rightarrow> int list \<Rightarrow> 's \<Rightarrow> (status_error + unit) \<times> 's" where
  "lock_exams R d userID [] s = (Inr (), s)"
| "lock_exams R d userID (i # is) s =
    (if i \<le> 0 then (Inl (Status_exam_invalid i), s)
     else case TryLock R (d i) i userID ''exam_lock:'' (5 * second) s of
       (Inl e, s') \<Rightarrow> (Inl (Lock_failed e), s')
     | (Inr ok, s') \<Rightarrow> if ok then lock_exams R d userID is s' else (Inl (Lock_failed Key_is_locked), s'))"

definition release_exams :: "'s redis \<Rightarrow> (int \<Rightarrow> delivery) \<Rightarrow> int \<Rightarrow> int list \<Rightarrow> 's \<Rightarrow> 's" where
  "release_exams R d userID is s = fold (\<lambda>i s. snd (ReleaseLock R (d i) i userID ''exam_lock:'' s)) is s"

text \<open>\<open>SELECT id, update_time\<close>; a \<open>NULL\<close> does not scan.\<close>

definition read_update_times :: "(string \<Rightarrow> bool) \<Rightarrow> int list \<Rightarrow> exam_db \<Rightarrow> status_error + (int \<times> int) list" where
  "read_update_times fault examIDs E =
    (let rows = filter (\<lambda>x. ei_id x \<in> set examIDs) (exam_infos E)
     in if fault ''QueryExamUpdateTimes'' \<or> list_ex (\<lambda>x. ei_update_time x = None) rows
        then Inl (Status_sql ''QueryExamUpdateTimes'')
        else Inr (map (\<lambda>x. (ei_id x, the (ei_update_time x))) rows))"

text \<open>The timers of the exams, one after the other; they read what was committed.\<close>

fun for_timers ::
    "(int \<Rightarrow> timer_mgr \<Rightarrow> (exam_error + unit) \<times> timer_mgr) \<Rightarrow> int list \<Rightarrow> timer_mgr \<Rightarrow> (status_error + unit) \<times> timer_mgr" where
  "for_timers f [] tm = (Inr (), tm)"
| "for_timers f (i # is) tm =
    (case f i tm of (Inl e, tm') \<Rightarrow> (Inl (In_timers e), tm') | (Inr _, tm') \<Rightarrow> for_timers f is tm')"

text \<open>
  From the choice of the status on: what the transaction would commit, and the timer manager.
\<close>

definition change_status ::
    "status_env \<Rightarrow> (rat \<Rightarrow> int) \<Rightarrow> string \<Rightarrow> int \<Rightarrow> int list \<Rightarrow> string \<Rightarrow> exam_world \<Rightarrow> timer_mgr \<Rightarrow>
      (status_error + exam_world) \<times> timer_mgr" where
  "change_status V f2i domain userID examIDs status w tm =
    (case read_update_times (se_fault V) examIDs (ew_exam w) of
       Inl e \<Rightarrow> (Inl e, tm)
     | Inr updateTimes \<Rightarrow>
         if status = ''16'' then
           (case void_exams V userID examIDs updateTimes w of
              Inl e \<Rightarrow> (Inl e, tm)
            | Inr w' \<Rightarrow> map_prod (map_sum id (\<lambda>_. w')) id
                (for_timers (CancelExamTimers (se_fault V) (se_scan_ok V) (ew_exam w)) examIDs tm))
         else if status = ''02'' then
           (case publish V f2i domain userID examIDs updateTimes w of
              Inl e \<Rightarrow> (Inl e, tm)
            | Inr w' \<Rightarrow> map_prod (map_sum id (\<lambda>_. w')) id
                (for_timers (SetExamTimers (se_fault V) (se_clock V) (ew_exam w)) examIDs tm))
         else (Inl (New_status_unknown status), tm))"

text \<open>
  \<open>rq_q\<close> tells whether the parameter \<open>q\<close> is there, \<open>rq_ids\<close> is its \<open>data.IDs\<close> if that is an array.
\<close>

record status_request =
  rq_method :: string
  rq_q :: bool
  rq_user :: null_int
  rq_domain :: "string option"
  rq_editable :: "bool option"
  rq_ids :: "int list option"
  rq_status :: string

datatype status_reply = Reply_ok | Reply_error status_error | Reply_unsupported | No_reply

text \<open>From the locks on; the reply is sent before the transaction commits, and \<open>commit\<close> may still fail.\<close>

definition run_status ::
    "status_env \<Rightarrow> (rat \<Rightarrow> int) \<Rightarrow> 's redis \<Rightarrow> (int \<Rightarrow> delivery) \<Rightarrow> (int \<Rightarrow> delivery) \<Rightarrow> string \<Rightarrow> int \<Rightarrow> int list \<Rightarrow> string \<Rightarrow>
      exam_world \<Rightarrow> timer_mgr \<Rightarrow> 's \<Rightarrow> status_reply \<times> exam_world \<times> timer_mgr \<times> 's" where
  "run_status V f2i R d rd domain userID examIDs status w tm s =
    (case lock_exams R d userID examIDs s of
       (Inl e, s1) \<Rightarrow> (Reply_error e, w, tm, s1)
     | (Inr _, s1) \<Rightarrow>
         if se_fault V ''checkExamExists'' then (Reply_error (Status_sql ''checkExamExists''), w, tm, s1)
         else if sql_count (\<lambda>x. ei_id x \<in> set examIDs \<and> ei_status x \<noteq> ''12'') (exam_infos (ew_exam w)) \<noteq> length examIDs
         then (Reply_error Not_all_exist, w, tm, s1)
         else
           let s2 = release_exams R rd userID examIDs s1
           in if status = [] then (Reply_error New_status_missing, w, tm, s2)
              else if se_fault V ''tx.Begin'' then (Reply_error (Status_sql ''tx.Begin''), w, tm, s2)
              else (case change_status V f2i domain userID examIDs status w tm of
                      (Inl e, tm') \<Rightarrow> (Reply_error e, w, tm', s2)
                    | (Inr w', tm') \<Rightarrow> (Reply_ok, if se_fault V ''tx.Commit'' then w else w', tm', s2)))"

definition examStatus ::
    "status_env \<Rightarrow> (rat \<Rightarrow> int) \<Rightarrow> 's redis \<Rightarrow> (int \<Rightarrow> delivery) \<Rightarrow> (int \<Rightarrow> delivery) \<Rightarrow> status_request \<Rightarrow>
      exam_world \<Rightarrow> timer_mgr \<Rightarrow> 's \<Rightarrow> status_reply \<times> exam_world \<times> timer_mgr \<times> 's" where
  "examStatus V f2i R d rd q w tm s =
    (if ToLower (rq_method q) \<noteq> ''put'' then (Reply_unsupported, w, tm, s)
     else if \<not> rq_q q then (Reply_error Parameter_missing, w, tm, s)
     else if Int64 (rq_user q) \<le> 0 then (Reply_error (Status_user_invalid (Int64 (rq_user q))), w, tm, s)
     else case rq_domain q of
       None \<Rightarrow> (Reply_error Authority_missing, w, tm, s)
     | Some domain \<Rightarrow>
         (case rq_editable q of
            None \<Rightarrow> (No_reply, w, tm, s)
          | Some editable \<Rightarrow>
              if \<not> editable then (Reply_error Not_editable, w, tm, s)
              else (case rq_ids q of
                      None \<Rightarrow> (Reply_error Ids_not_array, w, tm, s)
                    | Some examIDs \<Rightarrow>
                        run_status V f2i R d rd domain (Int64 (rq_user q)) examIDs (rq_status q) w tm s)))"

end
