(* ===== verification/Status_Props.thy ===== *)
theory Status_Props
  imports Exam_Status Mark_Props Paper_Props
begin

text \<open>
  What \<open>examStatus\<close> does to the exams: publishing moves exams and sessions or changes nothing, stale
  reads and locks of others stop it, and voiding cannot succeed.
\<close>

section \<open>What publishing a session touches\<close>

lemma marker_rows_session:
  assumes "marker_rows rnd now t r q = Inr infos" "hr_practice r \<le> 0"
  shows "\<forall>i\<in>set infos. mi_session i = Some (hr_session r)"
  using assms
  by (auto simp: marker_rows_def Let_def new_info_def and_then_Inr_iff split: if_splits sum.splits)

lemma handle_marker_rows:
  assumes "HandleMarkerInfo parses fault rnd now t r M = Inr M'" "hr_status r = ''00''" "hr_practice r \<le> 0"
  shows "\<exists>infos. M' = M\<lparr>md_infos := md_infos M @ infos\<rparr> \<and> (\<forall>i\<in>set infos. mi_session i = Some (hr_session r))"
  using assms marker_rows_session
  by (auto simp: HandleMarkerInfo_def and_then_Inr_iff split: if_splits)

definition paper_assigned :: "status_env \<Rightarrow> int \<Rightarrow> int \<Rightarrow> int \<Rightarrow> examinee list \<Rightarrow> examinee list" where
  "paper_assigned V userID sid p es = sql_update (\<lambda>e. ex_session_id e = sid \<and> ex_status e \<noteq> ''08'')
     (\<lambda>e. e\<lparr>ex_paper_id := p, ex_updated_by := Some userID, ex_update_time := Some (se_now V)\<rparr>) es"

lemma publish_session_effect:
  assumes "publish_session V f2i userID s ids w = Inr w'"
  shows "\<exists>p infos. examinees (ew_exam w') = paper_assigned V userID (si_id s) p (examinees (ew_exam w)) \<and>
    exam_infos (ew_exam w') = exam_infos (ew_exam w) \<and> exam_sessions (ew_exam w') = exam_sessions (ew_exam w) \<and>
    ew_columns w' = ew_columns w \<and>
    md_infos (ew_mark w') = md_infos (ew_mark w) @ infos \<and> (\<forall>i\<in>set infos. mi_session i = Some (si_id s))"
proof -
  obtain p P reviewers creator M where w': "w' = (map_exam (\<lambda>E. E\<lparr>examinees := paper_assigned V userID (si_id s) p (examinees E)\<rparr>)
      (append_rows P w))\<lparr>ew_mark := M\<rparr>"
    and M: "HandleMarkerInfo (se_parses V) (se_fault V) (se_mark_rnd V (si_id s)) (se_now V) userID
        (marking_request s ids reviewers creator)
        (ew_mark (map_exam (\<lambda>E. E\<lparr>examinees := paper_assigned V userID (si_id s) p (examinees E)\<rparr>) (append_rows P w))) = Inr M"
    using assms
    by (auto simp: publish_session_def paper_assigned_def Let_def and_then_Inr_iff map_sum_Inr_iff
      split: if_split_asm option.split_asm)
  obtain infos where "M = (ew_mark (map_exam (\<lambda>E. E\<lparr>examinees := paper_assigned V userID (si_id s) p (examinees E)\<rparr>) (append_rows P w)))
      \<lparr>md_infos := md_infos (ew_mark w) @ infos\<rparr>" "\<forall>i\<in>set infos. mi_session i = Some (si_id s)"
    using handle_marker_rows [OF M] by (auto simp: marking_request_def map_exam_def append_rows_def)
  then show ?thesis using w' by (intro exI [of _ p] exI [of _ infos]) (simp add: map_exam_def append_rows_def)
qed

lemma paper_assigned_other:
  "sid \<noteq> sid' \<Longrightarrow> filter (\<lambda>e. ex_session_id e = sid') (paper_assigned V u sid p es) = filter (\<lambda>e. ex_session_id e = sid') es"
  by (induction es) (auto simp: paper_assigned_def sql_update_def)

lemma paper_assigned_ids:
  "map ex_id (filter (\<lambda>e. ex_session_id e = sid' \<and> ex_status e = st) (paper_assigned V u sid p es)) =
   map ex_id (filter (\<lambda>e. ex_session_id e = sid' \<and> ex_status e = st) es)"
  by (induction es) (auto simp: paper_assigned_def sql_update_def)

lemma publish_session_examinees:
  assumes "publish_session V f2i userID s ids w = Inr w'"
  shows "session_examinees (ew_exam w') sid = session_examinees (ew_exam w) sid"
  using publish_session_effect [OF assms] by (auto simp: session_examinees_def paper_assigned_ids)

lemma publish_sessions_effect:
  assumes "publish_sessions V f2i userID ss w = Inr w'"
  shows "exam_infos (ew_exam w') = exam_infos (ew_exam w) \<and> exam_sessions (ew_exam w') = exam_sessions (ew_exam w) \<and>
    ew_columns w' = ew_columns w \<and>
    (\<forall>sid. sid \<notin> si_id ` set ss \<longrightarrow>
       filter (\<lambda>e. ex_session_id e = sid) (examinees (ew_exam w')) = filter (\<lambda>e. ex_session_id e = sid) (examinees (ew_exam w)) \<and>
       filter (\<lambda>i. mi_session i = Some sid) (md_infos (ew_mark w')) = filter (\<lambda>i. mi_session i = Some sid) (md_infos (ew_mark w)))"
  using assms
proof (induction ss arbitrary: w)
  case Nil
  then show ?case by simp
next
  case (Cons s ss)
  show ?case
  proof (cases "session_examinees (ew_exam w) (si_id s) = []")
    case True
    then show ?thesis using Cons(2) by (simp add: Let_def split: if_splits)
  next
    case False
    then obtain w1 where w1: "publish_session V f2i userID s (session_examinees (ew_exam w) (si_id s)) w = Inr w1"
        "publish_sessions V f2i userID ss w1 = Inr w'"
      using Cons(2) by (auto simp: Let_def and_then_Inr_iff split: if_splits)
    obtain p infos where e: "examinees (ew_exam w1) = paper_assigned V userID (si_id s) p (examinees (ew_exam w))"
      "exam_infos (ew_exam w1) = exam_infos (ew_exam w)" "exam_sessions (ew_exam w1) = exam_sessions (ew_exam w)"
      "ew_columns w1 = ew_columns w"
      "md_infos (ew_mark w1) = md_infos (ew_mark w) @ infos" "\<forall>i\<in>set infos. mi_session i = Some (si_id s)"
      using publish_session_effect [OF w1(1)] by blast
    have none: "filter (\<lambda>i. mi_session i = Some sid) infos = []" if "sid \<noteq> si_id s" for sid
      using e(6) that by (auto simp: filter_empty_conv)
    show ?thesis using Cons(1) [OF w1(2)] e(1-5) none paper_assigned_other by (simp add: paper_assigned_other)
  qed
qed

text \<open>Nothing is done for the sessions behind the first one without examinees.\<close>

lemma publish_sessions_stop:
  assumes "\<not> se_fault V ''examinee_query''" "session_examinees (ew_exam w) (si_id s) = []"
  shows "publish_sessions V f2i userID (ss1 @ s # ss2) w = publish_sessions V f2i userID ss1 w"
  using assms
proof (induction ss1 arbitrary: w)
  case Nil
  then show ?case by (simp add: Let_def)
next
  case (Cons t ss1)
  have "publish_sessions V f2i userID (ss1 @ s # ss2) w1 = publish_sessions V f2i userID ss1 w1"
    if "publish_session V f2i userID t ids w = Inr w1" for ids w1
    using Cons(1) [of w1] Cons(2,3) publish_session_examinees [OF that] by simp
  then have "and_then (publish_session V f2i userID t ids w) (publish_sessions V f2i userID (ss1 @ s # ss2)) =
      and_then (publish_session V f2i userID t ids w) (publish_sessions V f2i userID ss1)" for ids
    by (cases "publish_session V f2i userID t ids w") simp_all
  then show ?case by (simp add: Let_def)
qed

section \<open>The whole request\<close>

lemma sql_count_same:
  assumes "sql_count P rows = sql_count Q rows" "\<And>r. P r \<Longrightarrow> Q r"
  shows "\<forall>r\<in>set rows. P r \<longleftrightarrow> Q r"
  using assms(1)
proof (induction rows)
  case (Cons r rows)
  have le: "sql_count P rows \<le> sql_count Q rows" for rows
    unfolding sql_count_def by (induction rows) (auto dest: assms(2))
  have count: "sql_count X (r # rows) = (if X r then 1 else 0) + sql_count X rows" for X by (simp add: sql_count_def)
  show ?case
  proof (cases "P r = Q r")
    case True
    then show ?thesis using Cons by (simp add: count)
  next
    case False
    then have "\<not> P r" "Q r" using assms(2) [of r] by blast+
    then show ?thesis using Cons(2) le [of rows] by (simp add: count del: sql_count_0_iff)
  qed
qed simp

lemma sql_update_cong: "\<forall>r\<in>set rows. P r \<longleftrightarrow> Q r \<Longrightarrow> sql_update P f rows = sql_update Q f rows"
  by (simp add: sql_update_def)

lemma read_update_timesD:
  assumes "read_update_times fault ids E = Inr utimes"
  shows "length utimes = sql_count (\<lambda>x. ei_id x \<in> set ids) (exam_infos E) \<and> fst ` set utimes \<subseteq> set ids"
proof -
  have "utimes = map (\<lambda>x. (ei_id x, the (ei_update_time x))) (filter (\<lambda>x. ei_id x \<in> set ids) (exam_infos E))"
    using assms by (simp add: read_update_times_def Let_def split: if_split_asm)
  then show ?thesis by (auto simp: sql_count_def)
qed

lemma updateExamStatus_all:
  assumes "updateExamStatus fault now st u utimes E = Inr E'" "fst ` set utimes \<subseteq> set ids"
    and "length utimes = sql_count (\<lambda>x. ei_id x \<in> set ids) (exam_infos E)"
  shows "E' = E\<lparr>exam_infos := sql_update (\<lambda>x. ei_id x \<in> set ids)
      (\<lambda>x. x\<lparr>ei_status := st, ei_update_time := Some now\<rparr>) (exam_infos E)\<rparr>"
proof -
  have count: "sql_count (stale_where utimes) (exam_infos E) = sql_count (\<lambda>x. ei_id x \<in> set ids) (exam_infos E)"
    and E': "E' = E\<lparr>exam_infos := sql_update (stale_where utimes)
      (\<lambda>x. x\<lparr>ei_status := st, ei_update_time := Some now\<rparr>) (exam_infos E)\<rparr>"
    using assms(1,3) by (auto simp: updateExamStatus_def and_then_Inr_iff split: if_split_asm)
  have "\<forall>x\<in>set (exam_infos E). stale_where utimes x \<longleftrightarrow> ei_id x \<in> set ids"
    by (rule sql_count_same [OF count]) (use assms(2) in \<open>auto simp: stale_where_def\<close>)
  from sql_update_cong [OF this] show ?thesis unfolding E' by simp
qed

lemma updateExamSessionStatus_all:
  "updateExamSessionStatus fault now st u ids E = Inr E' \<Longrightarrow>
    E' = E\<lparr>exam_sessions := sql_update (\<lambda>s. es_exam_id s \<in> set ids \<and> es_status s \<noteq> ''14'')
       (\<lambda>s. s\<lparr>es_status := st, es_update_time := Some now\<rparr>) (exam_sessions E)\<rparr>"
  by (auto simp: updateExamSessionStatus_def and_then_Inr_iff split: if_split_asm)

definition exams_moved :: "int \<Rightarrow> string \<Rightarrow> int list \<Rightarrow> exam_db \<Rightarrow> exam_db \<Rightarrow> bool" where
  "exams_moved now st ids E E' \<longleftrightarrow>
     exam_infos E' = sql_update (\<lambda>x. ei_id x \<in> set ids)
       (\<lambda>x. x\<lparr>ei_status := st, ei_update_time := Some now\<rparr>) (exam_infos E) \<and>
     exam_sessions E' = sql_update (\<lambda>s. es_exam_id s \<in> set ids \<and> es_status s \<noteq> ''14'')
       (\<lambda>s. s\<lparr>es_status := st, es_update_time := Some now\<rparr>) (exam_sessions E)"

lemma map_exam_simps [simp]:
  "ew_exam (map_exam f w) = f (ew_exam w)" "ew_columns (map_exam f w) = ew_columns w"
  "ew_paper (map_exam f w) = ew_paper w" "md_infos (ew_mark (map_exam f w)) = md_infos (ew_mark w)"
  by (simp_all add: map_exam_def)

lemma publishD:
  assumes "publish V f2i domain u ids utimes w = Inr w'"
  obtains ss w1 E1 E2 where "\<forall>x\<in>set (exam_infos (ew_exam w)). ei_id x \<in> set ids \<longrightarrow> ei_status x = ''00''"
    "GetExamSessions (se_fault V) w domain ids = Inr ss" "\<forall>s\<in>set ss. se_now V \<le> si_start s"
    "publish_sessions V f2i u ss w = Inr w1"
    "updateExamSessionStatus (se_fault V) (se_now V) ''02'' u ids (ew_exam w1) = Inr E1"
    "updateExamStatus (se_fault V) (se_now V) ''02'' u utimes E1 = Inr E2"
    "w' = map_exam (\<lambda>_. E2) (map_exam (\<lambda>_. E1) w1)"
proof -
  obtain ss w1 E1 where a: "\<not> list_ex (\<lambda>x. ei_id x \<in> set ids \<and> ei_status x \<noteq> ''00'') (exam_infos (ew_exam w))"
    "GetExamSessions (se_fault V) w domain ids = Inr ss" "\<not> list_ex (\<lambda>s. si_start s < se_now V) ss"
    "publish_sessions V f2i u ss w = Inr w1"
    "updateExamSessionStatus (se_fault V) (se_now V) ''02'' u ids (ew_exam w1) = Inr E1"
    "in_exam (map_exam (\<lambda>_. E1) w1) (updateExamStatus (se_fault V) (se_now V) ''02'' u utimes (ew_exam (map_exam (\<lambda>_. E1) w1))) = Inr w'"
    using assms by (auto simp: publish_def and_then_Inr_iff in_exam_def map_sum_Inr_iff split: if_split_asm)
  obtain E2 where E2: "updateExamStatus (se_fault V) (se_now V) ''02'' u utimes E1 = Inr E2"
      "w' = map_exam (\<lambda>_. E2) (map_exam (\<lambda>_. E1) w1)"
    using a(6) by (auto simp: in_exam_def map_sum_Inr_iff)
  show thesis by (rule that [OF _ a(2) _ a(4,5) E2]) (use a(1,3) in \<open>auto simp: list_ex_iff not_less\<close>)
qed

lemma publish_moves:
  assumes p: "publish V f2i domain u ids utimes w = Inr w'"
    and t: "read_update_times (se_fault V) ids (ew_exam w) = Inr utimes"
  shows "exams_moved (se_now V) ''02'' ids (ew_exam w) (ew_exam w') \<and>
    (\<forall>x\<in>set (exam_infos (ew_exam w)). ei_id x \<in> set ids \<longrightarrow> ei_status x = ''00'')"
proof (rule publishD [OF p])
  fix ss w1 E1 E2
  assume a: "\<forall>x\<in>set (exam_infos (ew_exam w)). ei_id x \<in> set ids \<longrightarrow> ei_status x = ''00''"
    "publish_sessions V f2i u ss w = Inr w1"
    "updateExamSessionStatus (se_fault V) (se_now V) ''02'' u ids (ew_exam w1) = Inr E1"
    "updateExamStatus (se_fault V) (se_now V) ''02'' u utimes E1 = Inr E2"
    "w' = map_exam (\<lambda>_. E2) (map_exam (\<lambda>_. E1) w1)"
  have w1: "exam_infos (ew_exam w1) = exam_infos (ew_exam w)" "exam_sessions (ew_exam w1) = exam_sessions (ew_exam w)"
    using publish_sessions_effect [OF a(2)] by simp_all
  note E1 = updateExamSessionStatus_all [OF a(3)]
  have "E2 = E1\<lparr>exam_infos := sql_update (\<lambda>x. ei_id x \<in> set ids)
      (\<lambda>x. x\<lparr>ei_status := ''02'', ei_update_time := Some (se_now V)\<rparr>) (exam_infos E1)\<rparr>"
    using read_update_timesD [OF t] w1 E1 by (intro updateExamStatus_all [OF a(4)]) simp_all
  then show ?thesis using a(1,5) E1 w1 by (simp add: exams_moved_def)
qed

lemma for_timers_ok:
  "for_timers f ids tm = (Inr r, tm') \<Longrightarrow> (\<And>i tm a tm'. f i tm = (Inr a, tm') \<Longrightarrow> tm' = g i tm) \<Longrightarrow> tm' = fold g ids tm"
  by (induction ids arbitrary: tm) (auto split: prod.splits sum.splits)

text \<open>The ways a request that replies success went.\<close>

lemma run_status_ok:
  assumes "run_status V f2i R d rd domain u ids st w tm s = (Reply_ok, w', tm', s')"
  obtains s1 w2 where "lock_exams R d u ids s = (Inr (), s1)" "s' = release_exams R rd u ids s1"
    "change_status V f2i domain u ids st w tm = (Inr w2, tm')" "w' = (if se_fault V ''tx.Commit'' then w else w2)"
  using assms that
  by (auto simp: run_status_def Let_def split: prod.split_asm sum.split_asm if_split_asm)

lemma run_status_not_ok:
  assumes "run_status V f2i R d rd domain u ids st w tm s = (r, w', tm', s')" "r \<noteq> Reply_ok"
  shows "w' = w"
  using assms by (auto simp: run_status_def Let_def split: prod.split_asm sum.split_asm if_split_asm)

lemma examStatus_not_ok:
  assumes "examStatus V f2i R d rd q w tm s = (r, w', tm', s')" "r \<noteq> Reply_ok"
  shows "w' = w"
  using assms run_status_not_ok by (auto simp: examStatus_def split: if_split_asm option.split_asm)

lemma examStatus_ok:
  assumes "examStatus V f2i R d rd q w tm s = (Reply_ok, w', tm', s')"
  obtains domain ids where "rq_ids q = Some ids"
    "run_status V f2i R d rd domain (Int64 (rq_user q)) ids (rq_status q) w tm s = (Reply_ok, w', tm', s')"
  using assms that by (auto simp: examStatus_def split: if_split_asm option.split_asm)

definition exam_timer_rows :: "exam_db \<Rightarrow> int \<Rightarrow> exam_session list" where
  "exam_timer_rows E i = filter (\<lambda>s. es_exam_id s = i \<and> live_session s) (exam_sessions E)"

text \<open>
  (C26) Publishing exams either changes nothing in the database or moves all of them: exactly the exams
  of the request get the status 02, all of which were unpublished (00), and with them all their
  sessions that are not deleted, and the start and end of every such session is armed. This holds
  unless the commit fails, which the request does not notice.
\<close>

theorem publish_all_or_nothing:
  assumes "examStatus V f2i R d rd q w tm s = (reply, w', tm', s')" "rq_status q = ''02''" "\<not> se_fault V ''tx.Commit''"
  shows "if reply = Reply_ok
    then \<exists>ids. rq_ids q = Some ids \<and> exams_moved (se_now V) ''02'' ids (ew_exam w) (ew_exam w') \<and>
      (\<forall>x\<in>set (exam_infos (ew_exam w)). ei_id x \<in> set ids \<longrightarrow> ei_status x = ''00'') \<and>
      tm' = fold (\<lambda>i. fold (set_session_timers (se_clock V) i) (exam_timer_rows (ew_exam w) i)) ids tm
    else w' = w"
proof (cases "reply = Reply_ok")
  case False
  then show ?thesis using examStatus_not_ok [OF assms(1)] by simp
next
  case True
  obtain domain ids where r: "rq_ids q = Some ids"
    "run_status V f2i R d rd domain (Int64 (rq_user q)) ids ''02'' w tm s = (Reply_ok, w', tm', s')"
    using examStatus_ok [OF assms(1) [unfolded True]] assms(2) by metis
  obtain w2 where c: "change_status V f2i domain (Int64 (rq_user q)) ids ''02'' w tm = (Inr w2, tm')" "w' = w2"
    by (rule run_status_ok [OF r(2)]) (simp add: assms(3))
  obtain utimes where t: "read_update_times (se_fault V) ids (ew_exam w) = Inr utimes"
    "publish V f2i domain (Int64 (rq_user q)) ids utimes w = Inr w'"
    "for_timers (SetExamTimers (se_fault V) (se_clock V) (ew_exam w)) ids tm = (Inr (), tm')"
    using c by (auto simp: change_status_def map_prod_def map_sum_Inr_iff split: sum.split_asm prod.split_asm)
  have "tm' = fold (\<lambda>i. fold (set_session_timers (se_clock V) i) (exam_timer_rows (ew_exam w) i)) ids tm"
    by (rule for_timers_ok [OF t(3)]) (auto simp: SetExamTimers_def exam_timer_rows_def Let_def split: if_split_asm)
  then show ?thesis using True r(1) publish_moves [OF t(2,1)] by simp
qed

section \<open>Locks\<close>

lemma TryLock_other_key:
  assumes "redis_laws R" "lock_key p rid \<noteq> k"
  shows "lease_of R (snd (TryLock R d rid h p e s)) k = lease_of R s k"
  using lock_step_refines [OF assms(1), of "Op_try d rid h p e" s] assms(2) by simp

lemma lease_get: "lease_of R s' k = lease_of R s k \<Longrightarrow> r_get R k s' = r_get R k s"
  by (simp add: lease_of_def split: option.splits)

lemma lock_exams_other:
  assumes laws: "redis_laws R" and "i \<in> set ids" "h \<noteq> u" "r_get R (lock_key ''exam_lock:'' i) s = Some (sprint_d h)"
  shows "\<exists>e s'. lock_exams R d u ids s = (Inl e, s') \<and>
    lease_of R s' (lock_key ''exam_lock:'' i) = lease_of R s (lock_key ''exam_lock:'' i)"
  using assms(2,4)
proof (induction ids arbitrary: s)
  case (Cons j js)
  let ?k = "lock_key ''exam_lock:''"
  show ?case
  proof (cases "j \<le> 0 \<or> j = i")
    case True
    then show ?thesis using TryLock_held [OF Cons(3), of u "d i" "5 * second"] assms(3) by auto
  next
    case False
    then have "?k j \<noteq> ?k i" by (simp add: lock_key_def)
    note other = TryLock_other_key [OF laws this, of "d j" u "5 * second" s]
    show ?thesis
    proof (cases "TryLock R (d j) j u ''exam_lock:'' (5 * second) s")
      case (Pair r s1)
      then have same: "lease_of R s1 (?k i) = lease_of R s (?k i)" using other by simp
      show ?thesis
      proof (cases r)
        case (Inl e)
        then show ?thesis using Pair False same by simp
      next
        case (Inr ok)
        show ?thesis
        proof (cases ok)
          case True
          obtain e s' where "lock_exams R d u js s1 = (Inl e, s')" "lease_of R s' (?k i) = lease_of R s1 (?k i)"
            using Cons(1) [of s1] Cons(2,3) False lease_get [OF same] by auto
          then show ?thesis using Pair Inr True False same by simp
        next
          case ok: False
          then show ?thesis using Pair Inr False same by simp
        qed
      qed
    qed
  qed
qed simp

text \<open>
  (C27) While somebody else edits one of the exams of a request, that is, holds its lock, the request
  is refused: database and timers stay as they are and the other's lock keeps its holder and its time.
\<close>

theorem others_edit_stops_change:
  assumes "redis_laws R" "examStatus V f2i R d rd q w tm s = (reply, w', tm', s')"
    and "rq_ids q = Some ids" "i \<in> set ids" "h \<noteq> Int64 (rq_user q)"
    and "r_get R (lock_key ''exam_lock:'' i) s = Some (sprint_d h)"
  shows "reply \<noteq> Reply_ok \<and> w' = w \<and> tm' = tm \<and>
    lease_of R s' (lock_key ''exam_lock:'' i) = lease_of R s (lock_key ''exam_lock:'' i)"
proof -
  obtain e s1 where l: "lock_exams R d (Int64 (rq_user q)) ids s = (Inl e, s1)"
    "lease_of R s1 (lock_key ''exam_lock:'' i) = lease_of R s (lock_key ''exam_lock:'' i)"
    using lock_exams_other [OF assms(1,4,5,6)] by metis
  then show ?thesis using assms(2,3)
    by (auto simp: examStatus_def run_status_def split: if_split_asm option.split_asm)
qed

lemma ReleaseLock_lease:
  assumes "redis_laws R"
  shows "lease_of R (snd (ReleaseLock R d i u p s)) =
    (if d \<noteq> Request_lost \<and> held_by (lease_of R s) (lock_key p i) u then (lease_of R s)(lock_key p i := None) else lease_of R s)"
  using lock_step_refines [OF assms, of "Op_release d i u p" s] by simp

lemma release_exams_free:
  assumes "redis_laws R" "\<forall>i\<in>set ids. rd i = Answered"
    and "\<forall>i\<in>set ids. lease_of R s (lock_key ''exam_lock:'' i) = None \<or> held_by (lease_of R s) (lock_key ''exam_lock:'' i) u"
  shows "\<forall>i\<in>set ids. lease_of R (release_exams R rd u ids s) (lock_key ''exam_lock:'' i) = None"
proof -
  have none: "lease_of R (release_exams R rd u js s) k = None" if "lease_of R s k = None" for js s k
    using that unfolding release_exams_def
    by (induction js arbitrary: s) (simp_all add: ReleaseLock_lease [OF assms(1)] del: lease_of_None held_by_lease_of)
  have "lease_of R (release_exams R rd u js s) (lock_key ''exam_lock:'' i) = None"
    if "i \<in> set js" "set js \<subseteq> set ids" "lease_of R s (lock_key ''exam_lock:'' i) = None \<or> held_by (lease_of R s) (lock_key ''exam_lock:'' i) u" for js i s
    using that
  proof (induction js arbitrary: s)
    case (Cons j js)
    let ?s1 = "snd (ReleaseLock R (rd j) j u ''exam_lock:'' s)"
    have rel: "release_exams R rd u (j # js) s = release_exams R rd u js ?s1" by (simp add: release_exams_def)
    have lease: "lease_of R ?s1 = (if held_by (lease_of R s) (lock_key ''exam_lock:'' j) u
        then (lease_of R s)(lock_key ''exam_lock:'' j := None) else lease_of R s)"
      using ReleaseLock_lease [OF assms(1), of "rd j" j u "''exam_lock:''" s] assms(2) Cons(3) by simp
    show ?case
    proof (cases "i = j")
      case True
      have "lease_of R ?s1 (lock_key ''exam_lock:'' i) = None"
        using lease Cons(4) True by (auto simp del: lease_of_None held_by_lease_of)
      then show ?thesis unfolding rel by (rule none)
    next
      case False
      then have "lock_key ''exam_lock:'' i \<noteq> lock_key ''exam_lock:'' j" by (simp add: lock_key_def)
      then have "lease_of R ?s1 (lock_key ''exam_lock:'' i) = lease_of R s (lock_key ''exam_lock:'' i)"
        using lease by (simp del: lease_of_None held_by_lease_of)
      then show ?thesis unfolding rel using Cons(1) [of ?s1] Cons(2,3,4) False
        by (simp add: held_by_def del: lease_of_None held_by_lease_of)
    qed
  qed simp
  then show ?thesis using assms(3) by blast
qed

lemma try_seconds_5: "try_seconds (5 * second) = 5"
  by (simp add: try_seconds_def whole_seconds_def second_def)

lemma TryLock_held_by:
  assumes "redis_laws R" "TryLock R d i u p (5 * second) s = (Inr b, s1)"
  shows "held_by (lease_of R s1) (lock_key p i) u \<and> (held_by (lease_of R s) k u \<longrightarrow> held_by (lease_of R s1) k u)"
proof -
  have "lease_of R s1 = (lease_of R s)(lock_key p i := Some (sprint_d u, Some 5000))"
    using TryLock_Inr [OF assms] by (simp add: try_seconds_5 new_lease_def)
  then show ?thesis by (auto simp: held_by_def simp del: held_by_lease_of)
qed

lemma lock_exams_hold:
  assumes "redis_laws R" "lock_exams R d u ids s = (Inr r, s1)"
  shows "(\<forall>i\<in>set ids. held_by (lease_of R s1) (lock_key ''exam_lock:'' i) u) \<and>
    (held_by (lease_of R s) k u \<longrightarrow> held_by (lease_of R s1) k u)"
  using assms(2)
proof (induction ids arbitrary: s k)
  case Nil
  then show ?case by simp
next
  case (Cons j js)
  obtain b s2 where t: "TryLock R (d j) j u ''exam_lock:'' (5 * second) s = (Inr b, s2)" "lock_exams R d u js s2 = (Inr r, s1)"
    using Cons(2) by (auto split: if_split_asm prod.split_asm sum.split_asm)
  show ?case
    using TryLock_held_by [OF assms(1) t(1)] Cons(1) [OF t(2)] by (auto simp del: held_by_lease_of)
qed

text \<open>
  A request that succeeds and whose calls to give the locks back arrive leaves the locks of all
  its exams free: also the one the user had taken before, with its own time, to edit the exam.
\<close>

lemma change_frees_locks:
  assumes "redis_laws R" "examStatus V f2i R d rd q w tm s = (Reply_ok, w', tm', s')"
    and "rq_ids q = Some ids" "\<forall>i\<in>set ids. rd i = Answered" "i \<in> set ids"
  shows "lease_of R s' (lock_key ''exam_lock:'' i) = None"
proof (rule examStatus_ok [OF assms(2)])
  fix domain ids'
  assume "rq_ids q = Some ids'" and run: "run_status V f2i R d rd domain (Int64 (rq_user q)) ids' (rq_status q) w tm s = (Reply_ok, w', tm', s')"
  then have ids: "ids' = ids" using assms(3) by simp
  obtain s1 where s1: "lock_exams R d (Int64 (rq_user q)) ids s = (Inr (), s1)" "s' = release_exams R rd (Int64 (rq_user q)) ids s1"
    by (rule run_status_ok [OF run]) (simp add: ids)
  show ?thesis unfolding s1(2)
    using release_exams_free [OF assms(1,4), of s1 "Int64 (rq_user q)"] lock_exams_hold [OF assms(1) s1(1)] assms(5) by blast
qed

section \<open>Voiding\<close>

text \<open>
  Exams cannot be voided: a request for the status 16 is never answered with success and leaves
  the database as it is, because the configuration of the marking cannot be deleted.
\<close>

lemma exams_never_voided:
  assumes "\<forall>t. \<not> se_parses V (''UPDATE t_mark_info SET status = $2, updated_by = $3, update_time = $4 WHERE  AND '' @ t)"
    and "rq_status q = ''16''" "examStatus V f2i R d rd q w tm s = (reply, w', tm', s')"
  shows "reply \<noteq> Reply_ok \<and> w' = w"
proof -
  have "void_exams V u ids utimes w \<noteq> Inr w2" for u ids utimes w2
  proof
    assume "void_exams V u ids utimes w = Inr w2"
    then obtain sessions M0 M where "HandleMarkerInfo (se_parses V) (se_fault V) (se_mark_rnd V 0) (se_now V) u
        (void_request sessions) M0 = Inr M"
      by (auto simp: void_exams_def and_then_Inr_iff map_sum_Inr_iff split: if_split_asm)
    moreover have "\<exists>e. HandleMarkerInfo (se_parses V) (se_fault V) (se_mark_rnd V 0) (se_now V) u
        (void_request sessions) M0 = Inl e"
      by (rule marker_config_never_deleted [OF assms(1)]) (simp add: void_request_def)
    ultimately show False by auto
  qed
  then have never: "fst (change_status V f2i domain u ids ''16'' w tm) \<noteq> Inr w2" for domain u ids w2
    by (auto simp: change_status_def split: sum.split prod.split)
  have "reply \<noteq> Reply_ok"
  proof
    assume "reply = Reply_ok"
    from examStatus_ok [OF assms(3) [unfolded this]] assms(2) obtain domain ids where
      r: "run_status V f2i R d rd domain (Int64 (rq_user q)) ids ''16'' w tm s = (Reply_ok, w', tm', s')" by metis
    show False by (rule run_status_ok [OF r]) (metis never fst_conv)
  qed
  then show ?thesis using examStatus_not_ok [OF assms(3)] by simp
qed

section \<open>Sessions behind an empty one\<close>

lemma GetExamSessions_ids:
  assumes "GetExamSessions fault w domain ids = Inr ss" "t \<in> set ss"
  shows "\<exists>x\<in>set (exam_sessions (ew_exam w)). si_id t = es_id x \<and> es_exam_id x \<in> set ids \<and> es_status x \<noteq> ''14''"
  using assms by (auto simp: GetExamSessions_def session_row_def split: option.split_asm if_split_asm) blast+

lemma GetExamSessions_distinct:
  assumes "GetExamSessions fault w domain ids = Inr ss" "distinct (map es_id (exam_sessions (ew_exam w)))"
  shows "distinct (map si_id ss)"
proof -
  let ?rows = "filter (\<lambda>s. es_exam_id s \<in> set ids \<and> es_status s \<noteq> ''14'') (exam_sessions (ew_exam w))"
  have ss: "map si_id ss = map es_id (order_nulls_last (\<lambda>s. cl_session_num (ew_columns w) (es_id s)) ?rows)"
    using assms(1) by (auto simp: GetExamSessions_def session_row_def split: option.split_asm if_split_asm)
  have "distinct (map es_id ?rows)" using assms(2) by (simp add: distinct_map_filter)
  then show ?thesis unfolding ss
    using mset_eq_imp_distinct_iff [of "map es_id (order_nulls_last (\<lambda>s. cl_session_num (ew_columns w) (es_id s)) ?rows)" "map es_id ?rows"]
    by simp
qed

text \<open>
  Publishing stops preparing at the first session, by number, that has no examinee. Every later
  session of the request is published all the same, but none of its examinees gets a paper and
  nobody is configured to mark it.
\<close>

lemma later_sessions_unprepared:
  assumes "publish V f2i domain u ids utimes w = Inr w'" "read_update_times (se_fault V) ids (ew_exam w) = Inr utimes"
    and "GetExamSessions (se_fault V) w domain ids = Inr (ss1 @ s # ss2)"
    and "session_examinees (ew_exam w) (si_id s) = []" "t \<in> set ss2"
    and "distinct (map es_id (exam_sessions (ew_exam w)))" "\<not> se_fault V ''examinee_query''"
  shows "filter (\<lambda>e. ex_session_id e = si_id t) (examinees (ew_exam w')) =
      filter (\<lambda>e. ex_session_id e = si_id t) (examinees (ew_exam w)) \<and>
    filter (\<lambda>i. mi_session i = Some (si_id t)) (md_infos (ew_mark w')) =
      filter (\<lambda>i. mi_session i = Some (si_id t)) (md_infos (ew_mark w)) \<and>
    (\<exists>x\<in>set (exam_sessions (ew_exam w')). es_id x = si_id t \<and> es_status x = ''02'')"
proof (rule publishD [OF assms(1)])
  fix ss w1 E1 E2
  assume a: "GetExamSessions (se_fault V) w domain ids = Inr ss" "publish_sessions V f2i u ss w = Inr w1"
    "updateExamSessionStatus (se_fault V) (se_now V) ''02'' u ids (ew_exam w1) = Inr E1"
    "updateExamStatus (se_fault V) (se_now V) ''02'' u utimes E1 = Inr E2"
    "w' = map_exam (\<lambda>_. E2) (map_exam (\<lambda>_. E1) w1)"
  have ss: "ss = ss1 @ s # ss2" using a(1) assms(3) by simp
  have "distinct (map si_id ss)" by (rule GetExamSessions_distinct [OF a(1) assms(6)])
  then have "si_id t \<notin> si_id ` set ss1" using assms(5) ss by force
  moreover have "publish_sessions V f2i u ss1 w = Inr w1"
    using publish_sessions_stop [where ?ss1.0 = ss1, OF assms(7,4)] a(2) ss by simp
  ultimately have same: "filter (\<lambda>e. ex_session_id e = si_id t) (examinees (ew_exam w1)) =
      filter (\<lambda>e. ex_session_id e = si_id t) (examinees (ew_exam w))"
    "filter (\<lambda>i. mi_session i = Some (si_id t)) (md_infos (ew_mark w1)) =
      filter (\<lambda>i. mi_session i = Some (si_id t)) (md_infos (ew_mark w))"
    using publish_sessions_effect [of V f2i u ss1 w w1] by blast+
  have E: "examinees E1 = examinees (ew_exam w1)" "examinees E2 = examinees E1"
    using updateExamSessionStatus_all [OF a(3)] a(4)
    by (auto simp: updateExamStatus_def and_then_Inr_iff split: if_split_asm)
  obtain x where x: "x \<in> set (exam_sessions (ew_exam w))" "si_id t = es_id x" "es_exam_id x \<in> set ids" "es_status x \<noteq> ''14''"
    using GetExamSessions_ids [OF a(1), of t] assms(5) ss by auto
  have "exam_sessions (ew_exam w') = sql_update (\<lambda>s. es_exam_id s \<in> set ids \<and> es_status s \<noteq> ''14'')
      (\<lambda>s. s\<lparr>es_status := ''02'', es_update_time := Some (se_now V)\<rparr>) (exam_sessions (ew_exam w))"
    using publish_moves [OF assms(1,2)] by (simp add: exams_moved_def)
  then have "x\<lparr>es_status := ''02'', es_update_time := Some (se_now V)\<rparr> \<in> set (exam_sessions (ew_exam w'))"
    using x by (auto simp: set_sql_update)
  then show ?thesis using same E a(5) x(2) by (auto intro!: bexI [of _ "x\<lparr>es_status := ''02'', es_update_time := Some (se_now V)\<rparr>"])
qed

section \<open>Stale reads\<close>

text \<open>
  For one exam a change since it was read stops the update. With several exams it need not: the ids
  and the times are compared as two sets.
\<close>

lemma stale_single:
  assumes "\<forall>x\<in>set (exam_infos E). ei_id x = i \<longrightarrow> ei_update_time x \<noteq> Some t"
  shows "\<exists>e. updateExamStatus fault now st u [(i, t)] E = Inl e"
proof -
  have "sql_count (stale_where [(i, t)]) (exam_infos E) = 0" using assms by (auto simp: stale_where_def)
  then show ?thesis by (cases "status_guards st u [i]") (auto simp: updateExamStatus_def simp del: sql_count_0_iff)
qed

lemma stale_pair_passes:
  assumes "exam_infos E = [x, y]" "ei_id x = 1" "ei_id y = 2" "ei_update_time x = Some 6" "ei_update_time y = Some 5"
    and "ei_status x = ''00''" "ei_status y = ''00''"
  shows "is_ok (updateExamStatus (\<lambda>_. False) 9 ''02'' 3 [(1, 5), (2, 6)] E)"
  using assms by (simp add: updateExamStatus_def status_guards_def sql_count_def stale_where_def)

section \<open>Mixing\<close>

text \<open>Without mixing the random numbers are not looked at.\<close>

lemma actual_texts_fixed: "actual_texts rnd False k q = actual_texts rnd' False k q"
  by (simp add: actual_texts_def)

lemma question_sheets_fixed:
  "\<not> gr_option_random req \<Longrightarrow>
    question_sheets rnd blank req uid now st g qs order k = question_sheets rnd' blank req uid now st g qs order k"
  by (induction qs arbitrary: order k) (simp_all add: actual_texts_fixed [of rnd _ _ rnd'])

lemma group_sheets_fixed:
  assumes "\<not> gr_option_random req" "\<not> gr_question_random req"
  shows "group_sheets rnd blank req uid now st gs pq order k = group_sheets rnd' blank req uid now st gs pq order k"
  using assms(2)
  by (induction gs arbitrary: pq order k) (simp_all add: question_sheets_fixed [OF assms(1), of rnd _ _ _ _ _ _ _ _ rnd'] Let_def)

lemma student_sheets_fixed:
  assumes "\<not> gr_option_random req" "\<not> gr_question_random req"
  shows "student_sheets rnd blank req uid now gs ss pq k = student_sheets rnd' blank req uid now gs ss pq k"
  by (induction ss arbitrary: pq k) (simp_all add: group_sheets_fixed [OF assms, of rnd _ _ _ _ _ _ _ _ rnd'])

lemma GenerateAnswerQuestion_fixed:
  assumes "\<not> gr_option_random req" "\<not> gr_question_random req"
  shows "GenerateAnswerQuestion fault rnd blank now req uid db = GenerateAnswerQuestion fault rnd' blank now req uid db"
  unfolding GenerateAnswerQuestion_def using student_sheets_fixed [OF assms, of rnd _ _ _ _ _ _ _ rnd'] by simp

definition with_shuffle :: "(int \<Rightarrow> null_string) \<Rightarrow> exam_world \<Rightarrow> exam_world" where
  "with_shuffle g w = w\<lparr>ew_columns := (ew_columns w)\<lparr>cl_shuffle := g\<rparr>\<rparr>"

lemma with_shuffle_simps [simp]:
  "ew_mark (with_shuffle g w) = ew_mark w" "ew_paper (with_shuffle g w) = ew_paper w"
  "cl_published (ew_columns (with_shuffle g w)) = cl_published (ew_columns w)"
  "cl_creator (ew_columns (with_shuffle g w)) = cl_creator (ew_columns w)"
  "cl_session_num (ew_columns (with_shuffle g w)) = cl_session_num (ew_columns w)"
  "append_rows P (with_shuffle g w) = with_shuffle g (append_rows P w)"
  "map_exam f (with_shuffle g w) = with_shuffle g (map_exam f w)"
  "(with_shuffle g w)\<lparr>ew_mark := M\<rparr> = with_shuffle g (w\<lparr>ew_mark := M\<rparr>)"
  by (simp_all add: with_shuffle_def append_rows_def map_exam_def)

lemma map_sum_and_then: "map_sum id h (and_then r f) = and_then r (\<lambda>a. map_sum id h (f a))"
  by (cases r) simp_all

lemma publish_session_unmixed:
  assumes "si_shuffle s = None"
  shows "publish_session (V\<lparr>se_paper_rnd := r\<rparr>) f2i u (s\<lparr>si_anti_cheating := x\<rparr>) ids (with_shuffle g w) =
    map_sum id (with_shuffle g) (publish_session V f2i u s ids w)"
proof -
  have off: "\<not> gr_option_random (paper_request p ids [])" "\<not> gr_question_random (paper_request p ids [])" for p
    by (simp_all add: paper_request_def getQuestionShuffledMode_def)
  have req: "marking_request (s\<lparr>si_anti_cheating := x\<rparr>) = marking_request s"
    by (simp add: marking_request_def fun_eq_iff)
  have gen: "GenerateAnswerQuestion f (r i) b n (paper_request p ids []) u P =
      GenerateAnswerQuestion f (se_paper_rnd V i) b n (paper_request p ids []) u P" for f i b n p P
    by (rule GenerateAnswerQuestion_fixed [OF off])
  have cols: "published_paper f (ew_columns (with_shuffle g w)) = published_paper f (ew_columns w)"
    "exam_creator f (ew_columns (with_shuffle g w)) = exam_creator f (ew_columns w)" for f
    by (simp_all add: published_paper_def exam_creator_def fun_eq_iff)
  show ?thesis
  proof (cases "published_paper (se_fault V) (ew_columns w) (si_paper s)")
    case (Inl e)
    then show ?thesis by (simp add: publish_session_def cols)
  next
    case paper: (Inr p)
    show ?thesis
    proof (cases "GenerateAnswerQuestion (se_fault V) (se_paper_rnd V (si_id s)) (se_blank V) (se_now V)
        (paper_request p ids []) u (ew_paper w)")
      case (Inl e)
      then show ?thesis by (simp add: publish_session_def cols paper assms gen)
    next
      case (Inr P)
      then show ?thesis
        by (cases "convertToInt64Array f2i (si_reviewers s)"; cases "exam_creator (se_fault V) (ew_columns w) (si_exam s)")
          (simp_all add: publish_session_def cols paper assms gen req Let_def map_sum.compositionality o_def)
    qed
  qed
qed

lemma publish_sessions_unmixed:
  assumes "\<forall>s\<in>set ss. si_shuffle s = None"
  shows "publish_sessions (V\<lparr>se_paper_rnd := r\<rparr>) f2i u (map (\<lambda>s. s\<lparr>si_anti_cheating := x s\<rparr>) ss) (with_shuffle g w) =
    map_sum id (with_shuffle g) (publish_sessions V f2i u ss w)"
  using assms
proof (induction ss arbitrary: w)
  case (Cons s ss)
  show ?case
  proof (cases "publish_session V f2i u s (session_examinees (ew_exam w) (si_id s)) w")
    case (Inl e)
    then show ?thesis using publish_session_unmixed [where s = s and V = V and r = r and f2i = f2i and u = u and x = "x s" and g = g and w = w] Cons(2) by (simp add: Let_def)
  next
    case (Inr w1)
    then show ?thesis using publish_session_unmixed [where s = s and V = V and r = r and f2i = f2i and u = u and x = "x s" and g = g and w = w] Cons by (simp add: Let_def)
  qed
qed simp

lemma GetExamSessions_unmixed:
  "\<exists>x. GetExamSessions fault (with_shuffle g w) domain ids =
     map_sum id (map (\<lambda>s. s\<lparr>si_anti_cheating := x s\<rparr>)) (GetExamSessions fault w domain ids)"
proof -
  let ?x = "\<lambda>s. if Contains domain ''^student'' then None else g (si_id s)"
  have row: "session_row st (ew_columns (with_shuffle g w)) s =
      (session_row st (ew_columns w) s)\<lparr>si_anti_cheating := if st then None else g (es_id s)\<rparr>" for st s
    by (simp add: session_row_def with_shuffle_def)
  show ?thesis
    by (rule exI [of _ ?x])
      (cases "List.find (\<lambda>i. i \<le> 0) ids"; simp add: GetExamSessions_def row; simp add: session_row_def)
qed

lemma in_exam_unmixed: "in_exam (with_shuffle g w) r = map_sum id (with_shuffle g) (in_exam w r)"
  by (cases r) (simp_all add: in_exam_def)

text \<open>
  Published papers are never mixed. Whatever mixing of questions and options a session asks for,
  and whatever the random numbers are, publishing gives the same papers, the same marking and the
  same statuses.
\<close>

lemma papers_never_mixed:
  "publish (V\<lparr>se_paper_rnd := r\<rparr>) f2i domain u ids utimes (with_shuffle g w) =
     map_sum id (with_shuffle g) (publish V f2i domain u ids utimes w)"
proof -
  obtain x where get: "GetExamSessions (se_fault V) (with_shuffle g w) domain ids =
      map_sum id (map (\<lambda>s. s\<lparr>si_anti_cheating := x s\<rparr>)) (GetExamSessions (se_fault V) w domain ids)"
    using GetExamSessions_unmixed by blast
  show ?thesis
  proof (cases "GetExamSessions (se_fault V) w domain ids")
    case (Inl e)
    then show ?thesis by (simp add: publish_def get)
  next
    case (Inr ss)
    then have "\<forall>s\<in>set ss. si_shuffle s = None"
      by (auto simp: GetExamSessions_def session_row_def split: option.split_asm if_split_asm)
    note sessions = publish_sessions_unmixed [OF this, where V = V and r = r and f2i = f2i and u = u and x = x and g = g and w = w]
    have list: "list_ex (\<lambda>s. si_start s < se_now V) (map (\<lambda>s. s\<lparr>si_anti_cheating := x s\<rparr>) ss) =
        list_ex (\<lambda>s. si_start s < se_now V) ss"
      by (simp add: list_ex_iff)
    show ?thesis
    proof (cases "publish_sessions V f2i u ss w")
      case (Inl e)
      then show ?thesis using Inr sessions by (simp add: publish_def get list)
    next
      case w1: (Inr w1)
      then show ?thesis using Inr sessions
        by (cases "updateExamSessionStatus (se_fault V) (se_now V) ''02'' u ids (ew_exam w1)")
          (simp_all add: publish_def get list in_exam_unmixed, simp_all add: in_exam_def map_sum.compositionality o_def id_def)
    qed
  qed
qed

section \<open>An exam with three sessions\<close>

text \<open>The first session has an examinee, the second none, the third one again.\<close>

definition st_session :: "int \<Rightarrow> exam_session" where
  "st_session i = (an_session None)\<lparr>es_id := i, es_exam_id := 1, es_status := ''00'', es_start_time := 100,
     es_end_time := 200, es_reviewer_ids := []\<rparr>"

definition st_examinee :: "int \<Rightarrow> int \<Rightarrow> examinee" where
  "st_examinee i sid = (an_examinee i i None)\<lparr>ex_id := i, ex_session_id := sid, ex_status := ''00''\<rparr>"

definition st_exam :: exam_db where
  "st_exam = \<lparr>exam_infos = [an_exam\<lparr>ei_id := 1, ei_status := ''00'', ei_update_time := Some 5\<rparr>],
     exam_sessions = [st_session 7, st_session 8, st_session 9], examinees = [st_examinee 21 7, st_examinee 30 9],
     exam_paper_ids = [1], user_ids = [3]\<rparr>"

definition st_world :: exam_world where
  "st_world = \<lparr>ew_mark = \<lparr>md_answer = an_db\<lparr>ad_exam := st_exam\<rparr>, md_marks = [], md_infos = [],
       md_practice_mode = (\<lambda>_. None), md_questions = []\<rparr>,
     ew_paper = demo_papers [], ew_invigilations = [], ew_records = [],
     ew_columns = \<lparr>cl_session_num = (\<lambda>i. Some i), cl_paper = (\<lambda>_. Some 4), cl_shuffle = (\<lambda>_. Some ''00''),
       cl_published = (\<lambda>_. Some (Some 1)), cl_creator = (\<lambda>_. Some (Some 3))\<rparr>\<rparr>"

definition st_env :: status_env where
  "st_env = \<lparr>se_fault = (\<lambda>_. False), se_parses = (\<lambda>_. False), se_now = 9, se_mark_rnd = (\<lambda>_ _. 0),
     se_paper_rnd = (\<lambda>_ _ _. 0), se_blank = demo_row, se_clock = (\<lambda>_. 9), se_scan_ok = (\<lambda>_. True)\<rparr>"

definition st_request :: "string \<Rightarrow> status_request" where
  "st_request st = \<lparr>rq_method = ''PUT'', rq_q = True, rq_user = Some 3, rq_domain = Some ''a^teacher'',
     rq_editable = Some True, rq_ids = Some [1], rq_status = st\<rparr>"

lemma st_env_simps [simp]:
  "se_fault st_env = (\<lambda>_. False)" "se_now st_env = 9" "se_blank st_env = demo_row" "se_parses st_env = (\<lambda>_. False)"
  by (simp_all add: st_env_def)

lemma st_world_simps [simp]:
  "ew_exam st_world = st_exam" "ew_paper st_world = demo_papers []"
  "exam_sessions st_exam = [st_session 7, st_session 8, st_session 9]"
  "examinees st_exam = [st_examinee 21 7, st_examinee 30 9]"
  "cl_published (ew_columns st_world) = (\<lambda>_. Some (Some 1))" "cl_creator (ew_columns st_world) = (\<lambda>_. Some (Some 3))"
  "exam_infos st_exam = [an_exam\<lparr>ei_id := 1, ei_status := ''00'', ei_update_time := Some 5\<rparr>]"
  by (simp_all add: st_world_def st_exam_def)

lemma st_session_simps [simp]:
  "es_id (st_session i) = i" "es_exam_id (st_session i) = 1" "es_status (st_session i) = ''00''"
  "es_start_time (st_session i) = 100" "es_end_time (st_session i) = 200" "es_reviewer_ids (st_session i) = []"
  "ex_id (st_examinee j i) = j" "ex_session_id (st_examinee j i) = i" "ex_status (st_examinee j i) = ''00''"
  by (simp_all add: st_session_def st_examinee_def)

abbreviation st_row :: "int \<Rightarrow> session_info" where
  "st_row i \<equiv> session_row False (ew_columns st_world) (st_session i)"

lemma st_row_simps [simp]:
  "si_id (st_row i) = i" "si_start (st_row i) = 100" "si_shuffle (st_row i) = None"
  "si_reviewers (st_row i) = Any_list []" "si_exam (st_row i) = 1"
  by (simp_all add: session_row_def scanned_ids_def)

lemma st_get: "GetExamSessions (\<lambda>_. False) st_world ''a^teacher'' [1] = Inr [st_row 7, st_row 8, st_row 9]"
proof -
  have "\<not> Contains ''a^teacher'' ''^student''" by code_simp
  moreover have "order_nulls_last (\<lambda>s. cl_session_num (ew_columns st_world) (es_id s)) [st_session 7, st_session 8, st_session 9] =
      [st_session 7, st_session 8, st_session 9]"
    by (simp add: order_nulls_last_def st_world_def sort_key_def)
  ultimately show ?thesis by (simp add: GetExamSessions_def)
qed

lemma st_generate:
  "\<exists>P. GenerateAnswerQuestion (\<lambda>_. False) rnd demo_row 9 (paper_request 1 [21] []) 3 (demo_papers []) = Inr P"
proof -
  obtain p gs s where load: "LoadExamPaperDetailsById (\<lambda>_. False) 1 True True True (demo_papers []) =
      Inr (p, gs, Map.empty(8 \<mapsto> [s]))" and gs: "map xg_id gs = [8]" and s: "xq_id s = 5" "xq_type s = Some ''00''"
    by (rule demo_loaded)
  from gs obtain g where g: "gs = [g]" "xg_id g = 8" by (cases gs) auto
  let ?r = "paper_request 1 [21] []"
  have r: "gr_paper ?r = 1" "\<not> gr_question_random ?r" "\<not> gr_option_random ?r" "sheet_students ?r = [21]" "valid_sheet_request ?r"
    by (simp_all add: paper_request_def getQuestionShuffledMode_def sheet_students_def valid_sheet_request_def)
  show ?thesis
    by (simp add: GenerateAnswerQuestion_def r load g actual_texts_def s Let_def batches_small insert_rows_def)
qed

lemma st_publish: "\<exists>w'. publish st_env f2i ''a^teacher'' 3 [1] [(1, 5)] st_world = Inr w'"
proof -
  obtain P where P: "GenerateAnswerQuestion (\<lambda>_. False) (se_paper_rnd st_env 7) demo_row 9 (paper_request 1 [21] []) 3 (demo_papers []) = Inr P"
    using st_generate by blast
  have ids: "session_examinees st_exam 7 = [21]" "session_examinees st_exam 8 = []"
    by (simp_all add: session_examinees_def)
  have "\<exists>w1. publish_session st_env f2i 3 (st_row 7) [21] st_world = Inr w1"
    by (simp add: publish_session_def published_paper_def exam_creator_def P Let_def marking_request_def
      HandleMarkerInfo_def marker_rows_def)
  then obtain w1 where w1: "publish_session st_env f2i 3 (st_row 7) [21] st_world = Inr w1" ..
  have "session_examinees (ew_exam w1) 8 = []"
    using publish_session_examinees [OF w1, of 8] ids by simp
  then have w: "publish_sessions st_env f2i 3 [st_row 7, st_row 8, st_row 9] st_world = Inr w1"
    by (simp add: ids w1)
  have "exam_infos (ew_exam w1) = [an_exam\<lparr>ei_id := 1, ei_status := ''00'', ei_update_time := Some 5\<rparr>]"
    using publish_sessions_effect [OF w] by simp
  then show ?thesis
    by (simp add: publish_def st_get w updateExamSessionStatus_def updateExamStatus_def status_guards_def in_exam_def
      sql_count_def stale_where_def an_exam_def del: publish_sessions.simps)
qed

lemma st_read: "read_update_times (\<lambda>_. False) [1] st_exam = Inr [(1, 5)]"
  by (simp add: read_update_times_def)

lemma st_run:
  "\<exists>w' tm' s'. examStatus st_env f2i kv_redis (\<lambda>_. Answered) (\<lambda>_. Answered) (st_request ''02'') st_world tm s =
     (Reply_ok, w', tm', s')" if "s = kv_empty"
proof -
  obtain w' where w': "publish st_env f2i ''a^teacher'' 3 [1] [(1, 5)] st_world = Inr w'" using st_publish by blast
  have lower: "ToLower ''PUT'' = ''put''" by code_simp
  have "\<exists>s1. lock_exams kv_redis (\<lambda>_. Answered) 3 [1] s = (Inr (), s1)"
    by (simp add: that lock_exec_simps)
  then obtain s1 where lock: "lock_exams kv_redis (\<lambda>_. Answered) 3 [1] s = (Inr (), s1)" ..
  have t: "for_timers (SetExamTimers (\<lambda>_. False) (se_clock st_env) st_exam) [1] tm =
      (Inr (), snd (SetExamTimers (\<lambda>_. False) (se_clock st_env) st_exam 1 tm))"
    by (simp add: SetExamTimers_def Let_def)
  have c: "change_status st_env f2i ''a^teacher'' 3 [1] ''02'' st_world tm =
      (Inr w', snd (SetExamTimers (\<lambda>_. False) (se_clock st_env) st_exam 1 tm))"
    by (simp add: change_status_def st_read w' t del: for_timers.simps)
  show ?thesis
    by (simp add: examStatus_def st_request_def lower run_status_def lock c Let_def sql_count_def an_exam_def
      del: lock_exams.simps)
qed

lemma st_voiding_text:
  "\<forall>t. \<not> se_parses st_env (''UPDATE t_mark_info SET status = $2, updated_by = $3, update_time = $4 WHERE  AND '' @ t)"
  by simp

theorem publish_all_or_nothing_witness:
  "\<exists>w' tm' s'. examStatus st_env floor kv_redis (\<lambda>_. Answered) (\<lambda>_. Answered) (st_request ''02'') st_world NewExamTimerManager kv_empty =
     (Reply_ok, w', tm', s') \<and> map ei_status (exam_infos (ew_exam w')) = [''02''] \<and>
     map es_status (exam_sessions (ew_exam w')) = [''02'', ''02'', ''02'']"
proof -
  obtain w' tm' s' where run: "examStatus st_env floor kv_redis (\<lambda>_. Answered) (\<lambda>_. Answered) (st_request ''02'') st_world NewExamTimerManager kv_empty =
     (Reply_ok, w', tm', s')" using st_run [OF refl] by blast
  have "rq_ids (st_request ''02'') = Some [1]" by (simp add: st_request_def)
  then have "exams_moved 9 ''02'' [1] st_exam (ew_exam w')"
    using publish_all_or_nothing [OF run] by (auto simp: st_request_def)
  then show ?thesis using run by (auto simp: exams_moved_def sql_update_def an_exam_def)
qed

theorem others_edit_stops_change_witness:
  "fst (examStatus st_env floor kv_redis (\<lambda>_. Answered) (\<lambda>_. Answered) (st_request ''02'') st_world NewExamTimerManager
     (kv_empty(lock_key ''exam_lock:'' 1 := Some (sprint_d 8, Some 60000)))) \<noteq> Reply_ok"
proof -
  let ?s = "kv_empty(lock_key ''exam_lock:'' 1 := Some (sprint_d 8, Some 60000))"
  have "r_get kv_redis (lock_key ''exam_lock:'' 1) ?s = Some (sprint_d 8)" by (simp add: kv_redis_def)
  then show ?thesis
    using others_edit_stops_change [OF kv_laws, of st_env floor "\<lambda>_. Answered" "\<lambda>_. Answered" "st_request ''02''" st_world NewExamTimerManager ?s _ _ _ _ "[1]" 1 8]
    by (cases "examStatus st_env floor kv_redis (\<lambda>_. Answered) (\<lambda>_. Answered) (st_request ''02'') st_world NewExamTimerManager ?s")
      (simp add: st_request_def)
qed

lemma change_frees_locks_witness:
  "\<exists>w' tm' s'. examStatus st_env floor kv_redis (\<lambda>_. Answered) (\<lambda>_. Answered) (st_request ''02'') st_world NewExamTimerManager kv_empty =
     (Reply_ok, w', tm', s') \<and> s' (lock_key ''exam_lock:'' 1) = None"
proof -
  obtain w' tm' s' where run: "examStatus st_env floor kv_redis (\<lambda>_. Answered) (\<lambda>_. Answered) (st_request ''02'') st_world NewExamTimerManager kv_empty =
     (Reply_ok, w', tm', s')" using st_run [OF refl] by blast
  have "lease_of kv_redis s' (lock_key ''exam_lock:'' 1) = None"
    by (rule change_frees_locks [OF kv_laws run, of "[1]"]) (simp_all add: st_request_def)
  then show ?thesis using run by (simp del: lease_of_None)
qed

lemma exams_never_voided_witness:
  "fst (examStatus st_env floor kv_redis (\<lambda>_. Answered) (\<lambda>_. Answered) (st_request ''16'') st_world NewExamTimerManager kv_empty) \<noteq> Reply_ok"
  using exams_never_voided [OF st_voiding_text, of "st_request ''16''" floor kv_redis "\<lambda>_. Answered" "\<lambda>_. Answered" st_world NewExamTimerManager kv_empty]
  by (cases "examStatus st_env floor kv_redis (\<lambda>_. Answered) (\<lambda>_. Answered) (st_request ''16'') st_world NewExamTimerManager kv_empty")
    (simp add: st_request_def)

lemma later_sessions_unprepared_witness:
  "\<exists>w'. publish st_env floor ''a^teacher'' 3 [1] [(1, 5)] st_world = Inr w' \<and>
     filter (\<lambda>i. mi_session i = Some 9) (md_infos (ew_mark w')) = [] \<and>
     (\<exists>x\<in>set (exam_sessions (ew_exam w')). es_id x = 9 \<and> es_status x = ''02'')"
proof -
  obtain w' where w': "publish st_env floor ''a^teacher'' 3 [1] [(1, 5)] st_world = Inr w'" using st_publish by blast
  have get: "GetExamSessions (se_fault st_env) st_world ''a^teacher'' [1] = Inr ([st_row 7] @ st_row 8 # [st_row 9])"
    by (simp add: st_get)
  have read: "read_update_times (se_fault st_env) [1] (ew_exam st_world) = Inr [(1, 5)]" by (simp add: st_read)
  have none: "session_examinees (ew_exam st_world) (si_id (st_row 8)) = []" by (simp add: session_examinees_def)
  have "filter (\<lambda>i. mi_session i = Some (si_id (st_row 9))) (md_infos (ew_mark w')) =
      filter (\<lambda>i. mi_session i = Some (si_id (st_row 9))) (md_infos (ew_mark st_world)) \<and>
    (\<exists>x\<in>set (exam_sessions (ew_exam w')). es_id x = si_id (st_row 9) \<and> es_status x = ''02'')"
    using later_sessions_unprepared [OF w' read get none, of "st_row 9"] by simp
  moreover have "md_infos (ew_mark st_world) = []" by (simp add: st_world_def)
  ultimately show ?thesis using w' by simp
qed

end
