(* ===== verification/Domain_Tree.thy ===== *)
theory Domain_Tree
  imports Go_Json "HOL-Library.Sublist"
begin

text \<open>
  Domains and roles, \<open>serve/auth_mgt/utils.go\<close> and \<open>service.go\<close>: a domain is a path of labels with
  dots between them (\<open>cst.school.class\<close>), a role a domain with a name behind \<open>^\<close>. Who may reach which
  domain is decided on these texts, in part by \<open>LIKE\<close> in the database.
\<close>

section \<open>Names\<close>

definition is_alnum :: "char \<Rightarrow> bool" where
  "is_alnum c \<longleftrightarrow> is_letter c \<or> is_digit c"

text \<open>\<open>^[a-zA-Z0-9]([a-zA-Z0-9-]*[a-zA-Z0-9])?$\<close>\<close>

definition label_ok :: "string \<Rightarrow> bool" where
  "label_ok l \<longleftrightarrow> l \<noteq> [] \<and> list_all (\<lambda>c. is_alnum c \<or> c = CHR ''-'') l \<and> is_alnum (hd l) \<and> is_alnum (last l)"

definition IsValidDomain :: "string \<Rightarrow> bool" where
  "IsValidDomain domain =
    (let d = TrimSpace domain in d \<noteq> [] \<and> list_all label_ok (Split (CHR ''.'') d))"

text \<open>The role's own name, \<open>^[a-zA-Z0-9_]+$\<close>; the value tells a domain from a role.\<close>

definition role_ok :: "string \<Rightarrow> bool" where
  "role_ok r \<longleftrightarrow> r \<noteq> [] \<and> list_all (\<lambda>c. is_alnum c \<or> c = CHR ''_'') r"

definition IsValidDomainOrRole :: "string \<Rightarrow> bool \<times> bool" where
  "IsValidDomainOrRole s =
    (let t = TrimSpace s in
     if t = [] then (False, False)
     else case Split (CHR ''^'') t of
       [d] \<Rightarrow> (IsValidDomain d, False)
     | [d, r] \<Rightarrow> (False, IsValidDomain d \<and> role_ok r)
     | _ \<Rightarrow> (False, False))"

definition DomainLevel :: "string \<Rightarrow> nat" where
  "DomainLevel domain =
    (let d = TrimSpace domain in
     if d = [] \<or> \<not> IsValidDomain d then 0 else length (Split (CHR ''.'') d))"

definition ParseFirstDomain :: "string \<Rightarrow> string" where
  "ParseFirstDomain s =
    (let t = TrimSpace s in
     if t = [] then []
     else case Split (CHR ''.'') (before_char (CHR ''^'') t) of
       p # _ # _ \<Rightarrow> p
     | _ \<Rightarrow> [])"

definition getDomainPrefix :: "string \<Rightarrow> string" where
  "getDomainPrefix domain = hd (Split (CHR ''^'') domain)"

section \<open>The relation of two domains\<close>

datatype relationship = Self | Parent | Child | Sibling

datatype domain_error =
    Not_logged_in
  | Domain_sql string
  | Role_unknown
  | Role_format
  | Domain_unknown string
  | Priority_missing
  | Priority_unsupported int
  | Path_empty
  | Access_mode_invalid string
  | Target_invalid string
  | Authority_nil
  | Domain_empty
  | Not_super_admin
  | Code_missing
  | Name_empty
  | Role_priority_missing
  | Role_priority_invalid
  | Code_invalid
  | Api_not_selectable int
  | Domain_taken
  | Grant_taken
  | Grant_null
  | List_empty
  | Domain_id_invalid
  | Domain_status_invalid
  | Domain_absent int

definition normal_domain :: "string \<Rightarrow> string" where
  "normal_domain s = ToLower (before_char (CHR ''^'') (TrimSpace s))"

definition is_parent_of :: "string \<Rightarrow> string \<Rightarrow> bool" where
  "is_parent_of parent child \<longleftrightarrow>
     parent \<noteq> [] \<and> child \<noteq> [] \<and> parent \<noteq> child \<and> length parent < length child \<and> HasPrefix child (parent @ ''.'')"

text \<open>\<open>own\<close> is the domain of the user's authority.\<close>

definition GetDomainRelationship :: "string option \<Rightarrow> string \<Rightarrow> domain_error + relationship" where
  "GetDomainRelationship own targetDomain =
    (if \<not> IsValidDomain targetDomain then Inl (Target_invalid targetDomain)
     else case own of
       None \<Rightarrow> Inl Authority_nil
     | Some d \<Rightarrow>
         let src = normal_domain d; dst = normal_domain targetDomain
         in if src = [] \<or> dst = [] then Inl Domain_empty
            else if src = dst then Inr Self
            else if is_parent_of src dst then Inr Child
            else if is_parent_of dst src then Inr Parent
            else Inr Sibling)"

section \<open>Tables\<close>

record domain_row =
  dm_id :: int
  dm_name :: string
  dm_domain :: string
  dm_priority :: null_int
  dm_status :: null_string
  dm_remark :: null_string
  dm_creator :: null_int
  dm_create_time :: null_int
  dm_updated_by :: null_int
  dm_update_time :: null_int

record api_row =
  ap_id :: int
  ap_name :: string
  ap_path :: null_string
  ap_action :: null_string
  ap_level :: string
  ap_configurable :: "bool option"
  ap_status :: null_string

text \<open>A row of \<open>t_domain_api\<close>: a domain or role may use an API.\<close>

record grant_row =
  gn_api :: int
  gn_domain :: int
  gn_creator :: null_int
  gn_create_time :: null_int
  gn_updated_by :: null_int
  gn_update_time :: null_int
  gn_status :: null_string

record auth_db =
  au_domains :: "domain_row list"
  au_apis :: "api_row list"
  au_grants :: "grant_row list"
  au_next_domain :: int

text \<open>The view \<open>v_domain_api\<close>: a grant with its domain and its API.\<close>

definition v_domain_api :: "auth_db \<Rightarrow> (grant_row \<times> domain_row \<times> api_row) list" where
  "v_domain_api db = sort_key (\<lambda>(g, d, a). dm_id d) (sort_key (\<lambda>(g, d, a). ap_id a)
     (concat (map (\<lambda>g. concat (map (\<lambda>d. map (\<lambda>a. (g, d, a))
       (filter (\<lambda>a. gn_api g = ap_id a) (au_apis db))) (filter (\<lambda>d. gn_domain g = dm_id d) (au_domains db)))) (au_grants db))))"

text \<open>\<open>LIKE\<close>: \<open>%\<close> stands for any text, \<open>_\<close> for one byte, \<open>\\<close> takes the next byte literally.\<close>

fun sql_like :: "string \<Rightarrow> string \<Rightarrow> bool" where
  "sql_like [] t = (t = [])"
| "sql_like (c # p) [] = (c = CHR ''%'' \<and> sql_like p [])"
| "sql_like (c # p) (x # t) =
    (if c = CHR ''%'' then sql_like p (x # t) \<or> sql_like (c # p) t
     else if c = CHR ''_'' then sql_like p t
     else if c = CHR 0x5C then (case p of [] \<Rightarrow> False | e # p' \<Rightarrow> e = x \<and> sql_like p' t)
     else c = x \<and> sql_like p t)"

definition active_domain :: "domain_row \<Rightarrow> bool" where
  "active_domain d \<longleftrightarrow> dm_status d = Some ''01'' \<and> \<not> sql_like ''%^%'' (dm_domain d)"

section \<open>Texts and labels\<close>

abbreviation labels :: "string \<Rightarrow> string list" where
  "labels s \<equiv> Split (CHR ''.'') s"

lemma HasPrefix_prefix: "HasPrefix s p \<longleftrightarrow> prefix p s"
  unfolding HasPrefix_def prefix_def by (metis append_take_drop_id append_eq_conv_conj)

lemma Split_append: "Split c (a @ c # b) = Split c a @ Split c b"
proof (induction a)
  case (Cons x a)
  obtain w ws where "Split c a = w # ws" by (cases "Split c a") auto
  then show ?case using Cons by auto
qed simp

lemma Join_append: "xs \<noteq> [] \<Longrightarrow> ys \<noteq> [] \<Longrightarrow> Join sep (xs @ ys) = Join sep xs @ sep @ Join sep ys"
proof (induction xs)
  case (Cons x xs)
  then show ?case by (cases xs) (auto simp: Join_Cons)
qed simp

lemma prefix_labels: "prefix (p @ [c]) s \<longleftrightarrow> strict_prefix (Split c p) (Split c s)"
proof
  assume "prefix (p @ [c]) s"
  then obtain t where "s = p @ c # t" by (auto simp: prefix_def)
  then show "strict_prefix (Split c p) (Split c s)" by (simp add: Split_append strict_prefix_def)
next
  assume "strict_prefix (Split c p) (Split c s)"
  then obtain ws where ws: "Split c s = Split c p @ ws" "ws \<noteq> []" by (auto simp: strict_prefix_def prefix_def)
  have "s = Join [c] (Split c s)" by (simp add: Join_Split)
  also have "\<dots> = p @ [c] @ Join [c] ws" using ws by (simp add: Join_append Join_Split)
  finally show "prefix (p @ [c]) s" by (simp add: prefix_def)
qed

lemma labels_inj: "Split c a = Split c b \<longleftrightarrow> a = b"
  by (metis Join_Split)

lemma is_parent_of_labels: "a \<noteq> [] \<Longrightarrow> is_parent_of a b \<longleftrightarrow> strict_prefix (labels a) (labels b)"
  unfolding is_parent_of_def HasPrefix_prefix
  by (auto simp: prefix_labels [symmetric] prefix_def)

text \<open>A valid domain has only letters, digits, dashes and dots.\<close>

lemma valid_domain_chars:
  assumes "IsValidDomain d" "c \<in> set (TrimSpace d)"
  shows "is_alnum c \<or> c = CHR ''-'' \<or> c = CHR ''.''"
proof -
  have "\<forall>s. (\<forall>l\<in>set (labels s). \<forall>c\<in>set l. is_alnum c \<or> c = CHR ''-'') \<longrightarrow> c \<in> set s \<longrightarrow>
      is_alnum c \<or> c = CHR ''-'' \<or> c = CHR ''.''"
  proof (intro allI impI)
    fix s :: string
    assume l: "\<forall>l\<in>set (labels s). \<forall>c\<in>set l. is_alnum c \<or> c = CHR ''-''" and c: "c \<in> set s"
    have "set (Join [CHR ''.''] ls) \<subseteq> insert (CHR ''.'') (\<Union> (set ` set ls))" for ls
      by (induction "[CHR ''.'']" ls rule: Join.induct) auto
    from this [of "labels s"] show "is_alnum c \<or> c = CHR ''-'' \<or> c = CHR ''.''"
      using l c by (auto simp: Join_Split)
  qed
  then show ?thesis using assms by (auto simp: IsValidDomain_def Let_def list_all_iff label_ok_def)
qed

lemma not_alnum [simp]: "\<not> is_alnum (CHR ''^'')" "\<not> is_alnum (CHR ''%'')" "\<not> is_alnum (CHR ''_'')" "\<not> is_alnum (CHR 0x5C)"
  by (simp_all add: is_alnum_def is_letter_def is_digit_def)

lemma valid_domain_normal:
  assumes "IsValidDomain d"
  shows "normal_domain d = ToLower (TrimSpace d) \<and> normal_domain d \<noteq> []"
proof -
  have "CHR ''^'' \<notin> set (TrimSpace d)" using valid_domain_chars [OF assms, of "CHR ''^''"] by auto
  then have "before_char (CHR ''^'') (TrimSpace d) = TrimSpace d"
    unfolding before_char_def takeWhile_eq_all_conv by auto
  moreover have "TrimSpace d \<noteq> []" using assms by (auto simp: IsValidDomain_def Let_def)
  ultimately show ?thesis by (simp add: normal_domain_def ToLower_def)
qed

text \<open>
  The relation of two domains is that of their paths of labels, in small letters: the same, the
  target below (a proper prefix of it), the target above, or neither. It is given exactly for a valid
  target and a user whose domain is not empty.
\<close>

lemma relationship_of_paths:
  "GetDomainRelationship own target = Inr r \<longleftrightarrow> IsValidDomain target \<and>
     (\<exists>d. own = Some d \<and> normal_domain d \<noteq> [] \<and>
       (let a = labels (normal_domain d); b = labels (normal_domain target)
        in r = (if a = b then Self else if strict_prefix a b then Child else if strict_prefix b a then Parent else Sibling)))"
proof (cases own)
  case None
  then show ?thesis by (simp add: GetDomainRelationship_def)
next
  case (Some d)
  then show ?thesis
    using valid_domain_normal [of target] is_parent_of_labels labels_inj [of "CHR ''.''" "normal_domain d" "normal_domain target"]
    by (auto simp: GetDomainRelationship_def Let_def)
qed

section \<open>Patterns\<close>

lemma sql_like_any [simp]: "sql_like ''%'' t"
  by (induction t) auto

lemma sql_like_literal:
  assumes "\<forall>c\<in>set p. c \<noteq> CHR ''%'' \<and> c \<noteq> CHR ''_'' \<and> c \<noteq> CHR 0x5C"
  shows "sql_like (p @ ''%'') t \<longleftrightarrow> prefix p t"
  using assms
proof (induction p arbitrary: t)
  case (Cons c p)
  then show ?case by (cases t) auto
qed simp

lemma sql_like_inside: "sql_like ''%^%'' t \<longleftrightarrow> CHR ''^'' \<in> set t"
proof -
  have "sql_like ''^%'' t \<longleftrightarrow> prefix ''^'' t" for t using sql_like_literal [of "''^''" t] by simp
  then show ?thesis by (induction t) (auto simp: prefix_def)
qed

end
