(* ===== verification/Domain_Admin.thy ===== *)
theory Domain_Admin
  imports Domain_Tree
begin

text \<open>
  Authority of a user and the administration of domains, \<open>serve/auth_mgt/service.go\<close> and
  \<open>handler.go\<close>. \<open>fault\<close> says which statements the database refuses. Requests come decoded.
\<close>

definition CDomainPrioritySuperAdmin :: int where "CDomainPrioritySuperAdmin = 0"
definition CDomainPriorityAdmin :: int where "CDomainPriorityAdmin = 3"
definition CDomainPriorityUser :: int where "CDomainPriorityUser = 7"

definition CAPIAccessActionFull :: string where "CAPIAccessActionFull = ''full''"
definition CAPIAccessActionCreate :: string where "CAPIAccessActionCreate = ''create''"
definition CAPIAccessActionRead :: string where "CAPIAccessActionRead = ''read''"
definition CAPIAccessActionUpdate :: string where "CAPIAccessActionUpdate = ''update''"
definition CAPIAccessActionDelete :: string where "CAPIAccessActionDelete = ''delete''"

lemmas priorities = CDomainPrioritySuperAdmin_def CDomainPriorityAdmin_def CDomainPriorityUser_def
lemmas access_actions = CAPIAccessActionFull_def CAPIAccessActionCreate_def CAPIAccessActionRead_def
  CAPIAccessActionUpdate_def CAPIAccessActionDelete_def

section \<open>Reach\<close>

text \<open>
  A parent that is not there, not active or cannot be read is skipped. The orders of the lists are
  those of the tables; they are only searched for members.
\<close>

definition getParentDomains :: "(string \<Rightarrow> bool) \<Rightarrow> auth_db \<Rightarrow> string \<Rightarrow> domain_error + domain_row list" where
  "getParentDomains fault db domainPath =
    (if domainPath = [] then Inl Path_empty
     else
       let parts = Split (CHR ''.'') domainPath
       in Inr (List.map_filter
            (\<lambda>i. let path = Join ''.'' (take i parts)
                 in if fault (''getParentDomains '' @ path) then None
                    else sql_first (\<lambda>d. dm_domain d = path \<and> active_domain d) (au_domains db))
            [1..<length parts]))"

definition getChildDomains :: "(string \<Rightarrow> bool) \<Rightarrow> auth_db \<Rightarrow> string \<Rightarrow> domain_error + domain_row list" where
  "getChildDomains fault db domainPath =
    (if domainPath = [] then Inl Path_empty
     else if fault ''getChildDomains'' then Inl (Domain_sql ''getChildDomains'')
     else Inr (filter (\<lambda>d. sql_like (domainPath @ ''.%'') (dm_domain d) \<and> dm_domain d \<noteq> domainPath \<and> active_domain d)
       (au_domains db)))"

definition getAccessibleDomains ::
    "(string \<Rightarrow> bool) \<Rightarrow> auth_db \<Rightarrow> domain_row \<Rightarrow> domain_row \<Rightarrow> domain_error + int list" where
  "getAccessibleDomains fault db role currentDomain =
    and_then
     (case dm_priority role of
        None \<Rightarrow> Inl Priority_missing
      | Some p \<Rightarrow>
          if p = CDomainPrioritySuperAdmin
          then if fault ''SuperAdmin.Query'' then Inl (Domain_sql ''SuperAdmin.Query'')
               else Inr (filter (\<lambda>d. active_domain d \<and>
                      sql_like (hd (Split (CHR ''.'') (dm_domain currentDomain)) @ ''%'') (dm_domain d)) (au_domains db))
          else if p = CDomainPriorityAdmin
          then and_then (getParentDomains fault db (dm_domain currentDomain)) (\<lambda>ps.
               and_then (getChildDomains fault db (dm_domain currentDomain)) (\<lambda>cs.
               Inr (currentDomain # ps @ cs)))
          else if p = CDomainPriorityUser
          then and_then (getParentDomains fault db (dm_domain currentDomain)) (\<lambda>ps. Inr (currentDomain # ps))
          else Inl (Priority_unsupported p))
     (\<lambda>ds. Inr (map dm_id ds))"

record authority =
  at_role :: domain_row
  at_domain :: domain_row
  at_apis :: "api_row list"
  at_domains :: "int list"

text \<open>\<open>user\<close> is the id and the role of the user who sent the request, if there is one.\<close>

definition GetUserAuthority ::
    "(string \<Rightarrow> bool) \<Rightarrow> auth_db \<Rightarrow> (null_int \<times> null_int) option \<Rightarrow> domain_error + authority" where
  "GetUserAuthority fault db user =
    (case user of
       Some (Some _, role) \<Rightarrow>
         if fault ''QueryRole'' then Inl (Domain_sql ''QueryRole'')
         else (case sql_first (\<lambda>d. Some (dm_id d) = role) (au_domains db) of
                 None \<Rightarrow> Inl Role_unknown
               | Some r \<Rightarrow>
                   let parts = Split (CHR ''^'') (dm_domain r)
                   in if length parts < 2 then Inl Role_format
                      else if fault ''QueryDomain'' then Inl (Domain_sql ''QueryDomain'')
                      else (case sql_first (\<lambda>d. dm_domain d = hd parts) (au_domains db) of
                              None \<Rightarrow> Inl (Domain_unknown (hd parts))
                            | Some d \<Rightarrow>
                                if fault ''QueryAPIs'' then Inl (Domain_sql ''QueryAPIs'')
                                else and_then (getAccessibleDomains fault db r d) (\<lambda>ids.
                                  Inr \<lparr>at_role = r, at_domain = d,
                                    at_apis = map (\<lambda>(g, d, a). a) (filter (\<lambda>(g, d, a). dm_id d = dm_id r \<and> gn_status g = Some ''01'')
                                      (v_domain_api db)),
                                    at_domains = ids\<rparr>)))
     | _ \<Rightarrow> Inl Not_logged_in)"

section \<open>Access to an API\<close>

text \<open>\<open>strings.EqualFold\<close> compares the texts with letters folded.\<close>

definition checkUserAPIAccessible :: "authority \<Rightarrow> string \<Rightarrow> string \<Rightarrow> bool" where
  "checkUserAPIAccessible a apiPath accessAction \<longleftrightarrow>
     list_ex (\<lambda>api. fold_key (String (ap_path api)) = fold_key apiPath \<and>
       (String (ap_action api) = CAPIAccessActionFull \<or> String (ap_action api) = accessAction)) (at_apis a)"

definition CheckUserAPIAccessible ::
    "domain_error + authority \<Rightarrow> string \<Rightarrow> string \<Rightarrow> domain_error + bool" where
  "CheckUserAPIAccessible authority apiPath accessAction =
    and_then authority (\<lambda>a.
      if accessAction \<in> {CAPIAccessActionCreate, CAPIAccessActionRead, CAPIAccessActionUpdate, CAPIAccessActionDelete}
      then Inr (checkUserAPIAccessible a apiPath accessAction)
      else if accessAction = CAPIAccessActionFull
      then Inr (checkUserAPIAccessible a apiPath CAPIAccessActionCreate \<and> checkUserAPIAccessible a apiPath CAPIAccessActionRead \<and>
        checkUserAPIAccessible a apiPath CAPIAccessActionUpdate \<and> checkUserAPIAccessible a apiPath CAPIAccessActionDelete)
      else Inl (Access_mode_invalid accessAction))"

section \<open>The APIs that may be chosen\<close>

definition querySelectableAPIs :: "(string \<Rightarrow> bool) \<Rightarrow> auth_db \<Rightarrow> string \<Rightarrow> domain_error + api_row list" where
  "querySelectableAPIs fault db parentDomain =
    (if fault ''querySelectableAPIs'' then Inl (Domain_sql ''querySelectableAPIs'')
     else if DomainLevel parentDomain = 0
     then Inr (filter (\<lambda>a. ap_status a = Some ''01'' \<and> ap_configurable a = Some True) (au_apis db))
     else Inr (remdups (map (\<lambda>(g, d, a). a) (filter (\<lambda>(g, d, a). dm_domain d = parentDomain \<and> gn_status g = Some ''01'' \<and>
            ap_configurable a = Some True) (v_domain_api db)))))"

text \<open>\<open>selected\<close> are the ids of the request's APIs.\<close>

definition validateSelectedAPIs ::
    "(string \<Rightarrow> bool) \<Rightarrow> auth_db \<Rightarrow> null_int list \<Rightarrow> string \<Rightarrow> domain_error + unit" where
  "validateSelectedAPIs fault db selected parentDomain =
    and_then (querySelectableAPIs fault db parentDomain) (\<lambda>apis.
      case List.find (\<lambda>i. i \<noteq> None \<and> Int64 i \<notin> ap_id ` set apis) selected of
        None \<Rightarrow> Inr ()
      | Some i \<Rightarrow> Inl (Api_not_selectable (Int64 i)))"

section \<open>Creating and changing domains\<close>

record domain_form =
  df_id :: null_int
  df_name :: string
  df_domain :: string
  df_priority :: null_int
  df_status :: null_string
  df_remark :: null_string
  df_apis :: "null_int list"

text \<open>What a domain or role of this name may have as priority.\<close>

definition form_priority :: "string \<Rightarrow> null_int \<Rightarrow> domain_error + null_int" where
  "form_priority domain priority =
    (case IsValidDomainOrRole domain of (isDomain, isRole) \<Rightarrow>
       if isDomain then Inr (Some CDomainPrioritySuperAdmin)
       else if isRole then
         (case priority of
            None \<Rightarrow> Inl Role_priority_missing
          | Some p \<Rightarrow> if p \<noteq> CDomainPriorityUser \<and> p \<noteq> CDomainPriorityAdmin then Inl Role_priority_invalid else Inr (Some p))
       else Inl Code_invalid)"

text \<open>The columns \<open>api\<close> and \<open>domain\<close> of a grant are \<open>NOT NULL\<close> and unique together.\<close>

definition insert_grant ::
    "(string \<Rightarrow> bool) \<Rightarrow> int \<Rightarrow> int \<Rightarrow> int \<Rightarrow> null_int \<Rightarrow> auth_db \<Rightarrow> domain_error + auth_db" where
  "insert_grant fault now userID domainID api db =
    (case api of
       None \<Rightarrow> Inl Grant_null
     | Some i \<Rightarrow>
         if fault ''insert_grant'' then Inl (Domain_sql ''insert_grant'')
         else if list_ex (\<lambda>g. gn_api g = i \<and> gn_domain g = domainID) (au_grants db) then Inl Grant_taken
         else Inr (db\<lparr>au_grants := au_grants db @ [\<lparr>gn_api = i, gn_domain = domainID, gn_creator = Some userID,
                gn_create_time = Some now, gn_updated_by = Some userID, gn_update_time = Some now, gn_status = Some ''01''\<rparr>]\<rparr>))"

definition create_domain ::
    "(string \<Rightarrow> bool) \<Rightarrow> int \<Rightarrow> int \<Rightarrow> domain_form \<Rightarrow> auth_db \<Rightarrow> domain_error + auth_db" where
  "create_domain fault now userID f db =
    (if df_domain f = [] then Inl Code_missing
     else if df_name f = [] then Inl Name_empty
     else and_then (form_priority (df_domain f) (df_priority f)) (\<lambda>priority.
          and_then (validateSelectedAPIs fault db (df_apis f) (ParseFirstDomain (df_domain f))) (\<lambda>_.
          if fault ''insert_domain'' then Inl (Domain_sql ''insert_domain'')
          else if list_ex (\<lambda>d. dm_domain d = df_domain f) (au_domains db) then Inl Domain_taken
          else
            let i = au_next_domain db;
                d = \<lparr>dm_id = i, dm_name = df_name f, dm_domain = df_domain f, dm_priority = priority, dm_status = Some ''01'',
                     dm_remark = df_remark f, dm_creator = Some userID, dm_create_time = Some now,
                     dm_updated_by = Some userID, dm_update_time = Some now\<rparr>
            in for_each (insert_grant fault now userID i) (df_apis f)
                 (db\<lparr>au_domains := au_domains db @ [d], au_next_domain := i + 1\<rparr>))))"

text \<open>
  One domain of the list of a \<open>PUT\<close>; \<open>committed\<close> is what the queries outside the transaction see. At
  the end the domain is read back for the reply, again outside.
\<close>

definition change_domain ::
    "(string \<Rightarrow> bool) \<Rightarrow> auth_db \<Rightarrow> int \<Rightarrow> int \<Rightarrow> domain_form \<Rightarrow> auth_db \<Rightarrow> domain_error + auth_db" where
  "change_domain fault committed now userID f db =
    (if Int64 (df_id f) \<le> 0 then Inl Domain_id_invalid
     else if df_name f = [] then Inl Name_empty
     else if df_status f \<noteq> None \<and> String (df_status f) \<notin> {''00'', ''01'', ''02''} then Inl Domain_status_invalid
     else if fault ''CheckDomainExists'' then Inl (Domain_sql ''CheckDomainExists'')
     else case sql_first (\<lambda>d. dm_id d = Int64 (df_id f)) (au_domains db) of
       None \<Rightarrow> Inl (Domain_absent (Int64 (df_id f)))
     | Some existing \<Rightarrow>
         and_then (form_priority (dm_domain existing) (df_priority f)) (\<lambda>priority.
         and_then (validateSelectedAPIs fault committed (df_apis f) (ParseFirstDomain (dm_domain existing))) (\<lambda>_.
         if fault ''UpdateDomain'' then Inl (Domain_sql ''UpdateDomain'')
         else if fault ''DeleteDomainAPIs'' then Inl (Domain_sql ''DeleteDomainAPIs'')
         else and_then (for_each (insert_grant fault now userID (Int64 (df_id f))) (df_apis f)
                (db\<lparr>au_domains := sql_update (\<lambda>d. dm_id d = Int64 (df_id f))
                      (\<lambda>d. d\<lparr>dm_name := df_name f, dm_priority := priority, dm_updated_by := Some userID,
                             dm_update_time := Some now, dm_remark := df_remark f, dm_status := Some (String (df_status f))\<rparr>)
                      (au_domains db),
                    au_grants := sql_delete (\<lambda>g. gn_domain g = Int64 (df_id f)) (au_grants db)\<rparr>)) (\<lambda>db'.
              if fault ''QueryUpdatedDomain'' \<or> (IsValidDomainOrRole (dm_domain existing) = (False, False)) \<or>
                 \<not> list_ex (\<lambda>d. dm_domain d = dm_domain existing) (au_domains committed)
              then Inl (Domain_sql ''QueryUpdatedDomain'') else Inr db'))))"

datatype domain_request = Post_domain domain_form | Put_domains "domain_form list"

text \<open>
  \<open>HandleDomain\<close> for the two methods that write; both run in one transaction, whose commit the
  reply does not wait for. The methods that only read are left out.
\<close>

definition HandleDomain ::
    "(string \<Rightarrow> bool) \<Rightarrow> int \<Rightarrow> (null_int \<times> null_int) option \<Rightarrow> domain_request \<Rightarrow> auth_db \<Rightarrow>
      (domain_error + unit) \<times> auth_db" where
  "HandleDomain fault now user req db =
    (case and_then (GetUserAuthority fault db user) (\<lambda>a.
        if Int64 (dm_priority (at_role a)) \<noteq> CDomainPrioritySuperAdmin then Inl Not_super_admin
        else
          let userID = (case user of Some (u, _) \<Rightarrow> Int64 u | None \<Rightarrow> 0)
          in case req of
               Post_domain f \<Rightarrow> create_domain fault now userID f db
             | Put_domains fs \<Rightarrow>
                 if fs = [] then Inl List_empty else for_each (change_domain fault db now userID) fs db) of
       Inl e \<Rightarrow> (Inl e, db)
     | Inr db' \<Rightarrow> (Inr (), if fault ''tx.Commit'' then db else db'))"

end
