(* ===== verification/Domain_Props.thy ===== *)
theory Domain_Props
  imports Domain_Admin
begin

text \<open>
  What the rules for domains amount to: whom a role reaches, what a grant allows, and what the
  administration of domains keeps and does not keep.
\<close>

section \<open>Reach\<close>

lemma active_domain_iff: "active_domain d \<longleftrightarrow> dm_status d = Some ''01'' \<and> CHR ''^'' \<notin> set (dm_domain d)"
  by (simp add: active_domain_def sql_like_inside)

text \<open>A name as the administration stores it for a domain: valid, and without white space around.\<close>

definition plain_domain :: "string \<Rightarrow> bool" where
  "plain_domain s \<longleftrightarrow> IsValidDomain s \<and> TrimSpace s = s"

lemma plain_literal:
  assumes "plain_domain s" "c \<in> set s"
  shows "c \<noteq> CHR ''%'' \<and> c \<noteq> CHR ''_'' \<and> c \<noteq> CHR 0x5C \<and> c \<noteq> CHR ''^''"
  using valid_domain_chars [of s c] assms by (auto simp: plain_domain_def)

lemma plain_not_Nil: "plain_domain s \<Longrightarrow> s \<noteq> []"
  by (auto simp: plain_domain_def IsValidDomain_def Let_def)

lemma strict_prefix_take: "strict_prefix xs ys \<longleftrightarrow> (\<exists>i<length ys. xs = take i ys)"
  by (metis append_eq_conv_conj append_take_drop_id length_append less_add_same_cancel1 length_greater_0_conv
      order_less_irrefl strict_prefix_def prefix_def prefix_length_less take_is_prefix length_take min.absorb4)

lemma in_map_filter: "y \<in> set (List.map_filter f xs) \<longleftrightarrow> (\<exists>x\<in>set xs. f x = Some y)"
  by (induction xs) (auto simp: map_filter_simps split: option.splits)

lemma parents_set:
  assumes "\<forall>s. \<not> fault s" "distinct (map dm_domain (au_domains db))" "path \<noteq> []"
  shows "\<exists>ps. getParentDomains fault db path = Inr ps \<and>
    set ps = {d \<in> set (au_domains db). active_domain d \<and> strict_prefix (labels (dm_domain d)) (labels path)}"
proof -
  let ?row = "\<lambda>i. sql_first (\<lambda>d. dm_domain d = Join ''.'' (take i (labels path)) \<and> active_domain d) (au_domains db)"
  let ?ps = "List.map_filter ?row [1..<length (labels path)]"
  have path: "Join ''.'' (take i (labels path)) = x \<longleftrightarrow> take i (labels path) = labels x" if "1 \<le> i" for i x
  proof -
    have "labels (Join ''.'' (take i (labels path))) = take i (labels path)"
      using that by (intro Split_Join) (auto dest!: in_set_takeD Split_no_sep)
    then show ?thesis by (metis Join_Split)
  qed
  have "set ?ps = {d \<in> set (au_domains db). active_domain d \<and> strict_prefix (labels (dm_domain d)) (labels path)}"
  proof (intro equalityI subsetI)
    fix d assume "d \<in> set ?ps"
    then obtain i where "i \<in> set [1..<length (labels path)]" and row: "?row i = Some d"
      unfolding in_map_filter ..
    then have i: "1 \<le> i" "i < length (labels path)" "?row i = Some d" by simp_all
    note r = sql_first_Some [OF row]
    then have "labels (dm_domain d) = take i (labels path)" using path [OF i(1), of "dm_domain d"] by metis
    then have d: "d \<in> set (au_domains db)" "active_domain d" "labels (dm_domain d) = take i (labels path)"
      using r by blast+
    then show "d \<in> {d \<in> set (au_domains db). active_domain d \<and> strict_prefix (labels (dm_domain d)) (labels path)}"
      using i(2) by (auto simp: strict_prefix_take)
  next
    fix d assume "d \<in> {d \<in> set (au_domains db). active_domain d \<and> strict_prefix (labels (dm_domain d)) (labels path)}"
    then obtain i where d: "d \<in> set (au_domains db)" "active_domain d" and i: "i < length (labels path)" "labels (dm_domain d) = take i (labels path)"
      by (auto simp: strict_prefix_take)
    have i1: "1 \<le> i" using i(2) Split_not_Nil [of "CHR ''.''" "dm_domain d"] by (cases i) auto
    have "?row i = Some d"
    proof (rule sql_first_unique [OF d(1)])
      show "dm_domain d = Join ''.'' (take i (labels path)) \<and> active_domain d"
        using path [OF i1, of "dm_domain d"] i(2) d(2) by auto
      show "r' = d" if "r' \<in> set (au_domains db)" "dm_domain r' = Join ''.'' (take i (labels path)) \<and> active_domain r'" for r'
        using that assms(2) d(1) path [OF i1, of "dm_domain d"] i(2) by (auto simp: distinct_map inj_on_def)
    qed
    then show "d \<in> set ?ps" unfolding in_map_filter using i1 i(1) by (intro bexI [of _ i]) auto
  qed
  then show ?thesis using assms(1,3) by (simp add: getParentDomains_def Let_def)
qed

lemma children_set:
  assumes "\<forall>s. \<not> fault s" "plain_domain path"
  shows "\<exists>cs. getChildDomains fault db path = Inr cs \<and>
    set cs = {d \<in> set (au_domains db). active_domain d \<and> strict_prefix (labels path) (labels (dm_domain d))}"
proof -
  have "sql_like (path @ ''.%'') x \<longleftrightarrow> strict_prefix (labels path) (labels x)" for x
    using sql_like_literal [of "path @ ''.''" x] plain_literal [OF assms(2)] by (auto simp: prefix_labels)
  moreover have "strict_prefix (labels path) (labels x) \<Longrightarrow> x \<noteq> path" for x by auto
  ultimately show ?thesis using assms plain_not_Nil by (auto simp: getChildDomains_def)
qed

text \<open>
  (C25) An administrator reaches the own domain and exactly the active domains above and below it, an
  ordinary user the own domain and exactly the active domains above it, by labels: a domain whose
  name merely begins alike is not reached.
\<close>

theorem reach_of_roles:
  assumes "\<forall>s. \<not> fault s" "distinct (map dm_domain (au_domains db))" "plain_domain (dm_domain cur)"
    and "dm_priority role = Some p" "p \<in> {CDomainPriorityAdmin, CDomainPriorityUser}"
  shows "\<exists>ids. getAccessibleDomains fault db role cur = Inr ids \<and>
    set ids = insert (dm_id cur) (dm_id ` {d \<in> set (au_domains db). active_domain d \<and>
      (strict_prefix (labels (dm_domain d)) (labels (dm_domain cur)) \<or>
       p = CDomainPriorityAdmin \<and> strict_prefix (labels (dm_domain cur)) (labels (dm_domain d)))})"
proof -
  obtain ps where ps: "getParentDomains fault db (dm_domain cur) = Inr ps"
    "set ps = {d \<in> set (au_domains db). active_domain d \<and> strict_prefix (labels (dm_domain d)) (labels (dm_domain cur))}"
    using parents_set [OF assms(1,2)] plain_not_Nil [OF assms(3)] by blast
  obtain cs where cs: "getChildDomains fault db (dm_domain cur) = Inr cs"
    "set cs = {d \<in> set (au_domains db). active_domain d \<and> strict_prefix (labels (dm_domain cur)) (labels (dm_domain d))}"
    using children_set [OF assms(1,3)] by blast
  show ?thesis
  proof (cases "p = CDomainPriorityAdmin")
    case True
    have "getAccessibleDomains fault db role cur = Inr (map dm_id (cur # ps @ cs))"
      using True assms(4) ps(1) cs(1) by (simp add: getAccessibleDomains_def priorities)
    moreover have "set (map dm_id (cur # ps @ cs)) = insert (dm_id cur) (dm_id ` {d \<in> set (au_domains db). active_domain d \<and>
      (strict_prefix (labels (dm_domain d)) (labels (dm_domain cur)) \<or> strict_prefix (labels (dm_domain cur)) (labels (dm_domain d)))})"
      using ps(2) cs(2) by auto
    ultimately show ?thesis using True by simp
  next
    case False
    then have "p = CDomainPriorityUser" using assms(5) by simp
    then have "getAccessibleDomains fault db role cur = Inr (map dm_id (cur # ps))"
      using assms(4) ps(1) by (simp add: getAccessibleDomains_def priorities)
    then show ?thesis using False ps(2) by simp
  qed
qed

text \<open>
  A super administrator reaches exactly the active domains whose names begin with the text of the
  own top label. That includes the domains of every other institution whose name begins with that
  text: with the top label \<open>cst\<close> also \<open>cst2\<close> and all below it.
\<close>

lemma super_admin_reach:
  assumes "\<forall>s. \<not> fault s" "plain_domain (dm_domain cur)" "dm_priority role = Some CDomainPrioritySuperAdmin"
  shows "\<exists>ids. getAccessibleDomains fault db role cur = Inr ids \<and>
    set ids = dm_id ` {d \<in> set (au_domains db). active_domain d \<and> prefix (hd (labels (dm_domain cur))) (hd (labels (dm_domain d)))}"
proof -
  let ?t = "hd (labels (dm_domain cur))"
  have t: "set ?t \<subseteq> set (dm_domain cur)" "CHR ''.'' \<notin> set ?t"
  proof -
    obtain l ls where l: "labels (dm_domain cur) = l # ls" by (cases "labels (dm_domain cur)") auto
    have "set l \<subseteq> set (Join ''.'' (l # ls))" by (cases ls) auto
    then show "set ?t \<subseteq> set (dm_domain cur)" using l Join_Split [of "CHR ''.''" "dm_domain cur"] by simp
    show "CHR ''.'' \<notin> set ?t" using l Split_no_sep [of l "CHR ''.''" "dm_domain cur"] by simp
  qed
  have hd_prefix: "prefix t x \<longleftrightarrow> prefix t (hd (labels x))" if "CHR ''.'' \<notin> set t" for t x
    using that
  proof (induction x arbitrary: t)
    case (Cons c x)
    obtain w ws where "labels x = w # ws" by (cases "labels x") auto
    then show ?case using Cons by (cases t) auto
  qed simp
  have "\<forall>c\<in>set ?t. c \<noteq> CHR ''%'' \<and> c \<noteq> CHR ''_'' \<and> c \<noteq> CHR 0x5C"
    using plain_literal [OF assms(2)] t(1) by blast
  then have "sql_like (?t @ ''%'') x \<longleftrightarrow> prefix ?t (hd (labels x))" for x
    using sql_like_literal [of ?t x] hd_prefix [OF t(2)] by simp
  then show ?thesis using assms(1,3) by (auto simp: getAccessibleDomains_def)
qed

section \<open>Grants\<close>

text \<open>\<open>may\<close>: a grant of the user's role for the path, the case of letters aside, with this action.\<close>

definition granted :: "auth_db \<Rightarrow> null_int \<Rightarrow> string \<Rightarrow> string \<Rightarrow> bool" where
  "granted db role path action \<longleftrightarrow> list_ex (\<lambda>(g, d, a). Some (dm_id d) = role \<and> gn_status g = Some ''01'' \<and>
     fold_key (String (ap_path a)) = fold_key path \<and> String (ap_action a) = action) (v_domain_api db)"

lemma authority_apis:
  assumes "GetUserAuthority fault db (Some (u, role)) = Inr a"
  shows "at_apis a = map (\<lambda>(g, d, a). a) (filter (\<lambda>(g, d, a). Some (dm_id d) = role \<and> gn_status g = Some ''01'') (v_domain_api db))"
  using assms
  by (auto simp: GetUserAuthority_def Let_def and_then_Inr_iff dest: sql_first_Some
    split: option.split_asm if_split_asm)

lemma accessible_granted:
  assumes "GetUserAuthority fault db (Some (u, role)) = Inr a"
  shows "checkUserAPIAccessible a path act \<longleftrightarrow> granted db role path CAPIAccessActionFull \<or> granted db role path act"
  unfolding checkUserAPIAccessible_def granted_def authority_apis [OF assms] list_ex_iff by fastforce

text \<open>
  A user may create, read, update or delete through an API exactly when the user's present role
  has an active grant of that action, or of \<open>full\<close>, for its path; \<open>full\<close> access takes one grant of
  \<open>full\<close> or grants of all four actions. Any other action is an error.
\<close>

lemma api_access:
  assumes "GetUserAuthority fault db (Some (u, role)) = Inr a"
  shows "CheckUserAPIAccessible (Inr a) path act =
    (let may = granted db role path in
     if act \<in> {''create'', ''read'', ''update'', ''delete''} then Inr (may ''full'' \<or> may act)
     else if act = ''full'' then Inr (may ''full'' \<or> (\<forall>x\<in>{''create'', ''read'', ''update'', ''delete''}. may x))
     else Inl (Access_mode_invalid act))"
  using accessible_granted [OF assms, of path]
  by (auto simp: CheckUserAPIAccessible_def Let_def access_actions)

section \<open>What administration keeps\<close>

definition grant_key :: "grant_row \<Rightarrow> int \<times> int" where
  "grant_key g = (gn_api g, gn_domain g)"

definition auth_wf :: "auth_db \<Rightarrow> bool" where
  "auth_wf db \<longleftrightarrow> distinct (map dm_id (au_domains db)) \<and> distinct (map dm_domain (au_domains db)) \<and>
     distinct (map grant_key (au_grants db)) \<and> (\<forall>i\<in>dm_id ` set (au_domains db). i < au_next_domain db) \<and>
     gn_domain ` set (au_grants db) \<subseteq> dm_id ` set (au_domains db)"

definition super_roles :: "auth_db \<Rightarrow> int set" where
  "super_roles db = dm_id ` {d \<in> set (au_domains db). CHR ''^'' \<in> set (dm_domain d) \<and>
     dm_priority d = Some CDomainPrioritySuperAdmin}"

lemma insert_grants:
  assumes "for_each (insert_grant fault now u i) apis db = Inr db'"
  shows "\<exists>gs. db' = db\<lparr>au_grants := au_grants db @ gs\<rparr> \<and> map (\<lambda>g. Some (gn_api g)) gs = apis \<and>
    (\<forall>g\<in>set gs. gn_domain g = i \<and> gn_status g = Some ''01'') \<and>
    (distinct (map grant_key (au_grants db)) \<longrightarrow> distinct (map grant_key (au_grants db @ gs)))"
  using assms
proof (induction apis arbitrary: db)
  case Nil
  then show ?case by (intro exI [of _ "[]"]) auto
next
  case (Cons x xs)
  obtain a where x: "x = Some a" using Cons(2) by (cases x) (auto simp: insert_grant_def)
  let ?g = "\<lparr>gn_api = a, gn_domain = i, gn_creator = Some u, gn_create_time = Some now, gn_updated_by = Some u,
    gn_update_time = Some now, gn_status = Some ''01''\<rparr>"
  obtain db1 where one: "insert_grant fault now u i x db = Inr db1" and more: "for_each (insert_grant fault now u i) xs db1 = Inr db'"
    using Cons(2) by (auto split: sum.split_asm simp: and_then_Inr_iff)
  have new: "(a, i) \<notin> grant_key ` set (au_grants db)" and db1: "db1 = db\<lparr>au_grants := au_grants db @ [?g]\<rparr>"
    using one by (auto simp: x insert_grant_def grant_key_def list_ex_iff split: if_split_asm)
  note rest = more [unfolded db1]
  obtain gs where "db' = db\<lparr>au_grants := (au_grants db @ [?g]) @ gs\<rparr>" "map (\<lambda>g. Some (gn_api g)) gs = xs"
    "\<forall>g\<in>set gs. gn_domain g = i \<and> gn_status g = Some ''01''"
    "distinct (map grant_key (au_grants db @ [?g])) \<longrightarrow> distinct (map grant_key ((au_grants db @ [?g]) @ gs))"
    using Cons(1) [OF rest] by auto
  then have "db' = db\<lparr>au_grants := au_grants db @ ?g # gs\<rparr>" "map (\<lambda>g. Some (gn_api g)) (?g # gs) = x # xs"
    "\<forall>g\<in>set (?g # gs). gn_domain g = i \<and> gn_status g = Some ''01''"
    "distinct (map grant_key (au_grants db)) \<longrightarrow> distinct (map grant_key (au_grants db @ ?g # gs))"
    using new x by (simp_all add: grant_key_def [of ?g])
  then show ?case by (intro exI [of _ "?g # gs"] conjI)
qed

lemma form_priority_role:
  assumes "form_priority s p = Inr q" "q = Some CDomainPrioritySuperAdmin"
  shows "CHR ''^'' \<notin> set (TrimSpace s)"
proof
  assume "CHR ''^'' \<in> set (TrimSpace s)"
  then have "length (Split (CHR ''^'') (TrimSpace s)) \<noteq> 1"
    unfolding length_Split by (simp add: count_list_0_iff)
  then have "\<not> fst (IsValidDomainOrRole s)"
    by (auto simp: IsValidDomainOrRole_def Let_def split: list.split)
  then show False using assms
    by (auto simp: form_priority_def priorities split: prod.split_asm if_split_asm option.split_asm)
qed


lemma trim_keeps: "CHR ''^'' \<in> set s \<Longrightarrow> CHR ''^'' \<in> set (TrimSpace s)"
proof -
  have spaces: "list_all (\<lambda>c. c \<noteq> CHR ''^'') (concat space_codes)" by code_simp
  have "set s \<subseteq> set (TrimSpace s) \<union> set (concat space_codes)"
    using trim_front_set [of s space_codes]
      trim_front_set [of "rev (trim_front space_codes s)" "map rev space_codes"]
    by (auto simp: TrimSpace_def)
  then show "CHR ''^'' \<in> set s \<Longrightarrow> CHR ''^'' \<in> set (TrimSpace s)"
    using spaces by (auto simp: list_all_iff)
qed

lemma priority_of_role:
  "form_priority s p = Inr q \<Longrightarrow> CHR ''^'' \<in> set s \<Longrightarrow> q \<noteq> Some CDomainPrioritySuperAdmin"
  using form_priority_role trim_keeps by blast

lemma create_domain_result:
  assumes "create_domain fault now u f db = Inr db'"
  shows "\<exists>d gs q. db' = db\<lparr>au_domains := au_domains db @ [d], au_next_domain := au_next_domain db + 1,
      au_grants := au_grants db @ gs\<rparr> \<and> map (\<lambda>g. Some (gn_api g)) gs = df_apis f \<and>
    (\<forall>g\<in>set gs. gn_domain g = au_next_domain db \<and> gn_status g = Some ''01'') \<and>
    (distinct (map grant_key (au_grants db)) \<longrightarrow> distinct (map grant_key (au_grants db @ gs))) \<and>
    dm_id d = au_next_domain db \<and> dm_domain d = df_domain f \<and> dm_priority d = q \<and> dm_status d = Some ''01'' \<and>
    df_domain f \<notin> dm_domain ` set (au_domains db) \<and> form_priority (df_domain f) (df_priority f) = Inr q \<and>
    validateSelectedAPIs fault db (df_apis f) (ParseFirstDomain (df_domain f)) = Inr ()"
proof -
  obtain q where q: "form_priority (df_domain f) (df_priority f) = Inr q"
    "validateSelectedAPIs fault db (df_apis f) (ParseFirstDomain (df_domain f)) = Inr ()"
    using assms by (auto simp: create_domain_def and_then_Inr_iff split: if_split_asm)
  let ?d = "\<lparr>dm_id = au_next_domain db, dm_name = df_name f, dm_domain = df_domain f, dm_priority = q, dm_status = Some ''01'',
    dm_remark = df_remark f, dm_creator = Some u, dm_create_time = Some now, dm_updated_by = Some u, dm_update_time = Some now\<rparr>"
  have new: "df_domain f \<notin> dm_domain ` set (au_domains db)"
    and loop: "for_each (insert_grant fault now u (au_next_domain db)) (df_apis f)
      (db\<lparr>au_domains := au_domains db @ [?d], au_next_domain := au_next_domain db + 1\<rparr>) = Inr db'"
    using assms q by (auto simp: create_domain_def Let_def list_ex_iff split: if_split_asm)
  then obtain gs where gs: "db' = (db\<lparr>au_domains := au_domains db @ [?d], au_next_domain := au_next_domain db + 1\<rparr>)
      \<lparr>au_grants := au_grants db @ gs\<rparr>"
    "map (\<lambda>g. Some (gn_api g)) gs = df_apis f" "\<forall>g\<in>set gs. gn_domain g = au_next_domain db \<and> gn_status g = Some ''01''"
    "distinct (map grant_key (au_grants db)) \<longrightarrow> distinct (map grant_key (au_grants db @ gs))"
    using insert_grants [OF loop] by auto
  show ?thesis
    by (rule exI [of _ ?d], rule exI [of _ gs], rule exI [of _ q]) (use gs q new in simp)
qed

lemma create_domain_keeps:
  assumes "create_domain fault now u f db = Inr db'" "auth_wf db"
  shows "auth_wf db' \<and> super_roles db' \<subseteq> super_roles db"
proof -
  obtain d gs q where db': "db' = db\<lparr>au_domains := au_domains db @ [d], au_next_domain := au_next_domain db + 1,
      au_grants := au_grants db @ gs\<rparr>"
    and gs: "\<forall>g\<in>set gs. gn_domain g = au_next_domain db" "distinct (map grant_key (au_grants db)) \<longrightarrow> distinct (map grant_key (au_grants db @ gs))"
    and d: "dm_id d = au_next_domain db" "dm_domain d = df_domain f" "dm_priority d = q"
      "df_domain f \<notin> dm_domain ` set (au_domains db)" "form_priority (df_domain f) (df_priority f) = Inr q"
    using create_domain_result [OF assms(1)] by blast
  have "auth_wf db'" using assms(2) db' gs d by (auto simp: auth_wf_def)
  moreover have "super_roles db' \<subseteq> super_roles db"
    using priority_of_role [OF d(5)] d db' by (auto simp: super_roles_def)
  ultimately show ?thesis ..
qed

lemma change_domain_keeps:
  assumes "change_domain fault cm now u f db = Inr db'" "auth_wf db"
  shows "auth_wf db' \<and> super_roles db' \<subseteq> super_roles db"
proof -
  let ?i = "Int64 (df_id f)"
  obtain ex q where ex: "sql_first (\<lambda>d. dm_id d = ?i) (au_domains db) = Some ex"
    and q: "form_priority (dm_domain ex) (df_priority f) = Inr q"
    using assms(1) by (auto simp: change_domain_def and_then_Inr_iff split: if_split_asm option.split_asm)
  define up where "up = (\<lambda>d::domain_row. d\<lparr>dm_name := df_name f, dm_priority := q, dm_updated_by := Some u,
    dm_update_time := Some now, dm_remark := df_remark f, dm_status := Some (String (df_status f))\<rparr>)"
  define db1 where "db1 = db\<lparr>au_domains := sql_update (\<lambda>d. dm_id d = ?i) up (au_domains db),
    au_grants := sql_delete (\<lambda>g. gn_domain g = ?i) (au_grants db)\<rparr>"
  have "for_each (insert_grant fault now u ?i) (df_apis f) db1 = Inr db'"
    using assms(1) ex q
    by (auto simp: change_domain_def and_then_Inr_iff db1_def up_def split: if_split_asm option.split_asm)
  then obtain gs where gs: "db' = db1\<lparr>au_grants := au_grants db1 @ gs\<rparr>" "\<forall>g\<in>set gs. gn_domain g = ?i"
    "distinct (map grant_key (au_grants db1)) \<longrightarrow> distinct (map grant_key (au_grants db1 @ gs))"
    using insert_grants by blast
  have e: "ex \<in> set (au_domains db)" "dm_id ex = ?i" using sql_first_Some [OF ex] by auto
  have ids: "map dm_id (au_domains db1) = map dm_id (au_domains db)" "map dm_domain (au_domains db1) = map dm_domain (au_domains db)"
    by (simp_all add: db1_def up_def sql_update_def)
  have "auth_wf db'"
  proof -
    have k: "distinct (map grant_key (au_grants db1))"
      using assms(2) by (simp add: auth_wf_def db1_def sql_delete_def distinct_map_filter)
    have s1: "gn_domain ` set (au_grants db1) \<subseteq> gn_domain ` set (au_grants db)" by (auto simp: db1_def sql_delete_def)
    have s2: "dm_id ` set (au_domains db1) = dm_id ` set (au_domains db)" using ids(1) by (metis set_map)
    have s3: "gn_domain ` set gs \<subseteq> dm_id ` set (au_domains db)" using gs(2) e by force
    have s4: "au_domains db' = au_domains db1" "au_grants db' = au_grants db1 @ gs" "au_next_domain db' = au_next_domain db"
      using gs(1) by (simp_all add: db1_def)
    have w: "distinct (map dm_id (au_domains db))" "distinct (map dm_domain (au_domains db))"
      "\<forall>i\<in>dm_id ` set (au_domains db). i < au_next_domain db" "gn_domain ` set (au_grants db) \<subseteq> dm_id ` set (au_domains db)"
      using assms(2) by (simp_all add: auth_wf_def)
    have "gn_domain ` set (au_grants db1 @ gs) \<subseteq> dm_id ` set (au_domains db)"
      unfolding set_append image_Un using s1 s3 w(4) by (meson Un_least order_trans)
    then show ?thesis unfolding auth_wf_def s4 s2 ids using w gs(3) k by fast
  qed
  moreover have "super_roles db' \<subseteq> super_roles db"
  proof -
    have "dm_id d \<in> super_roles db" if d: "d \<in> set (au_domains db1)" "CHR ''^'' \<in> set (dm_domain d)" "dm_priority d = Some 0" for d
    proof -
      obtain d0 where d0: "d0 \<in> set (au_domains db)" "d = (if dm_id d0 = ?i then up d0 else d0)"
        using d(1) by (auto simp: db1_def set_sql_update)
      have "dm_id d0 \<noteq> ?i"
      proof
        assume i: "dm_id d0 = ?i"
        then have "d0 = ex" using assms(2) d0(1) e by (auto simp: auth_wf_def distinct_map inj_on_def)
        then show False using priority_of_role [OF q] d0(2) i d by (simp add: up_def priorities)
      qed
      then show ?thesis using d0 d by (auto simp: super_roles_def priorities)
    qed
    then show ?thesis using gs(1) by (auto simp: super_roles_def priorities)
  qed
  ultimately show ?thesis ..
qed


text \<open>The requests of all users, in whatever order, with whatever statements refused.\<close>

inductive domain_step :: "auth_db \<Rightarrow> auth_db \<Rightarrow> bool" where
  "HandleDomain fault now user req db = (r, db') \<Longrightarrow> domain_step db db'"

lemma HandleDomain_changes:
  assumes "HandleDomain fault now user req db = (r, db')" "db' \<noteq> db"
  shows "\<exists>a u. GetUserAuthority fault db user = Inr a \<and> dm_priority (at_role a) = Some CDomainPrioritySuperAdmin \<and>
    (case req of Post_domain f \<Rightarrow> create_domain fault now u f db = Inr db'
     | Put_domains fs \<Rightarrow> for_each (change_domain fault db now u) fs db = Inr db')"
proof -
  let ?u = "case user of Some (u, _) \<Rightarrow> Int64 u | None \<Rightarrow> 0"
  obtain a where a: "GetUserAuthority fault db user = Inr a" "Int64 (dm_priority (at_role a)) = CDomainPrioritySuperAdmin"
    and run: "(case req of Post_domain f \<Rightarrow> create_domain fault now ?u f db
     | Put_domains fs \<Rightarrow> for_each (change_domain fault db now ?u) fs db) = Inr db'"
    using assms by (auto simp: HandleDomain_def Let_def and_then_Inr_iff split: sum.split_asm if_split_asm domain_request.split_asm)
  have "dm_priority (at_role a) \<noteq> None"
    using a(1) by (auto simp: GetUserAuthority_def getAccessibleDomains_def Let_def and_then_Inr_iff split: option.split_asm if_split_asm)
  then have "dm_priority (at_role a) = Some CDomainPrioritySuperAdmin" using a(2) by auto
  then show ?thesis using a(1) run by (intro exI [of _ a] exI [of _ ?u]) (cases req, simp_all)
qed

lemma authority_role:
  assumes "GetUserAuthority fault db user = Inr a"
  shows "at_role a \<in> set (au_domains db) \<and> CHR ''^'' \<in> set (dm_domain (at_role a))"
proof -
  have "at_role a \<in> set (au_domains db)" "\<not> length (Split (CHR ''^'') (dm_domain (at_role a))) < 2"
    using assms by (auto simp: GetUserAuthority_def Let_def and_then_Inr_iff dest!: sql_first_Some split: option.split_asm if_split_asm)
  then show ?thesis unfolding length_Split by (auto simp: count_list_0_iff not_less Suc_le_eq intro: ccontr)
qed

lemma domain_step_keeps:
  assumes "domain_step db db'" "auth_wf db"
  shows "auth_wf db' \<and> super_roles db' \<subseteq> super_roles db \<and> (super_roles db = {} \<longrightarrow> db' = db)"
proof (cases "db' = db")
  case False
  obtain fault now user req r where "HandleDomain fault now user req db = (r, db')"
    using assms(1) by (auto simp: domain_step.simps)
  then obtain a u where a: "GetUserAuthority fault db user = Inr a" "dm_priority (at_role a) = Some CDomainPrioritySuperAdmin"
    and run: "case req of Post_domain f \<Rightarrow> create_domain fault now u f db = Inr db'
     | Put_domains fs \<Rightarrow> for_each (change_domain fault db now u) fs db = Inr db'"
    using HandleDomain_changes False by blast
  have "super_roles db \<noteq> {}" using authority_role [OF a(1)] a(2) by (auto simp: super_roles_def)
  moreover have "auth_wf db' \<and> super_roles db' \<subseteq> super_roles db"
  proof (cases req)
    case (Post_domain f)
    then show ?thesis using create_domain_keeps run assms(2) by simp
  next
    case (Put_domains fs)
    then have "for_each (change_domain fault db now u) fs db = Inr db'" using run by simp
    then show ?thesis
      by (rule for_each_invariant [where P = "\<lambda>x. auth_wf x \<and> super_roles x \<subseteq> super_roles db"])
        (use assms(2) change_domain_keeps in blast)+
  qed
  ultimately show ?thesis by blast
qed (use assms in simp)

text \<open>
  No sequence of requests gives a further role the priority of a super administrator, and where no
  role has it nothing can be changed. On the way names, ids and grants stay unique and every grant
  belongs to a domain there is.
\<close>

lemma no_new_super_roles:
  assumes "domain_step\<^sup>*\<^sup>* db db'" "auth_wf db"
  shows "auth_wf db' \<and> super_roles db' \<subseteq> super_roles db \<and> (super_roles db = {} \<longrightarrow> db' = db)"
  using assms
proof (induction rule: rtranclp_induct)
  case (step y z)
  then show ?case using domain_step_keeps [of y z] by auto
qed simp

section \<open>Where grants come from\<close>

text \<open>What may be granted below the name \<open>parent\<close>: any configurable API, or those of the active grants of \<open>parent\<close>.\<close>

definition selectable :: "auth_db \<Rightarrow> string \<Rightarrow> int \<Rightarrow> bool" where
  "selectable db parent i \<longleftrightarrow>
     (if DomainLevel parent = 0 then \<exists>a\<in>set (au_apis db). ap_id a = i \<and> ap_status a = Some ''01'' \<and> ap_configurable a = Some True
      else \<exists>(g, d, a)\<in>set (v_domain_api db). ap_id a = i \<and> dm_domain d = parent \<and> gn_status g = Some ''01'' \<and> ap_configurable a = Some True)"

lemma querySelectableAPIs_ids:
  "querySelectableAPIs fault db parent = Inr apis \<Longrightarrow> i \<in> ap_id ` set apis \<longleftrightarrow> selectable db parent i"
  by (auto simp: querySelectableAPIs_def selectable_def image_iff split: if_split_asm) blast+

lemma validateSelectedAPIs_ids:
  assumes "validateSelectedAPIs fault db xs parent = Inr ()" "Some i \<in> set xs"
  shows "selectable db parent i"
proof -
  obtain apis where "querySelectableAPIs fault db parent = Inr apis"
    and "List.find (\<lambda>i. i \<noteq> None \<and> Int64 i \<notin> ap_id ` set apis) xs = None"
    using assms(1) by (auto simp: validateSelectedAPIs_def and_then_Inr_iff split: option.split_asm)
  then show ?thesis using assms(2) querySelectableAPIs_ids by (fastforce simp: find_None_iff)
qed

text \<open>
  A new domain or role gets exactly the APIs of the request, as active grants, and each of them
  may be granted below the top label of its name: not below its parent, so a domain can be given
  what its parent does not have.
\<close>

lemma grants_from_top_level:
  assumes "create_domain fault now u f db = Inr db'"
  shows "\<exists>gs. au_grants db' = au_grants db @ gs \<and> map (\<lambda>g. Some (gn_api g)) gs = df_apis f \<and>
    (\<forall>g\<in>set gs. gn_domain g = au_next_domain db \<and> gn_status g = Some ''01'' \<and>
       selectable db (ParseFirstDomain (df_domain f)) (gn_api g))"
proof -
  obtain d gs where gs: "db' = db\<lparr>au_domains := au_domains db @ [d], au_next_domain := au_next_domain db + 1, au_grants := au_grants db @ gs\<rparr>"
    "map (\<lambda>g. Some (gn_api g)) gs = df_apis f" "\<forall>g\<in>set gs. gn_domain g = au_next_domain db \<and> gn_status g = Some ''01''"
    and ok: "validateSelectedAPIs fault db (df_apis f) (ParseFirstDomain (df_domain f)) = Inr ()"
    using create_domain_result [OF assms] by blast
  have "selectable db (ParseFirstDomain (df_domain f)) (gn_api g)" if "g \<in> set gs" for g
    by (rule validateSelectedAPIs_ids [OF ok]) (use that in \<open>auto simp: gs(2) [symmetric]\<close>)
  then show ?thesis using gs by (intro exI [of _ gs]) auto
qed


section \<open>Examples\<close>

definition demo_dom :: "int \<Rightarrow> string \<Rightarrow> int \<Rightarrow> domain_row" where
  "demo_dom i name priority = \<lparr>dm_id = i, dm_name = name, dm_domain = name, dm_priority = Some priority, dm_status = Some ''01'',
     dm_remark = None, dm_creator = None, dm_create_time = None, dm_updated_by = None, dm_update_time = None\<rparr>"

definition demo_api :: "int \<Rightarrow> string \<Rightarrow> api_row" where
  "demo_api i path = \<lparr>ap_id = i, ap_name = path, ap_path = Some path, ap_action = Some ''read'', ap_level = ''2'',
     ap_configurable = Some True, ap_status = Some ''01''\<rparr>"

definition demo_grant :: "int \<Rightarrow> int \<Rightarrow> grant_row" where
  "demo_grant api i = \<lparr>gn_api = api, gn_domain = i, gn_creator = None, gn_create_time = None, gn_updated_by = None,
     gn_update_time = None, gn_status = Some ''01''\<rparr>"

definition demo_tree :: auth_db where
  "demo_tree = \<lparr>au_domains = [demo_dom 1 ''cst'' 0, demo_dom 2 ''cst.school'' 0, demo_dom 3 ''cst.school.a'' 0, demo_dom 4 ''cst2'' 0,
       demo_dom 5 ''cst.school^head'' 3, demo_dom 6 ''cst^root'' 0, demo_dom 7 ''cst.schools'' 0],
     au_apis = [demo_api 1 ''/api/exam'', demo_api 2 ''/api/mark''],
     au_grants = [demo_grant 1 1, demo_grant 2 1, demo_grant 2 2, demo_grant 2 5, demo_grant 1 6],
     au_next_domain = 8\<rparr>"

definition demo_form :: "string \<Rightarrow> null_int \<Rightarrow> null_int list \<Rightarrow> domain_form" where
  "demo_form name priority apis = \<lparr>df_id = None, df_name = ''a class'', df_domain = name, df_priority = priority, df_status = None,
     df_remark = None, df_apis = apis\<rparr>"

lemmas demo_tree_defs = demo_tree_def demo_dom_def demo_api_def demo_grant_def demo_form_def

lemma demo_tree_wf: "auth_wf demo_tree"
  by code_simp

lemma school_plain: "plain_domain ''cst.school''"
  by code_simp

text \<open>The head of the school reaches the class and the institution, not \<open>cst.schools\<close> or \<open>cst2\<close>.\<close>

theorem reach_of_roles_witness:
  "getAccessibleDomains (\<lambda>_. False) demo_tree (demo_dom 5 ''cst.school^head'' 3) (demo_dom 2 ''cst.school'' 0) = Inr [2, 1, 3] \<and>
   (\<exists>ids. getAccessibleDomains (\<lambda>_. False) demo_tree (demo_dom 5 ''cst.school^head'' 3) (demo_dom 2 ''cst.school'' 0) = Inr ids \<and>
    set ids = insert 2 (dm_id ` {d \<in> set (au_domains demo_tree). active_domain d \<and>
      (strict_prefix (labels (dm_domain d)) (labels ''cst.school'') \<or> strict_prefix (labels ''cst.school'') (labels (dm_domain d)))}))"
proof
  show "getAccessibleDomains (\<lambda>_. False) demo_tree (demo_dom 5 ''cst.school^head'' 3) (demo_dom 2 ''cst.school'' 0) = Inr [2, 1, 3]"
    by code_simp
  show "\<exists>ids. getAccessibleDomains (\<lambda>_. False) demo_tree (demo_dom 5 ''cst.school^head'' 3) (demo_dom 2 ''cst.school'' 0) = Inr ids \<and>
    set ids = insert 2 (dm_id ` {d \<in> set (au_domains demo_tree). active_domain d \<and>
      (strict_prefix (labels (dm_domain d)) (labels ''cst.school'') \<or> strict_prefix (labels ''cst.school'') (labels (dm_domain d)))})"
    using reach_of_roles [of "\<lambda>_. False" demo_tree "demo_dom 2 ''cst.school'' 0" "demo_dom 5 ''cst.school^head'' 3" 3]
      demo_tree_wf school_plain
    by (simp add: auth_wf_def demo_dom_def CDomainPriorityAdmin_def del: Split.simps)
qed

text \<open>A super administrator of \<open>cst\<close> reaches \<open>cst2\<close> as well.\<close>

lemma super_admin_reach_witness:
  "\<exists>ids. getAccessibleDomains (\<lambda>_. False) demo_tree (demo_dom 6 ''cst^root'' 0) (demo_dom 1 ''cst'' 0) = Inr ids \<and> 4 \<in> set ids"
proof -
  have "plain_domain ''cst''" by code_simp
  then obtain ids where "getAccessibleDomains (\<lambda>_. False) demo_tree (demo_dom 6 ''cst^root'' 0) (demo_dom 1 ''cst'' 0) = Inr ids"
    and ids: "set ids = dm_id ` {d \<in> set (au_domains demo_tree). active_domain d \<and> prefix (hd (labels ''cst'')) (hd (labels (dm_domain d)))}"
    using super_admin_reach [of "\<lambda>_. False" "demo_dom 1 ''cst'' 0" "demo_dom 6 ''cst^root'' 0" demo_tree]
    by (auto simp: demo_dom_def CDomainPrioritySuperAdmin_def simp del: Split.simps)
  moreover have "demo_dom 4 ''cst2'' 0 \<in> {d \<in> set (au_domains demo_tree). active_domain d \<and> prefix (hd (labels ''cst'')) (hd (labels (dm_domain d)))}"
    by (simp add: demo_tree_def active_domain_iff) (simp add: demo_dom_def)
  then have "4 \<in> set ids" unfolding ids by (intro image_eqI [of _ dm_id "demo_dom 4 ''cst2'' 0"]) (simp_all add: demo_dom_def)
  ultimately show ?thesis by blast
qed

lemma api_access_witness:
  "\<exists>a. GetUserAuthority (\<lambda>_. False) demo_tree (Some (Some 9, Some 5)) = Inr a \<and>
    CheckUserAPIAccessible (Inr a) ''/API/mark'' ''read'' = Inr True \<and>
    CheckUserAPIAccessible (Inr a) ''/api/exam'' ''read'' = Inr False"
proof -
  have "is_ok (GetUserAuthority (\<lambda>_. False) demo_tree (Some (Some 9, Some 5)))" by code_simp
  then obtain a where a: "GetUserAuthority (\<lambda>_. False) demo_tree (Some (Some 9, Some 5)) = Inr a" by (auto simp: is_ok_iff)
  moreover have "granted demo_tree (Some 5) ''/API/mark'' ''read''" by code_simp
  moreover have "\<not> granted demo_tree (Some 5) ''/api/exam'' ''read''" "\<not> granted demo_tree (Some 5) ''/api/exam'' ''full''" by code_simp+
  ultimately show ?thesis
    using api_access [OF a, of "''/API/mark''" "''read''"] api_access [OF a, of "''/api/exam''" "''read''"]
    by (auto simp: Let_def)
qed

text \<open>The super administrator of \<open>cst\<close> makes a class under the school and gives it an API the school lacks.\<close>

definition demo_user :: "(null_int \<times> null_int) option" where
  "demo_user = Some (Some 9, Some 6)"

definition demo_class :: domain_form where
  "demo_class = demo_form ''cst.school.b'' None [Some 1]"

lemma demo_tree_ids: "map dm_id (au_domains demo_tree) = [1, 2, 3, 4, 5, 6, 7]" "au_next_domain demo_tree = 8"
  by (simp_all add: demo_tree_def demo_dom_def)

lemma demo_class_made:
  "\<exists>db. create_domain (\<lambda>_. False) 100 9 demo_class demo_tree = Inr db \<and> map dm_id (au_domains db) = [1, 2, 3, 4, 5, 6, 7, 8] \<and>
    HandleDomain (\<lambda>_. False) 100 demo_user (Post_domain demo_class) demo_tree = (Inr (), db)"
proof -
  have "IsValidDomainOrRole ''cst.school.b'' = (True, False)" by code_simp
  then have "form_priority ''cst.school.b'' None = Inr (Some 0)" by (simp add: form_priority_def priorities)
  moreover have "ParseFirstDomain ''cst.school.b'' = ''cst''" by code_simp
  moreover have "validateSelectedAPIs (\<lambda>_. False) demo_tree [Some 1] ''cst'' = Inr ()" by code_simp
  moreover have "\<not> list_ex (\<lambda>d. dm_domain d = ''cst.school.b'') (au_domains demo_tree)"
    "\<not> list_ex (\<lambda>g. gn_api g = 1 \<and> gn_domain g = 8) (au_grants demo_tree)" by code_simp+
  ultimately have "is_ok (create_domain (\<lambda>_. False) 100 9 demo_class demo_tree)"
    by (simp add: create_domain_def demo_class_def demo_form_def insert_grant_def Let_def demo_tree_ids)
  then obtain db where db: "create_domain (\<lambda>_. False) 100 9 demo_class demo_tree = Inr db" by (auto simp: is_ok_iff)
  have "case GetUserAuthority (\<lambda>_. False) demo_tree demo_user of Inr a \<Rightarrow> dm_priority (at_role a) = Some 0 | Inl _ \<Rightarrow> False" by code_simp
  then obtain a where a: "GetUserAuthority (\<lambda>_. False) demo_tree demo_user = Inr a" "dm_priority (at_role a) = Some 0"
    by (auto split: sum.split_asm)
  have "HandleDomain (\<lambda>_. False) 100 demo_user (Post_domain demo_class) demo_tree = (Inr (), db)"
    using a db by (simp add: HandleDomain_def demo_user_def CDomainPrioritySuperAdmin_def)
  moreover have "map dm_id (au_domains db) = [1, 2, 3, 4, 5, 6, 7, 8]"
  proof -
    obtain d gs where "db = demo_tree\<lparr>au_domains := au_domains demo_tree @ [d], au_next_domain := au_next_domain demo_tree + 1,
        au_grants := au_grants demo_tree @ gs\<rparr>" "dm_id d = au_next_domain demo_tree"
      using create_domain_result [OF db] by blast
    then show ?thesis by (simp add: demo_tree_ids)
  qed
  ultimately show ?thesis using db by (intro exI [of _ db] conjI)
qed

lemma no_new_super_roles_witness:
  "\<exists>db. domain_step\<^sup>*\<^sup>* demo_tree db \<and> db \<noteq> demo_tree \<and> auth_wf db \<and> super_roles db \<subseteq> super_roles demo_tree"
proof -
  obtain db where db: "HandleDomain (\<lambda>_. False) 100 demo_user (Post_domain demo_class) demo_tree = (Inr (), db)"
    "map dm_id (au_domains db) = [1, 2, 3, 4, 5, 6, 7, 8]"
    using demo_class_made by (elim exE conjE)
  have s: "domain_step\<^sup>*\<^sup>* demo_tree db" using domain_step.intros [OF db(1)] by simp
  have "db \<noteq> demo_tree" using arg_cong [OF db(2), of length] arg_cong [OF demo_tree_ids(1), of length] by auto
  then show ?thesis using no_new_super_roles [OF s demo_tree_wf] s by blast
qed

lemma grants_from_top_level_witness:
  "\<exists>db g. create_domain (\<lambda>_. False) 100 9 demo_class demo_tree = Inr db \<and> g \<in> set (au_grants db) \<and>
    gn_api g = 1 \<and> gn_domain g = 8 \<and> selectable demo_tree ''cst'' 1 \<and> \<not> selectable demo_tree ''cst.school'' 1"
proof -
  obtain db where db: "create_domain (\<lambda>_. False) 100 9 demo_class demo_tree = Inr db" using demo_class_made by blast
  have first: "ParseFirstDomain (df_domain demo_class) = ''cst''" by code_simp
  obtain gs where gs: "au_grants db = au_grants demo_tree @ gs" "map (\<lambda>g. Some (gn_api g)) gs = df_apis demo_class"
    "\<forall>g\<in>set gs. gn_domain g = au_next_domain demo_tree \<and> gn_status g = Some ''01'' \<and> selectable demo_tree ''cst'' (gn_api g)"
    using grants_from_top_level [OF db] unfolding first by blast
  moreover obtain g where "gs = [g]" "gn_api g = 1" using gs(2) by (auto simp: demo_class_def demo_form_def)
  moreover have "\<not> list_ex (\<lambda>(g, d, a). ap_id a = 1 \<and> dm_domain d = ''cst.school'' \<and> gn_status g = Some ''01'' \<and>
      ap_configurable a = Some True) (v_domain_api demo_tree)" by code_simp
  then have "\<not> selectable demo_tree ''cst.school'' 1"
    unfolding selectable_def list_ex_iff by (auto simp: Let_def) (code_simp)
  ultimately show ?thesis using db by (intro exI [of _ db] exI [of _ g]) (auto simp: demo_tree_def)
qed

text \<open>A \<open>PUT\<close> that does not name a status leaves the domain without one, so that nobody reaches it.\<close>

lemma status_cleared:
  assumes "change_domain fault cm now u f db = Inr db'" "df_status f = None" "d \<in> set (au_domains db')" "dm_id d = Int64 (df_id f)"
  shows "dm_status d = Some [] \<and> \<not> active_domain d"
proof -
  obtain q where "for_each (insert_grant fault now u (Int64 (df_id f))) (df_apis f)
     (db\<lparr>au_domains := sql_update (\<lambda>d. dm_id d = Int64 (df_id f)) (\<lambda>d. d\<lparr>dm_name := df_name f, dm_priority := q, dm_updated_by := Some u,
        dm_update_time := Some now, dm_remark := df_remark f, dm_status := Some (String (df_status f))\<rparr>) (au_domains db),
      au_grants := sql_delete (\<lambda>g. gn_domain g = Int64 (df_id f)) (au_grants db)\<rparr>) = Inr db'"
    using assms(1) by (auto simp: change_domain_def and_then_Inr_iff split: if_split_asm option.split_asm)
  then have "au_domains db' = sql_update (\<lambda>d. dm_id d = Int64 (df_id f)) (\<lambda>d. d\<lparr>dm_name := df_name f, dm_priority := q,
      dm_updated_by := Some u, dm_update_time := Some now, dm_remark := df_remark f, dm_status := Some (String (df_status f))\<rparr>) (au_domains db)"
    using insert_grants by fastforce
  then obtain d0 where "d0 \<in> set (au_domains db)" "d = (if dm_id d0 = Int64 (df_id f) then d0\<lparr>dm_name := df_name f, dm_priority := q,
      dm_updated_by := Some u, dm_update_time := Some now, dm_remark := df_remark f, dm_status := Some (String (df_status f))\<rparr> else d0)"
    using assms(3) by (auto simp: set_sql_update)
  then show ?thesis using assms(2,4) by (cases "dm_id d0 = Int64 (df_id f)") (simp_all add: active_domain_def)
qed

end
