(* ===== verification/User_Identity.thy ===== *)
theory User_Identity
  imports Go_Strings
begin

text \<open>
  Identity card numbers and generated accounts, \<open>serve/user_mgt/utils.go\<close> and \<open>service.go\<close>. A number is
  normalised to 18 characters, the last of which checks the others (ISO 7064, modulus 11).
\<close>

section \<open>Dates\<close>

definition leap_year :: "int \<Rightarrow> bool" where
  "leap_year y \<longleftrightarrow> y mod 4 = 0 \<and> (y mod 100 \<noteq> 0 \<or> y mod 400 = 0)"

definition month_lengths :: "int \<Rightarrow> int list" where
  "month_lengths y = [31, if leap_year y then 29 else 28, 31, 30, 31, 30, 31, 31, 30, 31, 30, 31]"

text \<open>Days since 1 January 1970, for a year from 1 on.\<close>

definition unix_day :: "int \<Rightarrow> nat \<Rightarrow> int \<Rightarrow> int" where
  "unix_day y m d = 365 * (y - 1) + (y - 1) div 4 - (y - 1) div 100 + (y - 1) div 400 +
     sum_list (take (m - 1) (month_lengths y)) + (d - 1) - 719162"

text \<open>\<open>time.Parse("20060102", s)\<close> for eight bytes.\<close>

definition parse_date :: "string \<Rightarrow> (int \<times> nat \<times> int) option" where
  "parse_date s =
    (let y = int (parse_digits (take 4 s)); m = parse_digits (take 2 (drop 4 s)); d = int (parse_digits (drop 6 s))
     in if list_all is_digit s \<and> 1 \<le> m \<and> m \<le> 12 \<and> 1 \<le> d \<and> d \<le> month_lengths y ! (m - 1) then Some (y, m, d) else None)"

text \<open>\<open>now\<close> is the present in nanoseconds of Unix time.\<close>

definition validDate :: "int \<Rightarrow> string \<Rightarrow> bool" where
  "validDate now yyyymmdd \<longleftrightarrow> length yyyymmdd = 8 \<and>
     (case parse_date yyyymmdd of None \<Rightarrow> False
      | Some (y, m, d) \<Rightarrow> \<not> y < 1900 \<and> \<not> unix_day y m d * 86400 * 10 ^ 9 > now)"

section \<open>Identity card numbers\<close>

datatype cnid_error =
    Id_empty
  | Id_first_17
  | Id_birth
  | Id_last
  | Id_checksum
  | Id_15_char
  | Id_15_birth
  | Id_length

text \<open>\<open>strings.Map\<close> with a function that drops white space; the text is UTF-8.\<close>

function drop_spaces :: "string \<Rightarrow> string" where
  "drop_spaces s =
    (if match_any space_codes s = 0 then (case s of [] \<Rightarrow> [] | c # cs \<Rightarrow> c # drop_spaces cs)
     else drop_spaces (drop (match_any space_codes s) s))"
  by pat_completeness auto
termination
proof (relation "measure length")
  show "(drop (match_any space_codes s) s, s) \<in> measure length" if m: "match_any space_codes s \<noteq> 0" for s
    using m match_any_le [of space_codes s] by auto
qed auto

declare drop_spaces.simps [simp del]

definition weights :: "nat list" where
  "weights = [7, 9, 10, 5, 8, 4, 2, 1, 6, 3, 7, 9, 10, 5, 8, 4, 2]"

definition checkMap :: string where
  "checkMap = ''10X98765432''"

definition upper_char :: "char \<Rightarrow> char" where
  "upper_char c = (let n = (of_char c :: nat) in if 97 \<le> n \<and> n \<le> 122 then char_of (n - 32) else c)"

text \<open>The character that belongs to 17 digits.\<close>

definition check_char :: "string \<Rightarrow> char" where
  "check_char ds = checkMap ! (sum_list (map (\<lambda>i. char_digit (ds ! i) * weights ! i) [0..<17]) mod 11)"

definition NormalizeAndValidateCNID :: "int \<Rightarrow> string \<Rightarrow> cnid_error + string" where
  "NormalizeAndValidateCNID now s =
    (let trimmed = TrimSpace s; id = drop_spaces trimmed in
     if trimmed = [] then Inl Id_empty
     else if length id = 18 then
       if \<not> list_all is_digit (take 17 id) then Inl Id_first_17
       else if \<not> validDate now (take 8 (drop 6 id)) then Inl Id_birth
       else
         let last = id ! 17
         in if \<not> (is_digit last \<or> last = CHR ''X'' \<or> last = CHR ''x'') then Inl Id_last
            else if (if last = CHR ''x'' then CHR ''X'' else last) \<noteq> check_char id then Inl Id_checksum
            else Inr (map upper_char id)
     else if length id = 15 then
       if \<not> list_all is_digit id then Inl Id_15_char
       else
         let prefix6 = take 6 id; birth = ''19'' @ take 6 (drop 6 id); rest3 = drop 12 id;
             base17 = prefix6 @ birth @ rest3
         in if \<not> validDate now birth then Inl Id_15_birth
            else Inr (base17 @ [check_char base17])
     else Inl Id_length)"

section \<open>Generated accounts\<close>

datatype account_error = Account_length | Account_attempts | Account_check | Account_exhausted

definition charset :: string where
  "charset = ''abcdefghijklmnopqrstuvwxyz0123456789''"

text \<open>
  \<open>rnd n\<close> is the \<open>n\<close>th number of \<open>rand2\<close>, \<open>exists\<close> what the query says of an account: an error, or
  whether there is a row with it.
\<close>

definition random_account :: "(nat \<Rightarrow> nat) \<Rightarrow> nat \<Rightarrow> nat \<Rightarrow> string" where
  "random_account rnd len attempts = map (\<lambda>i. charset ! (rnd (attempts * len + i) mod length charset)) [0..<len]"

fun try_accounts :: "(string \<Rightarrow> bool option) \<Rightarrow> (nat \<Rightarrow> nat) \<Rightarrow> nat \<Rightarrow> nat \<Rightarrow> nat \<Rightarrow> account_error + string" where
  "try_accounts exists rnd len attempts 0 = Inl Account_exhausted"
| "try_accounts exists rnd len attempts (Suc k) =
    (let account = random_account rnd len attempts in
     case exists account of
       None \<Rightarrow> Inl Account_check
     | Some taken \<Rightarrow> if \<not> taken then Inr account else try_accounts exists rnd len (Suc attempts) k)"

definition GenerateUniqueAccount ::
    "(string \<Rightarrow> bool option) \<Rightarrow> (nat \<Rightarrow> nat) \<Rightarrow> int \<Rightarrow> int \<Rightarrow> account_error + string" where
  "GenerateUniqueAccount exists rnd len maxAttempts =
    (if len \<le> 0 then Inl Account_length
     else if maxAttempts \<le> 0 then Inl Account_attempts
     else try_accounts exists rnd (nat len) 0 (nat maxAttempts))"


section \<open>Normal form\<close>

lemma drop_spaces_graphic: "list_all is_graphic s \<Longrightarrow> drop_spaces s = s"
proof (induction s)
  case (Cons c s)
  then show ?case by (simp add: drop_spaces.simps [of "c # s"] match_any_graphic [OF space_codes_not_graphic])
next
  case Nil
  show ?case using match_any_le [of space_codes "[]"] by (subst drop_spaces.simps) simp
qed

text \<open>What a normalised number is.\<close>

definition normal_cnid :: "int \<Rightarrow> string \<Rightarrow> bool" where
  "normal_cnid now t \<longleftrightarrow> length t = 18 \<and> list_all is_digit (take 17 t) \<and> validDate now (take 8 (drop 6 t)) \<and>
     t ! 17 = check_char t"

lemma is_digit_graphic: "is_digit c \<Longrightarrow> is_graphic c"
  by (auto simp: is_digit_def is_graphic_def Let_def)

lemma check_char_cases: "check_char ds = CHR ''X'' \<or> is_digit (check_char ds)"
proof -
  have "list_all (\<lambda>k. checkMap ! k = CHR ''X'' \<or> is_digit (checkMap ! k)) [0..<11]" by code_simp
  then have "\<forall>k<11. checkMap ! k = CHR ''X'' \<or> is_digit (checkMap ! k)" by (auto simp: list_all_iff)
  moreover have "n mod 11 < 11" for n :: nat by simp
  ultimately show ?thesis unfolding check_char_def by blast
qed

lemma upper_char_fixed: "is_digit c \<or> c = CHR ''X'' \<Longrightarrow> upper_char c = c"
  by (auto simp: upper_char_def is_digit_def Let_def)

lemma take_17_last: "length t = 18 \<Longrightarrow> t = take 17 t @ [t ! 17]"
  using take_Suc_conv_app_nth [of 17 t] by simp

lemma normal_cnid_chars:
  assumes "normal_cnid now t" "c \<in> set t"
  shows "is_digit c \<or> c = CHR ''X''"
proof -
  have t: "t = take 17 t @ [t ! 17]" using assms(1) by (intro take_17_last) (simp add: normal_cnid_def)
  show ?thesis using assms(2) assms(1) check_char_cases [of t] unfolding normal_cnid_def
    by (subst (asm) t) (auto simp: list_all_iff)
qed

lemma normal_cnid_fixed:
  assumes "normal_cnid now t"
  shows "NormalizeAndValidateCNID now t = Inr t"
proof -
  have c: "is_digit c \<or> c = CHR ''X''" if "c \<in> set t" for c using normal_cnid_chars [OF assms that] .
  moreover have "is_graphic (CHR ''X'')" by (simp add: is_graphic_def)
  ultimately have "list_all is_graphic t" unfolding list_all_iff using is_digit_graphic by metis
  moreover have "map upper_char t = t" using c upper_char_fixed by (intro map_idI) blast
  moreover have "length t = 18" using assms by (simp add: normal_cnid_def)
  then have "t \<noteq> []" "t ! 17 \<in> set t" by (auto intro: nth_mem)
  moreover have "\<not> is_digit (CHR ''x'')" by (simp add: is_digit_def)
  ultimately show ?thesis using assms c [of "t ! 17"]
    by (auto simp: NormalizeAndValidateCNID_def normal_cnid_def Let_def TrimSpace_graphic drop_spaces_graphic)
qed

lemma check_char_cong: "take 17 a = take 17 b \<Longrightarrow> check_char a = check_char b"
proof -
  assume "take 17 a = take 17 b"
  then have "a ! i = b ! i" if "i < 17" for i using that by (metis nth_take)
  then have "map (\<lambda>i. char_digit (a ! i) * weights ! i) [0..<17] = map (\<lambda>i. char_digit (b ! i) * weights ! i) [0..<17]"
    by (intro map_cong) auto
  then show ?thesis unfolding check_char_def by (simp only:)
qed

lemma normalised_normal:
  assumes "NormalizeAndValidateCNID now s = Inr t"
  shows "normal_cnid now t"
proof -
  let ?id = "drop_spaces (TrimSpace s)"
  consider (long) "length ?id = 18" | (short) "length ?id = 15" "length ?id \<noteq> 18"
    using assms by (auto simp: NormalizeAndValidateCNID_def Let_def split: if_split_asm)
  then show ?thesis
  proof cases
    case long
    then have id: "list_all is_digit (take 17 ?id)" "validDate now (take 8 (drop 6 ?id))"
      and last: "(if ?id ! 17 = CHR ''x'' then CHR ''X'' else ?id ! 17) = check_char ?id"
      "is_digit (?id ! 17) \<or> ?id ! 17 = CHR ''X'' \<or> ?id ! 17 = CHR ''x''"
      and t: "t = map upper_char ?id"
      using assms by (auto simp: NormalizeAndValidateCNID_def Let_def split: if_split_asm)
    have same: "take 17 t = take 17 ?id"
      unfolding t take_map using id(1) upper_char_fixed by (intro map_idI) (auto simp: list_all_iff)
    have "take 8 (drop 6 t) = take 8 (drop 6 ?id)" using arg_cong [OF same, of "\<lambda>x. take 8 (drop 6 x)"] by (simp add: drop_take min_def)
    moreover have "t ! 17 = check_char ?id"
    proof -
      have "upper_char (CHR ''x'') = CHR ''X''" by code_simp
      then show ?thesis using last upper_char_fixed [of "?id ! 17"] long by (auto simp: t split: if_split_asm)
    qed
    ultimately show ?thesis using id same long check_char_cong [OF same] by (simp add: normal_cnid_def t)
  next
    case short
    let ?birth = "''19'' @ take 6 (drop 6 ?id)"
    let ?base = "take 6 ?id @ ?birth @ drop 12 ?id"
    have id: "list_all is_digit ?id" "validDate now ?birth" and t: "t = ?base @ [check_char ?base]"
      using assms short by (auto simp: NormalizeAndValidateCNID_def Let_def split: if_split_asm)
    have base: "length ?base = 17" "take 17 t = ?base" "t ! 17 = check_char ?base" using short by (simp_all add: t nth_append)
    have "is_digit (CHR ''1'')" "is_digit (CHR ''9'')" by (simp_all add: is_digit_def)
    then have "list_all is_digit ?base" using id(1) by (auto simp: list_all_iff dest!: in_set_takeD in_set_dropD)
    moreover have "take 8 (drop 6 t) = ?birth" using short by (simp add: t)
    moreover have "check_char t = check_char ?base" using base by (intro check_char_cong) simp
    ultimately show ?thesis using id(2) base short by (simp add: normal_cnid_def t)
  qed
qed

lemma validDate_mono: "validDate now d \<Longrightarrow> now \<le> now' \<Longrightarrow> validDate now' d"
  by (auto simp: validDate_def split: option.splits)

text \<open>
  (C22) A number that is accepted comes back in a normal form of 18 characters: 17 digits with a date of
  birth between 1900 and now, and the check character. The normal form is accepted, then and later,
  and comes back as it is.
\<close>

theorem cnid_normal_form:
  assumes "NormalizeAndValidateCNID now s = Inr t"
  shows "normal_cnid now t \<and> (\<forall>now'\<ge>now. NormalizeAndValidateCNID now' t = Inr t)"
  using normalised_normal [OF assms] validDate_mono
  by (auto intro!: normal_cnid_fixed simp: normal_cnid_def)


section \<open>Detected errors\<close>

definition check_value :: "char \<Rightarrow> int" where
  "check_value c = (if c = CHR ''X'' then 10 else int (char_digit c))"

definition position_weight :: "nat \<Rightarrow> int" where
  "position_weight i = int ((weights @ [1]) ! i)"

definition check_total :: "string \<Rightarrow> int" where
  "check_total t = (\<Sum>i<18. check_value (t ! i) * position_weight i)"

definition cnid_chars :: "char set" where
  "cnid_chars = set ''0123456789X''"

lemma digit_or_X_set: "is_digit c \<or> c = CHR ''X'' \<longleftrightarrow> c \<in> cnid_chars"
proof -
  have "list_all (\<lambda>n. char_of (n :: nat) \<in> cnid_chars) [48..<58]" by code_simp
  then have "\<forall>n\<in>{48..<58}. char_of (n :: nat) \<in> cnid_chars" by (simp only: list_all_iff set_upt)
  from bspec [OF this, of "of_char c"] have "c \<in> cnid_chars" if "48 \<le> (of_char c :: nat)" "(of_char c :: nat) \<le> 57"
    using that by simp
  then have "is_digit c \<Longrightarrow> c \<in> cnid_chars" by (simp add: is_digit_def Let_def)
  moreover have "list_all (\<lambda>c. is_digit c \<or> c = CHR ''X'') ''0123456789X''" by code_simp
  moreover have "CHR ''X'' \<in> cnid_chars" by (simp add: cnid_chars_def)
  ultimately show ?thesis unfolding list_all_iff cnid_chars_def by blast
qed

lemma check_value_range: "c \<in> cnid_chars \<Longrightarrow> 0 \<le> check_value c \<and> check_value c \<le> 10"
proof -
  have "list_all (\<lambda>c. 0 \<le> check_value c \<and> check_value c \<le> 10) ''0123456789X''" by code_simp
  then show "c \<in> cnid_chars \<Longrightarrow> 0 \<le> check_value c \<and> check_value c \<le> 10" unfolding list_all_iff cnid_chars_def by blast
qed

lemma check_value_inj: "a \<in> cnid_chars \<Longrightarrow> b \<in> cnid_chars \<Longrightarrow> check_value a = check_value b \<Longrightarrow> a = b"
proof -
  have "list_all (\<lambda>a. list_all (\<lambda>b. check_value a = check_value b \<longrightarrow> a = b) ''0123456789X'') ''0123456789X''" by code_simp
  then show "a \<in> cnid_chars \<Longrightarrow> b \<in> cnid_chars \<Longrightarrow> check_value a = check_value b \<Longrightarrow> a = b"
    unfolding list_all_iff cnid_chars_def by blast
qed

lemma checkMap_value: "(int n + check_value (checkMap ! (n mod 11))) mod 11 = 1"
proof -
  have "list_all (\<lambda>k. (int k + check_value (checkMap ! k)) mod 11 = 1) [0..<11]" by code_simp
  then have "(int (n mod 11) + check_value (checkMap ! (n mod 11))) mod 11 = 1" by (simp add: list_all_iff)
  then show ?thesis by (simp add: of_nat_mod mod_add_left_eq)
qed

lemma normal_cnid_total:
  assumes "normal_cnid now t"
  shows "check_total t mod 11 = 1"
proof -
  let ?n = "sum_list (map (\<lambda>i. char_digit (t ! i) * weights ! i) [0..<17])"
  have digit: "is_digit (t ! i)" if "i < 17" for i
  proof -
    have "take 17 t ! i \<in> set (take 17 t)" using that assms by (intro nth_mem) (simp add: normal_cnid_def)
    then show ?thesis using that assms by (simp add: normal_cnid_def list_all_iff)
  qed
  have "\<not> is_digit (CHR ''X'')" by (simp add: is_digit_def)
  then have term_i: "check_value (t ! i) * position_weight i = int (char_digit (t ! i) * weights ! i)" if "i < 17" for i
    using digit [OF that] that by (auto simp: check_value_def position_weight_def nth_append) (auto simp: weights_def)
  have "(\<Sum>i<17. check_value (t ! i) * position_weight i) = (\<Sum>i<17. int (char_digit (t ! i) * weights ! i))"
    using term_i by (intro sum.cong) auto
  also have "\<dots> = int ?n"
    by (simp add: interv_sum_list_conv_sum_set_nat atLeast0LessThan)
  finally have "check_total t = int ?n + check_value (t ! 17)"
    using sum.lessThan_Suc [of "\<lambda>i. check_value (t ! i) * position_weight i" 17]
    by (simp add: check_total_def position_weight_def weights_def)
  moreover have "t ! 17 = checkMap ! (?n mod 11)" using assms by (simp add: normal_cnid_def check_char_def)
  ultimately show ?thesis using checkMap_value [of ?n] by simp
qed

text \<open>Of a text of 18 such characters the number accepted is the text itself.\<close>

lemma accepted_total:
  assumes "NormalizeAndValidateCNID now t = Inr r" "length t = 18" "set t \<subseteq> cnid_chars"
  shows "check_total t mod 11 = 1"
proof -
  have c: "is_digit c \<or> c = CHR ''X''" if "c \<in> set t" for c using assms(3) that digit_or_X_set by blast
  moreover have "is_graphic (CHR ''X'')" by (simp add: is_graphic_def)
  ultimately have "list_all is_graphic t" unfolding list_all_iff using is_digit_graphic by metis
  moreover have "map upper_char t = t" using c upper_char_fixed by (intro map_idI) blast
  ultimately have "r = t" using assms(1,2)
    by (auto simp: NormalizeAndValidateCNID_def Let_def TrimSpace_graphic drop_spaces_graphic split: if_split_asm)
  then show ?thesis using normal_cnid_total normalised_normal [OF assms(1)] by blast
qed

lemma dvd_factor_11:
  assumes "1 \<le> v" "v \<le> (10::int)" "11 dvd v * d"
  shows "11 dvd d"
proof -
  have "list_all (\<lambda>v::int. list_ex (\<lambda>u. u * v mod 11 = 1) [1..10]) [1..10]" by code_simp
  then obtain u where u: "u * v mod 11 = 1" using assms(1,2) by (simp only: list_all_iff list_ex_iff set_upto) (meson atLeastAtMost_iff)
  have "u * v = 11 * (u * v div 11) + 1" using u by (metis mult_div_mod_eq)
  then have "u * (v * d) = 11 * (u * v div 11 * d) + d" by (metis distrib_right mult.assoc mult_1)
  moreover have "11 dvd u * (v * d)" using assms(3) by (rule dvd_mult)
  ultimately show ?thesis by (metis dvd_add_right_iff dvd_triv_left)
qed

lemma not_multiple_of_11:
  assumes "w \<in> {-10..10}" "w \<noteq> 0" "d \<in> {-10..10}" "(11::int) dvd w * d"
  shows "d = 0"
proof (rule ccontr)
  assume "d \<noteq> 0"
  have w: "11 dvd \<bar>w\<bar> * d" using assms(4) by (cases "0 \<le> w") simp_all
  have "1 \<le> \<bar>w\<bar>" "\<bar>w\<bar> \<le> 10" using assms(1,2) by auto
  then have "11 dvd d" using w by (rule dvd_factor_11)
  then have "\<bar>11\<bar> \<le> \<bar>d\<bar>" using \<open>d \<noteq> 0\<close> by (intro dvd_imp_le_int)
  then show False using assms(3) by auto
qed

lemma position_weights: "i < 18 \<Longrightarrow> 1 \<le> position_weight i \<and> position_weight i \<le> 10"
proof -
  have "list_all (\<lambda>i. 1 \<le> position_weight i \<and> position_weight i \<le> 10) [0..<18]" by code_simp
  then show "i < 18 \<Longrightarrow> 1 \<le> position_weight i \<and> position_weight i \<le> 10" by (simp add: list_all_iff)
qed

lemma position_weights_differ: "i < 17 \<Longrightarrow> position_weight i \<noteq> position_weight (Suc i)"
proof -
  have "list_all (\<lambda>i. position_weight i \<noteq> position_weight (Suc i)) [0..<17]" by code_simp
  then show "i < 17 \<Longrightarrow> position_weight i \<noteq> position_weight (Suc i)" by (simp add: list_all_iff)
qed

lemma check_total_diff:
  "check_total b - check_total a = (\<Sum>i<18. (check_value (b ! i) - check_value (a ! i)) * position_weight i)"
  by (simp add: check_total_def sum_subtractf left_diff_distrib)

lemma total_substitution:
  assumes "i < 18" "length t = 18"
  shows "check_total (t[i := c]) - check_total t = (check_value c - check_value (t ! i)) * position_weight i"
proof -
  have "(check_value (t[i := c] ! j) - check_value (t ! j)) * position_weight j =
      (if j = i then (check_value c - check_value (t ! i)) * position_weight i else 0)" for j
    using assms by (cases "j = i") auto
  then show ?thesis unfolding check_total_diff using assms(1) by simp
qed

lemma total_transposition:
  assumes "Suc i < 18" "length t = 18"
  shows "check_total (t[i := t ! Suc i, Suc i := t ! i]) - check_total t =
    (position_weight i - position_weight (Suc i)) * (check_value (t ! Suc i) - check_value (t ! i))"
proof -
  let ?d = "check_value (t ! Suc i) - check_value (t ! i)"
  have "(check_value (t[i := t ! Suc i, Suc i := t ! i] ! j) - check_value (t ! j)) * position_weight j =
      (if j = i then ?d * position_weight i else 0) + (if j = Suc i then - ?d * position_weight (Suc i) else 0)" for j
    using assms by (auto simp: nth_list_update algebra_simps)
  then have "check_total (t[i := t ! Suc i, Suc i := t ! i]) - check_total t = ?d * position_weight i + - ?d * position_weight (Suc i)"
    unfolding check_total_diff using assms(1) by (simp add: sum.distrib)
  then show ?thesis by (simp add: algebra_simps)
qed

lemma normal_cnid_set:
  assumes "normal_cnid now t"
  shows "length t = 18" "j < 18 \<Longrightarrow> t ! j \<in> cnid_chars" "set t \<subseteq> cnid_chars"
proof -
  show len: "length t = 18" using assms by (simp add: normal_cnid_def)
  show "set t \<subseteq> cnid_chars" using normal_cnid_chars [OF assms] digit_or_X_set by blast
  then show "j < 18 \<Longrightarrow> t ! j \<in> cnid_chars" using len by (metis nth_mem subsetD)
qed

lemma substitution_detected:
  assumes "normal_cnid now t" "i < 18" "c \<noteq> t ! i" "c \<in> cnid_chars"
  shows "\<not> 11 dvd check_total (t[i := c]) - check_total t" "set (t[i := c]) \<subseteq> cnid_chars"
proof -
  note t = normal_cnid_set [OF assms(1)]
  let ?w = "position_weight i" and ?d = "check_value c - check_value (t ! i)"
  have "check_value c \<noteq> check_value (t ! i)" using check_value_inj [OF assms(4) t(2) [OF assms(2)]] assms(3) by blast
  then have d: "?d \<in> {-10..10}" "?d \<noteq> 0" "?w \<in> {-10..10}" "?w \<noteq> 0"
    using position_weights [OF assms(2)] check_value_range [OF assms(4)] check_value_range [OF t(2) [OF assms(2)]] by auto
  have "check_total (t[i := c]) - check_total t = ?w * ?d"
    using total_substitution [OF assms(2) t(1)] by (simp add: mult.commute)
  then show "\<not> 11 dvd check_total (t[i := c]) - check_total t" using not_multiple_of_11 [OF d(3,4,1)] d(2) by metis
  show "set (t[i := c]) \<subseteq> cnid_chars" using set_update_subset_insert [of t i c] t(3) assms(4) by blast
qed

lemma transposition_detected:
  assumes "normal_cnid now t" "i < 17" "t ! i \<noteq> t ! Suc i"
  defines "t' \<equiv> t[i := t ! Suc i, Suc i := t ! i]"
  shows "\<not> 11 dvd check_total t' - check_total t" "set t' \<subseteq> cnid_chars"
proof -
  have i: "i < 18" "Suc i < 18" using assms(2) by simp_all
  note t = normal_cnid_set [OF assms(1)]
  note ti = t(2) [OF i(1)] t(2) [OF i(2)]
  let ?w = "position_weight i - position_weight (Suc i)" and ?d = "check_value (t ! Suc i) - check_value (t ! i)"
  have "check_value (t ! i) \<noteq> check_value (t ! Suc i)" using check_value_inj [OF ti] assms(3) by blast
  then have d: "?d \<in> {-10..10}" "?d \<noteq> 0" "?w \<in> {-10..10}" "?w \<noteq> 0"
    using position_weights [OF i(1)] position_weights [OF i(2)] position_weights_differ [OF assms(2)]
      check_value_range [OF ti(1)] check_value_range [OF ti(2)] by auto
  have "check_total t' - check_total t = ?w * ?d" unfolding t'_def by (rule total_transposition [OF i(2) t(1)])
  then show "\<not> 11 dvd check_total t' - check_total t" using not_multiple_of_11 [OF d(3,4,1)] d(2) by metis
  show "set t' \<subseteq> cnid_chars"
    unfolding t'_def using set_update_subset_insert [of "t[i := t ! Suc i]" "Suc i" "t ! i"]
      set_update_subset_insert [of t i "t ! Suc i"] t(3) ti by blast
qed

text \<open>
  (C23) A mistyped number is not accepted: neither with one character of the normal form replaced by
  another digit or \<open>X\<close>, nor with two neighbours that differ exchanged.
\<close>

theorem mistyped_cnid_refused:
  assumes "normal_cnid now t"
    and "i < 18 \<and> c \<noteq> t ! i \<and> (is_digit c \<or> c = CHR ''X'') \<and> t' = t[i := c] \<or>
      i < 17 \<and> t ! i \<noteq> t ! Suc i \<and> t' = t[i := t ! Suc i, Suc i := t ! i]"
  shows "\<exists>e. NormalizeAndValidateCNID later t' = Inl e"
proof (rule ccontr)
  assume "\<nexists>e. NormalizeAndValidateCNID later t' = Inl e"
  then obtain r where r: "NormalizeAndValidateCNID later t' = Inr r" by (cases "NormalizeAndValidateCNID later t'") auto
  have "\<not> 11 dvd check_total t' - check_total t" "set t' \<subseteq> cnid_chars"
    using assms(2) substitution_detected [OF assms(1), of i c] transposition_detected [OF assms(1), of i] digit_or_X_set [of c] by blast+
  moreover have "length t' = 18" using assms(2) normal_cnid_set(1) [OF assms(1)] by auto
  ultimately show False
    using accepted_total [OF r] normal_cnid_total [OF assms(1)] by (simp add: mod_eq_dvd_iff [symmetric])
qed


section \<open>The search for an account\<close>

lemma try_accounts_find:
  "try_accounts exists rnd len a k =
    (case List.find (\<lambda>a. exists (random_account rnd len a) \<noteq> Some True) [a..<a + k] of
       None \<Rightarrow> Inl Account_exhausted
     | Some a \<Rightarrow> if exists (random_account rnd len a) = None then Inl Account_check else Inr (random_account rnd len a))"
proof (induction k arbitrary: a)
  case (Suc k)
  have "[a..<a + Suc k] = a # [Suc a..<Suc a + k]" by (simp add: upt_rec)
  then show ?case using Suc [of "Suc a"] by (cases "exists (random_account rnd len a)") (auto simp: Let_def simp del: upt_Suc)
qed simp

text \<open>
  (C24) The search for an account ends after at most \<open>maxAttempts\<close> candidates: with the first of them that
  nobody has, or the error of the first question the database does not answer, whichever is first,
  and with an error of its own when all are taken.
\<close>

theorem account_search:
  "GenerateUniqueAccount exists rnd len maxAttempts =
    (if len \<le> 0 then Inl Account_length
     else if maxAttempts \<le> 0 then Inl Account_attempts
     else let candidate = random_account rnd (nat len)
       in case List.find (\<lambda>a. exists (candidate a) \<noteq> Some True) [0..<nat maxAttempts] of
            None \<Rightarrow> Inl Account_exhausted
          | Some a \<Rightarrow> if exists (candidate a) = None then Inl Account_check else Inr (candidate a))"
  by (simp add: GenerateUniqueAccount_def try_accounts_find Let_def)

lemma charset_plain: "list_all (\<lambda>c. is_digit c \<or> 97 \<le> (of_char c :: nat) \<and> (of_char c :: nat) \<le> 122) charset" "length charset = 36"
  by code_simp+

lemma random_account_shape:
  "length (random_account rnd len a) = len \<and> set (random_account rnd len a) \<subseteq> set charset"
proof -
  have "rnd n mod length charset < length charset" for n by (rule mod_less_divisor) (simp add: charset_plain)
  then show ?thesis by (auto simp: random_account_def intro: nth_mem)
qed

section \<open>Examples\<close>

definition demo_now :: int where "demo_now = 1700000000000000000"

lemma demo_digits: "list_all is_digit ''110105491231002''" "list_all is_digit ''11010519491231002''"
  by code_simp+

lemma demo_graphic: "list_all is_graphic ''110105491231002''"
  by code_simp

lemma demo_birth: "validDate demo_now ''19491231''"
  by (simp add: validDate_def parse_date_def parse_digits_def char_digit_def is_digit_def month_lengths_def leap_year_def
    unix_day_def demo_now_def Let_def)

lemma demo_check: "check_char ''11010519491231002'' = CHR ''X''" "check_char ''11010519491231002X'' = CHR ''X''"
  by code_simp+

lemma demo_cnid: "NormalizeAndValidateCNID demo_now ''110105491231002'' = Inr ''11010519491231002X''"
  using demo_digits(1) by (simp add: NormalizeAndValidateCNID_def TrimSpace_graphic [OF demo_graphic] drop_spaces_graphic [OF demo_graphic] demo_birth demo_check Let_def)

theorem cnid_normal_form_witness:
  "NormalizeAndValidateCNID (demo_now + 5) ''11010519491231002X'' = Inr ''11010519491231002X''"
  using cnid_normal_form [OF demo_cnid] by simp

theorem mistyped_cnid_refused_witness:
  "\<exists>e. NormalizeAndValidateCNID demo_now ''11010519491231020X'' = Inl e"
proof -
  have "normal_cnid demo_now ''11010519491231002X''" using demo_digits(2) by (simp add: normal_cnid_def demo_birth demo_check)
  then show ?thesis
    using mistyped_cnid_refused [of demo_now "''11010519491231002X''" 15 "CHR ''0''" "''11010519491231020X''" demo_now] by simp
qed

end
