(* ===== verification/User_Accounts.thy ===== *)
theory User_Accounts
  imports Domain_Admin User_Identity
begin

text \<open>
  Users and their roles, \<open>serve/user_mgt/service.go\<close>, \<open>handler.go\<close> and \<open>utils.go\<close>: what is checked before
  a user is inserted or changed, what is stored, registration by email and the choice of the role to
  work with. The library for telephone numbers and the hash of passwords are parameters.
\<close>

section \<open>Users\<close>

record t_user =
  us_id :: null_int
  us_category :: string
  us_type :: null_string
  us_official_name :: null_string
  us_id_card_type :: null_string
  us_id_card_no :: null_string
  us_id_card_file :: raw_json
  us_country :: null_string
  us_province :: null_string
  us_city :: null_string
  us_district :: null_string
  us_addr :: null_string
  us_account :: string
  us_mobile_phone :: null_string
  us_email :: null_string
  us_gender :: null_string
  us_birthday :: null_int
  us_creator :: null_int
  us_status :: null_string
  us_remark :: null_string
  us_user_token :: null_string
  us_role :: null_int
  us_create_time :: null_int
  us_update_time :: null_int

record user = t_user +
  us_domains :: "null_string list"

text \<open>\<open>ud_roles\<close> is \<open>t_user_domain\<close>, \<open>ud_codes\<close> the codes in Redis with the time they expire.\<close>

record user_db =
  ud_auth :: auth_db
  ud_users :: "t_user list"
  ud_roles :: "(int \<times> null_int) list"
  ud_next :: int
  ud_codes :: "string \<Rightarrow> (string \<times> int) option"

text \<open>The keys of \<open>errorMessages\<close>.\<close>

datatype user_fault =
    Account_exists
  | Mobile_phone_exists
  | Email_exists
  | Id_card_no_exists
  | Invalid_email
  | Invalid_domain string
  | Empty_domain
  | Can_not_be_superAdmin
  | Empty_mobile_phone
  | Mobile_not_e164
  | Mobile_invalid
  | Id_card_type_invalid
  | Empty_id_card_type
  | Not_valid_id_card_no
  | Id_card_file_invalid
  | Invalid_status
  | Miss_user_id

datatype user_error =
    No_users
  | User_sql string
  | User_auth domain_error
  | No_permission
  | Account_required
  | Category_required
  | Phone_empty
  | Phone_parse
  | Phone_invalid
  | Card_type_required
  | Card_invalid cnid_error
  | Card_file_invalid
  | User_taken
  | User_role_taken
  | User_id_required
  | User_absent
  | Generated account_error
  | Email_missing
  | Password_missing
  | Code_absent
  | Code_expired
  | Code_wrong
  | Recipient_missing
  | Email_failed
  | Role_absent
  | Role_not_held

section \<open>Constants\<close>

definition AccountLength :: int where "AccountLength = 12"
definition InitialPwd :: string where "InitialPwd = ''abc123456''"
definition DefaultRegion :: string where "DefaultRegion = ''CN''"
definition CUserStatusValid :: string where "CUserStatusValid = ''00''"
definition CUserStatusProhibitLogin :: string where "CUserStatusProhibitLogin = ''02''"
definition CUserStatusBlock :: string where "CUserStatusBlock = ''04''"

text \<open>The kinds of card, in UTF-8.\<close>

definition CIDCardTypeResidentIdentityCard :: string where
  "CIDCardTypeResidentIdentityCard = bytes [229, 177, 133, 230, 176, 145, 232, 186, 171, 228, 187, 189, 232, 175, 129]"

definition id_card_types :: "string list" where
  "id_card_types = CIDCardTypeResidentIdentityCard # map bytes
    [[230, 138, 164, 231, 133, 167],
     [230, 184, 175, 230, 190, 179, 233, 128, 154, 232, 161, 140, 232, 175, 129],
     [230, 184, 175, 230, 190, 179, 229, 155, 158, 228, 185, 161, 232, 175, 129],
     [229, 143, 176, 232, 131, 158, 232, 175, 129],
     [229, 135, 134, 232, 128, 131, 232, 175, 129]]"

definition CheckIDCardTypeValid :: "string \<Rightarrow> bool" where
  "CheckIDCardTypeValid idCardType \<longleftrightarrow> idCardType \<in> set id_card_types"

definition student_role :: string where
  "student_role = ''assess^student''"

section \<open>Single fields\<close>

text \<open>\<open>^[a-zA-Z0-9._%+\-]+@[a-zA-Z0-9.\-]+\.[a-zA-Z]{2,}$\<close>\<close>

definition IsValidEmail :: "string \<Rightarrow> bool" where
  "IsValidEmail email =
    (case Split (CHR ''@'') email of
       [name, host] \<Rightarrow>
         name \<noteq> [] \<and> list_all (\<lambda>c. is_alnum c \<or> c \<in> set ''._%+-'') name \<and>
         (let labels = Split (CHR ''.'') host; tld = last labels; front = Join ''.'' (butlast labels)
          in length labels \<ge> 2 \<and> front \<noteq> [] \<and> list_all (\<lambda>c. is_alnum c \<or> c \<in> set ''.-'') front \<and>
             length tld \<ge> 2 \<and> list_all is_letter tld)
     | _ \<Rightarrow> False)"

record id_card_file =
  frontImgID :: string
  backImgID :: string

text \<open>The decoder refuses fields it does not know.\<close>

definition set_id_card_file :: "string \<Rightarrow> json \<Rightarrow> id_card_file \<Rightarrow> id_card_file option" where
  "set_id_card_file k j v =
    (if fold_key k = ''frontimgid'' then map_option (\<lambda>s. v\<lparr>frontImgID := s\<rparr>) (dec_string (frontImgID v) j)
     else if fold_key k = ''backimgid'' then map_option (\<lambda>s. v\<lparr>backImgID := s\<rparr>) (dec_string (backImgID v) j)
     else None)"

definition ParseAndValidateIDCardFile :: "raw_json \<Rightarrow> id_card_file option" where
  "ParseAndValidateIDCardFile raw =
    (case unmarshal (dec_struct set_id_card_file \<lparr>frontImgID = [], backImgID = []\<rparr>) raw of
       None \<Rightarrow> None
     | Some v \<Rightarrow> if frontImgID v = [] \<or> backImgID v = [] then None else Some v)"

text \<open>The library for telephone numbers; \<open>Parse\<close> gives a number with its error, if any.\<close>

record 'n phone_lib =
  ph_parse :: "string \<Rightarrow> string \<Rightarrow> bool \<times> 'n"
  ph_possible :: "'n \<Rightarrow> bool"
  ph_valid :: "'n \<Rightarrow> bool"
  ph_format :: "'n \<Rightarrow> string"

definition parse_phone :: "'n phone_lib \<Rightarrow> string \<Rightarrow> bool \<times> 'n" where
  "parse_phone lib number = ph_parse lib number (if HasPrefix number ''+'' then [] else DefaultRegion)"

definition orDefault :: "null_string \<Rightarrow> string \<Rightarrow> string" where
  "orDefault s d = (case s of Some x \<Rightarrow> x | None \<Rightarrow> d)"

section \<open>Questions to the table\<close>

definition CheckTUserRowExists :: "(string \<Rightarrow> bool) \<Rightarrow> string \<Rightarrow> (t_user \<Rightarrow> bool) \<Rightarrow> user_db \<Rightarrow> user_error + bool" where
  "CheckTUserRowExists fault what p db =
    (if fault what then Inl (User_sql what) else Inr (sql_first p (ud_users db) \<noteq> None))"

text \<open>All four fields must agree, and \<open>NULL\<close> agrees with \<open>NULL\<close>; with none given no user is looked for.\<close>

definition CheckUserAlreadyExists :: "(string \<Rightarrow> bool) \<Rightarrow> user \<Rightarrow> user_db \<Rightarrow> user_error + t_user option" where
  "CheckUserAlreadyExists fault u db =
    (if us_official_name u = None \<and> us_mobile_phone u = None \<and> us_email u = None \<and> us_id_card_no u = None then Inr None
     else if fault ''CheckUserAlreadyExists'' then Inl (User_sql ''CheckUserAlreadyExists'')
     else Inr (sql_first (\<lambda>r. us_official_name r = us_official_name u \<and> us_mobile_phone r = us_mobile_phone u \<and>
       us_email r = us_email u \<and> us_id_card_no r = us_id_card_no u) (ud_users db)))"

definition IsDomainExist :: "(string \<Rightarrow> bool) \<Rightarrow> string \<Rightarrow> auth_db \<Rightarrow> user_error + domain_row option" where
  "IsDomainExist fault domain db =
    (if fault ''IsDomainExist'' then Inl (User_sql ''IsDomainExist'')
     else Inr (sql_first (\<lambda>d. dm_domain d = domain) (au_domains db)))"


section \<open>Checks before a user is stored\<close>

text \<open>The number is replaced by what the library prints, even after an error.\<close>

definition check_phone :: "'n phone_lib \<Rightarrow> user \<Rightarrow> user \<times> user_fault list" where
  "check_phone lib u =
    (case us_mobile_phone u of
       None \<Rightarrow> (u, [])
     | Some p \<Rightarrow>
         let number = TrimSpace p; (failed, num) = parse_phone lib number
         in (u\<lparr>us_mobile_phone := Some (ph_format lib num)\<rparr>,
             (if number = [] then [Empty_mobile_phone] else []) @ (if failed then [Mobile_not_e164] else []) @
             (if \<not> ph_valid lib num then [Mobile_invalid] else [])))"

text \<open>
  \<open>other r\<close> tells that \<open>r\<close> counts: any row for a new user, another user's for a change. The checks of a
  list are made in order and their faults appended.
\<close>

definition when_found :: "(string \<Rightarrow> bool) \<Rightarrow> string \<Rightarrow> (t_user \<Rightarrow> bool) \<Rightarrow> user_fault \<Rightarrow> user_db \<Rightarrow> user_error + user_fault list" where
  "when_found fault what p f db =
    and_then (CheckTUserRowExists fault what p db) (\<lambda>found. Inr (if found then [f] else []))"

definition check_keys :: "(string \<Rightarrow> bool) \<Rightarrow> int \<Rightarrow> (t_user \<Rightarrow> bool) \<Rightarrow> user \<Rightarrow> user_db \<Rightarrow> user_error + user_fault list" where
  "check_keys fault now other u db =
    and_then (case us_mobile_phone u of
        None \<Rightarrow> Inr []
      | Some p \<Rightarrow> when_found fault ''mobile_phone'' (\<lambda>r. us_mobile_phone r = Some p \<and> other r) Mobile_phone_exists db) (\<lambda>f1.
    and_then (case us_email u of
        None \<Rightarrow> Inr []
      | Some e \<Rightarrow> and_then (when_found fault ''email'' (\<lambda>r. us_email r = Some e \<and> other r) Email_exists db) (\<lambda>f.
          Inr ((if \<not> IsValidEmail e then [Invalid_email] else []) @ f))) (\<lambda>f2.
    and_then (case us_id_card_no u of
        None \<Rightarrow> Inr []
      | Some no \<Rightarrow> and_then (when_found fault ''id_card_no'' (\<lambda>r. us_id_card_no r = Some no \<and> other r) Id_card_no_exists db) (\<lambda>f.
          Inr ((case us_id_card_type u of
                  None \<Rightarrow> [Empty_id_card_type]
                | Some t \<Rightarrow> if \<not> CheckIDCardTypeValid t then [Id_card_type_invalid] else []) @
               (if String (us_id_card_type u) = CIDCardTypeResidentIdentityCard \<and> \<not> is_ok (NormalizeAndValidateCNID now no)
                then [Not_valid_id_card_no] else []) @ f))) (\<lambda>f3.
    Inr (f1 @ f2 @ f3 @
      (if us_id_card_file u \<noteq> No_bytes \<and> ParseAndValidateIDCardFile (us_id_card_file u) = None then [Id_card_file_invalid] else [])))))"

text \<open>The first role that is not there or is that of a super administrator ends the loop.\<close>

fun check_roles :: "(string \<Rightarrow> bool) \<Rightarrow> null_string list \<Rightarrow> user_db \<Rightarrow> user_error + user_fault list" where
  "check_roles fault [] db = Inr []"
| "check_roles fault (d # ds) db =
    and_then (IsDomainExist fault (String d) (ud_auth db)) (\<lambda>found.
      case found of
        None \<Rightarrow> Inr [Invalid_domain (String d)]
      | Some r \<Rightarrow> if Int64 (dm_priority r) = CDomainPrioritySuperAdmin then Inr [Can_not_be_superAdmin]
                  else check_roles fault ds db)"

definition check_rest :: "(string \<Rightarrow> bool) \<Rightarrow> user \<Rightarrow> user_db \<Rightarrow> user_error + user_fault list" where
  "check_rest fault u db =
    and_then (if us_domains u = [] then Inr [Empty_domain] else check_roles fault (us_domains u) db) (\<lambda>f.
      Inr (f @ (case us_status u of
        None \<Rightarrow> []
      | Some s \<Rightarrow> if s \<notin> {CUserStatusValid, CUserStatusProhibitLogin, CUserStatusBlock} then [Invalid_status] else [])))"

text \<open>What becomes of one user of a request: there already, refused with faults, or fit.\<close>

datatype verdict = Existing t_user | Refused user "user_fault list" | Fit user

definition judge :: "user \<Rightarrow> user_fault list \<Rightarrow> verdict" where
  "judge u fs = (if fs \<noteq> [] then Refused u fs else Fit u)"

definition check_new_user :: "(string \<Rightarrow> bool) \<Rightarrow> int \<Rightarrow> 'n phone_lib \<Rightarrow> user_db \<Rightarrow> user \<Rightarrow> user_error + verdict" where
  "check_new_user fault now lib db u0 =
    (case check_phone lib u0 of (u, f1) \<Rightarrow>
     and_then (CheckUserAlreadyExists fault u db) (\<lambda>found.
       case found of
         Some r \<Rightarrow> Inr (Existing r)
       | None \<Rightarrow>
           and_then (if us_account u \<noteq> [] then when_found fault ''account'' (\<lambda>r. us_account r = us_account u) Account_exists db
                     else Inr []) (\<lambda>f2.
           and_then (check_keys fault now (\<lambda>_. True) u db) (\<lambda>f3.
           and_then (check_rest fault u db) (\<lambda>f4. Inr (judge u (f1 @ f2 @ f3 @ f4)))))))"

definition check_changed_user :: "(string \<Rightarrow> bool) \<Rightarrow> int \<Rightarrow> 'n phone_lib \<Rightarrow> user_db \<Rightarrow> user \<Rightarrow> user_error + verdict" where
  "check_changed_user fault now lib db u0 =
    (if us_id u0 = None then Inr (Refused u0 [Miss_user_id])
     else case check_phone lib u0 of (u, f1) \<Rightarrow>
       and_then (check_keys fault now (\<lambda>r. us_id r \<noteq> us_id u) u db) (\<lambda>f2.
       and_then (check_rest fault u db) (\<lambda>f3. Inr (judge u (f1 @ f2 @ f3)))))"

fun judge_all :: "(user \<Rightarrow> user_error + verdict) \<Rightarrow> user list \<Rightarrow> user_error + verdict list" where
  "judge_all check [] = Inr []"
| "judge_all check (u # us) = and_then (check u) (\<lambda>v. and_then (judge_all check us) (\<lambda>vs. Inr (v # vs)))"

definition fit_users :: "verdict list \<Rightarrow> user list" where
  "fit_users = List.map_filter (\<lambda>v. case v of Fit u \<Rightarrow> Some u | _ \<Rightarrow> None)"

text \<open>Of a refused user only five fields are returned.\<close>

definition refused_users :: "verdict list \<Rightarrow> ((string \<times> null_string \<times> null_string \<times> null_string \<times> null_string) \<times> user_fault list) list" where
  "refused_users = List.map_filter (\<lambda>v. case v of
     Refused u fs \<Rightarrow> Some ((us_account u, us_official_name u, us_mobile_phone u, us_email u, us_id_card_no u), fs) | _ \<Rightarrow> None)"

definition existing_users :: "verdict list \<Rightarrow> t_user list" where
  "existing_users = List.map_filter (\<lambda>v. case v of Existing r \<Rightarrow> Some r | _ \<Rightarrow> None)"

definition ValidateUserToBeInsert :: "(string \<Rightarrow> bool) \<Rightarrow> int \<Rightarrow> 'n phone_lib \<Rightarrow> user_db \<Rightarrow> user list \<Rightarrow> user_error + verdict list" where
  "ValidateUserToBeInsert fault now lib db users =
    (if users = [] then Inl No_users else judge_all (check_new_user fault now lib db) users)"

definition ValidateUserToBeUpdate :: "(string \<Rightarrow> bool) \<Rightarrow> int \<Rightarrow> 'n phone_lib \<Rightarrow> user_db \<Rightarrow> user list \<Rightarrow> user_error + verdict list" where
  "ValidateUserToBeUpdate fault now lib db users =
    (if users = [] then Inl No_users else judge_all (check_changed_user fault now lib db) users)"

section \<open>Storing\<close>

text \<open>What both ways of storing do with the fields first: the number and the card in their normal form.\<close>

definition normal_phone :: "'n phone_lib \<Rightarrow> user \<Rightarrow> user_error + user" where
  "normal_phone lib u =
    (case us_mobile_phone u of
       None \<Rightarrow> Inr u
     | Some p \<Rightarrow>
         let number = TrimSpace p in
         if number = [] then Inl Phone_empty
         else case parse_phone lib number of (failed, num) \<Rightarrow>
           if failed then Inl Phone_parse
           else if \<not> ph_possible lib num \<or> \<not> ph_valid lib num then Inl Phone_invalid
           else Inr (u\<lparr>us_mobile_phone := Some (ph_format lib num)\<rparr>))"

definition normal_card :: "int \<Rightarrow> user \<Rightarrow> user_error + user" where
  "normal_card now u =
    (case us_id_card_no u of
       None \<Rightarrow> Inr u
     | Some no \<Rightarrow>
         if us_id_card_type u = None then Inl Card_type_required
         else if String (us_id_card_type u) = CIDCardTypeResidentIdentityCard then
           (case NormalizeAndValidateCNID now no of
              Inl e \<Rightarrow> Inl (Card_invalid e)
            | Inr formatted \<Rightarrow> Inr (u\<lparr>us_id_card_no := Some formatted\<rparr>))
         else Inr u)"

definition normal_fields :: "int \<Rightarrow> 'n phone_lib \<Rightarrow> user \<Rightarrow> user_error + user" where
  "normal_fields now lib u =
    and_then (normal_phone lib u) (\<lambda>u. and_then (normal_card now u) (\<lambda>u.
    if us_id_card_file u \<noteq> No_bytes \<and> ParseAndValidateIDCardFile (us_id_card_file u) = None then Inl Card_file_invalid
    else Inr (u\<lparr>us_type := Some (if us_id_card_no u = None \<and> us_mobile_phone u = None \<and> us_email u = None then ''00'' else ''02'')\<rparr>)))"

text \<open>The unique indices of \<open>t_user\<close>: account, telephone, email, and kind and number of the card.\<close>

definition clashing :: "t_user \<Rightarrow> t_user \<Rightarrow> bool" where
  "clashing r s \<longleftrightarrow> us_account r = us_account s \<or> us_mobile_phone r \<noteq> None \<and> us_mobile_phone r = us_mobile_phone s \<or>
     us_email r \<noteq> None \<and> us_email r = us_email s \<or>
     us_id_card_type r \<noteq> None \<and> us_id_card_no r \<noteq> None \<and> us_id_card_type r = us_id_card_type s \<and> us_id_card_no r = us_id_card_no s"

text \<open>A role is looked up by its name; one that is not there gives \<open>NULL\<close>, which is never a duplicate.\<close>

definition insert_role :: "(string \<Rightarrow> bool) \<Rightarrow> int \<Rightarrow> null_string \<Rightarrow> user_db \<Rightarrow> user_error + user_db" where
  "insert_role fault userID domain db =
    (let i = map_option dm_id (sql_first (\<lambda>d. dm_domain d = String domain) (au_domains (ud_auth db))) in
     if fault ''InsertUserDomain'' \<or> Some userID \<notin> us_id ` set (ud_users db) then Inl (User_sql ''InsertUserDomain'')
     else if i \<noteq> None \<and> (userID, i) \<in> set (ud_roles db) then Inl User_role_taken
     else Inr (db\<lparr>ud_roles := ud_roles db @ [(userID, i)]\<rparr>))"

text \<open>The row of a new user; of an absent file the driver stores nothing here.\<close>

definition new_row :: "int \<Rightarrow> (string \<Rightarrow> string) \<Rightarrow> int \<Rightarrow> user \<Rightarrow> t_user" where
  "new_row now crypt i u = \<lparr>us_id = Some i, us_category = us_category u, us_type = us_type u, us_official_name = us_official_name u,
     us_id_card_type = us_id_card_type u, us_id_card_no = us_id_card_no u, us_id_card_file = us_id_card_file u,
     us_country = us_country u, us_province = us_province u, us_city = us_city u, us_district = us_district u,
     us_addr = us_addr u, us_account = us_account u, us_mobile_phone = us_mobile_phone u, us_email = us_email u,
     us_gender = us_gender u, us_birthday = us_birthday u, us_creator = Some (Int64 (us_creator u)),
     us_status = Some (orDefault (us_status u) ''00''), us_remark = us_remark u,
     us_user_token = Some (crypt (orDefault (us_user_token u) InitialPwd)), us_role = None,
     us_create_time = Some (now div 10 ^ 6), us_update_time = Some (now div 10 ^ 6)\<rparr>"

definition insert_user ::
    "(string \<Rightarrow> bool) \<Rightarrow> int \<Rightarrow> 'n phone_lib \<Rightarrow> (string \<Rightarrow> string) \<Rightarrow> user \<Rightarrow> user_db \<times> int list \<Rightarrow> user_error + user_db \<times> int list" where
  "insert_user fault now lib crypt u0 = (\<lambda>(db, done).
    if us_account u0 = [] then Inl Account_required
    else if us_category u0 = [] then Inl Category_required
    else and_then (normal_fields now lib u0) (\<lambda>u.
      let i = ud_next db; row = new_row now crypt i u
      in if fault ''InsertUser'' then Inl (User_sql ''InsertUser'')
         else if list_ex (clashing row) (ud_users db) then Inl User_taken
         else if fault ''QueryUserID'' then Inl (User_sql ''QueryUserID'')
         else and_then (for_each (insert_role fault i) (us_domains u) (db\<lparr>ud_users := ud_users db @ [row], ud_next := i + 1\<rparr>)) (\<lambda>db.
           if fault ''QueryUsers'' then Inl (User_sql ''QueryUsers'') else Inr (db, done @ [i]))))"

definition InsertUsers ::
    "(string \<Rightarrow> bool) \<Rightarrow> int \<Rightarrow> 'n phone_lib \<Rightarrow> (string \<Rightarrow> string) \<Rightarrow> user list \<Rightarrow> user_db \<Rightarrow> user_error + user_db \<times> int list" where
  "InsertUsers fault now lib crypt users db =
    (if users = [] then Inl No_users else for_each (insert_user fault now lib crypt) users (db, []))"


text \<open>
  A change overwrites the columns it names; \<open>type\<close>, worked out as for a new user, and the present role
  are not among them.
\<close>

definition changed_row :: "int \<Rightarrow> user \<Rightarrow> t_user \<Rightarrow> t_user" where
  "changed_row now u r = r\<lparr>us_category := us_category u, us_official_name := us_official_name u, us_id_card_type := us_id_card_type u,
     us_id_card_no := us_id_card_no u, us_id_card_file := us_id_card_file u, us_mobile_phone := us_mobile_phone u,
     us_email := us_email u, us_gender := us_gender u, us_birthday := us_birthday u,
     us_status := Some (orDefault (us_status u) ''00''), us_remark := us_remark u,
     us_update_time := Some (now div 10 ^ 6), us_country := us_country u, us_province := us_province u,
     us_city := us_city u, us_district := us_district u, us_addr := us_addr u\<rparr>"

definition change_user ::
    "(string \<Rightarrow> bool) \<Rightarrow> int \<Rightarrow> 'n phone_lib \<Rightarrow> user \<Rightarrow> user_db \<times> int list \<Rightarrow> user_error + user_db \<times> int list" where
  "change_user fault now lib u0 = (\<lambda>(db, done).
    case us_id u0 of
      None \<Rightarrow> Inl User_id_required
    | Some i \<Rightarrow> and_then (normal_fields now lib u0) (\<lambda>u.
        if fault ''UpdateUser'' then Inl (User_sql ''UpdateUser'')
        else if list_ex (\<lambda>r. us_id r = Some i \<and> list_ex (\<lambda>s. us_id s \<noteq> Some i \<and> clashing (changed_row now u r) s) (ud_users db)) (ud_users db)
        then Inl User_taken
        else if us_domains u \<noteq> [] \<and> fault ''DeleteUserDomain'' then Inl (User_sql ''DeleteUserDomain'')
        else and_then (for_each (insert_role fault i) (us_domains u)
               (db\<lparr>ud_users := sql_update (\<lambda>r. us_id r = Some i) (changed_row now u) (ud_users db),
                   ud_roles := (if us_domains u \<noteq> [] then sql_delete (\<lambda>(sys_user, _). sys_user = i) (ud_roles db) else ud_roles db)\<rparr>)) (\<lambda>db.
          if fault ''QueryUsers'' then Inl (User_sql ''QueryUsers'')
          else if Some i \<notin> us_id ` set (ud_users db) then Inl User_absent
          else Inr (db, done @ [i]))))"

definition OverwriteUpdateUsers ::
    "(string \<Rightarrow> bool) \<Rightarrow> int \<Rightarrow> 'n phone_lib \<Rightarrow> user list \<Rightarrow> user_db \<Rightarrow> user_error + user_db \<times> int list" where
  "OverwriteUpdateUsers fault now lib users db =
    (if users = [] then Inl No_users else for_each (change_user fault now lib) users (db, []))"

text \<open>All accounts are made before the first user is stored.\<close>

fun give_accounts ::
    "(string \<Rightarrow> bool option) \<Rightarrow> (nat \<Rightarrow> nat \<Rightarrow> nat) \<Rightarrow> nat \<Rightarrow> user list \<Rightarrow> user_error + user list" where
  "give_accounts exists rnd k [] = Inr []"
| "give_accounts exists rnd k (u # us) =
    (case GenerateUniqueAccount exists (rnd k) AccountLength 20 of
       Inl e \<Rightarrow> Inl (Generated e)
     | Inr account \<Rightarrow> and_then (give_accounts exists rnd (Suc k) us) (\<lambda>us. Inr (u\<lparr>us_account := account\<rparr> # us)))"

definition account_row :: "(string \<Rightarrow> bool) \<Rightarrow> user_db \<Rightarrow> string \<Rightarrow> bool option" where
  "account_row fault db account =
    (if fault ''account'' then None else Some (sql_first (\<lambda>r. us_account r = account) (ud_users db) \<noteq> None))"

definition InsertUsersWithAccount ::
    "(string \<Rightarrow> bool) \<Rightarrow> int \<Rightarrow> 'n phone_lib \<Rightarrow> (string \<Rightarrow> string) \<Rightarrow> (nat \<Rightarrow> nat \<Rightarrow> nat) \<Rightarrow> user list \<Rightarrow> user_db \<Rightarrow>
      user_error + user_db \<times> int list" where
  "InsertUsersWithAccount fault now lib crypt rnd users db =
    and_then (give_accounts (account_row fault db) rnd 0 users) (\<lambda>users. InsertUsers fault now lib crypt users db)"

section \<open>Requests\<close>

datatype user_reply =
    Stored "int list"
  | Not_fit "((string \<times> null_string \<times> null_string \<times> null_string \<times> null_string) \<times> user_fault list) list"
  | User_known

text \<open>The end of a handler: on an error the transaction is rolled back, otherwise committed.\<close>

definition close_user_tx ::
    "(string \<Rightarrow> bool) \<Rightarrow> user_db \<Rightarrow> user_error + user_db \<times> user_reply \<Rightarrow> (user_error + user_reply) \<times> user_db" where
  "close_user_tx fault db r =
    (case r of Inl e \<Rightarrow> (Inl e, db) | Inr (db', reply) \<Rightarrow> (Inr reply, if fault ''tx.Commit'' then db else db'))"

definition lift_auth :: "domain_error + 'a \<Rightarrow> user_error + 'a" where
  "lift_auth r = (case r of Inl e \<Rightarrow> Inl (User_auth e) | Inr a \<Rightarrow> Inr a)"

definition may_use ::
    "(string \<Rightarrow> bool) \<Rightarrow> auth_db \<Rightarrow> (null_int \<times> null_int) option \<Rightarrow> string \<Rightarrow> string \<Rightarrow> user_error + unit" where
  "may_use fault db user path act =
    and_then (lift_auth (GetUserAuthority fault db user)) (\<lambda>a.
    and_then (lift_auth (CheckUserAPIAccessible (Inr a) path act)) (\<lambda>ok. if \<not> ok then Inl No_permission else Inr ()))"

datatype user_request = Post_users "user list" | Put_users "user list"

definition HandleUser ::
    "(string \<Rightarrow> bool) \<Rightarrow> int \<Rightarrow> 'n phone_lib \<Rightarrow> (string \<Rightarrow> string) \<Rightarrow> (null_int \<times> null_int) option \<Rightarrow> user_request \<Rightarrow> user_db \<Rightarrow>
      (user_error + user_reply) \<times> user_db" where
  "HandleUser fault now lib crypt user req db =
    close_user_tx fault db (case req of
       Post_users users \<Rightarrow>
         and_then (may_use fault (ud_auth db) user ''/api/user'' CAPIAccessActionCreate) (\<lambda>_.
         if users = [] then Inl No_users
         else let users = map (\<lambda>u. u\<lparr>us_category := ''sys^user'', us_creator := (case user of Some (i, _) \<Rightarrow> i | None \<Rightarrow> us_creator u)\<rparr>) users
           in and_then (ValidateUserToBeInsert fault now lib db users) (\<lambda>vs.
             if refused_users vs \<noteq> [] then Inr (db, Not_fit (refused_users vs))
             else if fit_users vs = [] then Inr (db, Stored [])
             else and_then (InsertUsers fault now lib crypt (fit_users vs) db) (\<lambda>(db', ids). Inr (db', Stored ids))))
     | Put_users users \<Rightarrow>
         and_then (may_use fault (ud_auth db) user ''/api/user'' CAPIAccessActionUpdate) (\<lambda>_.
         if users = [] then Inl No_users
         else and_then (ValidateUserToBeUpdate fault now lib db users) (\<lambda>vs.
           if refused_users vs \<noteq> [] then Inr (db, Not_fit (refused_users vs))
           else if fit_users vs = [] then Inr (db, Stored [])
           else and_then (OverwriteUpdateUsers fault now lib (fit_users vs) db) (\<lambda>(db', ids). Inr (db', Stored ids)))))"

text \<open>\<open>n\<close> is a random number below 1000000; \<open>sent\<close> tells whether the email went out.\<close>

definition code_text :: "nat \<Rightarrow> string" where
  "code_text n = (let ds = nat_digits n in replicate (6 - length ds) (CHR ''0'') @ ds)"

definition HandleSendValidationCodeEmail ::
    "(string \<Rightarrow> bool) \<Rightarrow> int \<Rightarrow> nat \<Rightarrow> bool \<Rightarrow> string \<Rightarrow> user_db \<Rightarrow> (user_error + unit) \<times> user_db" where
  "HandleSendValidationCodeEmail fault now n sent recipient db =
    (if recipient = [] then (Inl Recipient_missing, db)
     else if fault ''rand.Int'' \<or> \<not> sent then (Inl Email_failed, db)
     else if fault ''rdb.Set'' then (Inl Email_failed, db)
     else (Inr (), db\<lparr>ud_codes := (ud_codes db)(''verify:email:'' @ ToLower recipient := Some (code_text n, now + 15 * 60 * 10 ^ 9))\<rparr>))"

definition HandleRegisterByEmail ::
    "(string \<Rightarrow> bool) \<Rightarrow> int \<Rightarrow> 'n phone_lib \<Rightarrow> (string \<Rightarrow> string) \<Rightarrow> (nat \<Rightarrow> nat \<Rightarrow> nat) \<Rightarrow> user \<Rightarrow> string \<Rightarrow> user_db \<Rightarrow>
      (user_error + user_reply) \<times> user_db" where
  "HandleRegisterByEmail fault now lib crypt rnd user code db =
    close_user_tx fault db
     (if us_email user = None then Inl Email_missing
      else if us_user_token user = None then Inl Password_missing
      else and_then (ValidateUserToBeInsert fault now lib db
             [user\<lparr>us_category := ''sys^user'', us_status := Some ''00'', us_domains := [Some student_role]\<rparr>]) (\<lambda>vs.
        if refused_users vs \<noteq> [] then Inr (db, Not_fit (refused_users vs))
        else if existing_users vs \<noteq> [] then Inr (db, User_known)
        else if code = [] then Inl Code_absent
        else case ud_codes db (''verify:email:'' @ ToLower (String (us_email (hd (fit_users vs))))) of
          None \<Rightarrow> Inl Code_expired
        | Some (stored, expires) \<Rightarrow>
            if fault ''rdb.Get'' \<or> expires \<le> now then Inl Code_expired
            else if stored \<noteq> code then Inl Code_wrong
            else and_then (InsertUsersWithAccount fault now lib crypt rnd (fit_users vs) db) (\<lambda>(db', ids). Inr (db', Stored ids))))"

text \<open>The names of the roles a user holds, as \<open>v_user_domain\<close> has them.\<close>

definition held_roles :: "user_db \<Rightarrow> int \<Rightarrow> string list" where
  "held_roles db i = concat (map (\<lambda>(u, d). map dm_domain (filter (\<lambda>r. u = i \<and> d = Some (dm_id r)) (au_domains (ud_auth db)))) (ud_roles db))"

definition HandleSelectLoginDomain ::
    "(string \<Rightarrow> bool) \<Rightarrow> int \<Rightarrow> string \<Rightarrow> user_db \<Rightarrow> (user_error + unit) \<times> user_db" where
  "HandleSelectLoginDomain fault userID domain db =
    (case and_then (if fault ''QueryUsers'' then Inl (User_sql ''QueryUsers'') else Inr ()) (\<lambda>_.
        case sql_first (\<lambda>r. us_id r = Some userID) (ud_users db) of
          None \<Rightarrow> Inl User_absent
        | Some r \<Rightarrow> and_then (IsDomainExist fault domain (ud_auth db)) (\<lambda>found.
            case found of
              None \<Rightarrow> Inl Role_absent
            | Some d \<Rightarrow>
                if domain \<notin> set (held_roles db userID) then Inl Role_not_held
                else if fault ''UpdateUserRole'' then Inl (User_sql ''UpdateUserRole'')
                else Inr (dm_id d))) of
       Inl e \<Rightarrow> (Inl e, db)
     | Inr i \<Rightarrow> (Inr (), db\<lparr>ud_users := sql_update (\<lambda>r. us_id r = Some userID) (\<lambda>r. r\<lparr>us_role := Some i\<rparr>) (ud_users db)\<rparr>))"

definition HandleGetNewAccount :: "(string \<Rightarrow> bool) \<Rightarrow> (nat \<Rightarrow> nat) \<Rightarrow> user_db \<Rightarrow> account_error + string" where
  "HandleGetNewAccount fault rnd db = GenerateUniqueAccount (account_row fault db) rnd AccountLength 20"

end
