(* ===== verification/User_Props.thy ===== *)
theory User_Props
  imports Domain_Props User_Accounts
begin

text \<open>
  What the administration of users keeps: who can come to hold the role of a super administrator,
  what a stored user looks like, and who can change users.
\<close>

section \<open>What the checks establish\<close>

text \<open>A role that may be given: it is there and is not that of a super administrator.\<close>

definition plain_role :: "auth_db \<Rightarrow> null_string \<Rightarrow> bool" where
  "plain_role a d \<longleftrightarrow> (\<exists>r. sql_first (\<lambda>r. dm_domain r = String d) (au_domains a) = Some r \<and> Int64 (dm_priority r) \<noteq> CDomainPrioritySuperAdmin)"

lemma check_roles_plain: "check_roles fault ds db = Inr [] \<Longrightarrow> \<forall>d\<in>set ds. plain_role (ud_auth db) d"
  by (induction ds) (auto simp: and_then_Inr_iff IsDomainExist_def plain_role_def split: option.split_asm if_split_asm)

lemma check_rest_plain: "check_rest fault u db = Inr [] \<Longrightarrow> \<forall>d\<in>set (us_domains u). plain_role (ud_auth db) d"
  using check_roles_plain by (auto simp: check_rest_def and_then_Inr_iff split: if_split_asm)

lemma judge_Fit: "judge u fs = Fit v \<longleftrightarrow> fs = [] \<and> v = u"
  by (auto simp: judge_def)

lemma fit_new_user_plain:
  assumes "check_new_user fault now lib db u0 = Inr (Fit u)"
  shows "\<forall>d\<in>set (us_domains u). plain_role (ud_auth db) d"
  using assms check_rest_plain
  by (auto simp: check_new_user_def and_then_Inr_iff judge_Fit split: prod.split_asm option.split_asm)

lemma fit_changed_user_plain:
  assumes "check_changed_user fault now lib db u0 = Inr (Fit u)"
  shows "\<forall>d\<in>set (us_domains u). plain_role (ud_auth db) d"
  using assms check_rest_plain
  by (auto simp: check_changed_user_def and_then_Inr_iff judge_Fit split: prod.split_asm if_split_asm)

lemma fit_users_checked:
  assumes "judge_all check us = Inr vs" "u \<in> set (fit_users vs)"
  shows "\<exists>u0\<in>set us. check u0 = Inr (Fit u)"
  using assms
proof (induction us arbitrary: vs)
  case (Cons u0 us)
  obtain v ws where v: "check u0 = Inr v" "judge_all check us = Inr ws" "vs = v # ws"
    using Cons.prems(1) by (auto simp: and_then_Inr_iff)
  then show ?case using Cons by (cases v) (auto simp: fit_users_def map_filter_simps)
qed (simp add: fit_users_def map_filter_simps)

section \<open>What is stored\<close>

text \<open>A resident card is stored in its normal form.\<close>

definition card_ok :: "('a t_user_scheme) \<Rightarrow> bool" where
  "card_ok r \<longleftrightarrow> (us_id_card_type r = Some CIDCardTypeResidentIdentityCard \<longrightarrow>
     (\<forall>no. us_id_card_no r = Some no \<longrightarrow> (\<exists>now. normal_cnid now no)))"

lemma normal_phone_same:
  "normal_phone lib u = Inr v \<Longrightarrow> us_domains v = us_domains u \<and> us_account v = us_account u \<and> us_id v = us_id u"
  by (auto simp: normal_phone_def Let_def split: option.split_asm if_split_asm prod.split_asm)

lemma normal_card_same:
  "normal_card now u = Inr v \<Longrightarrow> us_domains v = us_domains u \<and> us_account v = us_account u \<and> us_id v = us_id u \<and> card_ok v"
  by (auto simp: normal_card_def card_ok_def split: option.split_asm if_split_asm sum.split_asm) (blast dest: normalised_normal)

lemma normal_fields_same:
  assumes "normal_fields now lib u = Inr v"
  shows "us_domains v = us_domains u" "us_account v = us_account u" "us_id v = us_id u" "card_ok v"
proof -
  obtain u1 u2 where u1: "normal_phone lib u = Inr u1" and u2: "normal_card now u1 = Inr u2"
    and v: "us_domains v = us_domains u2" "us_account v = us_account u2" "us_id v = us_id u2"
      "us_id_card_type v = us_id_card_type u2" "us_id_card_no v = us_id_card_no u2"
    using assms by (auto simp: normal_fields_def and_then_Inr_iff split: if_split_asm)
  then show "us_domains v = us_domains u" "us_account v = us_account u" "us_id v = us_id u" "card_ok v"
    using normal_phone_same [OF u1] normal_card_same [OF u2] by (simp_all add: card_ok_def)
qed

definition role_id :: "auth_db \<Rightarrow> null_string \<Rightarrow> null_int" where
  "role_id a d = map_option dm_id (sql_first (\<lambda>r. dm_domain r = String d) (au_domains a))"

lemma insert_roles:
  assumes "for_each (insert_role fault i) ds db = Inr db'"
  shows "db' = db\<lparr>ud_roles := ud_roles db @ map (\<lambda>d. (i, role_id (ud_auth db) d)) ds\<rparr> \<and> (ds \<noteq> [] \<longrightarrow> Some i \<in> us_id ` set (ud_users db))"
  using assms
proof (induction ds arbitrary: db)
  case (Cons d ds)
  obtain db1 where one: "insert_role fault i d db = Inr db1" and more: "for_each (insert_role fault i) ds db1 = Inr db'"
    using Cons(2) by (auto split: sum.split_asm)
  have "db1 = db\<lparr>ud_roles := ud_roles db @ [(i, role_id (ud_auth db) d)]\<rparr>" "Some i \<in> us_id ` set (ud_users db)"
    using one by (auto simp: insert_role_def role_id_def Let_def split: if_split_asm)
  then show ?case using Cons(1) [OF more] by simp
qed simp

lemma insert_user_result:
  assumes "insert_user fault now lib crypt u (db, done) = Inr (db', done')"
  shows "\<exists>row. db' = db\<lparr>ud_users := ud_users db @ [row], ud_next := ud_next db + 1,
      ud_roles := ud_roles db @ map (\<lambda>d. (ud_next db, role_id (ud_auth db) d)) (us_domains u)\<rparr> \<and>
    us_id row = Some (ud_next db) \<and> us_role row = None \<and> card_ok row \<and> (\<forall>s\<in>set (ud_users db). \<not> clashing row s) \<and>
    done' = done @ [ud_next db]"
proof -
  obtain v where v: "normal_fields now lib u = Inr v"
    using assms by (auto simp: insert_user_def and_then_Inr_iff split: if_split_asm)
  note same = normal_fields_same [OF v]
  let ?row = "new_row now crypt (ud_next db) v"
  have fresh: "\<not> list_ex (clashing ?row) (ud_users db)"
    and loop: "for_each (insert_role fault (ud_next db)) (us_domains v) (db\<lparr>ud_users := ud_users db @ [?row], ud_next := ud_next db + 1\<rparr>) = Inr db'"
    and "done' = done @ [ud_next db]"
    using assms v unfolding insert_user_def by (auto simp: Let_def and_then_Inr_iff split: if_split_asm)
  then show ?thesis using insert_roles [OF loop] same
    by (intro exI [of _ ?row]) (auto simp: new_row_def card_ok_def list_ex_iff)
qed

text \<open>The change of a row: what it keeps, and that the row stays apart from the others.\<close>

lemma change_user_result:
  assumes "change_user fault now lib u (db, done) = Inr (db', done')"
  shows "\<exists>i put. us_id u = Some i \<and> (\<forall>r. us_id (put r) = us_id r \<and> us_role (put r) = us_role r \<and> us_type (put r) = us_type r \<and>
      us_account (put r) = us_account r \<and> card_ok (put r)) \<and>
    db' = db\<lparr>ud_users := sql_update (\<lambda>r. us_id r = Some i) put (ud_users db),
      ud_roles := (if us_domains u \<noteq> [] then sql_delete (\<lambda>(sys_user, _). sys_user = i) (ud_roles db) else ud_roles db) @
        map (\<lambda>d. (i, role_id (ud_auth db) d)) (us_domains u)\<rparr> \<and>
    (\<forall>r\<in>set (ud_users db). us_id r = Some i \<longrightarrow> (\<forall>s\<in>set (ud_users db). us_id s \<noteq> Some i \<longrightarrow> \<not> clashing (put r) s)) \<and>
    Some i \<in> us_id ` set (ud_users db)"
proof -
  obtain i where i: "us_id u = Some i" using assms by (auto simp: change_user_def split: option.split_asm)
  obtain v where v: "normal_fields now lib u = Inr v"
    using assms i by (auto simp: change_user_def and_then_Inr_iff split: if_split_asm)
  note same = normal_fields_same [OF v]
  let ?put = "changed_row now v"
  define db1 where "db1 = db\<lparr>ud_users := sql_update (\<lambda>r. us_id r = Some i) ?put (ud_users db),
      ud_roles := (if us_domains u \<noteq> [] then sql_delete (\<lambda>(sys_user, _). sys_user = i) (ud_roles db) else ud_roles db)\<rparr>"
  have apart: "\<not> list_ex (\<lambda>r. us_id r = Some i \<and> list_ex (\<lambda>s. us_id s \<noteq> Some i \<and> clashing (?put r) s) (ud_users db)) (ud_users db)"
    and loop: "for_each (insert_role fault i) (us_domains u) db1 = Inr db'"
    and there: "Some i \<in> us_id ` set (ud_users db')"
    using assms i v same(1) unfolding change_user_def db1_def
    by (auto simp: Let_def and_then_Inr_iff split: if_split_asm)
  have db': "db' = db1\<lparr>ud_roles := ud_roles db1 @ map (\<lambda>d. (i, role_id (ud_auth db1) d)) (us_domains u)\<rparr>"
    using insert_roles [OF loop] by simp
  have keep: "us_id (?put r) = us_id r" "us_role (?put r) = us_role r" "us_type (?put r) = us_type r"
    "us_account (?put r) = us_account r" "card_ok (?put r)" for r
    using same(4) by (simp_all add: changed_row_def card_ok_def)
  have "map us_id (ud_users db') = map us_id (ud_users db)"
    unfolding db' using keep(1) by (simp add: db1_def map_sql_update)
  then have there': "Some i \<in> us_id ` set (ud_users db)" using there by (metis set_map)
  have put: "db' = db\<lparr>ud_users := sql_update (\<lambda>r. us_id r = Some i) ?put (ud_users db),
      ud_roles := (if us_domains u \<noteq> [] then sql_delete (\<lambda>(sys_user, _). sys_user = i) (ud_roles db) else ud_roles db) @
        map (\<lambda>d. (i, role_id (ud_auth db) d)) (us_domains u)\<rparr>"
    unfolding db' by (simp add: db1_def)
  have new: "\<forall>r\<in>set (ud_users db). us_id r = Some i \<longrightarrow> (\<forall>s\<in>set (ud_users db). us_id s \<noteq> Some i \<longrightarrow> \<not> clashing (?put r) s)"
    using apart unfolding list_ex_iff by blast
  show ?thesis by (intro exI [of _ i] exI [of _ ?put] conjI allI) (rule i keep put new there')+
qed


section \<open>All requests\<close>

text \<open>
  Any request of the administration of domains and users, in any order, by anybody. The library for
  telephone numbers and the hash are the same for all.
\<close>

inductive user_step :: "'n phone_lib \<Rightarrow> (string \<Rightarrow> string) \<Rightarrow> user_db \<Rightarrow> user_db \<Rightarrow> bool" for lib crypt where
  domains: "HandleDomain fault now user req (ud_auth db) = (r, a) \<Longrightarrow> user_step lib crypt db (db\<lparr>ud_auth := a\<rparr>)"
| users: "HandleUser fault now lib crypt user req' db = (r', db') \<Longrightarrow> user_step lib crypt db db'"
| email: "HandleSendValidationCodeEmail fault now n sent recipient db = (r1, db') \<Longrightarrow> user_step lib crypt db db'"
| register: "HandleRegisterByEmail fault now lib crypt rnd u code db = (r2, db') \<Longrightarrow> user_step lib crypt db db'"
| select: "HandleSelectLoginDomain fault userID domain db = (r1, db') \<Longrightarrow> user_step lib crypt db db'"

text \<open>What one user stored in a loop may do to the tables, whichever loop it is.\<close>

inductive store_one :: "'n phone_lib \<Rightarrow> user_db \<Rightarrow> user_db \<Rightarrow> bool" for lib where
  insert_one: "\<forall>d\<in>set (us_domains u). plain_role (ud_auth db) d \<Longrightarrow> insert_user fault now lib crypt u (db, done) = Inr (db', done') \<Longrightarrow>
    store_one lib db db'"
| change_one: "\<forall>d\<in>set (us_domains u). plain_role (ud_auth db) d \<Longrightarrow> change_user fault now lib u (db, done) = Inr (db', done') \<Longrightarrow>
    store_one lib db db'"

lemma insert_user_auth: "insert_user fault now lib crypt u (db, done) = Inr (db', done') \<Longrightarrow> ud_auth db' = ud_auth db"
  using insert_user_result [of fault now lib crypt u db "done" db' done'] by auto

lemma change_user_auth: "change_user fault now lib u (db, done) = Inr (db', done') \<Longrightarrow> ud_auth db' = ud_auth db"
  using change_user_result [of fault now lib u db "done" db' done'] by auto

lemma insert_all_steps:
  assumes "for_each (insert_user fault now lib crypt) users (db, done) = Inr (db', done')"
    and "\<forall>u\<in>set users. \<forall>d\<in>set (us_domains u). plain_role (ud_auth db) d"
  shows "(store_one lib)\<^sup>*\<^sup>* db db' \<and> ud_auth db' = ud_auth db"
  using assms
proof (induction users arbitrary: db "done")
  case (Cons u users)
  obtain db1 done1 where one: "insert_user fault now lib crypt u (db, done) = Inr (db1, done1)"
    and more: "for_each (insert_user fault now lib crypt) users (db1, done1) = Inr (db', done')"
    using Cons.prems(1) by (auto split: sum.split_asm)
  have "ud_auth db1 = ud_auth db" by (rule insert_user_auth [OF one])
  moreover have "store_one lib db db1" by (rule insert_one [OF _ one]) (use Cons.prems(2) in simp)
  ultimately show ?case using Cons.IH [OF more] Cons.prems(2) by (simp add: converse_rtranclp_into_rtranclp)
qed simp

lemma change_all_steps:
  assumes "for_each (change_user fault now lib) users (db, done) = Inr (db', done')"
    and "\<forall>u\<in>set users. \<forall>d\<in>set (us_domains u). plain_role (ud_auth db) d"
  shows "(store_one lib)\<^sup>*\<^sup>* db db' \<and> ud_auth db' = ud_auth db"
  using assms
proof (induction users arbitrary: db "done")
  case (Cons u users)
  obtain db1 done1 where one: "change_user fault now lib u (db, done) = Inr (db1, done1)"
    and more: "for_each (change_user fault now lib) users (db1, done1) = Inr (db', done')"
    using Cons.prems(1) by (auto split: sum.split_asm)
  have "ud_auth db1 = ud_auth db" by (rule change_user_auth [OF one])
  moreover have "store_one lib db db1" by (rule change_one [OF _ one]) (use Cons.prems(2) in simp)
  ultimately show ?case using Cons.IH [OF more] Cons.prems(2) by (simp add: converse_rtranclp_into_rtranclp)
qed simp

lemma InsertUsers_stores:
  assumes "InsertUsers fault now lib crypt users db = Inr (db', ids)"
    and "\<forall>u\<in>set users. \<forall>d\<in>set (us_domains u). plain_role (ud_auth db) d"
  shows "(store_one lib)\<^sup>*\<^sup>* db db'"
proof -
  have "for_each (insert_user fault now lib crypt) users (db, []) = Inr (db', ids)"
    using assms(1) by (simp add: InsertUsers_def split: if_split_asm)
  from insert_all_steps [OF this assms(2)] show ?thesis ..
qed

lemma OverwriteUpdateUsers_stores:
  assumes "OverwriteUpdateUsers fault now lib users db = Inr (db', ids)"
    and "\<forall>u\<in>set users. \<forall>d\<in>set (us_domains u). plain_role (ud_auth db) d"
  shows "(store_one lib)\<^sup>*\<^sup>* db db'"
proof -
  have "for_each (change_user fault now lib) users (db, []) = Inr (db', ids)"
    using assms(1) by (simp add: OverwriteUpdateUsers_def split: if_split_asm)
  from change_all_steps [OF this assms(2)] show ?thesis ..
qed

lemma HandleUser_stores:
  assumes "HandleUser fault now lib crypt user req db = (r, db')"
  shows "(store_one lib)\<^sup>*\<^sup>* db db'"
proof (cases "db' = db")
  case False
  show ?thesis
  proof (cases req)
    case (Post_users users)
    then obtain vs users' ids where "judge_all (check_new_user fault now lib db) users' = Inr vs"
      "InsertUsers fault now lib crypt (fit_users vs) db = Inr (db', ids)"
      using assms False
      by (auto simp: HandleUser_def close_user_tx_def and_then_Inr_iff ValidateUserToBeInsert_def Let_def
        split: sum.split_asm if_split_asm)
    moreover from this(1) have "\<forall>u\<in>set (fit_users vs). \<forall>d\<in>set (us_domains u). plain_role (ud_auth db) d"
      using fit_users_checked fit_new_user_plain by metis
    ultimately show ?thesis using InsertUsers_stores by blast
  next
    case (Put_users users)
    then obtain vs ids where "judge_all (check_changed_user fault now lib db) users = Inr vs"
      "OverwriteUpdateUsers fault now lib (fit_users vs) db = Inr (db', ids)"
      using assms False
      by (auto simp: HandleUser_def close_user_tx_def and_then_Inr_iff ValidateUserToBeUpdate_def Let_def
        split: sum.split_asm if_split_asm)
    moreover from this(1) have "\<forall>u\<in>set (fit_users vs). \<forall>d\<in>set (us_domains u). plain_role (ud_auth db) d"
      using fit_users_checked fit_changed_user_plain by metis
    ultimately show ?thesis using OverwriteUpdateUsers_stores by blast
  qed
qed simp

lemma give_accounts_domains:
  "give_accounts exists rnd k us = Inr us' \<Longrightarrow> map us_domains us' = map us_domains us"
proof (induction us arbitrary: k us')
  case (Cons u us)
  then show ?case by (fastforce simp: and_then_Inr_iff split: sum.split_asm)
qed simp

text \<open>Registration: the code that was sent, and the role of a student only.\<close>

lemma HandleRegisterByEmail_changes:
  assumes "HandleRegisterByEmail fault now lib crypt rnd u code db = (r, db')" "db' \<noteq> db"
  shows "\<exists>u0 vs users ids stored expires. u0 = u\<lparr>us_category := ''sys^user'', us_status := Some ''00'', us_domains := [Some student_role]\<rparr> \<and>
    judge_all (check_new_user fault now lib db) [u0] = Inr vs \<and> refused_users vs = [] \<and> existing_users vs = [] \<and>
    ud_codes db (''verify:email:'' @ ToLower (String (us_email (hd (fit_users vs))))) = Some (stored, expires) \<and>
    stored = code \<and> code \<noteq> [] \<and> now < expires \<and>
    give_accounts (account_row fault db) rnd 0 (fit_users vs) = Inr users \<and> InsertUsers fault now lib crypt users db = Inr (db', ids)"
  using assms
  by (auto simp: HandleRegisterByEmail_def close_user_tx_def and_then_Inr_iff ValidateUserToBeInsert_def Let_def
    InsertUsersWithAccount_def not_le split: sum.split_asm if_split_asm option.split_asm prod.split_asm simp del: judge_all.simps give_accounts.simps)

lemma HandleRegisterByEmail_stores:
  assumes "HandleRegisterByEmail fault now lib crypt rnd u code db = (r, db')"
  shows "(store_one lib)\<^sup>*\<^sup>* db db'"
proof (cases "db' = db")
  case False
  then obtain us0 vs users ids where vs: "judge_all (check_new_user fault now lib db) us0 = Inr vs"
    and users: "give_accounts (account_row fault db) rnd 0 (fit_users vs) = Inr users"
    and ins: "InsertUsers fault now lib crypt users db = Inr (db', ids)"
    using HandleRegisterByEmail_changes [OF assms] by blast
  have "\<forall>u\<in>set (fit_users vs). \<forall>d\<in>set (us_domains u). plain_role (ud_auth db) d"
    using fit_users_checked [OF vs] fit_new_user_plain by metis
  then have "\<forall>ds\<in>us_domains ` set (fit_users vs). \<forall>d\<in>set ds. plain_role (ud_auth db) d" by simp
  moreover have "us_domains ` set (fit_users vs) = us_domains ` set users"
    using give_accounts_domains [OF users] by (metis set_map)
  ultimately have "\<forall>u\<in>set users. \<forall>d\<in>set (us_domains u). plain_role (ud_auth db) d" by simp
  with ins show ?thesis by (rule InsertUsers_stores)
qed simp


section \<open>Super administrators\<close>

text \<open>Who holds, or works with, a role of a super administrator.\<close>

definition super_admins :: "user_db \<Rightarrow> (int \<times> int) set" where
  "super_admins db = {(u, i). i \<in> super_roles (ud_auth db) \<and>
     ((u, Some i) \<in> set (ud_roles db) \<or> (\<exists>r\<in>set (ud_users db). us_id r = Some u \<and> us_role r = Some i))}"

lemma same_domain_id: "auth_wf a \<Longrightarrow> r \<in> set (au_domains a) \<Longrightarrow> s \<in> set (au_domains a) \<Longrightarrow> dm_id r = dm_id s \<Longrightarrow> r = s"
  by (auto simp: auth_wf_def distinct_map inj_on_def)

lemma same_domain_name: "auth_wf a \<Longrightarrow> r \<in> set (au_domains a) \<Longrightarrow> s \<in> set (au_domains a) \<Longrightarrow> dm_domain r = dm_domain s \<Longrightarrow> r = s"
  by (auto simp: auth_wf_def distinct_map inj_on_def)

lemma plain_role_id:
  assumes "auth_wf a" "plain_role a d" "role_id a d = Some i"
  shows "i \<notin> super_roles a"
proof
  assume "i \<in> super_roles a"
  then obtain s where s: "s \<in> set (au_domains a)" "dm_id s = i" "dm_priority s = Some CDomainPrioritySuperAdmin"
    by (auto simp: super_roles_def)
  obtain r where r: "sql_first (\<lambda>r. dm_domain r = String d) (au_domains a) = Some r" "Int64 (dm_priority r) \<noteq> CDomainPrioritySuperAdmin"
    using assms(2) by (auto simp: plain_role_def)
  then have "dm_id r = i" "r \<in> set (au_domains a)" using assms(3) sql_first_Some [OF r(1)] by (auto simp: role_id_def)
  then have "r = s" using same_domain_id [OF assms(1)] s by metis
  then show False using r(2) s(3) by simp
qed

lemma store_one_supers:
  assumes "store_one lib db db'" "auth_wf (ud_auth db)"
  shows "ud_auth db' = ud_auth db \<and> super_admins db' \<subseteq> super_admins db"
  using assms(1)
proof cases
  case (insert_one u fault now crypt "done" done')
  have new: "(v, Some i) \<in> (\<lambda>d. (ud_next db, role_id (ud_auth db) d)) ` set (us_domains u) \<Longrightarrow> i \<notin> super_roles (ud_auth db)" for v i
    using plain_role_id [OF assms(2)] insert_one(1) by (auto simp: eq_commute)
  show ?thesis
    using insert_user_result [OF insert_one(2)] new by (auto simp: super_admins_def)
next
  case (change_one u fault now "done" done')
  have new: "d \<in> set (us_domains u) \<Longrightarrow> Some i = role_id (ud_auth db) d \<Longrightarrow> i \<notin> super_roles (ud_auth db)" for d i
    using plain_role_id [OF assms(2), of d i] change_one(1) by simp
  obtain k put where put: "\<forall>r. us_id (put r) = us_id r \<and> us_role (put r) = us_role r \<and> us_type (put r) = us_type r \<and>
      us_account (put r) = us_account r \<and> card_ok (put r)"
    and db': "db' = db\<lparr>ud_users := sql_update (\<lambda>r. us_id r = Some k) put (ud_users db),
      ud_roles := (if us_domains u \<noteq> [] then sql_delete (\<lambda>(sys_user, _). sys_user = k) (ud_roles db) else ud_roles db) @
        map (\<lambda>d. (k, role_id (ud_auth db) d)) (us_domains u)\<rparr>"
    using change_user_result [OF change_one(2)] by blast
  have roles: "(v, Some i) \<in> set (ud_roles db') \<Longrightarrow> i \<in> super_roles (ud_auth db) \<Longrightarrow> (v, Some i) \<in> set (ud_roles db)" for v i
    unfolding db' by (auto simp: sql_delete_def split: if_split_asm dest: new)
  have present: "\<exists>r\<in>set (ud_users db). us_id r = Some v \<and> us_role r = Some i"
    if r: "r \<in> set (ud_users db')" "us_id r = Some v" "us_role r = Some i" for r v i
  proof -
    obtain r0 where "r0 \<in> set (ud_users db)" "r = (if us_id r0 = Some k then put r0 else r0)"
      using r(1) by (auto simp: db' set_sql_update)
    then show ?thesis using put r(2,3) by (intro bexI [of _ r0]) (auto split: if_split_asm)
  qed
  show ?thesis using roles present by (auto simp: super_admins_def db')
qed

lemma store_steps_supers:
  assumes "(store_one lib)\<^sup>*\<^sup>* db db'" "auth_wf (ud_auth db)"
  shows "ud_auth db' = ud_auth db \<and> super_admins db' \<subseteq> super_admins db"
  using assms
proof (induction rule: rtranclp_induct)
  case (step y z)
  then show ?case using store_one_supers [of lib y z] by auto
qed simp

lemma held_roles_assigned:
  "domain \<in> set (held_roles db i) \<Longrightarrow> \<exists>r\<in>set (au_domains (ud_auth db)). dm_domain r = domain \<and> (i, Some (dm_id r)) \<in> set (ud_roles db)"
  by (auto simp: held_roles_def split: if_split_asm)

lemma HandleSelectLoginDomain_changes:
  assumes "HandleSelectLoginDomain fault userID domain db = (r, db')" "db' \<noteq> db"
  shows "\<exists>d. sql_first (\<lambda>d. dm_domain d = domain) (au_domains (ud_auth db)) = Some d \<and> domain \<in> set (held_roles db userID) \<and>
    db' = db\<lparr>ud_users := sql_update (\<lambda>r. us_id r = Some userID) (\<lambda>r. r\<lparr>us_role := Some (dm_id d)\<rparr>) (ud_users db)\<rparr>"
  using assms
  by (auto simp: HandleSelectLoginDomain_def IsDomainExist_def and_then_Inr_iff split: sum.split_asm if_split_asm option.split_asm)

lemma select_supers:
  assumes "HandleSelectLoginDomain fault userID domain db = (r, db')" "auth_wf (ud_auth db)"
  shows "ud_auth db' = ud_auth db \<and> super_admins db' \<subseteq> super_admins db"
proof (cases "db' = db")
  case False
  obtain d where d: "sql_first (\<lambda>d. dm_domain d = domain) (au_domains (ud_auth db)) = Some d" "domain \<in> set (held_roles db userID)"
    and db': "db' = db\<lparr>ud_users := sql_update (\<lambda>r. us_id r = Some userID) (\<lambda>r. r\<lparr>us_role := Some (dm_id d)\<rparr>) (ud_users db)\<rparr>"
    using HandleSelectLoginDomain_changes [OF assms(1) False] by blast
  obtain s where s: "s \<in> set (au_domains (ud_auth db))" "dm_domain s = domain" "(userID, Some (dm_id s)) \<in> set (ud_roles db)"
    using held_roles_assigned [OF d(2)] by blast
  have "s = d" using same_domain_name [OF assms(2) s(1)] sql_first_Some [OF d(1)] s(2) by blast
  then have held: "(userID, Some (dm_id d)) \<in> set (ud_roles db)" using s(3) by simp
  have present: "(v, Some i) \<in> set (ud_roles db) \<or> (\<exists>r\<in>set (ud_users db). us_id r = Some v \<and> us_role r = Some i)"
    if r: "r \<in> set (ud_users db')" "us_id r = Some v" "us_role r = Some i" for r v i
  proof -
    obtain r0 where r0: "r0 \<in> set (ud_users db)" "r = (if us_id r0 = Some userID then r0\<lparr>us_role := Some (dm_id d)\<rparr> else r0)"
      using r(1) by (auto simp: db' set_sql_update)
    then show ?thesis using held r(2,3) by (cases "us_id r0 = Some userID") auto
  qed
  then show ?thesis by (auto simp: super_admins_def db')
qed (use assms in simp)

lemma user_step_supers:
  assumes "user_step lib crypt db db'" "auth_wf (ud_auth db)"
  shows "auth_wf (ud_auth db') \<and> super_admins db' \<subseteq> super_admins db"
  using assms(1)
proof cases
  case (domains fault now user req r a)
  have "auth_wf a \<and> super_roles a \<subseteq> super_roles (ud_auth db)"
    using domain_step_keeps [OF domain_step.intros [OF domains(2)] assms(2)] by blast
  then show ?thesis using domains(1) by (auto simp: super_admins_def)
next
  case (users fault now user req' r')
  show ?thesis using store_steps_supers [OF HandleUser_stores [OF users] assms(2)] assms(2) by simp
next
  case (email fault now n sent recipient r1)
  then have "ud_auth db' = ud_auth db" "super_admins db' = super_admins db"
    by (auto simp: HandleSendValidationCodeEmail_def super_admins_def split: if_split_asm)
  then show ?thesis using assms(2) by simp
next
  case (register fault now rnd u code r2)
  show ?thesis using store_steps_supers [OF HandleRegisterByEmail_stores [OF register] assms(2)] assms(2) by simp
next
  case (select fault userID domain r1)
  show ?thesis using select_supers [OF select assms(2)] assms(2) by simp
qed

text \<open>
  (C18) However users and domains are administered, users registered and roles chosen, nobody comes to hold
  or to work with a role of a super administrator who did not before: such roles are given outside
  these requests only.
\<close>

theorem no_new_super_admins:
  assumes "(user_step lib crypt)\<^sup>*\<^sup>* db db'" "auth_wf (ud_auth db)"
  shows "super_admins db' \<subseteq> super_admins db"
proof -
  have "auth_wf (ud_auth db') \<and> super_admins db' \<subseteq> super_admins db"
    using assms
  proof (induction rule: rtranclp_induct)
    case (step y z)
    then show ?case using user_step_supers [of lib crypt y z] by auto
  qed simp
  then show ?thesis ..
qed


section \<open>Stored users\<close>

text \<open>
  The shape of the table: ids and unique fields are unique, resident cards are in their normal form, and
  roles belong to users there are.
\<close>

definition users_wf :: "user_db \<Rightarrow> bool" where
  "users_wf db \<longleftrightarrow> distinct (map us_id (ud_users db)) \<and>
     (\<forall>r\<in>set (ud_users db). (\<exists>i<ud_next db. us_id r = Some i) \<and> card_ok r) \<and>
     (\<forall>r\<in>set (ud_users db). \<forall>s\<in>set (ud_users db). us_id r \<noteq> us_id s \<longrightarrow> \<not> clashing r s) \<and>
     (\<forall>u\<in>fst ` set (ud_roles db). Some u \<in> us_id ` set (ud_users db))"

lemma clashing_sym: "clashing r s \<longleftrightarrow> clashing s r"
  by (auto simp: clashing_def)

lemma users_wf_insert:
  assumes "users_wf db" "us_id row = Some (ud_next db)" "card_ok row" "\<forall>s\<in>set (ud_users db). \<not> clashing row s"
  shows "users_wf (db\<lparr>ud_users := ud_users db @ [row], ud_next := ud_next db + 1,
    ud_roles := ud_roles db @ map (\<lambda>d. (ud_next db, f d)) ds\<rparr>)"
proof -
  have "Some (ud_next db) \<notin> us_id ` set (ud_users db)" using assms(1) by (force simp: users_wf_def)
  then have "distinct (map us_id (ud_users db @ [row]))" using assms(1,2) by (simp add: users_wf_def)
  moreover have "\<forall>r\<in>set (ud_users db @ [row]). (\<exists>i<ud_next db + 1. us_id r = Some i) \<and> card_ok r"
    using assms(1-3) by (fastforce simp: users_wf_def)
  moreover have "\<forall>r\<in>set (ud_users db @ [row]). \<forall>s\<in>set (ud_users db @ [row]). us_id r \<noteq> us_id s \<longrightarrow> \<not> clashing r s"
    using assms(1,4) clashing_sym by (auto simp: users_wf_def)
  moreover have "\<forall>u\<in>fst ` set (ud_roles db @ map (\<lambda>d. (ud_next db, f d)) ds). Some u \<in> us_id ` set (ud_users db @ [row])"
    using assms(1,2) by (auto simp: users_wf_def)
  ultimately show ?thesis by (simp add: users_wf_def)
qed

lemma users_wf_change:
  assumes "users_wf db" "\<forall>r. us_id (put r) = us_id r \<and> card_ok (put r)"
    and "\<forall>r\<in>set (ud_users db). us_id r = Some k \<longrightarrow> (\<forall>s\<in>set (ud_users db). us_id s \<noteq> Some k \<longrightarrow> \<not> clashing (put r) s)"
    and "fst ` set roles \<subseteq> insert k (fst ` set (ud_roles db))" "Some k \<in> us_id ` set (ud_users db)"
  shows "users_wf (db\<lparr>ud_users := sql_update (\<lambda>r. us_id r = Some k) put (ud_users db), ud_roles := roles\<rparr>)"
proof -
  let ?us = "sql_update (\<lambda>r. us_id r = Some k) put (ud_users db)"
  have ids: "map us_id ?us = map us_id (ud_users db)" using assms(2) by (simp add: map_sql_update)
  then have idset: "us_id ` set ?us = us_id ` set (ud_users db)" by (metis set_map)
  have row: "\<exists>r0\<in>set (ud_users db). r = (if us_id r0 = Some k then put r0 else r0) \<and> us_id r = us_id r0" if "r \<in> set ?us" for r
    using that assms(2) by (auto simp: set_sql_update)
  have "(\<exists>i<ud_next db. us_id r = Some i) \<and> card_ok r" if r: "r \<in> set ?us" for r
    using row [OF r] assms(1,2) by (auto simp: users_wf_def split: if_split_asm)
  moreover have "\<not> clashing r s" if r: "r \<in> set ?us" and s: "s \<in> set ?us" and "us_id r \<noteq> us_id s" for r s
  proof -
    obtain r0 where r0: "r0 \<in> set (ud_users db)" "r = (if us_id r0 = Some k then put r0 else r0)" "us_id r = us_id r0"
      using row [OF r] by blast
    obtain s0 where s0: "s0 \<in> set (ud_users db)" "s = (if us_id s0 = Some k then put s0 else s0)" "us_id s = us_id s0"
      using row [OF s] by blast
    have apart: "\<not> clashing (put x) y" "\<not> clashing y (put x)"
      if "x \<in> set (ud_users db)" "us_id x = Some k" "y \<in> set (ud_users db)" "us_id y \<noteq> Some k" for x y
      using assms(3) that clashing_sym by blast+
    consider "us_id r0 = Some k" "us_id s0 \<noteq> Some k" | "us_id r0 \<noteq> Some k" "us_id s0 = Some k" | "us_id r0 \<noteq> Some k" "us_id s0 \<noteq> Some k"
      using \<open>us_id r \<noteq> us_id s\<close> r0(3) s0(3) by metis
    then show ?thesis
    proof cases
      case 3
      then show ?thesis using assms(1) r0 s0 \<open>us_id r \<noteq> us_id s\<close> unfolding users_wf_def by auto
    qed (use apart r0 s0 in auto)
  qed
  moreover have "Some u \<in> us_id ` set ?us" if u: "u \<in> fst ` set roles" for u
  proof -
    have "u = k \<or> u \<in> fst ` set (ud_roles db)" using subsetD [OF assms(4) u] by simp
    moreover have "\<forall>u\<in>fst ` set (ud_roles db). Some u \<in> us_id ` set (ud_users db)" using assms(1) by (simp add: users_wf_def)
    ultimately show ?thesis unfolding idset using assms(5) by metis
  qed
  ultimately show ?thesis using assms(1) ids by (simp add: users_wf_def)
qed

lemma store_one_wf:
  assumes "store_one lib db db'" "users_wf db"
  shows "users_wf db'"
  using assms(1)
proof cases
  case (insert_one u fault now crypt "done" done')
  show ?thesis using insert_user_result [OF insert_one(2)] users_wf_insert [OF assms(2)] by blast
next
  case (change_one u fault now "done" done')
  obtain k put where put: "\<forall>r. us_id (put r) = us_id r \<and> us_role (put r) = us_role r \<and> us_type (put r) = us_type r \<and>
      us_account (put r) = us_account r \<and> card_ok (put r)"
    and db': "db' = db\<lparr>ud_users := sql_update (\<lambda>r. us_id r = Some k) put (ud_users db),
      ud_roles := (if us_domains u \<noteq> [] then sql_delete (\<lambda>(sys_user, _). sys_user = k) (ud_roles db) else ud_roles db) @
        map (\<lambda>d. (k, role_id (ud_auth db) d)) (us_domains u)\<rparr>"
    and apart: "\<forall>r\<in>set (ud_users db). us_id r = Some k \<longrightarrow> (\<forall>s\<in>set (ud_users db). us_id s \<noteq> Some k \<longrightarrow> \<not> clashing (put r) s)"
    and k: "Some k \<in> us_id ` set (ud_users db)"
    using change_user_result [OF change_one(2)] by blast
  have "fst ` set ((if us_domains u \<noteq> [] then sql_delete (\<lambda>(sys_user, _). sys_user = k) (ud_roles db) else ud_roles db) @
        map (\<lambda>d. (k, role_id (ud_auth db) d)) (us_domains u)) \<subseteq> insert k (fst ` set (ud_roles db))"
    by (auto simp: sql_delete_def)
  then show ?thesis unfolding db' using put apart k by (intro users_wf_change [OF assms(2)]) auto
qed

lemma store_steps_wf: "(store_one lib)\<^sup>*\<^sup>* db db' \<Longrightarrow> users_wf db \<Longrightarrow> users_wf db'"
  by (induction rule: rtranclp_induct) (auto intro: store_one_wf)

lemma select_wf:
  assumes "HandleSelectLoginDomain fault userID domain db = (r, db')" "users_wf db"
  shows "users_wf db'"
proof (cases "db' = db")
  case False
  let ?put = "\<lambda>(d::domain_row) (r::t_user). r\<lparr>us_role := Some (dm_id d)\<rparr>"
  obtain d where db': "db' = db\<lparr>ud_users := sql_update (\<lambda>r. us_id r = Some userID) (?put d) (ud_users db)\<rparr>"
    using HandleSelectLoginDomain_changes [OF assms(1) False] by blast
  let ?us = "sql_update (\<lambda>r. us_id r = Some userID) (?put d) (ud_users db)"
  have ids: "map us_id ?us = map us_id (ud_users db)" by (simp add: map_sql_update)
  have row: "\<exists>r0\<in>set (ud_users db). us_id r = us_id r0 \<and> (card_ok r = card_ok r0) \<and> (\<forall>s. clashing r s = clashing r0 s) \<and> (\<forall>s. clashing s r = clashing s r0)"
    if r: "r \<in> set ?us" for r
  proof -
    obtain r0 where "r0 \<in> set (ud_users db)" "r = (if us_id r0 = Some userID then ?put d r0 else r0)"
      using r by (auto simp: set_sql_update)
    then show ?thesis by (intro bexI [of _ r0]) (auto simp: card_ok_def clashing_def)
  qed
  have "(\<exists>i<ud_next db. us_id r = Some i) \<and> card_ok r" if "r \<in> set ?us" for r
    using row [OF that] assms(2) by (auto simp: users_wf_def)
  moreover have "us_id r \<noteq> us_id s \<Longrightarrow> \<not> clashing r s" if "r \<in> set ?us" "s \<in> set ?us" for r s
    using row [OF that(1)] row [OF that(2)] assms(2) unfolding users_wf_def by metis
  moreover have "us_id ` set ?us = us_id ` set (ud_users db)" using ids by (metis set_map)
  ultimately show ?thesis using assms(2) ids unfolding db' users_wf_def by simp
qed (use assms in simp)

text \<open>
  (C19) The table of users stays in shape under any sequence of requests: accounts, telephone numbers, emails
  and cards are not shared, a resident card is stored as 18 characters with the right check character
  whatever way it was typed, and roles are those of users there are.
\<close>

theorem users_stay_in_shape:
  assumes "(user_step lib crypt)\<^sup>*\<^sup>* db db'" "users_wf db"
  shows "users_wf db'"
  using assms
proof (induction rule: rtranclp_induct)
  case (step y z)
  from step(3) [OF step(4)] have y: "users_wf y" .
  from step(2) show ?case
  proof cases
    case (domains fault now user req r a)
    then show ?thesis using y by (simp add: users_wf_def)
  next
    case (users fault now user req' r')
    show ?thesis by (rule store_steps_wf [OF HandleUser_stores [OF users] y])
  next
    case (email fault now n sent recipient r1)
    then have "ud_users z = ud_users y" "ud_roles z = ud_roles y" "ud_next z = ud_next y"
      by (auto simp: HandleSendValidationCodeEmail_def split: if_split_asm)
    then show ?thesis using y by (simp add: users_wf_def)
  next
    case (register fault now rnd u code r2)
    show ?thesis by (rule store_steps_wf [OF HandleRegisterByEmail_stores [OF register] y])
  next
    case (select fault userID domain r1)
    show ?thesis by (rule select_wf [OF select y])
  qed
qed simp


section \<open>Who may change users\<close>

lemma may_use_granted:
  assumes "may_use fault a user path act = Inr ()" "act \<in> {''create'', ''update''}"
  shows "\<exists>u role. user = Some (Some u, role) \<and> (granted a role path ''full'' \<or> granted a role path act)"
proof -
  obtain auth where auth: "GetUserAuthority fault a user = Inr auth"
    and ok: "CheckUserAPIAccessible (Inr auth) path act = Inr True"
    using assms(1) by (auto simp: may_use_def lift_auth_def and_then_Inr_iff split: sum.split_asm if_split_asm)
  obtain u role where user: "user = Some (Some u, role)"
    using auth by (auto simp: GetUserAuthority_def split: option.split_asm prod.split_asm)
  have "checkUserAPIAccessible auth path act"
    using ok assms(2) by (auto simp: CheckUserAPIAccessible_def access_actions split: if_split_asm)
  then show ?thesis using accessible_granted [of fault a "Some u" role auth] auth user by (auto simp: access_actions)
qed

text \<open>
  (C20) Users are only stored or changed for somebody whose present role has an active grant of \<open>create\<close>
  (\<open>update\<close> for a change), or of \<open>full\<close>, for \<open>/api/user\<close>. The domains that role reaches are not
  looked at: users of other institutions can be changed as well.
\<close>

theorem users_need_grant:
  assumes "HandleUser fault now lib crypt user req db = (r, db')" "db' \<noteq> db"
  shows "\<exists>u role. user = Some (Some u, role) \<and>
    (let may = granted (ud_auth db) role ''/api/user''
     in may ''full'' \<or> may (case req of Post_users _ \<Rightarrow> ''create'' | Put_users _ \<Rightarrow> ''update''))"
proof -
  have "may_use fault (ud_auth db) user ''/api/user'' (case req of Post_users _ \<Rightarrow> ''create'' | Put_users _ \<Rightarrow> ''update'') = Inr ()"
    using assms by (cases req)
      (auto simp: HandleUser_def close_user_tx_def and_then_Inr_iff access_actions Let_def split: sum.split_asm if_split_asm)
  from may_use_granted [OF this] show ?thesis by (cases req) (auto simp: Let_def)
qed

section \<open>The present role\<close>

text \<open>What a stored user keeps when users are stored.\<close>

definition keeps_present :: "user_db \<Rightarrow> user_db \<Rightarrow> bool" where
  "keeps_present db db' \<longleftrightarrow> (\<forall>r\<in>set (ud_users db). \<exists>r'\<in>set (ud_users db'). us_id r' = us_id r \<and> us_role r' = us_role r \<and> us_type r' = us_type r)"

lemma keeps_present_trans: "keeps_present a b \<Longrightarrow> keeps_present b c \<Longrightarrow> keeps_present a c"
  unfolding keeps_present_def by metis

lemma store_one_present: "store_one lib db db' \<Longrightarrow> keeps_present db db'"
proof (induction rule: store_one.induct)
  case (insert_one u db fault now crypt "done" db' done')
  show ?case using insert_user_result [OF insert_one(2)] by (auto simp: keeps_present_def)
next
  case (change_one u db fault now "done" db' done')
  obtain k put where put: "\<forall>r. us_id (put r) = us_id r \<and> us_role (put r) = us_role r \<and> us_type (put r) = us_type r \<and>
      us_account (put r) = us_account r \<and> card_ok (put r)"
    and db': "db' = db\<lparr>ud_users := sql_update (\<lambda>r. us_id r = Some k) put (ud_users db),
      ud_roles := (if us_domains u \<noteq> [] then sql_delete (\<lambda>(sys_user, _). sys_user = k) (ud_roles db) else ud_roles db) @
        map (\<lambda>d. (k, role_id (ud_auth db) d)) (us_domains u)\<rparr>"
    using change_user_result [OF change_one(2)] by blast
  have "(if us_id r = Some k then put r else r) \<in> set (ud_users db')" if "r \<in> set (ud_users db)" for r
    using that by (auto simp: db' set_sql_update)
  then show ?case unfolding keeps_present_def using put by (metis (full_types))
qed

text \<open>
  Storing and changing users leaves the role a user works with, and the type of the account, as they
  are: a user whose role is taken away goes on with it until another is chosen.
\<close>

lemma present_role_stays:
  assumes "HandleUser fault now lib crypt user req db = (reply, db')" "r \<in> set (ud_users db)"
  shows "\<exists>r'\<in>set (ud_users db'). us_id r' = us_id r \<and> us_role r' = us_role r \<and> us_type r' = us_type r"
proof -
  have "keeps_present db db'" using HandleUser_stores [OF assms(1)]
  proof (induction rule: rtranclp_induct)
    case base
    show ?case by (auto simp: keeps_present_def)
  next
    case (step y z)
    then show ?case using store_one_present keeps_present_trans by metis
  qed
  then show ?thesis using assms(2) by (simp add: keeps_present_def)
qed

section \<open>Registration\<close>

lemma refused_none: "refused_users vs = [] \<Longrightarrow> v \<in> set vs \<Longrightarrow> (\<forall>u fs. v \<noteq> Refused u fs)"
  unfolding refused_users_def by (induction vs) (auto simp: map_filter_simps split: verdict.split_asm)

lemma existing_none: "existing_users vs = [] \<Longrightarrow> v \<in> set vs \<Longrightarrow> (\<forall>r. v \<noteq> Existing r)"
  unfolding existing_users_def by (induction vs) (auto simp: map_filter_simps split: verdict.split_asm)

lemma check_new_user_keeps:
  "check_new_user fault now lib db u = Inr (Fit v) \<Longrightarrow> us_email v = us_email u \<and> us_domains v = us_domains u \<and> us_category v = us_category u"
  by (auto simp: check_new_user_def check_phone_def and_then_Inr_iff judge_Fit Let_def split: prod.split_asm option.split_asm)

text \<open>
  (C21) A registration that stores anything was made with the code that is stored for that address, before
  it expired, and stores one user with one role, that of a student.
\<close>

theorem registration_needs_code:
  assumes "HandleRegisterByEmail fault now lib crypt rnd u code db = (r, db')" "db' \<noteq> db"
  shows "\<exists>e expires row. us_email u = Some e \<and> ud_codes db (''verify:email:'' @ ToLower e) = Some (code, expires) \<and> now < expires \<and>
    ud_users db' = ud_users db @ [row] \<and>
    ud_roles db' = ud_roles db @ [(ud_next db, role_id (ud_auth db) (Some student_role))] \<and> us_id row = Some (ud_next db)"
proof -
  let ?u0 = "u\<lparr>us_category := ''sys^user'', us_status := Some ''00'', us_domains := [Some student_role]\<rparr>"
  have email: "us_email u \<noteq> None"
    using assms by (auto simp: HandleRegisterByEmail_def close_user_tx_def split: if_split_asm)
  obtain vs users ids stored expires where vs: "judge_all (check_new_user fault now lib db) [?u0] = Inr vs" "refused_users vs = []" "existing_users vs = []"
    and code: "ud_codes db (''verify:email:'' @ ToLower (String (us_email (hd (fit_users vs))))) = Some (stored, expires)" "stored = code" "now < expires"
    and users: "give_accounts (account_row fault db) rnd 0 (fit_users vs) = Inr users" "InsertUsers fault now lib crypt users db = Inr (db', ids)"
    using HandleRegisterByEmail_changes [OF assms] by blast
  obtain v where v: "vs = [v]" "check_new_user fault now lib db ?u0 = Inr v" using vs(1) by (auto simp: and_then_Inr_iff)
  obtain w where w: "v = Fit w" using refused_none [OF vs(2)] existing_none [OF vs(3)] v(1) by (cases v) auto
  then have fit: "fit_users vs = [w]" using v(1) by (simp add: fit_users_def map_filter_simps)
  have same: "us_email w = us_email u" "us_domains w = [Some student_role]" using check_new_user_keeps v(2) w by fastforce+
  obtain x where x: "users = [x]" "us_domains x = us_domains w"
    using users(1) by (auto simp: fit and_then_Inr_iff split: sum.split_asm)
  have "insert_user fault now lib crypt x (db, []) = Inr (db', ids)"
    using users(2) by (auto simp: x(1) InsertUsers_def split: sum.split_asm)
  from insert_user_result [OF this] obtain row where "ud_users db' = ud_users db @ [row]" "us_id row = Some (ud_next db)"
    "ud_roles db' = ud_roles db @ map (\<lambda>d. (ud_next db, role_id (ud_auth db) d)) (us_domains x)" by auto
  then show ?thesis using code email same fit x(2) by auto
qed


section \<open>Examples\<close>

text \<open>A clerk who may do everything with users, and a code on its way to \<open>a@b.cn\<close>.\<close>

definition demo_phones :: "string phone_lib" where
  "demo_phones = \<lparr>ph_parse = (\<lambda>number region. (False, number)), ph_possible = (\<lambda>_. True), ph_valid = (\<lambda>_. True), ph_format = (\<lambda>s. s)\<rparr>"

definition demo_person :: user where
  "demo_person = \<lparr>us_id = None, us_category = ''sys^user'', us_type = None, us_official_name = None, us_id_card_type = None,
     us_id_card_no = None, us_id_card_file = No_bytes, us_country = None, us_province = None, us_city = None, us_district = None,
     us_addr = None, us_account = ''new'', us_mobile_phone = None, us_email = Some ''a@b.cn'', us_gender = None, us_birthday = None,
     us_creator = None, us_status = Some ''00'', us_remark = None, us_user_token = Some ''secret'', us_role = None,
     us_create_time = None, us_update_time = None, us_domains = [Some student_role]\<rparr>"

definition demo_clerk :: t_user where
  "demo_clerk = t_user.truncate (demo_person\<lparr>us_id := Some 1, us_account := ''clerk'', us_email := Some ''c@b.cn'', us_role := Some 4\<rparr>)"

definition demo_people :: user_db where
  "demo_people = \<lparr>
     ud_auth = \<lparr>au_domains = [demo_dom 1 ''cst'' 0, demo_dom 2 ''cst^root'' 0, demo_dom 3 ''assess^student'' 7, demo_dom 4 ''cst^clerk'' 7],
       au_apis = [demo_api 1 ''/api/user''\<lparr>ap_action := Some ''full''\<rparr>], au_grants = [demo_grant 1 4], au_next_domain = 5\<rparr>,
     ud_users = [demo_clerk], ud_roles = [(1, Some 4)], ud_next = 2,
     ud_codes = (\<lambda>key. if key = ''verify:email:a@b.cn'' then Some (''000042'', 1000) else None)\<rparr>"

definition demo_register :: "(user_error + user_reply) \<times> user_db" where
  "demo_register = HandleRegisterByEmail (\<lambda>_. False) 500 demo_phones (\<lambda>s. s) (\<lambda>_ _. 0) demo_person ''000042'' demo_people"

definition demo_demote :: "(user_error + user_reply) \<times> user_db" where
  "demo_demote = HandleUser (\<lambda>_. False) 500 demo_phones (\<lambda>s. s) (Some (Some 1, Some 4))
     (Put_users [demo_person\<lparr>us_id := Some 1, us_email := Some ''c@b.cn''\<rparr>]) demo_people"

lemma demo_people_wf: "auth_wf (ud_auth demo_people)" "distinct (map us_id (ud_users demo_people))"
  by code_simp+

lemma demo_register_stored: "map us_id (ud_users (snd demo_register)) = [Some 1, Some 2]"
  by code_simp

lemma demo_demote_roles: "ud_roles (snd demo_demote) = [(1, Some 3)]"
  by code_simp


lemma demo_people_users_wf: "users_wf demo_people"
  by (auto simp: users_wf_def demo_people_def demo_clerk_def demo_person_def t_user.truncate_def card_ok_def)

lemma demo_register_changes: "snd demo_register \<noteq> demo_people"
proof
  assume "snd demo_register = demo_people"
  then have "map us_id (ud_users demo_people) = [Some 1, Some 2]" using demo_register_stored by simp
  moreover have "map us_id (ud_users demo_people) = [Some 1]" by code_simp
  ultimately show False by simp
qed

lemma demo_register_step:
  "HandleRegisterByEmail (\<lambda>_. False) 500 demo_phones (\<lambda>s. s) (\<lambda>_ _. 0) demo_person ''000042'' demo_people = (fst demo_register, snd demo_register)"
  by (simp add: demo_register_def)

lemma demo_demote_step:
  "HandleUser (\<lambda>_. False) 500 demo_phones (\<lambda>s. s) (Some (Some 1, Some 4))
     (Put_users [demo_person\<lparr>us_id := Some 1, us_email := Some ''c@b.cn''\<rparr>]) demo_people = (fst demo_demote, snd demo_demote)"
  by (simp add: demo_demote_def)

lemma demo_demote_changes: "snd demo_demote \<noteq> demo_people"
proof
  assume "snd demo_demote = demo_people"
  then have "ud_roles demo_people = [(1, Some 3)]" using demo_demote_roles by simp
  then show False by (simp add: demo_people_def)
qed

lemma demo_register_reached: "(user_step demo_phones (\<lambda>s. s))\<^sup>*\<^sup>* demo_people (snd demo_register)"
  using user_step.register [OF demo_register_step] by simp

theorem no_new_super_admins_witness:
  "snd demo_register \<noteq> demo_people \<and> super_admins (snd demo_register) \<subseteq> super_admins demo_people"
  using no_new_super_admins [OF demo_register_reached demo_people_wf(1)] demo_register_changes by simp

theorem users_stay_in_shape_witness:
  "map us_id (ud_users (snd demo_register)) = [Some 1, Some 2] \<and> users_wf (snd demo_register)"
  using users_stay_in_shape [OF demo_register_reached demo_people_users_wf] demo_register_stored by simp

theorem users_need_grant_witness:
  "granted (ud_auth demo_people) (Some 4) ''/api/user'' ''full'' \<or> granted (ud_auth demo_people) (Some 4) ''/api/user'' ''update''"
  using users_need_grant [OF demo_demote_step demo_demote_changes] by (simp add: Let_def)

text \<open>The clerk is made a student and goes on working as a clerk.\<close>

lemma present_role_stays_witness:
  "ud_roles (snd demo_demote) = [(1, Some 3)] \<and> (\<exists>r\<in>set (ud_users (snd demo_demote)). us_id r = Some 1 \<and> us_role r = Some 4)"
proof -
  have "demo_clerk \<in> set (ud_users demo_people)" by (simp add: demo_people_def)
  moreover have "us_id demo_clerk = Some 1" "us_role demo_clerk = Some 4" by code_simp+
  ultimately show ?thesis using present_role_stays [OF demo_demote_step, of demo_clerk] demo_demote_roles by auto
qed

theorem registration_needs_code_witness:
  "\<exists>row. ud_users (snd demo_register) = ud_users demo_people @ [row] \<and> us_id row = Some 2 \<and>
    ud_roles (snd demo_register) = [(1, Some 4), (2, Some 3)]"
proof -
  have "ud_next demo_people = 2" "ud_roles demo_people = [(1, Some 4)]" "role_id (ud_auth demo_people) (Some student_role) = Some 3"
    by code_simp+
  then show ?thesis using registration_needs_code [OF demo_register_step demo_register_changes] by auto
qed

text \<open>
  The check looks for a card as it was typed, the insertion for its normal form: a card that is there
  passes the check with a small \<open>x\<close>, and the insertion then fails.
\<close>

definition demo_card :: user where
  "demo_card = demo_person\<lparr>us_id_card_type := Some CIDCardTypeResidentIdentityCard, us_id_card_no := Some ''11010519491231002x''\<rparr>"

lemma lower_x_card: "NormalizeAndValidateCNID demo_now ''11010519491231002x'' = Inr ''11010519491231002X''"
proof -
  have g: "list_all is_graphic ''11010519491231002x''" by code_simp
  moreover have "take 17 ''11010519491231002x'' = ''11010519491231002''" by simp
  moreover have "check_char ''11010519491231002x'' = CHR ''X''" by code_simp
  moreover have "map upper_char ''11010519491231002x'' = ''11010519491231002X''" by code_simp
  ultimately show ?thesis using demo_digits(2)
    by (simp add: NormalizeAndValidateCNID_def Let_def TrimSpace_graphic drop_spaces_graphic demo_birth)
qed

lemma typed_card_passes:
  fixes db :: user_db
  defines "db \<equiv> demo_people\<lparr>ud_users := [demo_clerk\<lparr>us_id_card_type := Some CIDCardTypeResidentIdentityCard,
    us_id_card_no := Some ''11010519491231002X''\<rparr>]\<rparr>"
  shows "check_keys (\<lambda>_. False) demo_now (\<lambda>_. True) demo_card db = Inr []"
    and "insert_user (\<lambda>_. False) demo_now demo_phones (\<lambda>s. s) demo_card (db, []) = Inl User_taken"
proof -
  have email: "IsValidEmail ''a@b.cn''" and card: "CheckIDCardTypeValid CIDCardTypeResidentIdentityCard" by code_simp+
  show "check_keys (\<lambda>_. False) demo_now (\<lambda>_. True) demo_card db = Inr []"
    using email card by (simp add: check_keys_def when_found_def CheckTUserRowExists_def db_def demo_people_def demo_card_def demo_person_def
      demo_clerk_def t_user.truncate_def sql_first_def lower_x_card is_ok_def)
  show "insert_user (\<lambda>_. False) demo_now demo_phones (\<lambda>s. s) demo_card (db, []) = Inl User_taken"
    by (simp add: insert_user_def normal_fields_def normal_phone_def normal_card_def lower_x_card db_def demo_people_def demo_card_def
      demo_person_def demo_clerk_def t_user.truncate_def clashing_def new_row_def)
qed

end
