(* ===== verification/Practice_Rules.thy ===== *)
theory Practice_Rules
  imports Marking Paper_Sheets Domain_Admin
begin

text \<open>
  Practices, \<open>serve/practice_mgt\<close> (\<open>utils.go\<close>, \<open>dao.go\<close>): the tables, the checks of a submitted practice
  and the list of its students. A practice is made by a teacher and answered by the students of its
  list, as often as it allows.

  \<open>fault\<close> says which statements the database refuses; the keys by which tests force errors are not set.
\<close>

section \<open>State\<close>

text \<open>\<open>cmn.TPractice\<close>: a row of \<open>t_practice\<close>, and also what a client sends, where a field may be missing.\<close>

record practice =
  pc_id :: null_int
  pc_name :: null_string
  pc_correct_mode :: null_string
  pc_type :: null_string
  pc_creator :: null_int
  pc_updated_by :: null_int
  pc_addi :: raw_json
  pc_status :: null_string
  pc_allowed :: null_int
  pc_paper :: null_int
  pc_exam_paper :: null_int
  pc_create_time :: null_int
  pc_update_time :: null_int
  pc_domain :: null_int

text \<open>A row of \<open>t_practice_student\<close>, whose key is the pair of student and practice.\<close>

record roster_row =
  rs_student :: int
  rs_practice :: int
  rs_creator :: int
  rs_create_time :: int
  rs_updated_by :: int
  rs_update_time :: int
  rs_status :: null_string

text \<open>The columns of \<open>t_paper\<close> that practices read.\<close>

record paper_head =
  ph_id :: int
  ph_name :: null_string
  ph_paper_status :: null_string
  ph_exam_paper :: null_int
  ph_duration :: null_int

text \<open>The columns of \<open>t_practice_submissions\<close> besides those of \<open>practice_row\<close>.\<close>

record submission_columns =
  sc_practice :: int
  sc_student :: int
  sc_paper :: null_int
  sc_attempt :: int

text \<open>
  The submissions and their answers are in \<open>pw_mark\<close>; the further columns of a submission are found
  by its id, and by the id of a repetition of wrong questions the submission that it repeats. \<open>t_student_answers\<close> is \<open>pp_rows\<close>; the columns the other parts use are also in \<open>ad_answers\<close>.
\<close>

record practice_world =
  pw_practices :: "practice list"
  pw_students :: "roster_row list"
  pw_heads :: "paper_head list"
  pw_mark :: mark_db
  pw_columns :: "int \<Rightarrow> submission_columns"
  pw_wrong_of :: "int \<Rightarrow> int"
  pw_paper :: paper_db
  pw_next_practice :: int
  pw_next_submission :: int

abbreviation pw_answer :: "practice_world \<Rightarrow> answer_db" where
  "pw_answer w \<equiv> md_answer (pw_mark w)"

abbreviation pw_submissions :: "practice_world \<Rightarrow> practice_row list" where
  "pw_submissions w \<equiv> ad_practice (pw_answer w)"

text \<open>\<open>pv_default\<close> is the status that a new row of \<open>t_practice\<close> gets, \<open>pv_order\<close> the order of Go's maps.\<close>

record practice_env =
  pv_fault :: "string \<Rightarrow> bool"
  pv_parses :: "string \<Rightarrow> bool"
  pv_now :: int
  pv_default :: null_string
  pv_order :: "practice list \<Rightarrow> practice list"
  pv_rnd :: "nat \<Rightarrow> nat \<Rightarrow> nat"
  pv_blank :: sheet_row
  pv_auth :: auth_db

datatype practice_error =
    Practice_sql string
  | Operator_invalid int
  | Practice_id_invalid int
  | Practice_ids_missing
  | Practice_absent
  | Practice_released
  | Practice_field string
  | Practice_student_invalid int
  | Practice_repeated
  | Practice_authority domain_error
  | Practice_forbidden string
  | Practice_method string
  | Practice_request resp_error
  | Practice_ids_malformed "string list"
  | Practice_mixed
  | Practice_void
  | Practice_answered "string list"
  | Practice_status_unknown string
  | Practice_unreleased null_string
  | Practice_marking mark_error
  | Practice_papers paper_error
  | Practice_unpublished
  | Practice_not_open
  | Practice_pending
  | Practice_used_up int

section \<open>Codes\<close>

definition PracticePending :: string where "PracticePending = ''00''"
definition PracticeReleased :: string where "PracticeReleased = ''02''"
definition PracticeDeleted :: string where "PracticeDeleted = ''04''"
definition PracticeDisabled :: string where "PracticeDisabled = ''06''"

definition StudentNormal :: string where "StudentNormal = ''00''"
definition StudentRemoved :: string where "StudentRemoved = ''02''"

definition SubmissionOpen :: string where "SubmissionOpen = ''00''"
definition SubmissionPending :: string where "SubmissionPending = ''06''"
definition SubmissionMarked :: string where "SubmissionMarked = ''08''"
definition SubmissionDisabled :: string where "SubmissionDisabled = ''10''"

lemmas practice_codes = PracticePending_def PracticeReleased_def PracticeDeleted_def PracticeDisabled_def
  StudentNormal_def StudentRemoved_def SubmissionOpen_def SubmissionPending_def SubmissionMarked_def
  SubmissionDisabled_def

section \<open>Checks\<close>

definition ValidatePractice :: "practice \<Rightarrow> int list \<Rightarrow> practice_error + unit" where
  "ValidatePractice p ps =
    (if String (pc_name p) = [] then Inl (Practice_field ''Name'')
     else if String (pc_correct_mode p) \<notin> {''10'', ''00''} then Inl (Practice_field ''CorrectMode'')
     else if Int64 (pc_paper p) \<le> 0 then Inl (Practice_field ''PaperID'')
     else if String (pc_type p) \<notin> {''02'', ''00'', ''04''} then Inl (Practice_field ''Type'')
     else if pc_allowed p = None \<or> Int64 (pc_allowed p) < 0 then Inl (Practice_field ''AllowedAttempts'')
     else case List.find (\<lambda>i. i \<le> 0) ps of Some i \<Rightarrow> Inl (Practice_student_invalid i) | None \<Rightarrow> Inr ())"

text \<open>What the authority lets a user do with an API: read, create, update and delete.\<close>

definition GetAuthAPIAccessible ::
    "authority \<Rightarrow> string \<Rightarrow> domain_error + bool \<times> bool \<times> bool \<times> bool" where
  "GetAuthAPIAccessible a apiPath =
    (let may = CheckUserAPIAccessible (Inr a) apiPath in
     and_then (may ''full'') (\<lambda>full.
     if full then Inr (True, True, True, True)
     else and_then (may ''read'') (\<lambda>r. and_then (may ''create'') (\<lambda>c. and_then (may ''update'') (\<lambda>u.
          and_then (may ''delete'') (\<lambda>d. Inr (r, c, u, d)))))))"

section \<open>Reading\<close>

text \<open>Of a \<open>NULL\<close> status no comparison is true.\<close>

definition practice_alive :: "practice \<Rightarrow> bool" where
  "practice_alive p \<longleftrightarrow> pc_status p \<noteq> None \<and> pc_status p \<noteq> Some PracticeDeleted"

definition loaded :: "practice \<Rightarrow> practice" where
  "loaded p = p\<lparr>pc_creator := None, pc_updated_by := None, pc_create_time := None, pc_update_time := None, pc_domain := None\<rparr>"

definition LoadPracticeById ::
    "(string \<Rightarrow> bool) \<Rightarrow> int \<Rightarrow> practice_world \<Rightarrow> practice_error + practice \<times> string \<times> nat" where
  "LoadPracticeById fault pid w =
    (if pid \<le> 0 then Inl (Practice_id_invalid pid)
     else if fault ''LoadPracticeById'' then Inl (Practice_sql ''LoadPracticeById'')
     else case sql_first (\<lambda>p. pc_id p = Some pid \<and> practice_alive p) (pw_practices w) of
       None \<Rightarrow> Inl Practice_absent
     | Some p \<Rightarrow>
         Inr (loaded p,
              (case sql_first (\<lambda>h. Some (ph_id h) = pc_paper p \<and> ph_paper_status h \<notin> {None, Some ''02'', Some ''04''}) (pw_heads w) of
                 None \<Rightarrow> [] | Some h \<Rightarrow> String (ph_name h)),
              sql_count (\<lambda>s. rs_practice s = pid \<and> rs_status s = Some StudentNormal) (pw_students w)))"

definition LoadPracticeByIDs ::
    "(string \<Rightarrow> bool) \<Rightarrow> int list \<Rightarrow> practice_world \<Rightarrow> practice_error + practice list" where
  "LoadPracticeByIDs fault ids w =
    (if ids = [] then Inl Practice_ids_missing
     else if fault ''LoadPracticeByIDs'' then Inl (Practice_sql ''LoadPracticeByIDs'')
     else let ps = filter (\<lambda>p. pc_id p \<in> Some ` set ids \<and> practice_alive p) (pw_practices w)
       in if ps = [] then Inl Practice_absent else Inr (map loaded ps))"

section \<open>The list of students\<close>

definition roster_key :: "roster_row \<Rightarrow> int \<times> int" where
  "roster_key r = (rs_student r, rs_practice r)"

definition renew :: "roster_row \<Rightarrow> roster_row \<Rightarrow> roster_row" where
  "renew n r = r\<lparr>rs_status := rs_status n, rs_updated_by := rs_updated_by n, rs_update_time := rs_update_time n\<rparr>"

text \<open>
  \<open>INSERT ... ON CONFLICT (student_id, practice_id) DO UPDATE ... WHERE again\<close>: the new rows one after
  the other. The database refuses to change a row that the statement has already written, which
  \<open>hit\<close> collects.
\<close>

fun upsert_roster ::
    "(roster_row \<Rightarrow> bool) \<Rightarrow> (int \<times> int) list \<Rightarrow> roster_row list \<Rightarrow> roster_row list \<Rightarrow> practice_error + roster_row list" where
  "upsert_roster again hit [] rows = Inr rows"
| "upsert_roster again hit (n # ns) rows =
    (if roster_key n \<in> set hit then Inl Practice_repeated
     else case sql_first (\<lambda>r. roster_key r = roster_key n) rows of
       None \<Rightarrow> upsert_roster again (roster_key n # hit) ns (rows @ [n])
     | Some r \<Rightarrow>
         if again r then upsert_roster again (roster_key n # hit) ns (sql_update (\<lambda>r. roster_key r = roster_key n) (renew n) rows)
         else upsert_roster again hit ns rows)"

definition roster_entry :: "int \<Rightarrow> int \<Rightarrow> int \<Rightarrow> int \<Rightarrow> roster_row" where
  "roster_entry now uid pid sid =
    \<lparr>rs_student = sid, rs_practice = pid, rs_creator = uid, rs_create_time = now, rs_updated_by = uid,
     rs_update_time = now, rs_status = Some StudentNormal\<rparr>"

definition strike :: "int \<Rightarrow> int \<Rightarrow> roster_row \<Rightarrow> roster_row" where
  "strike now uid r = r\<lparr>rs_status := Some StudentRemoved, rs_update_time := now, rs_updated_by := uid\<rparr>"

text \<open>The statements of the two functions with a list that is not empty: who is on it and who is not.\<close>

definition replace_roster ::
    "(string \<Rightarrow> bool) \<Rightarrow> int \<Rightarrow> int \<Rightarrow> int \<Rightarrow> int list \<Rightarrow> roster_row list \<Rightarrow> practice_error + roster_row list" where
  "replace_roster fault now pid uid ps rows =
    (if fault ''add PracticeStudent'' then Inl (Practice_sql ''add PracticeStudent'')
     else and_then (upsert_roster (\<lambda>r. rs_status r \<noteq> Some StudentNormal) [] (map (roster_entry now uid pid) ps) rows) (\<lambda>rows'.
       if fault ''delete PracticeStudent'' then Inl (Practice_sql ''delete PracticeStudent'')
       else Inr (sql_update (\<lambda>r. rs_practice r = pid \<and> rs_student r \<notin> set ps) (strike now uid) rows')))"

text \<open>
  The transaction of the two functions. Its commit happens after the reply has been decided, so a
  commit that fails is not reported.
\<close>

definition roster_tx ::
    "(string \<Rightarrow> bool) \<Rightarrow> practice_world \<Rightarrow> practice_error + roster_row list \<Rightarrow> (practice_error + unit) \<times> practice_world" where
  "roster_tx fault w r =
    (case r of Inl e \<Rightarrow> (Inl e, w)
     | Inr rows \<Rightarrow> (Inr (), if fault ''commit'' then w else w\<lparr>pw_students := rows\<rparr>))"

definition roster_guards :: "(string \<Rightarrow> bool) \<Rightarrow> int \<Rightarrow> int \<Rightarrow> practice_error + unit" where
  "roster_guards fault pid uid =
    (if pid \<le> 0 then Inl (Practice_id_invalid pid)
     else if uid \<le> 0 then Inl (Operator_invalid uid)
     else if fault ''beginTx'' then Inl (Practice_sql ''beginTx'') else Inr ())"

definition UpsertPracticeStudent ::
    "(string \<Rightarrow> bool) \<Rightarrow> int \<Rightarrow> int \<Rightarrow> int \<Rightarrow> int list \<Rightarrow> practice_world \<Rightarrow> (practice_error + unit) \<times> practice_world" where
  "UpsertPracticeStudent fault now pid uid ps w =
    (if ps = [] then (Inr (), w)
     else roster_tx fault w (and_then (roster_guards fault pid uid) (\<lambda>_.
       replace_roster fault now pid uid ps (pw_students w))))"

definition UpsertPracticeStudentV2 ::
    "(string \<Rightarrow> bool) \<Rightarrow> int \<Rightarrow> int \<Rightarrow> int \<Rightarrow> int list \<Rightarrow> practice_world \<Rightarrow> (practice_error + unit) \<times> practice_world" where
  "UpsertPracticeStudentV2 fault now pid uid ps w =
    roster_tx fault w (and_then (roster_guards fault pid uid) (\<lambda>_.
      if ps = []
      then if fault ''clear PracticeStudent'' then Inl (Practice_sql ''clear PracticeStudent'')
           else Inr (sql_update (\<lambda>r. rs_practice r = pid \<and> rs_status r \<notin> {None, Some StudentRemoved})
                  (strike now uid) (pw_students w))
      else replace_roster fault now pid uid ps (pw_students w)))"

text \<open>
  The practices that come with a plan, for a student who has registered for it; \<open>plans\<close> is
  \<open>t_register_practice\<close>. It works in the transaction of its caller.
\<close>

definition BoundPracticeEnterRegisterPlan ::
    "(string \<Rightarrow> bool) \<Rightarrow> int \<Rightarrow> (int \<times> int) list \<Rightarrow> int \<Rightarrow> int \<Rightarrow> practice_world \<Rightarrow> practice_error + practice_world" where
  "BoundPracticeEnterRegisterPlan fault now plans uid rpid w =
    (if uid \<le> 0 \<or> rpid \<le> 0 then Inl (Operator_invalid uid)
     else if fault ''register_practice'' then Inl (Practice_sql ''register_practice'')
     else
       let pids = map snd (filter (\<lambda>(r, p). r = rpid \<and>
             list_ex (\<lambda>c. pc_id c = Some p \<and> pc_status c = Some PracticeReleased) (pw_practices w)) plans)
       in if pids = [] then Inr w
          else if fault ''bind'' then Inl (Practice_sql ''bind'')
          else and_then (upsert_roster (\<lambda>_. True) [] (map (\<lambda>p. roster_entry now uid p uid) pids) (pw_students w)) (\<lambda>rows.
            Inr (w\<lparr>pw_students := rows\<rparr>)))"

end
