(* ===== verification/Practice_Admin.thy ===== *)
theory Practice_Admin
  imports Practice_Rules
begin

text \<open>
  Making, changing, releasing, deleting and voiding practices, \<open>serve/practice_mgt\<close> (\<open>dao.go\<close>,
  \<open>practice.go\<close>). Saving a practice is not a transaction: the practice and the list of its students are
  stored one after the other. A change of the status is one, with the configuration of the marking.
\<close>

section \<open>Saving\<close>

definition given :: "'a option \<Rightarrow> 'a option \<Rightarrow> 'a option" where
  "given new old = (if new = None then old else new)"

text \<open>
  \<open>S2Map\<close> and \<open>RemoveFields\<close>: the columns that the client sent, without the key, the creator, the time
  of creation and, unless the status is what is changed, the status.
\<close>

definition assign_columns :: "bool \<Rightarrow> practice \<Rightarrow> practice \<Rightarrow> practice" where
  "assign_columns isOperate p r =
     r\<lparr>pc_name := given (pc_name p) (pc_name r), pc_correct_mode := given (pc_correct_mode p) (pc_correct_mode r),
       pc_type := given (pc_type p) (pc_type r), pc_updated_by := given (pc_updated_by p) (pc_updated_by r),
       pc_addi := (if pc_addi p = No_bytes then pc_addi r else pc_addi p),
       pc_status := (if isOperate then given (pc_status p) (pc_status r) else pc_status r),
       pc_allowed := given (pc_allowed p) (pc_allowed r), pc_paper := given (pc_paper p) (pc_paper r),
       pc_exam_paper := given (pc_exam_paper p) (pc_exam_paper r),
       pc_update_time := given (pc_update_time p) (pc_update_time r), pc_domain := given (pc_domain p) (pc_domain r)\<rparr>"

text \<open>Whose practices a statement may touch: one's own, and those of the domains in reach.\<close>

definition practice_reach :: "authority \<Rightarrow> int \<Rightarrow> practice \<Rightarrow> bool" where
  "practice_reach a uid p \<longleftrightarrow> pc_creator p = Some uid \<or> pc_domain p \<in> Some ` set (at_domains a)"

definition UpdatePractice ::
    "practice_env \<Rightarrow> authority \<Rightarrow> practice \<Rightarrow> int list \<Rightarrow> int \<Rightarrow> bool \<Rightarrow> bool \<Rightarrow> practice_world \<Rightarrow>
      (practice_error + unit) \<times> practice_world" where
  "UpdatePractice V a p ps uid isOperate isClear w =
    (if uid \<le> 0 then (Inl (Operator_invalid uid), w)
     else if pv_fault V ''UpdatePractice'' then (Inl (Practice_sql ''UpdatePractice''), w)
     else
       let p' = p\<lparr>pc_updated_by := Some uid, pc_update_time := Some (pv_now V)\<rparr>;
           w1 = w\<lparr>pw_practices := sql_update (\<lambda>r. pc_id r = pc_id p \<and> pc_id p \<noteq> None \<and> practice_reach a uid r)
                  (assign_columns isOperate p') (pw_practices w)\<rparr>
       in if \<not> isClear \<and> ps = [] then (Inr (), w1)
          else UpsertPracticeStudentV2 (pv_fault V) (pv_now V) (Int64 (pc_id p)) uid ps w1)"

definition new_practice :: "practice_env \<Rightarrow> authority \<Rightarrow> practice \<Rightarrow> int \<Rightarrow> int \<Rightarrow> practice" where
  "new_practice V a p uid i =
    \<lparr>pc_id = Some i, pc_name = pc_name p, pc_correct_mode = pc_correct_mode p, pc_type = pc_type p, pc_creator = Some uid,
     pc_updated_by = None, pc_addi = pc_addi p, pc_status = pv_default V, pc_allowed = pc_allowed p, pc_paper = pc_paper p,
     pc_exam_paper = None, pc_create_time = Some (pv_now V), pc_update_time = Some (pv_now V),
     pc_domain = Some (dm_id (at_domain a))\<rparr>"

definition AddPractice ::
    "practice_env \<Rightarrow> authority \<Rightarrow> practice \<Rightarrow> int list \<Rightarrow> int \<Rightarrow> practice_world \<Rightarrow> (practice_error + unit) \<times> practice_world" where
  "AddPractice V a p ps uid w =
    (if pv_fault V ''AddPractice'' then (Inl (Practice_sql ''AddPractice''), w)
     else
       let i = pw_next_practice w;
           w1 = w\<lparr>pw_practices := pw_practices w @ [new_practice V a p uid i], pw_next_practice := i + 1\<rparr>
       in if ps = [] then (Inr (), w1) else UpsertPracticeStudentV2 (pv_fault V) (pv_now V) i uid ps w1)"

definition UpsertPractice ::
    "practice_env \<Rightarrow> authority \<Rightarrow> practice \<Rightarrow> int list \<Rightarrow> int \<Rightarrow> bool \<Rightarrow> practice_world \<Rightarrow>
      (practice_error + unit) \<times> practice_world" where
  "UpsertPractice V a p ps uid isClearStudent w =
    (if uid \<le> 0 then (Inl (Operator_invalid uid), w)
     else case pc_id p of
       None \<Rightarrow> AddPractice V a p ps uid w
     | Some pid \<Rightarrow>
         (case LoadPracticeById (pv_fault V) pid w of
            Inl e \<Rightarrow> (Inl e, w)
          | Inr (p2, _, _) \<Rightarrow>
              if String (pc_status p2) = PracticeReleased then (Inl Practice_released, w)
              else UpdatePractice V a p ps uid False isClearStudent w))"

section \<open>Changing the status\<close>

definition release_request :: "int \<Rightarrow> practice \<Rightarrow> int \<Rightarrow> marker_req" where
  "release_request pid p uid = \<lparr>hr_markers = [uid], hr_examinees = [], hr_mode = String (pc_correct_mode p), hr_session = 0,
     hr_practice = pid, hr_status = ''00'', hr_sessions = [], hr_practices = []\<rparr>"

definition clear_request :: "int list \<Rightarrow> marker_req" where
  "clear_request ids = \<lparr>hr_markers = [], hr_examinees = [], hr_mode = [], hr_session = 0, hr_practice = 0,
     hr_status = ''02'', hr_sessions = [], hr_practices = ids\<rparr>"

definition configure_marking ::
    "practice_env \<Rightarrow> int \<Rightarrow> marker_req \<Rightarrow> practice_world \<Rightarrow> practice_error + practice_world" where
  "configure_marking V uid r w =
    map_sum Practice_marking (\<lambda>M. w\<lparr>pw_mark := M\<rparr>)
      (HandleMarkerInfo (pv_parses V) (pv_fault V) (pv_rnd V 0) (pv_now V) uid r (pw_mark w))"

definition move_practices ::
    "practice_env \<Rightarrow> (practice \<Rightarrow> bool) \<Rightarrow> string \<Rightarrow> (practice \<Rightarrow> practice) \<Rightarrow> int \<Rightarrow> practice_world \<Rightarrow> practice_world" where
  "move_practices V p status f uid w = w\<lparr>pw_practices := sql_update p (\<lambda>r. f (r\<lparr>pc_status := Some status,
     pc_update_time := Some (pv_now V), pc_updated_by := Some uid\<rparr>)) (pw_practices w)\<rparr>"

text \<open>The published copy of the paper of a practice; a \<open>NULL\<close> does not scan.\<close>

definition released_paper :: "(string \<Rightarrow> bool) \<Rightarrow> (practice \<Rightarrow> bool) \<Rightarrow> int \<Rightarrow> practice_world \<Rightarrow> practice_error + int" where
  "released_paper fault mine pid w =
    (if fault ''exampaper_id'' then Inl Practice_unpublished
     else case sql_first (\<lambda>p. pc_id p = Some pid \<and> mine p) (pw_practices w) of
       None \<Rightarrow> Inl Practice_unpublished
     | Some p \<Rightarrow>
         (case sql_first (\<lambda>h. Some (ph_id h) = pc_paper p \<and> ph_paper_status h = Some ''06'') (pw_heads w) of
            None \<Rightarrow> Inl Practice_unpublished
          | Some h \<Rightarrow> (case ph_exam_paper h of None \<Rightarrow> Inl Practice_unpublished | Some i \<Rightarrow> Inr i)))"

definition release_practice ::
    "practice_env \<Rightarrow> (practice \<Rightarrow> bool) \<Rightarrow> int \<Rightarrow> practice \<Rightarrow> practice_world \<Rightarrow> practice_error + practice_world" where
  "release_practice V mine uid p w =
    and_then (released_paper (pv_fault V) mine (Int64 (pc_id p)) w) (\<lambda>examPaperId.
      if pv_fault V ''release'' then Inl (Practice_sql ''release'')
      else configure_marking V uid (release_request (Int64 (pc_id p)) p uid)
        (move_practices V (\<lambda>r. pc_id r = pc_id p \<and> mine r) PracticeReleased (\<lambda>r. r\<lparr>pc_exam_paper := Some examPaperId\<rparr>) uid w))"

definition answered :: "practice_world \<Rightarrow> int \<Rightarrow> bool" where
  "answered w pid \<longleftrightarrow> list_ex (\<lambda>s. sc_practice (pw_columns w (pr_id s)) = pid) (pw_submissions w)"

text \<open>Voiding leaves no submission of the practices in force, nor a repetition of one.\<close>

definition void_submission :: "int \<Rightarrow> int \<Rightarrow> practice_row \<Rightarrow> practice_row" where
  "void_submission now uid s = s\<lparr>pr_status := SubmissionDisabled, pr_update_time := Some now, pr_updated_by := Some uid\<rparr>"

definition void_submissions :: "practice_env \<Rightarrow> int \<Rightarrow> int list \<Rightarrow> practice_world \<Rightarrow> practice_world" where
  "void_submissions V uid ids w =
    (let mine = (\<lambda>i. i \<in> pr_id ` set (pw_submissions w) \<and> sc_practice (pw_columns w i) \<in> set ids); A = pw_answer w in
     w\<lparr>pw_mark := (pw_mark w)\<lparr>md_answer := A\<lparr>
       ad_practice := sql_update (\<lambda>s. mine (pr_id s)) (void_submission (pv_now V) uid) (ad_practice A),
       ad_wrong := sql_update (\<lambda>s. mine (pw_wrong_of w (pr_id s))) (void_submission (pv_now V) uid) (ad_wrong A)\<rparr>\<rparr>\<rparr>)"

text \<open>
  The three changes, in a transaction: \<open>ps\<close> are the practices that were loaded for \<open>ids\<close>, \<open>mine\<close> those
  that the statements on \<open>t_practice\<close> may touch. The statements on the submissions and on the marking
  do not ask for it.
\<close>

definition delete_practices ::
    "practice_env \<Rightarrow> (practice \<Rightarrow> bool) \<Rightarrow> int \<Rightarrow> int list \<Rightarrow> practice list \<Rightarrow> practice_world \<Rightarrow> practice_error + practice_world" where
  "delete_practices V mine uid ids ps w =
    (if pv_fault V ''answered'' then Inl (Practice_sql ''answered'')
     else
       let names = map (\<lambda>p. String (pc_name p)) (filter (\<lambda>p. answered w (Int64 (pc_id p))) (pv_order V ps))
       in if names \<noteq> [] then Inl (Practice_answered names)
          else if pv_fault V ''delete'' then Inl (Practice_sql ''delete'')
          else configure_marking V uid (clear_request ids)
            (move_practices V (\<lambda>r. pc_id r \<in> Some ` set ids \<and> mine r) PracticeDeleted (\<lambda>r. r) uid w))"

definition void_practices ::
    "practice_env \<Rightarrow> (practice \<Rightarrow> bool) \<Rightarrow> int \<Rightarrow> int list \<Rightarrow> practice_world \<Rightarrow> practice_error + practice_world" where
  "void_practices V mine uid ids w =
    (if pv_fault V ''void'' then Inl (Practice_sql ''void'')
     else configure_marking V uid (clear_request ids) (void_submissions V uid ids
            (move_practices V (\<lambda>r. pc_id r \<in> Some ` set ids \<and> mine r) PracticeDisabled (\<lambda>r. r) uid w)))"

definition set_practice_status ::
    "practice_env \<Rightarrow> (practice \<Rightarrow> bool) \<Rightarrow> int \<Rightarrow> int list \<Rightarrow> practice list \<Rightarrow> string \<Rightarrow> practice_world \<Rightarrow>
      practice_error + practice_world" where
  "set_practice_status V mine uid ids ps status w =
    (if status = PracticeReleased then for_each (release_practice V mine uid) (pv_order V ps) w
     else if status = PracticeDeleted then delete_practices V mine uid ids ps w
     else if status = PracticeDisabled then void_practices V mine uid ids w
     else Inl (Practice_status_unknown status))"

text \<open>The commit comes after the reply has been decided.\<close>

definition status_tx ::
    "(string \<Rightarrow> bool) \<Rightarrow> practice_world \<Rightarrow> practice_error + practice_world \<Rightarrow> (practice_error + unit) \<times> practice_world" where
  "status_tx fault w r = (case r of Inl e \<Rightarrow> (Inl e, w) | Inr w' \<Rightarrow> (Inr (), if fault ''commit'' then w else w'))"

definition OperatePracticeStatus ::
    "practice_env \<Rightarrow> int \<Rightarrow> string \<Rightarrow> int \<Rightarrow> practice_world \<Rightarrow> (practice_error + unit) \<times> practice_world" where
  "OperatePracticeStatus V pid status uid w =
    status_tx (pv_fault V) w (and_then (LoadPracticeById (pv_fault V) pid w) (\<lambda>(p, _, _).
      if pv_fault V ''beginTx'' then Inl (Practice_sql ''beginTx'')
      else set_practice_status (V\<lparr>pv_order := \<lambda>ps. ps\<rparr>) (\<lambda>_. True) uid [pid] [p] status w))"

text \<open>All the practices of a request are in one status, and not in the one of voided practices.\<close>

fun same_status :: "string \<Rightarrow> practice list \<Rightarrow> practice_error + unit" where
  "same_status sign [] = Inr ()"
| "same_status sign (p # ps) =
    (let st = String (pc_status p); sign' = (if sign = [] then st else sign)
     in if st \<noteq> sign' then Inl Practice_mixed
        else if st = PracticeDisabled then Inl Practice_void
        else same_status sign' ps)"

definition OperatePracticeStatusV2 ::
    "practice_env \<Rightarrow> authority \<Rightarrow> int list \<Rightarrow> string \<Rightarrow> int \<Rightarrow> practice_world \<Rightarrow> (practice_error + unit) \<times> practice_world" where
  "OperatePracticeStatusV2 V a ids status uid w =
    status_tx (pv_fault V) w (and_then (LoadPracticeByIDs (pv_fault V) ids w) (\<lambda>ps.
      if pv_fault V ''beginTx'' then Inl (Practice_sql ''beginTx'')
      else and_then (same_status [] (pv_order V ps)) (\<lambda>_.
        set_practice_status V (practice_reach a uid) uid ids ps status w)))"

section \<open>Requests\<close>

text \<open>
  The user of a request: the id and the role. Every request asks for the authority first, and for what
  it lets the user do with the API; the methods that only read are left out.
\<close>

definition practice_access ::
    "practice_env \<Rightarrow> null_int \<times> null_int \<Rightarrow> string \<Rightarrow> practice_error + int \<times> authority \<times> bool \<times> bool \<times> bool \<times> bool" where
  "practice_access V user apiPath =
    (let userID = Int64 (fst user) in
     if userID \<le> 0 then Inl (Operator_invalid userID)
     else case GetUserAuthority (pv_fault V) (pv_auth V) (Some user) of
       Inl e \<Rightarrow> Inl (Practice_authority e)
     | Inr a \<Rightarrow>
         (case GetAuthAPIAccessible a apiPath of
            Inl e \<Rightarrow> Inl (Practice_authority e) | Inr rights \<Rightarrow> Inr (userID, a, rights)))"

text \<open>A request that ends before it works on the tables.\<close>

definition with_access ::
    "'w \<Rightarrow> practice_error + 'a \<Rightarrow> ('a \<Rightarrow> (practice_error + unit) \<times> 'w) \<Rightarrow> (practice_error + unit) \<times> 'w" where
  "with_access w r f = (case r of Inl e \<Rightarrow> (Inl e, w) | Inr x \<Rightarrow> f x)"

record practice_form =
  pf_practice :: practice
  pf_students :: "int list"
  pf_clear :: bool

definition practiceH ::
    "practice_env \<Rightarrow> null_int \<times> null_int \<Rightarrow> practice_form http_body \<Rightarrow> practice_world \<Rightarrow>
      (practice_error + unit) \<times> practice_world" where
  "practiceH V user body w =
    with_access w (practice_access V user ''/api/practice'') (\<lambda>(userID, a, _, create, update, _).
    with_access w (map_sum Practice_request id (read_body body)) (\<lambda>f.
    with_access w (ValidatePractice (pf_practice f) (pf_students f)) (\<lambda>_.
      if pc_id (pf_practice f) = None \<and> \<not> create then (Inl (Practice_forbidden ''create''), w)
      else if pc_id (pf_practice f) \<noteq> None \<and> \<not> update then (Inl (Practice_forbidden ''update''), w)
      else UpsertPractice V a (pf_practice f) (pf_students f) userID (pf_clear f) w)))"

definition practiceStudentListH ::
    "practice_env \<Rightarrow> string \<Rightarrow> null_int \<times> null_int \<Rightarrow> (int \<times> int list) http_body \<Rightarrow> practice_world \<Rightarrow>
      (practice_error + unit) \<times> practice_world" where
  "practiceStudentListH V path user body w =
    with_access w (practice_access V user path) (\<lambda>(userID, a, _, _, update, _).
      if \<not> update then (Inl (Practice_forbidden ''update''), w)
      else with_access w (map_sum Practice_request id (read_body body)) (\<lambda>(pid, students).
        if pid \<le> 0 then (Inl (Practice_field ''Pid''), w)
        else with_access w (LoadPracticeById (pv_fault V) pid w) (\<lambda>(rp, _, _).
          if String (pc_status rp) \<noteq> PracticeReleased then (Inl (Practice_unreleased (pc_status rp)), w)
          else UpsertPracticeStudentV2 (pv_fault V) (pv_now V) pid userID students w)))"

text \<open>The ids of \<open>?id=1,2,3\<close>; empty parts are skipped.\<close>

definition id_parts :: "string \<Rightarrow> (string \<times> int option) list" where
  "id_parts idStr = map (\<lambda>s. (s, ParseInt64 (TrimSpace s))) (filter (\<lambda>s. TrimSpace s \<noteq> []) (Split (CHR '','') idStr))"

definition practice_ids :: "string \<Rightarrow> practice_error + int list" where
  "practice_ids idStr =
    (if idStr = [] then Inl Practice_ids_missing
     else
       let parts = id_parts idStr; bad = map fst (filter (\<lambda>(s, i). i = None) parts)
       in if bad \<noteq> [] then Inl (Practice_ids_malformed bad)
          else if parts = [] then Inl Practice_ids_missing
          else Inr (map (\<lambda>(s, i). Int64 i) parts))"

text \<open>A method other than \<open>PATCH\<close> gets no reply of its own and changes nothing.\<close>

definition updatePracticeStatus ::
    "practice_env \<Rightarrow> null_int \<times> null_int \<Rightarrow> string \<Rightarrow> string \<Rightarrow> string \<Rightarrow> practice_world \<Rightarrow>
      (practice_error + unit) \<times> practice_world" where
  "updatePracticeStatus V user httpMethod idStr status w =
    with_access w (practice_access V user ''/api/practice/status'') (\<lambda>(userID, a, _, _, update, _).
      if ToLower httpMethod \<noteq> ''patch'' then (Inr (), w)
      else if \<not> update then (Inl (Practice_forbidden ''update''), w)
      else with_access w (practice_ids idStr) (\<lambda>ids. OperatePracticeStatusV2 V a ids status userID w))"

end
