(* ===== verification/Practice_Entry.thy ===== *)
theory Practice_Entry
  imports Practice_Admin
begin

text \<open>
  Entering a practice, \<open>EnterPracticeGetPaperDetails\<close> of \<open>serve/practice_mgt/dao.go\<close> and the practice branch
  of \<open>InitRespondent\<close> of \<open>serve/paper_respondence\<close>. A student goes on with the submission that is open,
  waits for one that is not marked yet, or gets a new one with a paper of its own, as long as
  attempts are left. The view \<open>v_practice_summary\<close> says which; it is \<open>v_z_practice_summary\<close> of
  \<open>doc/abilityIndex.sql\<close>.
\<close>

section \<open>The view\<close>

definition own_submissions :: "practice_world \<Rightarrow> int \<Rightarrow> int \<Rightarrow> practice_row list" where
  "own_submissions w pid uid =
     filter (\<lambda>s. sc_practice (pw_columns w (pr_id s)) = pid \<and> sc_student (pw_columns w (pr_id s)) = uid) (pw_submissions w)"

definition attempt_of :: "practice_world \<Rightarrow> practice_row \<Rightarrow> int" where
  "attempt_of w s = sc_attempt (pw_columns w (pr_id s))"

text \<open>\<open>COALESCE(MAX(attempt), 0)\<close>\<close>

definition attempt_count :: "practice_world \<Rightarrow> practice_row list \<Rightarrow> int" where
  "attempt_count w rows = (case map (attempt_of w) rows of [] \<Rightarrow> 0 | a # as \<Rightarrow> fold max as a)"

text \<open>\<open>SELECT DISTINCT ON (practice_id, student_id) ... ORDER BY attempt DESC\<close>, with 0 for no row.\<close>

definition latest_in :: "practice_world \<Rightarrow> string \<Rightarrow> practice_row list \<Rightarrow> int" where
  "latest_in w st rows =
    (case filter (\<lambda>s. pr_status s = st) rows of
       [] \<Rightarrow> 0
     | s # ss \<Rightarrow> pr_id (fold (\<lambda>t b. if attempt_of w b < attempt_of w t then t else b) ss s))"

record practice_summary =
  vs_allowed :: int
  vs_attempts :: int
  vs_unsubmitted :: int
  vs_submitted :: int
  vs_pending :: int
  vs_exam_paper :: null_int
  vs_paper_name :: string
  vs_duration :: null_int

definition v_practice_summary :: "practice_world \<Rightarrow> int \<Rightarrow> int \<Rightarrow> (practice \<times> roster_row \<times> practice_summary) option" where
  "v_practice_summary w pid uid =
    (case (sql_first (\<lambda>t. rs_practice t = pid \<and> rs_student t = uid) (pw_students w),
           sql_first (\<lambda>p. pc_id p = Some pid) (pw_practices w)) of
       (Some t, Some p) \<Rightarrow>
         (case (sql_first (\<lambda>h. Some (ph_id h) = pc_paper p) (pw_heads w),
                sql_first (\<lambda>x. Some (xp_id x) = pc_exam_paper p \<and> xp_status x = ''00'') (pp_papers (pw_paper w))) of
            (Some h, Some x) \<Rightarrow>
              let own = own_submissions w pid uid
              in Some (p, t, \<lparr>vs_allowed = Int64 (pc_allowed p), vs_attempts = attempt_count w own,
                   vs_unsubmitted = latest_in w SubmissionOpen own, vs_submitted = latest_in w SubmissionMarked own,
                   vs_pending = latest_in w SubmissionPending own, vs_exam_paper = pc_exam_paper p,
                   vs_paper_name = String (ph_name h), vs_duration = ph_duration h\<rparr>)
          | _ \<Rightarrow> None)
     | _ \<Rightarrow> None)"

text \<open>What the query for the entry asks for: the practice is released and the student is on its list.\<close>

definition open_summary :: "practice_world \<Rightarrow> int \<Rightarrow> int \<Rightarrow> practice_summary option" where
  "open_summary w pid uid =
    (case v_practice_summary w pid uid of
       None \<Rightarrow> None
     | Some (p, t, v) \<Rightarrow>
         if pc_status p = Some PracticeReleased \<and> rs_status t \<notin> {None, Some StudentRemoved} then Some v else None)"

section \<open>Entering\<close>

definition new_submission :: "practice_env \<Rightarrow> int \<Rightarrow> practice_row" where
  "new_submission V i =
    \<lparr>pr_id = i, pr_status = SubmissionOpen, pr_start_time = None, pr_end_time = None, pr_last_start = None,
     pr_last_end = None, pr_elapsed = None, pr_updated_by = None, pr_update_time = Some (pv_now V)\<rparr>"

definition insert_submission ::
    "practice_env \<Rightarrow> int \<Rightarrow> int \<Rightarrow> null_int \<Rightarrow> int \<Rightarrow> practice_world \<Rightarrow> practice_world" where
  "insert_submission V pid uid paper attempt w =
    (let i = pw_next_submission w; A = pw_answer w in
     w\<lparr>pw_mark := (pw_mark w)\<lparr>md_answer := A\<lparr>ad_practice := ad_practice A @ [new_submission V i]\<rparr>\<rparr>,
       pw_columns := (pw_columns w)(i := \<lparr>sc_practice = pid, sc_student = uid, sc_paper = paper, sc_attempt = attempt\<rparr>),
       pw_next_submission := i + 1\<rparr>)"

definition submission_request :: "null_int \<Rightarrow> int \<Rightarrow> int \<Rightarrow> sheet_request" where
  "submission_request paper i attempt =
    \<lparr>gr_paper = Int64 paper, gr_category = ''02'', gr_examinees = None, gr_submissions = Some [i],
     gr_question_random = True, gr_option_random = False, gr_attempt = attempt\<rparr>"

definition store_sheets :: "paper_db \<Rightarrow> practice_world \<Rightarrow> practice_world" where
  "store_sheets P w = w\<lparr>pw_paper := P, pw_mark := (pw_mark w)\<lparr>md_answer := (pw_answer w)
     \<lparr>ad_answers := ad_answers (pw_answer w) @
        map student_answer.truncate (drop (length (pp_rows (pw_paper w))) (pp_rows P))\<rparr>\<rparr>\<rparr>"

text \<open>A new submission with the rows of its answers; the result is its id.\<close>

definition start_submission ::
    "practice_env \<Rightarrow> int \<Rightarrow> int \<Rightarrow> null_int \<Rightarrow> int \<Rightarrow> practice_world \<Rightarrow> practice_error + practice_world \<times> int" where
  "start_submission V pid uid paper attempt w =
    (if pv_fault V ''insert_submission'' then Inl (Practice_sql ''insert_submission'')
     else
       let i = pw_next_submission w; w1 = insert_submission V pid uid paper attempt w
       in and_then (map_sum Practice_papers id (GenerateAnswerQuestion (pv_fault V) (pv_rnd V) (pv_blank V) (pv_now V)
            (submission_request paper i attempt) uid (pw_paper w1))) (\<lambda>P. Inr (store_sheets P w1, i)))"

record entered =
  en_submission :: int
  en_paper_name :: string
  en_duration :: int
  en_sheet :: "exam_paper \<times> exam_group list \<times> sheet"

text \<open>
  \<open>w\<close> is also what was committed before, which the queries outside the transaction read. The mock
  replies for tests are left out.
\<close>

definition EnterPracticeGetPaperDetails ::
    "practice_env \<Rightarrow> int \<Rightarrow> int \<Rightarrow> practice_world \<Rightarrow> practice_error + practice_world \<times> entered" where
  "EnterPracticeGetPaperDetails V pid uid w =
    (if pid \<le> 0 \<or> uid \<le> 0 then Inl (Practice_id_invalid pid)
     else if pv_fault V ''v_practice_summary'' then Inl (Practice_sql ''v_practice_summary'')
     else case open_summary w pid uid of
       None \<Rightarrow> Inl Practice_not_open
     | Some v \<Rightarrow>
         if 0 < vs_pending v then Inl Practice_pending
         else and_then
          (if vs_unsubmitted v = 0 \<and> vs_submitted v = 0
           then and_then (LoadPracticeById (pv_fault V) pid w) (\<lambda>(p, _, _).
             and_then (start_submission V pid uid (pc_exam_paper p) 1 w) (\<lambda>(w1, i). Inr (w1, i, False)))
           else if vs_unsubmitted v \<noteq> 0 then Inr (w, vs_unsubmitted v, True)
           else if vs_allowed v \<noteq> 0 \<and> vs_allowed v \<le> vs_attempts v then Inl (Practice_used_up (vs_allowed v))
           else and_then (start_submission V pid uid (vs_exam_paper v) (vs_attempts v + 1) w) (\<lambda>(w1, i). Inr (w1, i, False)))
          (\<lambda>(w1, i, withStudentAnswer).
             and_then (map_sum Practice_papers id (LoadExamPaperDetailByUserId (pv_fault V) (Int64 (vs_exam_paper v)) i 0
                 withStudentAnswer False False (pw_paper w1))) (\<lambda>sheet.
               Inr (w1, \<lparr>en_submission = i, en_paper_name = vs_paper_name v, en_duration = Int64 (vs_duration v),
                          en_sheet = sheet\<rparr>))))"

section \<open>The request\<close>

definition map_submissions :: "(practice_row list \<Rightarrow> practice_row list) \<Rightarrow> practice_world \<Rightarrow> practice_world" where
  "map_submissions f w =
     w\<lparr>pw_mark := (pw_mark w)\<lparr>md_answer := (pw_answer w)\<lparr>ad_practice := f (pw_submissions w)\<rparr>\<rparr>\<rparr>"

definition open_row :: "int \<Rightarrow> practice_row \<Rightarrow> bool" where
  "open_row i s \<longleftrightarrow> pr_id s = i \<and> pr_status s = NormalStatus"

text \<open>The time of the first entry is kept.\<close>

definition saveBeginTimeForPractice :: "(string \<Rightarrow> bool) \<Rightarrow> int \<Rightarrow> int \<Rightarrow> practice_world \<Rightarrow> practice_error + practice_world" where
  "saveBeginTimeForPractice fault now i w =
    (if fault ''start_time'' then Inl (Practice_sql ''start_time'')
     else case sql_first (\<lambda>s. pr_id s = i) (pw_submissions w) of
       None \<Rightarrow> Inl (Practice_sql ''start_time'')
     | Some s \<Rightarrow>
         if pr_start_time s \<noteq> None then Inr w
         else if fault ''save_start'' then Inl (Practice_sql ''save_start'')
         else Inr (map_submissions (sql_update (open_row i) (\<lambda>s. s\<lparr>pr_start_time := Some now\<rparr>)) w))"

text \<open>The seconds that have passed, and the time of this entry.\<close>

definition note_entry :: "(string \<Rightarrow> bool) \<Rightarrow> int \<Rightarrow> int \<Rightarrow> practice_world \<Rightarrow> practice_error + practice_world \<times> int" where
  "note_entry fault now i w =
    (case sql_first (open_row i) (pw_submissions w) of
       None \<Rightarrow> Inl (Practice_sql ''elapsed_seconds'')
     | Some s \<Rightarrow>
         if fault ''elapsed_seconds'' then Inl (Practice_sql ''elapsed_seconds'')
         else if fault ''last_start_time'' then Inl (Practice_sql ''last_start_time'')
         else Inr (map_submissions (sql_update (open_row i) (\<lambda>s. s\<lparr>pr_last_start := Some now\<rparr>)) w, Int64 (pr_elapsed s)))"

definition init_practice :: "practice_env \<Rightarrow> int \<Rightarrow> int \<Rightarrow> practice_world \<Rightarrow> practice_error + practice_world \<times> entered \<times> int" where
  "init_practice V pid uid w =
    (if pid \<le> 0 then Inl (Practice_id_invalid pid)
     else and_then (EnterPracticeGetPaperDetails V pid uid w) (\<lambda>(w1, e).
       and_then (saveBeginTimeForPractice (pv_fault V) (pv_now V) (en_submission e) w1) (\<lambda>w2.
       and_then (note_entry (pv_fault V) (pv_now V) (en_submission e) w2) (\<lambda>(w3, seconds). Inr (w3, e, seconds)))))"

text \<open>
  \<open>InitRespondent\<close> for a request of the type 02: \<open>domains\<close> and \<open>user\<close> are those of the user, the body
  holds the id of the practice. The commit comes after the reply.
\<close>

definition enter_practice ::
    "practice_env \<Rightarrow> string \<Rightarrow> int list \<Rightarrow> null_int \<Rightarrow> int http_body \<Rightarrow> practice_world \<Rightarrow>
      (practice_error + entered \<times> int) \<times> practice_world" where
  "enter_practice V httpMethod domains user body w =
    (case
       if ToLower httpMethod \<noteq> ''post'' then Inl (Practice_method httpMethod)
       else and_then (map_sum Practice_request id (and_then (checkDomain domains StudentDomainId) (\<lambda>_. read_body body))) (\<lambda>pid.
         if Int64 user \<le> 0 then Inl (Operator_invalid (Int64 user))
         else if pv_fault V ''beginTx'' then Inl (Practice_sql ''beginTx'')
         else init_practice V pid (Int64 user) w) of
       Inl e \<Rightarrow> (Inl e, w)
     | Inr (w', reply) \<Rightarrow> (Inr reply, if pv_fault V ''commit'' then w else w'))"

end
