(* ===== verification/Practice_Props.thy ===== *)
theory Practice_Props
  imports Practice_Entry Paper_Props Mark_Props
begin

text \<open>
  What practices promise. The list of students is the set that was asked for last (a refinement of
  sets), saving is refused once a practice is released, and over all runs of the requests the
  submissions of a student are numbered from 1 on, at most one is unfinished, and there are no more
  of them than the practice allows. A void by somebody without authority over the
  practice would break that, if the database ran the statement with which voiding ends; as it is
  written, no practice is ever deleted or made void.
\<close>

section \<open>The list of students\<close>

definition roster :: "practice_world \<Rightarrow> int \<Rightarrow> int set" where
  "roster w pid = {rs_student r | r. r \<in> set (pw_students w) \<and> rs_practice r = pid \<and> rs_status r = Some StudentNormal}"

definition roster_of :: "roster_row list \<Rightarrow> int \<Rightarrow> int set" where
  "roster_of rows pid = {rs_student r | r. r \<in> set rows \<and> rs_practice r = pid \<and> rs_status r = Some StudentNormal}"

lemma roster_roster_of: "roster w = roster_of (pw_students w)"
  by (simp add: roster_def roster_of_def fun_eq_iff)

definition listed :: "int \<Rightarrow> int \<Rightarrow> roster_row \<Rightarrow> bool" where
  "listed pid sid r \<longleftrightarrow> rs_student r = sid \<and> rs_practice r = pid \<and> rs_status r = Some StudentNormal"

lemma in_roster_of: "sid \<in> roster_of rows pid \<longleftrightarrow> (\<exists>r\<in>set rows. listed pid sid r)"
  by (auto simp: roster_of_def listed_def)

lemma in_roster_of_update:
  "sid \<in> roster_of (sql_update p f rows) pid \<longleftrightarrow> (\<exists>r\<in>set rows. listed pid sid (if p r then f r else r))"
  unfolding in_roster_of sql_update_def set_map by blast

lemma roster_of_append [simp]: "roster_of (rows @ rows') pid = roster_of rows pid \<union> roster_of rows' pid"
  by (auto simp: in_roster_of)

lemma roster_of_entry: "roster_of [roster_entry now uid pid sid] q = (if q = pid then {sid} else {})"
  by (auto simp: in_roster_of listed_def roster_entry_def)

lemma roster_of_renew:
  assumes "r \<in> set rows" and "roster_key r = roster_key n" and "rs_status n = Some StudentNormal"
  shows "roster_of (sql_update (\<lambda>r. roster_key r = roster_key n) (renew n) rows) q =
    (if q = rs_practice n then insert (rs_student n) (roster_of rows q) else roster_of rows q)"
proof (rule set_eqI)
  fix sid
  have "listed q sid (if roster_key t = roster_key n then renew n t else t) \<longleftrightarrow>
      roster_key t = roster_key n \<and> q = rs_practice n \<and> sid = rs_student n \<or> roster_key t \<noteq> roster_key n \<and> listed q sid t"
    for t using assms(3) by (auto simp: listed_def renew_def roster_key_def)
  then have "sid \<in> roster_of (sql_update (\<lambda>r. roster_key r = roster_key n) (renew n) rows) q \<longleftrightarrow>
      (\<exists>t\<in>set rows. roster_key t = roster_key n \<and> q = rs_practice n \<and> sid = rs_student n \<or> roster_key t \<noteq> roster_key n \<and> listed q sid t)"
    by (simp only: in_roster_of_update)
  also have "\<dots> \<longleftrightarrow> sid \<in> (if q = rs_practice n then insert (rs_student n) (roster_of rows q) else roster_of rows q)"
    using assms(1,2) by (auto simp: in_roster_of listed_def roster_key_def)
  finally show "sid \<in> roster_of (sql_update (\<lambda>r. roster_key r = roster_key n) (renew n) rows) q \<longleftrightarrow>
      sid \<in> (if q = rs_practice n then insert (rs_student n) (roster_of rows q) else roster_of rows q)" .
qed

lemma roster_of_strike:
  "roster_of (sql_update (\<lambda>r. rs_practice r = pid \<and> P r) (strike now uid) rows) q =
    (if q = pid then {sid. \<exists>r\<in>set rows. listed pid sid r \<and> \<not> P r} else roster_of rows q)"
proof (rule set_eqI)
  fix sid
  have "listed q sid (if rs_practice r = pid \<and> P r then strike now uid r else r) \<longleftrightarrow>
      listed q sid r \<and> \<not> (q = pid \<and> P r)" for r
    by (auto simp: listed_def strike_def StudentNormal_def StudentRemoved_def)
  then have "sid \<in> roster_of (sql_update (\<lambda>r. rs_practice r = pid \<and> P r) (strike now uid) rows) q \<longleftrightarrow>
      (\<exists>r\<in>set rows. listed q sid r \<and> \<not> (q = pid \<and> P r))" by (simp only: in_roster_of_update)
  then show "sid \<in> roster_of (sql_update (\<lambda>r. rs_practice r = pid \<and> P r) (strike now uid) rows) q \<longleftrightarrow>
      sid \<in> (if q = pid then {sid. \<exists>r\<in>set rows. listed pid sid r \<and> \<not> P r} else roster_of rows q)"
    by (auto simp: in_roster_of)
qed

lemma upsert_roster_adds:
  assumes "upsert_roster again hit (map (roster_entry now uid pid) ps) rows = Inr rows'"
    and "\<And>r. again r \<longleftrightarrow> rs_status r \<noteq> Some StudentNormal"
  shows "roster_of rows' q = (if q = pid then roster_of rows q \<union> set ps else roster_of rows q)"
  using assms(1)
proof (induction ps arbitrary: hit rows)
  case (Cons p ps)
  let ?n = "roster_entry now uid pid p"
  have n: "rs_status ?n = Some StudentNormal" "rs_practice ?n = pid" "rs_student ?n = p" by (simp_all add: roster_entry_def)
  have new: "roster_key ?n \<notin> set hit" using Cons.prems by (simp split: if_splits)
  show ?case
  proof (cases "sql_first (\<lambda>r. roster_key r = roster_key ?n) rows")
    case None
    then have "upsert_roster again (roster_key ?n # hit) (map (roster_entry now uid pid) ps) (rows @ [?n]) = Inr rows'"
      using Cons.prems new by simp
    from Cons.IH [OF this] show ?thesis by (auto simp: roster_of_entry)
  next
    case (Some r)
    then have r: "r \<in> set rows" "roster_key r = roster_key ?n" by (auto dest: sql_first_Some)
    show ?thesis
    proof (cases "again r")
      case True
      then have "upsert_roster again (roster_key ?n # hit) (map (roster_entry now uid pid) ps)
          (sql_update (\<lambda>r. roster_key r = roster_key ?n) (renew ?n) rows) = Inr rows'"
        using Cons.prems new Some by simp
      from Cons.IH [OF this] show ?thesis by (simp add: roster_of_renew [OF r n(1)] n)
    next
      case False
      then have "upsert_roster again hit (map (roster_entry now uid pid) ps) rows = Inr rows'"
        using Cons.prems new Some by simp
      moreover have "p \<in> roster_of rows pid"
        using False r by (auto simp: assms(2) in_roster_of listed_def roster_key_def n intro!: bexI [of _ r])
      ultimately show ?thesis using Cons.IH by auto
    qed
  qed
qed simp

lemma replace_roster_is:
  assumes "replace_roster fault now pid uid ps rows = Inr rows'"
  shows "roster_of rows' q = (if q = pid then set ps else roster_of rows q)"
proof -
  obtain mid where up: "upsert_roster (\<lambda>r. rs_status r \<noteq> Some StudentNormal) [] (map (roster_entry now uid pid) ps) rows = Inr mid"
    and rows': "rows' = sql_update (\<lambda>r. rs_practice r = pid \<and> rs_student r \<notin> set ps) (strike now uid) mid"
    using assms by (auto simp: replace_roster_def and_then_Inr_iff split: if_splits)
  have mid: "roster_of mid q = (if q = pid then roster_of rows q \<union> set ps else roster_of rows q)" for q
    by (rule upsert_roster_adds [OF up]) simp
  have "roster_of rows' q = (if q = pid then roster_of mid pid \<inter> set ps else roster_of mid q)"
    unfolding rows' roster_of_strike by (auto simp: in_roster_of listed_def)
  then show ?thesis by (auto simp: mid)
qed

lemma filter_sql_update_other:
  assumes "\<And>r. p r \<Longrightarrow> \<not> P r \<and> \<not> P (f r)"
  shows "filter P (sql_update p f rows) = filter P rows"
  using assms by (induction rows) (auto simp: sql_update_Cons)

lemma keys_sql_update: "(\<And>r. roster_key (f r) = roster_key r) \<Longrightarrow> roster_key ` set (sql_update p f rows) = roster_key ` set rows"
  by (metis list.set_map map_sql_update)

lemma roster_key_keep [simp]: "roster_key (strike now uid r) = roster_key r" "roster_key (renew n r) = roster_key r"
  by (simp_all add: strike_def renew_def roster_key_def)

lemma roster_key_entry [simp]: "roster_key (roster_entry now uid pid sid) = (sid, pid)"
  by (simp add: roster_entry_def roster_key_def)

lemma upsert_roster_frame:
  assumes "upsert_roster again hit (map (roster_entry now uid pid) ps) rows = Inr rows'"
  shows "filter (\<lambda>r. rs_practice r \<noteq> pid) rows' = filter (\<lambda>r. rs_practice r \<noteq> pid) rows \<and>
    roster_key ` set rows \<subseteq> roster_key ` set rows'"
  using assms
proof (induction ps arbitrary: hit rows)
  case (Cons p ps)
  let ?n = "roster_entry now uid pid p"
  let ?rows = "case sql_first (\<lambda>r. roster_key r = roster_key ?n) rows of None \<Rightarrow> rows @ [?n]
    | Some r \<Rightarrow> if again r then sql_update (\<lambda>r. roster_key r = roster_key ?n) (renew ?n) rows else rows"
  obtain hit' where "upsert_roster again hit' (map (roster_entry now uid pid) ps) ?rows = Inr rows'"
    using Cons.prems by (simp split: if_splits option.splits)
  from Cons.IH [OF this] have "filter (\<lambda>r. rs_practice r \<noteq> pid) rows' = filter (\<lambda>r. rs_practice r \<noteq> pid) ?rows \<and>
      roster_key ` set ?rows \<subseteq> roster_key ` set rows'" .
  moreover have "filter (\<lambda>r. rs_practice r \<noteq> pid) (sql_update (\<lambda>r. roster_key r = roster_key ?n) (renew ?n) rows) =
      filter (\<lambda>r. rs_practice r \<noteq> pid) rows"
    by (rule filter_sql_update_other) (simp add: roster_key_def roster_entry_def renew_def)
  moreover have "rs_practice ?n = pid" by (simp add: roster_entry_def)
  ultimately show ?case by (auto simp: keys_sql_update split: option.split_asm if_split_asm)
qed simp

lemma replace_roster_frame:
  assumes "replace_roster fault now pid uid ps rows = Inr rows'"
  shows "filter (\<lambda>r. rs_practice r \<noteq> pid) rows' = filter (\<lambda>r. rs_practice r \<noteq> pid) rows \<and>
    roster_key ` set rows \<subseteq> roster_key ` set rows'"
proof -
  obtain mid where up: "upsert_roster (\<lambda>r. rs_status r \<noteq> Some StudentNormal) [] (map (roster_entry now uid pid) ps) rows = Inr mid"
    and rows': "rows' = sql_update (\<lambda>r. rs_practice r = pid \<and> rs_student r \<notin> set ps) (strike now uid) mid"
    using assms by (auto simp: replace_roster_def and_then_Inr_iff split: if_splits)
  have "filter (\<lambda>r. rs_practice r \<noteq> pid) rows' = filter (\<lambda>r. rs_practice r \<noteq> pid) mid"
    unfolding rows' by (rule filter_sql_update_other) (simp add: strike_def)
  then show ?thesis using upsert_roster_frame [OF up] by (simp add: rows' keys_sql_update)
qed

lemma clear_roster:
  fixes rows :: "roster_row list" and now uid pid :: int
  defines "rows' \<equiv> sql_update (\<lambda>r. rs_practice r = pid \<and> rs_status r \<notin> {None, Some StudentRemoved}) (strike now uid) rows"
  shows "roster_of rows' q = (if q = pid then {} else roster_of rows q)"
    and "filter (\<lambda>r. rs_practice r \<noteq> pid) rows' = filter (\<lambda>r. rs_practice r \<noteq> pid) rows \<and>
      roster_key ` set rows \<subseteq> roster_key ` set rows'"
proof -
  show "roster_of rows' q = (if q = pid then {} else roster_of rows q)"
    unfolding rows'_def roster_of_strike by (auto simp: listed_def StudentNormal_def StudentRemoved_def)
  have "filter (\<lambda>r. rs_practice r \<noteq> pid) rows' = filter (\<lambda>r. rs_practice r \<noteq> pid) rows"
    unfolding rows'_def by (rule filter_sql_update_other) (simp add: strike_def)
  then show "filter (\<lambda>r. rs_practice r \<noteq> pid) rows' = filter (\<lambda>r. rs_practice r \<noteq> pid) rows \<and>
      roster_key ` set rows \<subseteq> roster_key ` set rows'" by (simp add: rows'_def keys_sql_update)
qed

text \<open>
  (C2) A change of the list of students implements the replacement of a set: if it is reported as done
  and its commit succeeds, the students of the practice are exactly the listed ones, whoever was on
  the list or struck off before, no row of another practice is touched, and no row is lost. If an
  error is reported, nothing has changed.
\<close>

theorem roster_is_replaced:
  assumes "UpsertPracticeStudentV2 fault now pid uid ps w = (r, w')" and "\<not> fault ''commit''"
  shows "case r of
      Inl e \<Rightarrow> w' = w
    | Inr _ \<Rightarrow> roster w' = (roster w)(pid := set ps) \<and>
        filter (\<lambda>x. rs_practice x \<noteq> pid) (pw_students w') = filter (\<lambda>x. rs_practice x \<noteq> pid) (pw_students w) \<and>
        roster_key ` set (pw_students w) \<subseteq> roster_key ` set (pw_students w')"
proof (cases r)
  case (Inl e)
  then show ?thesis using assms by (auto simp: UpsertPracticeStudentV2_def roster_tx_def split: sum.splits)
next
  case (Inr u)
  then obtain rows where w': "w' = w\<lparr>pw_students := rows\<rparr>"
    and rows: "ps = [] \<and> rows = sql_update (\<lambda>r. rs_practice r = pid \<and> rs_status r \<notin> {None, Some StudentRemoved})
        (strike now uid) (pw_students w) \<or> replace_roster fault now pid uid ps (pw_students w) = Inr rows"
    using assms by (auto simp: UpsertPracticeStudentV2_def roster_tx_def and_then_Inr_iff split: sum.splits if_splits)
  from rows show ?thesis
  proof
    assume "ps = [] \<and> rows = sql_update (\<lambda>r. rs_practice r = pid \<and> rs_status r \<notin> {None, Some StudentRemoved})
        (strike now uid) (pw_students w)"
    then show ?thesis using clear_roster [of pid now uid "pw_students w"]
      by (simp add: Inr w' roster_roster_of fun_eq_iff)
  next
    assume "replace_roster fault now pid uid ps (pw_students w) = Inr rows"
    from replace_roster_is [OF this] replace_roster_frame [OF this] show ?thesis
      by (simp add: Inr w' roster_roster_of fun_eq_iff)
  qed
qed

text \<open>For a list that is not empty the older function does the same.\<close>

lemma older_list_function:
  "ps \<noteq> [] \<Longrightarrow> UpsertPracticeStudent fault now pid uid ps w = UpsertPracticeStudentV2 fault now pid uid ps w"
  by (simp add: UpsertPracticeStudent_def UpsertPracticeStudentV2_def)

section \<open>The submissions of a student\<close>

text \<open>What the invariant needs to know of a submission: its id and its status.\<close>

definition submission_key :: "practice_row \<Rightarrow> int \<times> string" where
  "submission_key s = (pr_id s, pr_status s)"

abbreviation keys :: "practice_world \<Rightarrow> (int \<times> string) list" where
  "keys w \<equiv> map submission_key (pw_submissions w)"

definition own_keys :: "(int \<Rightarrow> submission_columns) \<Rightarrow> int \<Rightarrow> int \<Rightarrow> (int \<times> string) list \<Rightarrow> (int \<times> string) list" where
  "own_keys cols pid uid ks = filter (\<lambda>k. sc_practice (cols (fst k)) = pid \<and> sc_student (cols (fst k)) = uid) ks"

lemma own_keys_own: "own_keys (pw_columns w) pid uid (keys w) = map submission_key (own_submissions w pid uid)"
  by (simp add: own_keys_def own_submissions_def filter_map o_def submission_key_def)

lemma own_keys_append: "own_keys cols pid uid (ks @ ks') = own_keys cols pid uid ks @ own_keys cols pid uid ks'"
  by (simp add: own_keys_def)

definition unfinished :: "int \<times> string \<Rightarrow> bool" where
  "unfinished k \<longleftrightarrow> snd k \<in> {SubmissionOpen, SubmissionPending}"

text \<open>
  The submissions of one student to a released practice: numbered from 1, none of them void, at most one
  of them unfinished, and not more than allowed.
\<close>

definition in_order :: "(int \<Rightarrow> submission_columns) \<Rightarrow> null_int \<Rightarrow> (int \<times> string) list \<Rightarrow> bool" where
  "in_order cols allowed own \<longleftrightarrow>
     map (\<lambda>k. sc_attempt (cols (fst k))) own = [1..int (length own)] \<and>
     (\<forall>k\<in>set own. snd k \<in> {SubmissionOpen, SubmissionPending, SubmissionMarked}) \<and>
     length (filter unfinished own) \<le> 1 \<and>
     (0 < Int64 allowed \<longrightarrow> int (length own) \<le> Int64 allowed)"

definition practice_in_order :: "(int \<Rightarrow> submission_columns) \<Rightarrow> (int \<times> string) list \<Rightarrow> practice \<Rightarrow> bool" where
  "practice_in_order cols ks p \<longleftrightarrow>
     (pc_status p = Some PracticeReleased \<longrightarrow> (\<forall>uid. in_order cols (pc_allowed p) (own_keys cols (Int64 (pc_id p)) uid ks)))"

text \<open>The invariant over all requests; submissions exist only for practices that are released or void.\<close>

definition practice_inv :: "practice_world \<Rightarrow> bool" where
  "practice_inv w \<longleftrightarrow>
     distinct (map pc_id (pw_practices w)) \<and>
     (\<forall>p\<in>set (pw_practices w). pc_id p \<noteq> None \<and> 0 < Int64 (pc_id p) \<and> Int64 (pc_id p) < pw_next_practice w) \<and>
     0 < pw_next_practice w \<and> 0 < pw_next_submission w \<and>
     distinct (map fst (keys w)) \<and> (\<forall>k\<in>set (keys w). 0 < fst k \<and> fst k < pw_next_submission w) \<and>
     (\<forall>k\<in>set (keys w). \<exists>p\<in>set (pw_practices w). pc_id p = Some (sc_practice (pw_columns w (fst k))) \<and>
        pc_status p \<in> {Some PracticeReleased, Some PracticeDisabled}) \<and>
     (\<forall>p\<in>set (pw_practices w). practice_in_order (pw_columns w) (keys w) p)"

text \<open>What the invariant reads of the state.\<close>

definition practice_core where
  "practice_core w = (pw_practices w, keys w, pw_columns w, pw_next_practice w, pw_next_submission w)"

lemma practice_inv_core: "practice_core w' = practice_core w \<Longrightarrow> practice_inv w' = practice_inv w"
  by (simp add: practice_inv_def practice_core_def)

section \<open>Answering and marking\<close>

text \<open>A submission is handed in, or marked.\<close>

definition goes_on :: "int \<times> string \<Rightarrow> int \<times> string \<Rightarrow> bool" where
  "goes_on k k' \<longleftrightarrow> fst k' = fst k \<and>
     (snd k' = snd k \<or> snd k' = SubmissionMarked \<or> snd k = SubmissionOpen \<and> snd k' = SubmissionPending)"

lemma goes_on_refl [simp]: "goes_on k k"
  by (simp add: goes_on_def)

lemma goes_on_own:
  assumes "list_all2 goes_on ks ks'"
  shows "list_all2 goes_on (own_keys cols pid uid ks) (own_keys cols pid uid ks')"
  using assms by (induction rule: list_all2_induct) (auto simp: own_keys_def goes_on_def)

lemma goes_on_fst: "list_all2 goes_on ks ks' \<Longrightarrow> map fst ks' = map fst ks"
  by (induction rule: list_all2_induct) (auto simp: goes_on_def)

lemma goes_on_in_order:
  assumes "list_all2 goes_on own own'" and "in_order cols allowed own"
  shows "in_order cols allowed own'"
proof -
  have fst: "map fst own' = map fst own" by (rule goes_on_fst) fact
  then have len: "length own' = length own" by (rule map_eq_imp_length_eq)
  have "map (\<lambda>k. sc_attempt (cols (fst k))) own' = map (\<lambda>k. sc_attempt (cols (fst k))) own"
    using arg_cong [OF fst, of "map (\<lambda>i. sc_attempt (cols i))"] by (simp add: o_def)
  moreover have "(\<forall>k\<in>set own. snd k \<in> {SubmissionOpen, SubmissionPending, SubmissionMarked}) \<Longrightarrow>
      (\<forall>k\<in>set own'. snd k \<in> {SubmissionOpen, SubmissionPending, SubmissionMarked})"
    using assms(1) by (induction rule: list_all2_induct) (auto simp: goes_on_def)
  moreover have "length (filter unfinished own') \<le> length (filter unfinished own)"
    using assms(1) by (induction rule: list_all2_induct) (auto simp: goes_on_def unfinished_def practice_codes)
  ultimately show ?thesis using assms(2) by (auto simp: in_order_def len)
qed

lemma goes_on_inv:
  assumes "practice_inv w" and "list_all2 goes_on (keys w) (keys w')"
    and "pw_practices w' = pw_practices w" "pw_columns w' = pw_columns w"
    and "pw_next_practice w' = pw_next_practice w" "pw_next_submission w' = pw_next_submission w"
  shows "practice_inv w'"
proof -
  have fst: "map fst (keys w') = map fst (keys w)" by (rule goes_on_fst) fact
  have all: "(\<forall>k\<in>set (keys w'). P (fst k)) \<longleftrightarrow> (\<forall>k\<in>set (keys w). P (fst k))" for P
    using arg_cong [OF fst, of "\<lambda>is. \<forall>i\<in>set is. P i"] by simp
  have "practice_in_order (pw_columns w') (keys w') p" if "p \<in> set (pw_practices w)" for p
    using assms(1) that goes_on_in_order [OF goes_on_own [OF assms(2)]]
    by (simp add: practice_inv_def practice_in_order_def assms(4))
  then show ?thesis
    using assms(1) unfolding practice_inv_def fst all [of "\<lambda>i. 0 < i \<and> i < pw_next_submission w'"]
      all [of "\<lambda>i. \<exists>p\<in>set (pw_practices w'). pc_id p = Some (sc_practice (pw_columns w' i)) \<and>
        pc_status p \<in> {Some PracticeReleased, Some PracticeDisabled}"]
    by (simp only: assms(3-6)) blast
qed

lemma goes_on_same [simp]: "list_all2 goes_on ks ks"
  by (simp add: list_all2_same)

lemma goes_on_update:
  assumes "\<And>s. p s \<Longrightarrow> goes_on (submission_key s) (submission_key (f s))"
  shows "list_all2 goes_on (map submission_key rows) (map submission_key (sql_update p f rows))"
  using assms by (induction rows) (simp_all add: sql_update_Cons)

lemma setAnswerCanNotUpdate_practice:
  "setAnswerCanNotUpdate fault now e p u db = Inr db' \<Longrightarrow> ad_practice db' = ad_practice db"
  by (auto simp: setAnswerCanNotUpdate_def Let_def split: if_splits)

lemma submit_exam_practice: "submit_exam fault now u db = Inr (db', mk) \<Longrightarrow> ad_practice db' = ad_practice db"
  by (auto simp: submit_exam_def Let_def and_then_Inr_iff dest!: setAnswerCanNotUpdate_practice split: if_splits option.splits)

lemma submit_wrong_practice: "submit_wrong fault now u db = Inr (db', mk) \<Longrightarrow> ad_practice db' = ad_practice db"
  by (auto simp: submit_wrong_def and_then_Inr_iff dest!: setAnswerCanNotUpdate_practice split: if_splits)

lemma close_goes_on: "open_practice i s \<Longrightarrow> goes_on (submission_key s) (submission_key (close_practice now practiceSubmitted s))"
  by (simp add: open_practice_def goes_on_def submission_key_def close_practice_def NormalStatus_def practiceSubmitted_def practice_codes)

lemma submit_goes_on:
  assumes "submit_body fault now u db = Inr (db', mk)"
  shows "list_all2 goes_on (map submission_key (ad_practice db)) (map submission_key (ad_practice db'))"
  using assms
  by (auto simp: submit_body_def submit_practice_def and_then_Inr_iff
      dest!: submit_exam_practice submit_wrong_practice setAnswerCanNotUpdate_practice
      intro!: goes_on_update close_goes_on split: if_splits)

lemma save_practice: "insertOrUpdateAnswer fault now u db = Inr db' \<Longrightarrow> ad_practice db' = ad_practice db"
  by (auto simp: insertOrUpdateAnswer_def and_then_Inr_iff upsert_def Let_def split: if_splits option.splits)

lemma answering_goes_on:
  assumes "answering_step A A'"
  shows "list_all2 goes_on (map submission_key (ad_practice A)) (map submission_key (ad_practice A'))"
  using assms
proof (cases rule: answering_step.cases)
  case (submit fault now m domains user body)
  then show ?thesis
    by (auto simp: Submit_def Let_def dest!: submit_goes_on split: sum.splits if_splits)
next
  case (save fault now domains user body)
  then show ?thesis by (auto simp: StudentAnswer_post_def Let_def dest!: save_practice split: sum.splits if_splits)
next
  case (exit_ fault now i p wrong student)
  have "goes_on (submission_key s) (submission_key (leave_practice now student s))" for s
    by (simp add: goes_on_def submission_key_def leave_practice_def)
  then show ?thesis by (auto simp: exit_ HandleExit_def Let_def intro!: goes_on_update)
qed simp_all

lemma marking_goes_on:
  assumes "UpdateExamSessionOrPracticeSubmissionStatus fault now c SubmissionMarked M = Inr M'"
  shows "list_all2 goes_on (map submission_key (ad_practice (md_answer M))) (map submission_key (ad_practice (md_answer M')))"
proof -
  have "goes_on (submission_key s) (submission_key (practice_set_status now c SubmissionMarked s))" for s
    by (simp add: goes_on_def submission_key_def practice_set_status_def)
  then show ?thesis using assms
    by (auto simp: UpdateExamSessionOrPracticeSubmissionStatus_def Let_def intro!: goes_on_update split: if_splits)
qed

section \<open>Saving and releasing\<close>

definition submitted_to :: "(int \<Rightarrow> submission_columns) \<Rightarrow> (int \<times> string) list \<Rightarrow> practice \<Rightarrow> bool" where
  "submitted_to cols ks p \<longleftrightarrow> (\<exists>k\<in>set ks. pc_id p = Some (sc_practice (cols (fst k))))"

text \<open>What may become of a practice, given the submissions there are.\<close>

definition revised :: "(int \<Rightarrow> submission_columns) \<Rightarrow> (int \<times> string) list \<Rightarrow> practice \<Rightarrow> practice \<Rightarrow> bool" where
  "revised cols ks p p' \<longleftrightarrow> pc_id p' = pc_id p \<and>
     (pc_status p' = Some PracticeReleased \<longrightarrow>
        pc_status p = Some PracticeReleased \<and> pc_allowed p' = pc_allowed p \<or> \<not> submitted_to cols ks p) \<and>
     (submitted_to cols ks p \<longrightarrow> pc_status p \<in> {Some PracticeReleased, Some PracticeDisabled} \<longrightarrow>
        pc_status p' \<in> {Some PracticeReleased, Some PracticeDisabled})"

lemma revised_refl [simp]: "revised cols ks p p"
  by (simp add: revised_def)

lemma in_order_Nil [simp]: "in_order cols allowed []"
  by (simp add: in_order_def)

lemma own_keys_none:
  assumes "\<not> submitted_to cols ks p" and "pc_id p \<noteq> None"
  shows "own_keys cols (Int64 (pc_id p)) uid ks = []"
  using assms by (auto simp: own_keys_def filter_empty_conv submitted_to_def)

lemma revised_in_order:
  assumes "revised cols ks p p'" and "practice_in_order cols ks p" and "pc_id p \<noteq> None"
  shows "practice_in_order cols ks p'"
  unfolding practice_in_order_def
proof (intro impI allI)
  fix uid assume rel: "pc_status p' = Some PracticeReleased"
  have id: "pc_id p' = pc_id p" using assms(1) by (simp add: revised_def)
  show "in_order cols (pc_allowed p') (own_keys cols (Int64 (pc_id p')) uid ks)"
  proof (cases "submitted_to cols ks p")
    case False
    then show ?thesis by (simp add: id own_keys_none assms(3))
  next
    case True
    with assms(1) rel have "pc_status p = Some PracticeReleased" "pc_allowed p' = pc_allowed p" by (simp_all add: revised_def)
    then show ?thesis using assms(2) by (simp add: id practice_in_order_def)
  qed
qed

lemma revised_inv:
  assumes "practice_inv w" and rev: "list_all2 (revised (pw_columns w) (keys w)) (pw_practices w) (pw_practices w')"
    and "keys w' = keys w" "pw_columns w' = pw_columns w"
    and "pw_next_practice w' = pw_next_practice w" "pw_next_submission w' = pw_next_submission w"
  shows "practice_inv w'"
proof -
  have ids: "map pc_id (pw_practices w') = map pc_id (pw_practices w)"
    using rev by (induction rule: list_all2_induct) (simp_all add: revised_def)
  have all: "(\<forall>p\<in>set (pw_practices w'). P (pc_id p)) \<longleftrightarrow> (\<forall>p\<in>set (pw_practices w). P (pc_id p))" for P
    using arg_cong [OF ids, of "\<lambda>is. \<forall>i\<in>set is. P i"] by simp
  have fwd: "\<exists>p'\<in>set (pw_practices w'). revised (pw_columns w) (keys w) p p'" if "p \<in> set (pw_practices w)" for p
    using rev that by (metis in_set_conv_nth list_all2_conv_all_nth)
  have bwd: "\<exists>p\<in>set (pw_practices w). revised (pw_columns w) (keys w) p p'" if "p' \<in> set (pw_practices w')" for p'
    using rev that by (metis in_set_conv_nth list_all2_conv_all_nth)
  have "practice_in_order (pw_columns w) (keys w) p'" if p': "p' \<in> set (pw_practices w')" for p'
  proof -
    obtain p where p: "p \<in> set (pw_practices w)" "revised (pw_columns w) (keys w) p p'" using bwd [OF p'] by blast
    then have "practice_in_order (pw_columns w) (keys w) p" "pc_id p \<noteq> None" using assms(1) unfolding practice_inv_def by blast+
    then show ?thesis by (rule revised_in_order [OF p(2)])
  qed
  moreover have "\<exists>p'\<in>set (pw_practices w'). pc_id p' = Some (sc_practice (pw_columns w (fst k))) \<and>
      pc_status p' \<in> {Some PracticeReleased, Some PracticeDisabled}" if k: "k \<in> set (keys w)" for k
  proof -
    obtain p where p: "p \<in> set (pw_practices w)" "pc_id p = Some (sc_practice (pw_columns w (fst k)))"
      "pc_status p \<in> {Some PracticeReleased, Some PracticeDisabled}"
      using assms(1) k unfolding practice_inv_def by blast
    obtain p' where p': "p' \<in> set (pw_practices w')" "revised (pw_columns w) (keys w) p p'" using fwd [OF p(1)] by blast
    have "submitted_to (pw_columns w) (keys w) p" using k p(2) unfolding submitted_to_def by blast
    with p' p show ?thesis unfolding revised_def by metis
  qed
  ultimately show ?thesis
    using assms(1) unfolding practice_inv_def ids assms(3-6)
      all [of "\<lambda>i. i \<noteq> None \<and> 0 < Int64 i \<and> Int64 i < pw_next_practice w"] by blast
qed

lemma revised_update:
  assumes "\<And>p. p \<in> set ps \<Longrightarrow> q p \<Longrightarrow> revised cols ks p (f p)"
  shows "list_all2 (revised cols ks) ps (sql_update q f ps)"
  using assms by (induction ps) (simp_all add: sql_update_Cons)

lemma new_practice_inv:
  assumes "practice_inv w" and "pw_practices w' = pw_practices w @ [p]" and "pc_id p = Some (pw_next_practice w)"
    and "keys w' = keys w" "pw_columns w' = pw_columns w"
    and "pw_next_practice w' = pw_next_practice w + 1" "pw_next_submission w' = pw_next_submission w"
  shows "practice_inv w'"
proof -
  have old: "\<forall>r\<in>set (pw_practices w). pc_id r \<noteq> Some (pw_next_practice w)"
    using assms(1) unfolding practice_inv_def by fastforce
  have "\<not> submitted_to (pw_columns w) (keys w) p"
    using assms(1) old unfolding submitted_to_def practice_inv_def assms(3) by metis
  then have "practice_in_order (pw_columns w) (keys w) p"
    using own_keys_none [of "pw_columns w" "keys w" p] by (simp add: practice_in_order_def assms(3))
  moreover have "distinct (map pc_id (pw_practices w @ [p]))"
    using assms(1) old by (auto simp: practice_inv_def assms(3))
  ultimately show ?thesis using assms(1) assms(3) unfolding practice_inv_def assms(2,4-7)
    by fastforce
qed

lemma HandleMarkerInfo_answer: "HandleMarkerInfo parses fault rnd now t r M = Inr M' \<Longrightarrow> md_answer M' = md_answer M"
  by (auto simp: HandleMarkerInfo_def UpdateMarkerInfoStatus_def and_then_Inr_iff split: if_splits)

lemma configure_marking_core:
  assumes "configure_marking V uid r w = Inr w'"
  shows "practice_core w' = practice_core w"
proof -
  obtain M where "HandleMarkerInfo (pv_parses V) (pv_fault V) (pv_rnd V 0) (pv_now V) uid r (pw_mark w) = Inr M"
    and w': "w' = w\<lparr>pw_mark := M\<rparr>"
    using assms by (cases "HandleMarkerInfo (pv_parses V) (pv_fault V) (pv_rnd V 0) (pv_now V) uid r (pw_mark w)")
      (auto simp: configure_marking_def)
  then show ?thesis by (simp add: practice_core_def HandleMarkerInfo_answer)
qed

lemma UpsertPracticeStudentV2_core: "practice_core (snd (UpsertPracticeStudentV2 fault now pid uid ps w)) = practice_core w"
  by (simp add: UpsertPracticeStudentV2_def roster_tx_def practice_core_def split: sum.split)

lemma roster_inv: "practice_inv (snd (UpsertPracticeStudentV2 fault now pid uid ps w)) = practice_inv w"
  by (rule practice_inv_core) (rule UpsertPracticeStudentV2_core)

lemma LoadPracticeById_Inr:
  assumes "LoadPracticeById fault pid w = Inr (p, n, c)"
  shows "\<exists>r\<in>set (pw_practices w). pc_id r = Some pid \<and> practice_alive r \<and> p = loaded r \<and> 0 < pid"
  using assms by (auto simp: LoadPracticeById_def dest!: sql_first_Some split: if_splits option.splits)

lemma loaded_simps [simp]: "pc_id (loaded p) = pc_id p" "pc_status (loaded p) = pc_status p"
    "pc_name (loaded p) = pc_name p" "pc_exam_paper (loaded p) = pc_exam_paper p" "pc_allowed (loaded p) = pc_allowed p"
  by (simp_all add: loaded_def)

lemma one_practice:
  "practice_inv w \<Longrightarrow> p \<in> set (pw_practices w) \<Longrightarrow> r \<in> set (pw_practices w) \<Longrightarrow> pc_id r = pc_id p \<Longrightarrow> r = p"
  unfolding practice_inv_def by (metis distinct_map inj_onD)

lemma UpdatePractice_inv:
  assumes "practice_inv w" and "r \<in> set (pw_practices w)" "pc_id r = pc_id p" "String (pc_status r) \<noteq> PracticeReleased"
  shows "practice_inv (snd (UpdatePractice V a p ps uid False isClear w))"
proof -
  let ?p = "p\<lparr>pc_updated_by := Some uid, pc_update_time := Some (pv_now V)\<rparr>"
  let ?w = "w\<lparr>pw_practices := sql_update (\<lambda>r. pc_id r = pc_id p \<and> pc_id p \<noteq> None \<and> practice_reach a uid r)
    (assign_columns False ?p) (pw_practices w)\<rparr>"
  have "practice_inv ?w"
  proof (rule revised_inv [OF assms(1)])
    have "revised (pw_columns w) (keys w) q (assign_columns False ?p q)"
      if q: "q \<in> set (pw_practices w)" "pc_id q = pc_id p" for q
    proof -
      have "q = r" using one_practice [OF assms(1,2) q(1)] q(2) assms(3) by simp
      then show ?thesis using assms(4) by (auto simp: revised_def assign_columns_def)
    qed
    then show "list_all2 (revised (pw_columns w) (keys w)) (pw_practices w) (pw_practices ?w)"
      by (auto intro!: revised_update)
  qed simp_all
  then show ?thesis using assms(1) by (simp add: UpdatePractice_def Let_def roster_inv)
qed

lemma AddPractice_inv:
  assumes "practice_inv w"
  shows "practice_inv (snd (AddPractice V a p ps uid w))"
proof -
  let ?w = "w\<lparr>pw_practices := pw_practices w @ [new_practice V a p uid (pw_next_practice w)],
    pw_next_practice := pw_next_practice w + 1\<rparr>"
  have "practice_inv ?w"
    by (rule new_practice_inv [OF assms, where p = "new_practice V a p uid (pw_next_practice w)"]) (simp_all add: new_practice_def)
  then show ?thesis using assms by (simp add: AddPractice_def Let_def roster_inv)
qed

lemma UpsertPractice_inv:
  assumes "practice_inv w"
  shows "practice_inv (snd (UpsertPractice V a p ps uid isClear w))"
proof (cases "pc_id p")
  case None
  then show ?thesis using assms AddPractice_inv [OF assms] by (simp add: UpsertPractice_def)
next
  case (Some pid)
  show ?thesis
  proof (cases "LoadPracticeById (pv_fault V) pid w")
    case (Inl e)
    then show ?thesis using assms Some by (simp add: UpsertPractice_def)
  next
    case (Inr x)
    then obtain p2 n c where x: "LoadPracticeById (pv_fault V) pid w = Inr (p2, n, c)" by (cases x) auto
    then obtain r where r: "r \<in> set (pw_practices w)" "pc_id r = Some pid" "p2 = loaded r"
      using LoadPracticeById_Inr by blast
    show ?thesis using assms x Some r UpdatePractice_inv [OF assms r(1), of p] by (simp add: UpsertPractice_def)
  qed
qed

lemma practiceH_inv: "practice_inv w \<Longrightarrow> practice_inv (snd (practiceH V user body w))"
  by (simp add: practiceH_def with_access_def UpsertPractice_inv split: sum.split prod.split)

lemma practiceStudentListH_inv: "practice_inv w \<Longrightarrow> practice_inv (snd (practiceStudentListH V path user body w))"
  by (simp add: practiceStudentListH_def with_access_def roster_inv split: sum.split prod.split)

section \<open>Changing the status\<close>

lemma submitted_status:
  assumes "practice_inv w" and "p \<in> set (pw_practices w)" and "submitted_to (pw_columns w) (keys w) p"
  shows "pc_status p \<in> {Some PracticeReleased, Some PracticeDisabled}"
proof -
  obtain k q where k: "k \<in> set (keys w)" "pc_id p = Some (sc_practice (pw_columns w (fst k)))"
    and q: "q \<in> set (pw_practices w)" "pc_id q = Some (sc_practice (pw_columns w (fst k)))"
      "pc_status q \<in> {Some PracticeReleased, Some PracticeDisabled}"
    using assms(1,3) unfolding submitted_to_def practice_inv_def by blast
  then have "q = p" using one_practice [OF assms(1,2)] by simp
  then show ?thesis using q(3) by simp
qed

definition none_void :: "null_int set \<Rightarrow> practice_world \<Rightarrow> bool" where
  "none_void ids w \<longleftrightarrow> (\<forall>r\<in>set (pw_practices w). pc_id r \<in> ids \<longrightarrow> pc_status r \<noteq> Some PracticeDisabled)"

lemma move_practices_simps [simp]:
  "pw_columns (move_practices V q st f uid w) = pw_columns w" "pw_mark (move_practices V q st f uid w) = pw_mark w"
  "pw_next_practice (move_practices V q st f uid w) = pw_next_practice w"
  "pw_next_submission (move_practices V q st f uid w) = pw_next_submission w"
  "pw_wrong_of (move_practices V q st f uid w) = pw_wrong_of w"
  by (simp_all add: move_practices_def)

lemma move_inv:
  assumes "practice_inv w"
    and "\<And>r. r \<in> set (pw_practices w) \<Longrightarrow> q r \<Longrightarrow> revised (pw_columns w) (keys w) r
      (f (r\<lparr>pc_status := Some st, pc_update_time := Some (pv_now V), pc_updated_by := Some uid\<rparr>))"
  shows "practice_inv (move_practices V q st f uid w)"
proof (rule revised_inv [OF assms(1)])
  show "list_all2 (revised (pw_columns w) (keys w)) (pw_practices w) (pw_practices (move_practices V q st f uid w))"
    using assms(2) by (auto simp: move_practices_def intro!: revised_update)
qed simp_all

lemma release_practice_inv:
  assumes "release_practice V mine uid p w = Inr w'" and "practice_inv w \<and> none_void ids w" and "pc_id p \<in> ids"
  shows "practice_inv w' \<and> none_void ids w'"
proof -
  obtain i where cfg: "configure_marking V uid (release_request (Int64 (pc_id p)) p uid)
      (move_practices V (\<lambda>r. pc_id r = pc_id p \<and> mine r) PracticeReleased (\<lambda>r. r\<lparr>pc_exam_paper := Some i\<rparr>) uid w) = Inr w'"
    using assms(1) by (auto simp: release_practice_def and_then_Inr_iff split: if_splits)
  let ?w = "move_practices V (\<lambda>r. pc_id r = pc_id p \<and> mine r) PracticeReleased (\<lambda>r. r\<lparr>pc_exam_paper := Some i\<rparr>) uid w"
  have core: "practice_core w' = practice_core ?w" by (rule configure_marking_core [OF cfg])
  have "practice_inv ?w"
  proof (rule move_inv)
    show "practice_inv w" using assms(2) ..
    fix r assume r: "r \<in> set (pw_practices w)" "pc_id r = pc_id p \<and> mine r"
    have "pc_status r \<noteq> Some PracticeDisabled" using assms(2,3) r by (auto simp: none_void_def)
    then have "pc_status r = Some PracticeReleased \<or> \<not> submitted_to (pw_columns w) (keys w) r"
      using submitted_status [OF _ r(1)] assms(2) by auto
    then show "revised (pw_columns w) (keys w) r (r\<lparr>pc_status := Some PracticeReleased, pc_update_time := Some (pv_now V),
        pc_updated_by := Some uid, pc_exam_paper := Some i\<rparr>)" by (auto simp: revised_def)
  qed
  moreover have "none_void ids ?w" using assms(2)
    by (auto simp: none_void_def move_practices_def set_sql_update practice_codes split: if_split_asm)
  moreover have "pw_practices w' = pw_practices ?w" using core by (simp add: practice_core_def)
  ultimately show ?thesis using practice_inv_core [OF core] by (simp add: none_void_def)
qed

lemma delete_practices_inv:
  assumes "delete_practices V mine uid ids ps w = Inr w'" and "practice_inv w"
    and loaded: "\<forall>r\<in>set (pw_practices w). pc_id r \<in> Some ` set ids \<longrightarrow> practice_alive r \<longrightarrow> (\<exists>p\<in>set (pv_order V ps). pc_id p = pc_id r)"
  shows "practice_inv w'"
proof -
  let ?w = "move_practices V (\<lambda>r. pc_id r \<in> Some ` set ids \<and> mine r) PracticeDeleted (\<lambda>r. r) uid w"
  have cfg: "configure_marking V uid (clear_request ids) ?w = Inr w'"
    and free: "\<forall>p\<in>set (pv_order V ps). \<not> answered w (Int64 (pc_id p))"
    using assms(1) by (auto simp: delete_practices_def Let_def filter_empty_conv split: if_splits)
  have "practice_inv ?w"
  proof (rule move_inv [OF assms(2)])
    fix r assume r: "r \<in> set (pw_practices w)" "pc_id r \<in> Some ` set ids \<and> mine r"
    have "\<not> submitted_to (pw_columns w) (keys w) r"
    proof
      assume sub: "submitted_to (pw_columns w) (keys w) r"
      from submitted_status [OF assms(2) r(1) sub] have "practice_alive r" by (auto simp: practice_alive_def practice_codes)
      with loaded r obtain p where "p \<in> set (pv_order V ps)" "pc_id p = pc_id r" by blast
      moreover have "answered w (Int64 (pc_id r))"
        using sub by (auto simp: submitted_to_def answered_def list_ex_iff submission_key_def)
      ultimately show False using free by auto
    qed
    then show "revised (pw_columns w) (keys w) r (r\<lparr>pc_status := Some PracticeDeleted, pc_update_time := Some (pv_now V),
        pc_updated_by := Some uid\<rparr>)" by (auto simp: revised_def)
  qed
  then show ?thesis using practice_inv_core [OF configure_marking_core [OF cfg]] by simp
qed

definition void_key :: "(int \<Rightarrow> submission_columns) \<Rightarrow> int list \<Rightarrow> int \<times> string \<Rightarrow> int \<times> string" where
  "void_key cols ids k = (if sc_practice (cols (fst k)) \<in> set ids then (fst k, SubmissionDisabled) else k)"

lemma void_submissions_keys: "keys (void_submissions V uid ids w) = map (void_key (pw_columns w) ids) (keys w)"
  by (auto simp: void_submissions_def Let_def sql_update_def void_key_def submission_key_def void_submission_def)

lemma void_submissions_simps [simp]:
  "pw_practices (void_submissions V uid ids w) = pw_practices w" "pw_columns (void_submissions V uid ids w) = pw_columns w"
  "pw_next_practice (void_submissions V uid ids w) = pw_next_practice w"
  "pw_next_submission (void_submissions V uid ids w) = pw_next_submission w"
  by (simp_all add: void_submissions_def Let_def)

lemma own_keys_void:
  assumes "pid \<notin> set ids"
  shows "own_keys cols pid uid (map (void_key cols ids) ks) = own_keys cols pid uid ks"
  using assms by (induction ks) (auto simp: own_keys_def void_key_def)

lemma fst_void_key [simp]: "fst (void_key cols ids k) = fst k"
  by (simp add: void_key_def)

lemma void_practices_inv:
  assumes "void_practices V mine uid ids w = Inr w'" and "practice_inv w"
    and reach: "\<forall>r\<in>set (pw_practices w). pc_id r \<in> Some ` set ids \<longrightarrow> mine r"
  shows "practice_inv w'"
proof -
  define f where "f r = r\<lparr>pc_status := Some PracticeDisabled, pc_update_time := Some (pv_now V), pc_updated_by := Some uid\<rparr>" for r :: practice
  define g where "g r = (if pc_id r \<in> Some ` set ids \<and> mine r then f r else r)" for r
  define w1 where "w1 = void_submissions V uid ids (move_practices V (\<lambda>r. pc_id r \<in> Some ` set ids \<and> mine r) PracticeDisabled (\<lambda>r. r) uid w)"
  have cfg: "configure_marking V uid (clear_request ids) w1 = Inr w'"
    using assms(1) by (simp add: void_practices_def w1_def split: if_splits)
  have ps: "pw_practices w1 = map g (pw_practices w)"
    by (simp add: w1_def move_practices_def sql_update_def g_def f_def)
  have ks: "keys w1 = map (void_key (pw_columns w) ids) (keys w)"
    using void_submissions_keys [of V uid ids] by (simp add: w1_def)
  have same: "pw_columns w1 = pw_columns w" "pw_next_practice w1 = pw_next_practice w" "pw_next_submission w1 = pw_next_submission w"
    by (simp_all add: w1_def)
  have g: "pc_id (g r) = pc_id r" "pc_status (g r) \<in> {pc_status r, Some PracticeDisabled}" for r by (auto simp: g_def f_def)
  have fsts: "map fst (keys w1) = map fst (keys w)" by (simp only: ks map_map o_def fst_void_key)
  have order: "practice_in_order (pw_columns w) (keys w1) (g r)" if r: "r \<in> set (pw_practices w)" for r
    unfolding practice_in_order_def
  proof (intro impI allI)
    fix uid' assume rel: "pc_status (g r) = Some PracticeReleased"
    then have out: "pc_id r \<notin> Some ` set ids" and gr: "g r = r"
      using reach r by (auto simp: g_def f_def practice_codes split: if_splits)
    have notin: "Int64 (pc_id r) \<notin> set ids" using out assms(2) r by (auto simp: practice_inv_def)
    have "in_order (pw_columns w) (pc_allowed r) (own_keys (pw_columns w) (Int64 (pc_id r)) uid' (keys w))"
      using assms(2) r rel by (simp add: practice_inv_def practice_in_order_def gr)
    then show "in_order (pw_columns w) (pc_allowed (g r)) (own_keys (pw_columns w) (Int64 (pc_id (g r))) uid' (keys w1))"
      by (simp only: ks gr own_keys_void [OF notin])
  qed
  have all: "(\<forall>k\<in>set (keys w1). P (fst k)) \<longleftrightarrow> (\<forall>k\<in>set (keys w). P (fst k))" for P
    using arg_cong [OF fsts, of "\<lambda>is. \<forall>i\<in>set is. P i"] by simp
  have owner: "\<exists>p\<in>set (pw_practices w1). pc_id p = Some (sc_practice (pw_columns w (fst k))) \<and>
      pc_status p \<in> {Some PracticeReleased, Some PracticeDisabled}" if k: "k \<in> set (keys w)" for k
  proof -
    obtain p where p: "p \<in> set (pw_practices w)" "pc_id p = Some (sc_practice (pw_columns w (fst k)))"
      "pc_status p \<in> {Some PracticeReleased, Some PracticeDisabled}"
      using assms(2) k unfolding practice_inv_def by blast
    then show ?thesis using g [of p] by (intro bexI [of _ "g p"]) (auto simp: ps)
  qed
  have ids: "map pc_id (pw_practices w1) = map pc_id (pw_practices w)" by (simp add: ps g(1))
  have allp: "(\<forall>p\<in>set (pw_practices w1). P (pc_id p)) \<longleftrightarrow> (\<forall>p\<in>set (pw_practices w). P (pc_id p))" for P
    using arg_cong [OF ids, of "\<lambda>is. \<forall>i\<in>set is. P i"] by simp
  have "practice_in_order (pw_columns w) (keys w1) p" if "p \<in> set (pw_practices w1)" for p
    using that order unfolding ps by auto
  then have "practice_inv w1"
    using assms(2) owner unfolding practice_inv_def same fsts ids
      allp [of "\<lambda>i. i \<noteq> None \<and> 0 < Int64 i \<and> Int64 i < pw_next_practice w"]
      all [of "\<lambda>i. 0 < i \<and> i < pw_next_submission w"]
      all [of "\<lambda>i. \<exists>p\<in>set (pw_practices w1). pc_id p = Some (sc_practice (pw_columns w i)) \<and>
        pc_status p \<in> {Some PracticeReleased, Some PracticeDisabled}"]
    by blast
  then show ?thesis using practice_inv_core [OF configure_marking_core [OF cfg]] by simp
qed

text \<open>The order of a Go map is an order of its elements.\<close>

definition map_order :: "practice_env \<Rightarrow> bool" where
  "map_order V \<longleftrightarrow> (\<forall>ps. mset (pv_order V ps) = mset ps)"

lemma map_order_set: "map_order V \<Longrightarrow> set (pv_order V ps) = set ps"
  by (metis map_order_def set_mset_mset)

lemma same_status_not_void: "same_status sign ps = Inr u \<Longrightarrow> p \<in> set ps \<Longrightarrow> pc_status p \<noteq> Some PracticeDisabled"
  by (induction sign ps rule: same_status.induct) (auto simp: Let_def split: if_splits)

lemma LoadPracticeByIDs_Inr:
  assumes "LoadPracticeByIDs fault ids w = Inr ps"
  shows "ps = map loaded (filter (\<lambda>p. pc_id p \<in> Some ` set ids \<and> practice_alive p) (pw_practices w))"
  using assms by (auto simp: LoadPracticeByIDs_def Let_def split: if_splits)

text \<open>Nobody voids a practice that is out of reach.\<close>

definition within_reach :: "authority \<Rightarrow> int \<Rightarrow> int list \<Rightarrow> practice_world \<Rightarrow> bool" where
  "within_reach a uid ids w \<longleftrightarrow> list_all (\<lambda>p. pc_id p \<in> Some ` set ids \<longrightarrow> practice_reach a uid p) (pw_practices w)"

lemma OperatePracticeStatusV2_inv:
  assumes "practice_inv w" and "map_order V" and "status = PracticeDisabled \<Longrightarrow> within_reach a uid ids w"
  shows "practice_inv (snd (OperatePracticeStatusV2 V a ids status uid w))"
proof (cases "snd (OperatePracticeStatusV2 V a ids status uid w) = w")
  case True
  then show ?thesis using assms(1) by simp
next
  case False
  let ?w' = "snd (OperatePracticeStatusV2 V a ids status uid w)"
  obtain ps where ps: "LoadPracticeByIDs (pv_fault V) ids w = Inr ps" and ok: "same_status [] (pv_order V ps) = Inr ()"
    and set: "set_practice_status V (practice_reach a uid) uid ids ps status w = Inr ?w'"
    using False by (auto simp: OperatePracticeStatusV2_def status_tx_def and_then_Inr_iff split: sum.splits if_splits)
  note loaded_ps = LoadPracticeByIDs_Inr [OF ps]
  have order: "set (pv_order V ps) = set ps" by (rule map_order_set) fact
  consider (release) "for_each (release_practice V (practice_reach a uid) uid) (pv_order V ps) w = Inr ?w'"
    | (delete) "delete_practices V (practice_reach a uid) uid ids ps w = Inr ?w'"
    | (void) "status = PracticeDisabled" "void_practices V (practice_reach a uid) uid ids w = Inr ?w'"
    using set by (auto simp: set_practice_status_def split: if_splits)
  then show ?thesis
  proof cases
    case release
    let ?ids = "pc_id ` set ps"
    have "none_void ?ids w"
      unfolding none_void_def
    proof (intro ballI impI notI)
      fix r assume r: "r \<in> set (pw_practices w)" "pc_id r \<in> ?ids" "pc_status r = Some PracticeDisabled"
      then obtain p where p: "p \<in> set ps" "pc_id p = pc_id r" by auto
      then obtain q where q: "q \<in> set (pw_practices w)" "p = loaded q" by (auto simp: loaded_ps)
      with p have "q = r" using one_practice [OF assms(1) r(1)] by simp
      then show False using same_status_not_void [OF ok, of p] p(1) q(2) r(3) by (simp add: order)
    qed
    then have start: "practice_inv w \<and> none_void ?ids w" using assms(1) by simp
    have "practice_inv ?w' \<and> none_void ?ids ?w'"
    proof (rule for_each_invariant [OF release, where P = "\<lambda>w. practice_inv w \<and> none_void ?ids w"])
      fix p v v'
      assume p: "p \<in> set (pv_order V ps)" and v: "practice_inv v \<and> none_void ?ids v"
        and rel: "release_practice V (practice_reach a uid) uid p v = Inr v'"
      show "practice_inv v' \<and> none_void ?ids v'"
        by (rule release_practice_inv [OF rel v]) (use p in \<open>simp add: order\<close>)
    qed (rule start)
    then show ?thesis ..
  next
    case delete
    have "\<exists>p\<in>set ps. pc_id p = pc_id r"
      if "r \<in> set (pw_practices w)" "pc_id r \<in> Some ` set ids" "practice_alive r" for r
      using that by (intro bexI [of _ "loaded r"]) (simp_all add: loaded_ps)
    then show ?thesis by (intro delete_practices_inv [OF delete assms(1)]) (simp add: order)
  next
    case void
    show ?thesis using assms(3) [OF void(1)]
      by (intro void_practices_inv [OF void(2) assms(1)]) (auto simp: within_reach_def list_all_iff)
  qed
qed

text \<open>The same for the request: what it would void is within the reach of its user.\<close>

definition voids_within_reach :: "practice_env \<Rightarrow> null_int \<times> null_int \<Rightarrow> string \<Rightarrow> string \<Rightarrow> practice_world \<Rightarrow> bool" where
  "voids_within_reach V user idStr status w \<longleftrightarrow> status = PracticeDisabled \<longrightarrow>
     (case (practice_access V user ''/api/practice/status'', practice_ids idStr) of
        (Inr (uid, a, _), Inr ids) \<Rightarrow> within_reach a uid ids w | _ \<Rightarrow> True)"

lemma updatePracticeStatus_inv:
  assumes "practice_inv w" and "map_order V" and "voids_within_reach V user idStr status w"
  shows "practice_inv (snd (updatePracticeStatus V user m idStr status w))"
  using assms OperatePracticeStatusV2_inv [OF assms(1,2)]
  by (auto simp: updatePracticeStatus_def with_access_def voids_within_reach_def split: sum.splits prod.splits)

section \<open>Entering\<close>

lemma latest_in_iff:
  assumes "\<forall>s\<in>set rows. 0 < pr_id s"
  shows "latest_in w st rows = 0 \<longleftrightarrow> (\<forall>s\<in>set rows. pr_status s \<noteq> st)" and "0 \<le> latest_in w st rows"
proof -
  have pick: "fold (\<lambda>t b. if attempt_of w b < attempt_of w t then t else b) ss s \<in> set (s # ss)" for ss s
    by (induction ss arbitrary: s) auto
  have "latest_in w st rows = 0 \<and> (\<forall>s\<in>set rows. pr_status s \<noteq> st) \<or> 0 < latest_in w st rows \<and> (\<exists>s\<in>set rows. pr_status s = st)"
  proof (cases "filter (\<lambda>s. pr_status s = st) rows")
    case Nil
    then show ?thesis by (simp add: latest_in_def filter_empty_conv)
  next
    case (Cons s ss)
    have sub: "set (s # ss) \<subseteq> set rows" unfolding Cons [symmetric] by (rule filter_is_subset)
    have "s \<in> set (filter (\<lambda>s. pr_status s = st) rows)" by (simp add: Cons)
    then have st: "pr_status s = st" by simp
    let ?t = "fold (\<lambda>t b. if attempt_of w b < attempt_of w t then t else b) ss s"
    have "0 < pr_id ?t" using pick [of ss s] sub assms by blast
    moreover have "latest_in w st rows = pr_id ?t" by (simp only: latest_in_def Cons list.case)
    moreover have "\<exists>s\<in>set rows. pr_status s = st" using sub st by (intro bexI [of _ s]) simp_all
    ultimately show ?thesis by simp
  qed
  then show "latest_in w st rows = 0 \<longleftrightarrow> (\<forall>s\<in>set rows. pr_status s \<noteq> st)" and "0 \<le> latest_in w st rows" by auto
qed

lemma attempt_count_numbered:
  assumes "map (attempt_of w) rows = [1..int (length rows)]"
  shows "attempt_count w rows = int (length rows)"
proof (cases "map (attempt_of w) rows")
  case Nil
  then show ?thesis by (simp add: attempt_count_def)
next
  case (Cons a as)
  then have "attempt_count w rows = Max (set [1..int (length rows)])"
    using assms by (simp add: attempt_count_def Max.set_eq_fold [symmetric])
  moreover have "0 < length rows" using Cons by auto
  then have "Max (set [1..int (length rows)]) = int (length rows)" by (intro Max_eqI) (auto simp: Suc_le_eq)
  ultimately show ?thesis by simp
qed

lemma in_order_append:
  assumes "in_order cols allowed own" and "filter unfinished own = []"
    and "sc_attempt (cols i) = int (length own) + 1" and "0 < Int64 allowed \<Longrightarrow> int (length own) + 1 \<le> Int64 allowed"
  shows "in_order cols allowed (own @ [(i, SubmissionOpen)])"
proof -
  have "[1..int (length own) + 1] = [1..int (length own)] @ [int (length own) + 1]"
    using upto_rec2 [of 1 "int (length own) + 1"] by simp
  then show ?thesis using assms by (auto simp: in_order_def add.commute)
qed

lemma insert_submission_keys: "keys (insert_submission V pid uid paper n w) = keys w @ [(pw_next_submission w, SubmissionOpen)]"
  by (simp add: insert_submission_def Let_def submission_key_def new_submission_def)

lemma insert_submission_inv:
  assumes "practice_inv w" and p: "p \<in> set (pw_practices w)" "pc_id p = Some pid" "pc_status p = Some PracticeReleased"
    and own: "\<forall>k\<in>set (own_keys (pw_columns w) pid uid (keys w)). \<not> unfinished k"
    and n: "n = int (length (own_keys (pw_columns w) pid uid (keys w))) + 1"
    and room: "0 < Int64 (pc_allowed p) \<Longrightarrow> n \<le> Int64 (pc_allowed p)"
  shows "practice_inv (insert_submission V pid uid paper n w)"
proof -
  let ?i = "pw_next_submission w"
  let ?w = "insert_submission V pid uid paper n w"
  define cols where "cols = (pw_columns w)(?i := \<lparr>sc_practice = pid, sc_student = uid, sc_paper = paper, sc_attempt = n\<rparr>)"
  have same: "pw_practices ?w = pw_practices w" "pw_columns ?w = cols" "pw_next_practice ?w = pw_next_practice w"
    "pw_next_submission ?w = ?i + 1"
    by (simp_all add: insert_submission_def Let_def cols_def)
  have fresh: "\<forall>k\<in>set (keys w). fst k \<noteq> ?i" using assms(1) by (auto simp: practice_inv_def)
  have old: "own_keys cols q u (keys w) = own_keys (pw_columns w) q u (keys w)" for q u
    unfolding own_keys_def by (rule filter_cong) (use fresh in \<open>auto simp: cols_def\<close>)
  have new: "own_keys cols q u [(?i, SubmissionOpen)] = (if q = pid \<and> u = uid then [(?i, SubmissionOpen)] else [])" for q u
    by (auto simp: own_keys_def cols_def)
  have old_order: "in_order cols al (own_keys (pw_columns w) q u (keys w)) = in_order (pw_columns w) al (own_keys (pw_columns w) q u (keys w))" for al q u
  proof -
    have "map (\<lambda>k. sc_attempt (cols (fst k))) (own_keys (pw_columns w) q u (keys w)) =
        map (\<lambda>k. sc_attempt (pw_columns w (fst k))) (own_keys (pw_columns w) q u (keys w))"
      by (rule map_cong) (use fresh in \<open>auto simp: cols_def own_keys_def\<close>)
    then show ?thesis by (simp only: in_order_def)
  qed
  have "practice_in_order cols (keys w @ [(?i, SubmissionOpen)]) q" if q: "q \<in> set (pw_practices w)" for q
    unfolding practice_in_order_def
  proof (intro impI allI)
    fix u assume "pc_status q = Some PracticeReleased"
    then have ord: "in_order (pw_columns w) (pc_allowed q) (own_keys (pw_columns w) (Int64 (pc_id q)) u (keys w))"
      using assms(1) q by (simp add: practice_inv_def practice_in_order_def)
    show "in_order cols (pc_allowed q) (own_keys cols (Int64 (pc_id q)) u (keys w @ [(?i, SubmissionOpen)]))"
    proof (cases "Int64 (pc_id q) = pid \<and> u = uid")
      case False
      then have none: "own_keys cols (Int64 (pc_id q)) u [(?i, SubmissionOpen)] = []" unfolding new by (rule if_not_P)
      show ?thesis using ord by (simp only: own_keys_append old none append_Nil2 old_order)
    next
      case True
      have "pc_id q = pc_id p" using assms(1) q True p(2) by (auto simp: practice_inv_def)
      then have qp: "q = p" using one_practice [OF assms(1) p(1) q] by simp
      let ?own = "own_keys (pw_columns w) pid uid (keys w)"
      have "in_order cols (pc_allowed p) (?own @ [(?i, SubmissionOpen)])"
      proof (rule in_order_append)
        show "in_order cols (pc_allowed p) ?own" using ord True by (simp only: qp old_order)
        show "filter unfinished ?own = []" using own by (simp add: filter_empty_conv)
      qed (use n room in \<open>simp_all add: cols_def\<close>)
      then show ?thesis using True by (simp add: own_keys_append old new qp del: map_append)
    qed
  qed
  moreover have "distinct (map fst (keys w @ [(?i, SubmissionOpen)]))"
    using assms(1) fresh by (auto simp: practice_inv_def)
  moreover have "\<forall>k\<in>set (keys w @ [(?i, SubmissionOpen)]). \<exists>p\<in>set (pw_practices w). pc_id p = Some (sc_practice (cols (fst k))) \<and>
      pc_status p \<in> {Some PracticeReleased, Some PracticeDisabled}"
  proof
    fix k assume k: "k \<in> set (keys w @ [(?i, SubmissionOpen)])"
    show "\<exists>p\<in>set (pw_practices w). pc_id p = Some (sc_practice (cols (fst k))) \<and>
        pc_status p \<in> {Some PracticeReleased, Some PracticeDisabled}"
    proof (cases "k \<in> set (keys w)")
      case True
      then have "cols (fst k) = pw_columns w (fst k)" using fresh by (auto simp: cols_def)
      with True assms(1) show ?thesis unfolding practice_inv_def by metis
    next
      case False
      with k have "k = (?i, SubmissionOpen)" by auto
      then show ?thesis using p by (auto simp: cols_def intro!: bexI [of _ p])
    qed
  qed
  moreover have "\<forall>k\<in>set (keys w @ [(?i, SubmissionOpen)]). 0 < fst k \<and> fst k < ?i + 1"
  proof -
    have "\<forall>k\<in>set (keys w). 0 < fst k \<and> fst k < ?i" "0 < ?i" using assms(1) unfolding practice_inv_def by blast+
    then show ?thesis unfolding set_append ball_Un by auto
  qed
  moreover have "0 < ?i + 1" using assms(1) unfolding practice_inv_def by linarith
  ultimately show ?thesis using assms(1) unfolding practice_inv_def same insert_submission_keys by blast
qed

lemma start_submission_inv:
  assumes "start_submission V pid uid paper n w = Inr (w', i)" and "practice_inv w"
    and "p \<in> set (pw_practices w)" "pc_id p = Some pid" "pc_status p = Some PracticeReleased"
    and "\<forall>k\<in>set (own_keys (pw_columns w) pid uid (keys w)). \<not> unfinished k"
    and "n = int (length (own_keys (pw_columns w) pid uid (keys w))) + 1"
    and "0 < Int64 (pc_allowed p) \<Longrightarrow> n \<le> Int64 (pc_allowed p)"
  shows "practice_inv w'"
proof -
  obtain P where "w' = store_sheets P (insert_submission V pid uid paper n w)"
    using assms(1) by (auto simp: start_submission_def Let_def and_then_Inr_iff split: if_splits)
  then have "practice_core w' = practice_core (insert_submission V pid uid paper n w)"
    by (simp add: practice_core_def store_sheets_def)
  then show ?thesis using practice_inv_core insert_submission_inv [OF assms(2-8)] by metis
qed

text \<open>What a student who may enter is told agrees with the submissions.\<close>

lemma open_summary_inv:
  assumes "open_summary w pid uid = Some v" and "practice_inv w"
  obtains p where "p \<in> set (pw_practices w)" "pc_id p = Some pid" "pc_status p = Some PracticeReleased"
    "vs_allowed v = Int64 (pc_allowed p)"
    "in_order (pw_columns w) (pc_allowed p) (own_keys (pw_columns w) pid uid (keys w))"
    "vs_attempts v = int (length (own_keys (pw_columns w) pid uid (keys w)))"
    "\<And>st. \<lbrakk>st = SubmissionOpen \<and> vs_unsubmitted v = 0 \<or> st = SubmissionPending \<and> vs_pending v \<le> 0 \<or>
       st = SubmissionMarked \<and> vs_submitted v = 0\<rbrakk> \<Longrightarrow> \<forall>k\<in>set (own_keys (pw_columns w) pid uid (keys w)). snd k \<noteq> st"
proof -
  let ?own = "own_submissions w pid uid"
  obtain p where p: "p \<in> set (pw_practices w)" "pc_id p = Some pid" "pc_status p = Some PracticeReleased"
    and v: "vs_allowed v = Int64 (pc_allowed p)" "vs_attempts v = attempt_count w ?own"
      "vs_unsubmitted v = latest_in w SubmissionOpen ?own" "vs_submitted v = latest_in w SubmissionMarked ?own"
      "vs_pending v = latest_in w SubmissionPending ?own"
    using assms(1) by (auto simp: open_summary_def v_practice_summary_def Let_def dest!: sql_first_Some
      split: option.splits if_splits)
  have keys: "own_keys (pw_columns w) pid uid (keys w) = map submission_key ?own" by (rule own_keys_own)
  have ord: "in_order (pw_columns w) (pc_allowed p) (own_keys (pw_columns w) pid uid (keys w))"
    using assms(2) p by (auto simp: practice_inv_def practice_in_order_def)
  moreover have "attempt_of w = (\<lambda>s. sc_attempt (pw_columns w (pr_id s)))" by (simp add: fun_eq_iff attempt_of_def)
  ultimately have "map (attempt_of w) ?own = [1..int (length ?own)]"
    by (simp add: in_order_def keys o_def submission_key_def)
  then have count: "vs_attempts v = int (length (own_keys (pw_columns w) pid uid (keys w)))"
    by (simp add: v attempt_count_numbered keys)
  have pos: "\<forall>s\<in>set ?own. 0 < pr_id s"
    using assms(2) by (auto simp: practice_inv_def own_submissions_def submission_key_def)
  have "\<forall>k\<in>set (own_keys (pw_columns w) pid uid (keys w)). snd k \<noteq> st"
    if "st = SubmissionOpen \<and> vs_unsubmitted v = 0 \<or> st = SubmissionPending \<and> vs_pending v \<le> 0 \<or>
       st = SubmissionMarked \<and> vs_submitted v = 0" for st
  proof -
    have "latest_in w st ?own = 0" using that latest_in_iff(2) [OF pos] by (auto simp: v intro: antisym)
    then show ?thesis using latest_in_iff(1) [OF pos, of w st] by (auto simp: keys submission_key_def)
  qed
  with p v(1) ord count that show thesis by blast
qed

lemma EnterPracticeGetPaperDetails_inv:
  assumes "EnterPracticeGetPaperDetails V pid uid w = Inr (w', e)" and "practice_inv w"
  shows "practice_inv w'"
proof -
  obtain v where v: "open_summary w pid uid = Some v" "vs_pending v \<le> 0"
    using assms(1) by (auto simp: EnterPracticeGetPaperDetails_def not_less split: if_splits option.splits)
  from open_summary_inv [OF v(1) assms(2)] obtain p where p: "p \<in> set (pw_practices w)" "pc_id p = Some pid"
      "pc_status p = Some PracticeReleased"
    and al: "vs_allowed v = Int64 (pc_allowed p)"
    and ord: "in_order (pw_columns w) (pc_allowed p) (own_keys (pw_columns w) pid uid (keys w))"
    and n: "vs_attempts v = int (length (own_keys (pw_columns w) pid uid (keys w)))"
    and none: "\<And>st. st = SubmissionOpen \<and> vs_unsubmitted v = 0 \<or> st = SubmissionPending \<and> vs_pending v \<le> 0 \<or>
       st = SubmissionMarked \<and> vs_submitted v = 0 \<Longrightarrow> \<forall>k\<in>set (own_keys (pw_columns w) pid uid (keys w)). snd k \<noteq> st"
    by metis
  let ?own = "own_keys (pw_columns w) pid uid (keys w)"
  consider (first) q i where "vs_unsubmitted v = 0" "vs_submitted v = 0" "start_submission V pid uid q 1 w = Inr (w', i)"
    | (same) "w' = w"
    | (again) i where "vs_unsubmitted v = 0" "vs_allowed v = 0 \<or> vs_attempts v < vs_allowed v"
        "start_submission V pid uid (vs_exam_paper v) (vs_attempts v + 1) w = Inr (w', i)"
    using assms(1) by (auto simp: EnterPracticeGetPaperDetails_def v and_then_Inr_iff split: if_splits prod.splits)
  then show ?thesis
  proof cases
    case first
    have "?own = []"
    proof (rule ccontr)
      assume "?own \<noteq> []"
      then obtain k where k: "k \<in> set ?own" by (cases ?own) auto
      then have "snd k \<in> {SubmissionOpen, SubmissionPending, SubmissionMarked}" using ord by (auto simp: in_order_def)
      then show False using none [of "snd k"] k first v(2) by auto
    qed
    then show ?thesis by (intro start_submission_inv [OF first(3) assms(2) p]) simp_all
  next
    case same
    then show ?thesis using assms(2) by simp
  next
    case again
    have "\<forall>k\<in>set ?own. \<not> unfinished k"
      using none [of SubmissionOpen] none [of SubmissionPending] again(1) v(2) by (auto simp: unfinished_def)
    then show ?thesis using again(2) by (intro start_submission_inv [OF again(3) assms(2) p]) (simp_all add: n al)
  qed
qed

lemma map_submissions_core:
  assumes "\<And>s. submission_key (f s) = submission_key s"
  shows "practice_core (map_submissions (sql_update p f) w) = practice_core w"
  using assms by (simp add: practice_core_def map_submissions_def map_sql_update)

lemma saveBeginTimeForPractice_core: "saveBeginTimeForPractice fault now i w = Inr w' \<Longrightarrow> practice_core w' = practice_core w"
  by (auto simp: saveBeginTimeForPractice_def submission_key_def intro!: map_submissions_core split: if_splits option.splits)

lemma note_entry_core: "note_entry fault now i w = Inr (w', n) \<Longrightarrow> practice_core w' = practice_core w"
  by (auto simp: note_entry_def submission_key_def intro!: map_submissions_core split: if_splits option.splits)

lemma init_practice_inv:
  assumes "init_practice V pid uid w = Inr (w', e, n)" and "practice_inv w"
  shows "practice_inv w'"
proof -
  obtain w1 w2 where "EnterPracticeGetPaperDetails V pid uid w = Inr (w1, e)"
    and "saveBeginTimeForPractice (pv_fault V) (pv_now V) (en_submission e) w1 = Inr w2"
    and "note_entry (pv_fault V) (pv_now V) (en_submission e) w2 = Inr (w', n)"
    using assms(1) by (auto simp: init_practice_def and_then_Inr_iff split: if_splits)
  then show ?thesis
    using EnterPracticeGetPaperDetails_inv assms(2) practice_inv_core saveBeginTimeForPractice_core note_entry_core by metis
qed

lemma enter_practice_inv: "practice_inv w \<Longrightarrow> practice_inv (snd (enter_practice V m domains user body w))"
  by (auto simp: enter_practice_def and_then_Inr_iff intro: init_practice_inv split: sum.splits if_splits)

section \<open>All runs\<close>

text \<open>
  The requests on practices in any order, whatever fails in them, the requests of \<open>Exam_Answering\<close> and
  the end of the marking of a submission. Nobody voids a practice out of reach.
\<close>

inductive practice_step :: "practice_world \<Rightarrow> practice_world \<Rightarrow> bool" where
  save: "practice_step w (snd (practiceH V user body w))"
| students: "practice_step w (snd (practiceStudentListH V path user lbody w))"
| change: "map_order V \<Longrightarrow> voids_within_reach V user idStr st w \<Longrightarrow>
    practice_step w (snd (updatePracticeStatus V user m idStr st w))"
| enter: "practice_step w (snd (enter_practice V m domains uid ebody w))"
| answer: "answering_step (pw_answer w) A \<Longrightarrow> practice_step w (w\<lparr>pw_mark := (pw_mark w)\<lparr>md_answer := A\<rparr>\<rparr>)"
| mark: "UpdateExamSessionOrPracticeSubmissionStatus fault now c SubmissionMarked (pw_mark w) = Inr M \<Longrightarrow>
    practice_step w (w\<lparr>pw_mark := M\<rparr>)"

lemma practice_step_inv:
  assumes "practice_step w w'" and "practice_inv w"
  shows "practice_inv w'"
  using assms
proof (cases rule: practice_step.cases)
  case (answer A)
  then show ?thesis using answering_goes_on [OF answer(2)] by (intro goes_on_inv [OF assms(2)]) simp_all
next
  case (mark fault now c M)
  then show ?thesis using marking_goes_on [OF mark(2)] by (intro goes_on_inv [OF assms(2)]) simp_all
qed (auto intro: practiceH_inv practiceStudentListH_inv updatePracticeStatus_inv enter_practice_inv)

lemma practice_run_inv: "practice_step\<^sup>*\<^sup>* w w' \<Longrightarrow> practice_inv w \<Longrightarrow> practice_inv w'"
  by (induction rule: rtranclp_induct) (auto intro: practice_step_inv)

text \<open>A state without submissions, with the ids of a sequence.\<close>

definition no_submissions :: "practice_world \<Rightarrow> bool" where
  "no_submissions w \<longleftrightarrow> pw_submissions w = [] \<and> distinct (map pc_id (pw_practices w)) \<and>
     list_all (\<lambda>p. pc_id p \<noteq> None \<and> 0 < Int64 (pc_id p) \<and> Int64 (pc_id p) < pw_next_practice w) (pw_practices w) \<and>
     0 < pw_next_practice w \<and> 0 < pw_next_submission w"

lemma no_submissions_inv: "no_submissions w \<Longrightarrow> practice_inv w"
  by (auto simp: no_submissions_def practice_inv_def practice_in_order_def own_keys_def list_all_iff)

text \<open>
  (C1) Over all runs of the requests, in any order and with any failures, from a state without
  submissions: the submissions of a student to a released practice are numbered 1, 2, 3, ..., none is
  void, at most one of them is open or waits for its marks, and if the practice limits the attempts
  there are no more of them than it allows.
\<close>

theorem submissions_in_order:
  assumes "practice_step\<^sup>*\<^sup>* w w'" and "no_submissions w"
    and "p \<in> set (pw_practices w')" and "pc_status p = Some PracticeReleased"
    and own: "own = own_submissions w' (Int64 (pc_id p)) student"
  shows "map (attempt_of w') own = [1..int (length own)] \<and>
    (\<forall>s\<in>set own. pr_status s \<in> {SubmissionOpen, SubmissionPending, SubmissionMarked}) \<and>
    length (filter (\<lambda>s. pr_status s \<in> {SubmissionOpen, SubmissionPending}) own) \<le> 1 \<and>
    (0 < Int64 (pc_allowed p) \<longrightarrow> int (length own) \<le> Int64 (pc_allowed p))"
proof -
  have "practice_inv w'" by (rule practice_run_inv [OF assms(1)]) (rule no_submissions_inv [OF assms(2)])
  then have "in_order (pw_columns w') (pc_allowed p) (map submission_key own)"
    using assms(3,4) by (simp add: practice_inv_def practice_in_order_def own own_keys_own)
  moreover have "attempt_of w' = (\<lambda>s. sc_attempt (pw_columns w' (pr_id s)))" by (simp add: fun_eq_iff attempt_of_def)
  ultimately show ?thesis by (simp add: in_order_def o_def submission_key_def filter_map unfinished_def)
qed

definition pr_row :: practice where
  "pr_row = \<lparr>pc_id = Some 7, pc_name = Some ''a'', pc_correct_mode = Some ''00'', pc_type = Some ''00'', pc_creator = Some 3,
     pc_updated_by = None, pc_addi = No_bytes, pc_status = Some ''02'', pc_allowed = Some 1, pc_paper = Some 4,
     pc_exam_paper = Some 1, pc_create_time = None, pc_update_time = None, pc_domain = Some 50\<rparr>"

definition pr_world :: practice_world where
  "pr_world = \<lparr>pw_practices = [pr_row], pw_students = [roster_entry 0 3 7 21],
     pw_heads = [\<lparr>ph_id = 4, ph_name = Some ''p'', ph_paper_status = Some ''06'', ph_exam_paper = Some 1, ph_duration = None\<rparr>],
     pw_mark = mk_db ''02'' [] [] [], pw_columns = (\<lambda>_. \<lparr>sc_practice = 0, sc_student = 0, sc_paper = None, sc_attempt = 0\<rparr>),
     pw_wrong_of = (\<lambda>_. 0), pw_paper = demo_papers [], pw_next_practice = 8, pw_next_submission = 1\<rparr>"

definition pr_env :: practice_env where
  "pr_env = \<lparr>pv_fault = (\<lambda>_. False), pv_parses = (\<lambda>_. True), pv_now = 9, pv_default = Some ''00'', pv_order = (\<lambda>ps. ps),
     pv_rnd = (\<lambda>_ _. 0), pv_blank = demo_row, pv_auth = \<lparr>au_domains = [], au_apis = [], au_grants = [], au_next_domain = 1\<rparr>\<rparr>"

definition pr_enter :: "practice_world \<Rightarrow> practice_world" where
  "pr_enter w = snd (enter_practice pr_env ''post'' [2008] (Some 21) (Decoded 7) w)"

lemma pr_world_start: "no_submissions pr_world"
  by (simp add: no_submissions_def pr_world_def pr_row_def mk_db_def an_db_def)

lemma pr_enter_run: "practice_step\<^sup>*\<^sup>* pr_world (pr_enter pr_world)"
  unfolding pr_enter_def by (rule r_into_rtranclp) (rule practice_step.enter)

lemma pr_enter_practices: "pw_practices (pr_enter pr_world) = [pr_row]"
  by code_simp

lemma pr_enter_own: "length (own_submissions (pr_enter pr_world) 7 21) = 1"
  by code_simp

theorem submissions_in_order_witness:
  "map (attempt_of (pr_enter pr_world)) (own_submissions (pr_enter pr_world) 7 21) = [1]"
proof -
  have "pr_row \<in> set (pw_practices (pr_enter pr_world))" by (simp add: pr_enter_practices)
  moreover have "pc_status pr_row = Some PracticeReleased" by (simp add: pr_row_def practice_codes)
  moreover have "own_submissions (pr_enter pr_world) 7 21 = own_submissions (pr_enter pr_world) (Int64 (pc_id pr_row)) 21"
    by (simp add: pr_row_def)
  ultimately have "map (attempt_of (pr_enter pr_world)) (own_submissions (pr_enter pr_world) 7 21) =
      [1..int (length (own_submissions (pr_enter pr_world) 7 21))]"
    by (rule conjunct1 [OF submissions_in_order [OF pr_enter_run pr_world_start]])
  then show ?thesis by (simp only: pr_enter_own) simp
qed

text \<open>
  (C4) What a student has submitted keeps its practice: over all runs, a practice that has submissions
  is released or void; it has not been deleted.
\<close>

theorem answered_practices_stay:
  assumes "practice_step\<^sup>*\<^sup>* w w'" and "no_submissions w" and "s \<in> set (pw_submissions w')"
  shows "\<exists>p\<in>set (pw_practices w'). pc_id p = Some (sc_practice (pw_columns w' (pr_id s))) \<and>
    pc_status p \<in> {Some PracticeReleased, Some PracticeDisabled}"
proof -
  have "practice_inv w'" by (rule practice_run_inv [OF assms(1)]) (rule no_submissions_inv [OF assms(2)])
  moreover have "submission_key s \<in> set (keys w')" using assms(3) by simp
  ultimately have "\<exists>p\<in>set (pw_practices w'). pc_id p = Some (sc_practice (pw_columns w' (fst (submission_key s)))) \<and>
      pc_status p \<in> {Some PracticeReleased, Some PracticeDisabled}" unfolding practice_inv_def by blast
  then show ?thesis by (simp add: submission_key_def)
qed

theorem answered_practices_stay_witness:
  "pw_submissions (pr_enter pr_world) \<noteq> [] \<and> sc_practice (pw_columns (pr_enter pr_world) (pr_id (hd (pw_submissions (pr_enter pr_world))))) = 7"
proof -
  have "pw_submissions (pr_enter pr_world) \<noteq> []" using pr_enter_own by (auto simp: own_submissions_def)
  then have "hd (pw_submissions (pr_enter pr_world)) \<in> set (pw_submissions (pr_enter pr_world))" by simp
  from answered_practices_stay [OF pr_enter_run pr_world_start this] \<open>pw_submissions (pr_enter pr_world) \<noteq> []\<close>
  show ?thesis by (simp add: pr_enter_practices pr_row_def)
qed

section \<open>Voiding out of reach\<close>

lemma configure_marking_frame:
  "configure_marking V uid r w = Inr w' \<Longrightarrow> pw_students w' = pw_students w \<and> pw_heads w' = pw_heads w \<and>
    pw_paper w' = pw_paper w \<and> pw_wrong_of w' = pw_wrong_of w"
  by (auto simp: configure_marking_def map_sum_def split: sum.splits)

lemma voided_world:
  assumes "void_practices V mine uid ids w = Inr w'"
  shows "pw_practices w' = pw_practices (move_practices V (\<lambda>r. pc_id r \<in> Some ` set ids \<and> mine r) PracticeDisabled (\<lambda>r. r) uid w)"
    and "keys w' = map (void_key (pw_columns w) ids) (keys w)" and "pw_columns w' = pw_columns w"
    and "pw_students w' = pw_students w" and "pw_heads w' = pw_heads w" and "pw_paper w' = pw_paper w"
proof -
  let ?m = "move_practices V (\<lambda>r. pc_id r \<in> Some ` set ids \<and> mine r) PracticeDisabled (\<lambda>r. r) uid w"
  have cfg: "configure_marking V uid (clear_request ids) (void_submissions V uid ids ?m) = Inr w'"
    using assms by (simp add: void_practices_def split: if_splits)
  note core = configure_marking_core [OF cfg] and frame = configure_marking_frame [OF cfg]
  show "pw_practices w' = pw_practices ?m" using core by (simp add: practice_core_def)
  show "keys w' = map (void_key (pw_columns w) ids) (keys w)"
    using core void_submissions_keys [of V uid ids ?m] by (simp add: practice_core_def)
  show "pw_columns w' = pw_columns w" using core by (simp add: practice_core_def)
  show "pw_students w' = pw_students w" "pw_heads w' = pw_heads w" "pw_paper w' = pw_paper w"
    using frame by (simp_all add: void_submissions_def move_practices_def Let_def)
qed

lemma OperateV2_void:
  assumes "OperatePracticeStatusV2 V a ids PracticeDisabled uid w = (Inr (), w')" and "\<not> pv_fault V ''commit''"
  shows "void_practices V (practice_reach a uid) uid ids w = Inr w'"
  using assms by (auto simp: OperatePracticeStatusV2_def status_tx_def and_then_Inr_iff set_practice_status_def practice_codes
    split: sum.splits if_splits)

lemma first_by_id:
  assumes "p \<in> set rows" and "pc_id p = Some pid" and "\<And>r. r \<in> set rows \<Longrightarrow> pc_id r = Some pid \<Longrightarrow> r = p"
  shows "sql_first (\<lambda>q. pc_id q = Some pid) rows = Some p"
  by (rule sql_first_unique) (simp_all add: assms)

lemma latest_in_none: "\<forall>s\<in>set rows. pr_status s \<noteq> st \<Longrightarrow> latest_in w st rows = 0"
  by (simp add: latest_in_def filter_empty_conv)

text \<open>
  The statements that void do not ask whose practice it is, except the one on the practice itself. A
  void of a practice out of reach that goes through, which takes a database that runs the statement
  of the marking, leaves the practice as it is, released, but makes all its submissions void. For the
  entry it is then as if its students had never answered.
\<close>

lemma void_out_of_reach:
  assumes "OperatePracticeStatusV2 V a ids PracticeDisabled uid w = (Inr (), w')" and "\<not> pv_fault V ''commit''"
    and p: "p \<in> set (pw_practices w)" "pc_id p = Some pid" "pid \<in> set ids" "\<not> practice_reach a uid p"
    and unique: "distinct (map pc_id (pw_practices w))"
    and enters: "open_summary w pid student = Some v"
  shows "p \<in> set (pw_practices w') \<and> (\<forall>s\<in>set (own_submissions w' pid student). pr_status s = SubmissionDisabled) \<and>
    (\<exists>v'. open_summary w' pid student = Some v' \<and> vs_unsubmitted v' = 0 \<and> vs_submitted v' = 0 \<and> vs_pending v' = 0)"
proof -
  note world = voided_world [OF OperateV2_void [OF assms(1,2)]]
  define g where "g r = (if pc_id r \<in> Some ` set ids \<and> practice_reach a uid r
    then r\<lparr>pc_status := Some PracticeDisabled, pc_update_time := Some (pv_now V), pc_updated_by := Some uid\<rparr> else r)" for r :: practice
  have ps: "pw_practices w' = map g (pw_practices w)"
    by (simp add: world(1) move_practices_def sql_update_def g_def)
  have gp: "g p = p" using p(4) by (simp add: g_def)
  have one: "\<And>r. r \<in> set (pw_practices w) \<Longrightarrow> pc_id r = pc_id p \<Longrightarrow> r = p"
    using unique p(1) by (metis distinct_map inj_onD)
  have first: "sql_first (\<lambda>q. pc_id q = Some pid) (pw_practices w) = Some p"
    by (rule first_by_id [OF p(1,2)]) (rule one, simp_all add: p(2))
  have in': "p \<in> set (pw_practices w')" unfolding ps set_map using p(1) gp by (metis imageI)
  have gid: "pc_id (g r) = pc_id r" for r by (simp add: g_def)
  have "r' = p" if r': "r' \<in> set (pw_practices w')" "pc_id r' = Some pid" for r'
  proof -
    obtain r where r: "r \<in> set (pw_practices w)" "r' = g r" using r'(1) unfolding ps set_map by blast
    then have "r = p" using one [OF r(1)] r'(2) p(2) by (simp add: gid)
    then show ?thesis using r(2) gp by simp
  qed
  then have first': "sql_first (\<lambda>q. pc_id q = Some pid) (pw_practices w') = Some p"
    by (rule first_by_id [OF in' p(2)])
  have own: "map submission_key (own_submissions w' pid student) = map (void_key (pw_columns w) ids) (map submission_key (own_submissions w pid student))"
  proof -
    have "map submission_key (own_submissions w' pid student) = own_keys (pw_columns w) pid student (map (void_key (pw_columns w) ids) (keys w))"
      by (simp only: own_keys_own [symmetric] world(2,3))
    also have "\<dots> = map (void_key (pw_columns w) ids) (own_keys (pw_columns w) pid student (keys w))"
      by (simp add: own_keys_def filter_map o_def)
    finally show ?thesis by (simp only: own_keys_own)
  qed
  have void: "pr_status s = SubmissionDisabled" if "s \<in> set (own_submissions w' pid student)" for s
  proof -
    have "submission_key s \<in> set (map submission_key (own_submissions w' pid student))" using that by simp
    then obtain t where "t \<in> set (own_submissions w pid student)" "submission_key s = void_key (pw_columns w) ids (submission_key t)"
      unfolding own by auto
    then show ?thesis using p(3) by (simp add: void_key_def submission_key_def own_submissions_def)
  qed
  obtain t h x where t: "sql_first (\<lambda>t. rs_practice t = pid \<and> rs_student t = student) (pw_students w) = Some t"
    and h: "sql_first (\<lambda>h. Some (ph_id h) = pc_paper p) (pw_heads w) = Some h"
    and x: "sql_first (\<lambda>x. Some (xp_id x) = pc_exam_paper p \<and> xp_status x = ''00'') (pp_papers (pw_paper w)) = Some x"
    and rel: "pc_status p = Some PracticeReleased" "rs_status t \<notin> {None, Some StudentRemoved}"
    using enters by (auto simp: open_summary_def v_practice_summary_def first Let_def split: option.splits if_splits)
  have "\<exists>v'. open_summary w' pid student = Some v' \<and>
      vs_unsubmitted v' = latest_in w' SubmissionOpen (own_submissions w' pid student) \<and>
      vs_submitted v' = latest_in w' SubmissionMarked (own_submissions w' pid student) \<and>
      vs_pending v' = latest_in w' SubmissionPending (own_submissions w' pid student)"
    using rel by (simp add: open_summary_def v_practice_summary_def first' world(4-6) t h x Let_def)
  moreover have "latest_in w' st (own_submissions w' pid student) = 0" if "st \<noteq> SubmissionDisabled" for st
    by (rule latest_in_none) (use void that in auto)
  ultimately show ?thesis using in' void by (simp add: practice_codes)
qed

definition pr_stranger :: authority where
  "pr_stranger = (let d = \<lparr>dm_id = 60, dm_name = ''b'', dm_domain = ''b'', dm_priority = Some 7, dm_status = Some ''01'', dm_remark = None,
     dm_creator = None, dm_create_time = None, dm_updated_by = None, dm_update_time = None\<rparr>
     in \<lparr>at_role = d, at_domain = d, at_apis = [], at_domains = []\<rparr>)"

definition pr_voided :: practice_world where
  "pr_voided = snd (OperatePracticeStatusV2 pr_env pr_stranger [7] PracticeDisabled 99 (pr_enter pr_world))"

lemma pr_void_ok: "fst (OperatePracticeStatusV2 pr_env pr_stranger [7] PracticeDisabled 99 (pr_enter pr_world)) = Inr ()"
  by code_simp

text \<open>The practice allows one attempt; after the entry, the void and another entry there are two, both with the number 1.\<close>

lemma pr_second_attempt:
  "map (attempt_of (pr_enter pr_voided)) (own_submissions (pr_enter pr_voided) 7 21) = [1, 1]"
  by code_simp

lemma pr_enter_summary: "open_summary (pr_enter pr_world) 7 21 \<noteq> None"
  by code_simp

lemma void_out_of_reach_witness:
  "pr_row \<in> set (pw_practices pr_voided) \<and> (\<exists>v. open_summary pr_voided 7 21 = Some v \<and> vs_unsubmitted v = 0)"
proof -
  have run: "OperatePracticeStatusV2 pr_env pr_stranger [7] PracticeDisabled 99 (pr_enter pr_world) = (Inr (), pr_voided)"
    using pr_void_ok by (simp add: pr_voided_def prod_eq_iff)
  obtain v where v: "open_summary (pr_enter pr_world) 7 21 = Some v" using pr_enter_summary by auto
  have "\<not> pv_fault pr_env ''commit''" "pr_row \<in> set (pw_practices (pr_enter pr_world))" "pc_id pr_row = Some 7"
    "\<not> practice_reach pr_stranger 99 pr_row" "distinct (map pc_id (pw_practices (pr_enter pr_world)))"
    by (simp_all add: pr_env_def pr_enter_practices pr_row_def practice_reach_def pr_stranger_def Let_def)
  then show ?thesis using void_out_of_reach [OF run _ _ _ _ _ _ v, of pr_row] by auto
qed

section \<open>What saving and changing lets through\<close>

text \<open>
  A change of a practice that is out of reach changes no practice, but it reports success, and the list
  of students it brings replaces the one there is.
\<close>

lemma list_out_of_reach:
  assumes "UpdatePractice V a p ps uid False isClear w = (Inr (), w')" and "pc_id p = Some pid" "ps \<noteq> []"
    and "\<forall>r\<in>set (pw_practices w). pc_id r = Some pid \<longrightarrow> \<not> practice_reach a uid r" and "\<not> pv_fault V ''commit''"
  shows "pw_practices w' = pw_practices w \<and> roster w' pid = set ps"
proof -
  have none: "sql_update (\<lambda>r. pc_id r = Some pid \<and> practice_reach a uid r)
      (assign_columns False (p\<lparr>pc_updated_by := Some uid, pc_update_time := Some (pv_now V)\<rparr>)) (pw_practices w) = pw_practices w"
    by (rule sql_update_none) (use assms(4) in auto)
  have "UpsertPracticeStudentV2 (pv_fault V) (pv_now V) pid uid ps w = (Inr (), w')"
    using assms(1-3) none by (simp add: UpdatePractice_def Let_def split: if_splits)
  then obtain rows where w': "w' = w\<lparr>pw_students := rows\<rparr>"
    and "replace_roster (pv_fault V) (pv_now V) pid uid ps (pw_students w) = Inr rows"
    using assms(3,5) by (auto simp: UpsertPracticeStudentV2_def roster_tx_def and_then_Inr_iff split: sum.splits if_splits)
  from replace_roster_is [OF this(2), of pid] show ?thesis by (simp add: w' roster_roster_of)
qed

text \<open>A list with one student twice makes the request fail, after the new practice has been stored.\<close>

lemma practice_stored_despite_error:
  assumes "\<not> pv_fault V ''AddPractice''" and "AddPractice V a p ps uid w = (Inl e, w')"
  shows "pw_practices w' = pw_practices w @ [new_practice V a p uid (pw_next_practice w)]"
proof -
  let ?w = "w\<lparr>pw_practices := pw_practices w @ [new_practice V a p uid (pw_next_practice w)],
    pw_next_practice := pw_next_practice w + 1\<rparr>"
  have "UpsertPracticeStudentV2 (pv_fault V) (pv_now V) (pw_next_practice w) uid ps ?w = (Inl e, w')"
    using assms by (simp add: AddPractice_def Let_def split: if_splits)
  then have "practice_core w' = practice_core ?w"
    using UpsertPracticeStudentV2_core [of "pv_fault V" "pv_now V" "pw_next_practice w" uid ps ?w] by simp
  then show ?thesis by (simp add: practice_core_def)
qed

lemma repeated_student_refused:
  "fst (AddPractice pr_env pr_stranger pr_row [21, 21] 3 pr_world) = Inl Practice_repeated"
  by code_simp

text \<open>A void of several practices also takes deleted ones, which were not loaded, back to life as void ones.\<close>

lemma deleted_becomes_void:
  "map pc_status (pw_practices (snd (OperatePracticeStatusV2 pr_env pr_stranger [7, 6] PracticeDisabled 3
     (pr_world\<lparr>pw_practices := [pr_row, pr_row\<lparr>pc_id := Some 6, pc_status := Some PracticeDeleted\<rparr>]\<rparr>)))) =
   [Some PracticeDisabled, Some PracticeDisabled]"
  by code_simp

text \<open>A released practice without submissions is deleted directly, and none is ever taken back to the status 00.\<close>

lemma released_is_deleted:
  "map pc_status (pw_practices (snd (OperatePracticeStatusV2 pr_env pr_stranger [7] PracticeDeleted 3 pr_world))) = [Some PracticeDeleted]"
  by code_simp

lemma no_way_back: "\<exists>e. fst (OperatePracticeStatusV2 V a ids PracticePending uid w) = Inl e"
  by (auto simp: OperatePracticeStatusV2_def status_tx_def set_practice_status_def practice_codes and_then_def split: sum.split)

theorem roster_is_replaced_witness:
  "roster (snd (UpsertPracticeStudentV2 (\<lambda>_. False) 9 7 3 [23, 22] pr_world)) 7 = {22, 23}"
proof -
  have "fst (UpsertPracticeStudentV2 (\<lambda>_. False) 9 7 3 [23, 22] pr_world) = Inr ()" by code_simp
  then have run: "UpsertPracticeStudentV2 (\<lambda>_. False) 9 7 3 [23, 22] pr_world =
      (Inr (), snd (UpsertPracticeStudentV2 (\<lambda>_. False) 9 7 3 [23, 22] pr_world))" by (simp add: prod_eq_iff)
  from roster_is_replaced [OF run] show ?thesis by auto
qed

section \<open>Practices are not withdrawn\<close>

text \<open>
  Deleting and voiding end with the marker configurations, whose statement has \<open>AND\<close> right behind
  \<open>WHERE\<close>. SQL's grammar does not allow that; \<open>refuses_and\<close> says it of the database.
\<close>

definition refuses_and :: "practice_env \<Rightarrow> bool" where
  "refuses_and V \<longleftrightarrow> (\<forall>s. \<not> pv_parses V
     (''UPDATE t_mark_info SET status = $2, updated_by = $3, update_time = $4 WHERE  AND '' @ s))"

text \<open>The requests of \<open>practice_step\<close>, with such a database, and within reach or not.\<close>

inductive practice_request :: "practice_world \<Rightarrow> practice_world \<Rightarrow> bool" where
  save: "practice_request w (snd (practiceH V user body w))"
| students: "practice_request w (snd (practiceStudentListH V path user lbody w))"
| change: "refuses_and V \<Longrightarrow> practice_request w (snd (updatePracticeStatus V user m idStr st w))"
| enter: "practice_request w (snd (enter_practice V m domains uid ebody w))"
| answer: "answering_step (pw_answer w) A \<Longrightarrow> practice_request w (w\<lparr>pw_mark := (pw_mark w)\<lparr>md_answer := A\<rparr>\<rparr>)"
| mark: "UpdateExamSessionOrPracticeSubmissionStatus fault now c SubmissionMarked (pw_mark w) = Inr M \<Longrightarrow>
    practice_request w (w\<lparr>pw_mark := M\<rparr>)"

text \<open>Rows stay in their places, and a status is kept or becomes that of a released practice.\<close>

definition stays_or_released :: "practice \<Rightarrow> practice \<Rightarrow> bool" where
  "stays_or_released p p' \<longleftrightarrow> pc_id p' = pc_id p \<and> pc_status p' \<in> {pc_status p, Some PracticeReleased}"

definition withstands :: "practice list \<Rightarrow> practice list \<Rightarrow> bool" where
  "withstands ps ps' \<longleftrightarrow> (\<exists>qs rs. ps' = qs @ rs \<and> list_all2 stays_or_released ps qs)"

lemma stays_refl [simp]: "stays_or_released p p"
  by (simp add: stays_or_released_def)

lemma stays_trans: "stays_or_released p q \<Longrightarrow> stays_or_released q r \<Longrightarrow> stays_or_released p r"
  by (auto simp: stays_or_released_def)

lemma withstands_refl [simp]: "withstands ps ps"
  unfolding withstands_def by (rule exI [of _ ps], rule exI [of _ "[]"]) (simp add: list.rel_refl)

lemma withstands_append [simp]: "withstands ps (ps @ rs)"
  unfolding withstands_def by (rule exI [of _ ps], rule exI [of _ rs]) (simp add: list.rel_refl)

lemma withstands_trans:
  assumes "withstands ps qs" and "withstands qs rs"
  shows "withstands ps rs"
proof -
  obtain qs1 qs2 where qs: "qs = qs1 @ qs2" "list_all2 stays_or_released ps qs1"
    using assms(1) by (auto simp: withstands_def)
  obtain rs1 rs2 where rs: "rs = rs1 @ rs2" "list_all2 stays_or_released qs rs1"
    using assms(2) by (auto simp: withstands_def)
  obtain us vs where us: "rs1 = us @ vs" "list_all2 stays_or_released qs1 us"
    using rs(2) unfolding qs(1) list_all2_append1 by blast
  have "list_all2 stays_or_released ps us"
    by (rule list_all2_trans [OF stays_trans qs(2) us(2)])
  then show ?thesis using rs(1) us(1) by (auto simp: withstands_def)
qed

lemma withstands_update:
  assumes "\<And>r. p r \<Longrightarrow> stays_or_released r (f r)"
  shows "withstands ps (sql_update p f ps)"
proof -
  have "list_all2 stays_or_released ps (sql_update p f ps)"
    using assms by (auto simp: sql_update_def list_all2_conv_all_nth)
  then show ?thesis unfolding withstands_def by (intro exI [of _ "sql_update p f ps"] exI [of _ "[]"]) simp
qed

lemma withstands_core: "practice_core w' = practice_core w \<Longrightarrow> pw_practices w' = pw_practices w"
  by (simp add: practice_core_def)

lemma UpsertPractice_withstands:
  "withstands (pw_practices w) (pw_practices (snd (UpsertPractice V a p ps uid isClear w)))"
proof -
  have upd: "withstands (pw_practices w) (sql_update q (assign_columns False p') (pw_practices w))" for q p'
    by (rule withstands_update) (simp add: stays_or_released_def assign_columns_def)
  show ?thesis
    by (auto simp: UpsertPractice_def AddPractice_def UpdatePractice_def Let_def upd
        withstands_core [OF UpsertPracticeStudentV2_core] split: option.split sum.split)
qed

lemma release_withstands:
  assumes "release_practice V mine uid p w = Inr w'"
  shows "withstands (pw_practices w) (pw_practices w')"
proof -
  obtain x where "configure_marking V uid (release_request (Int64 (pc_id p)) p uid)
      (move_practices V (\<lambda>r. pc_id r = pc_id p \<and> mine r) PracticeReleased (\<lambda>r. r\<lparr>pc_exam_paper := Some x\<rparr>) uid w) = Inr w'"
    using assms by (auto simp: release_practice_def and_then_Inr_iff split: if_splits)
  from withstands_core [OF configure_marking_core [OF this]] show ?thesis
    by (simp add: move_practices_def) (rule withstands_update, simp add: stays_or_released_def)
qed

text \<open>What \<open>HandleMarkerInfo\<close> answers for the deletion of a configuration.\<close>

lemma clear_refused:
  assumes "refuses_and V"
  shows "\<exists>e. configure_marking V uid (clear_request ids) w = Inl e"
proof -
  have "hr_status (clear_request ids) = ''02''" by (simp add: clear_request_def)
  from marker_config_never_deleted [OF assms [unfolded refuses_and_def] this] show ?thesis
    by (metis configure_marking_def map_sum.simps(1))
qed

lemma withdrawal_refused:
  assumes "refuses_and V" and "st \<noteq> PracticeReleased"
  shows "\<exists>e. set_practice_status V mine uid ids ps st w = Inl e"
  using assms clear_refused [OF assms(1)]
  by (auto simp: set_practice_status_def delete_practices_def void_practices_def Let_def)

lemma OperateV2_refused:
  assumes "refuses_and V" and "st \<noteq> PracticeReleased"
  shows "\<exists>e. OperatePracticeStatusV2 V a ids st uid w = (Inl e, w)"
proof -
  let ?f = "\<lambda>ps. if pv_fault V ''beginTx'' then Inl (Practice_sql ''beginTx'')
      else and_then (same_status [] (pv_order V ps)) (\<lambda>_.
        set_practice_status V (practice_reach a uid) uid ids ps st w)"
  have "\<exists>e. ?f ps = Inl e" for ps
    using withdrawal_refused [OF assms, of "practice_reach a uid" uid ids ps w]
    by (auto simp: and_then_def split: sum.split)
  then obtain e where "and_then (LoadPracticeByIDs (pv_fault V) ids w) ?f = Inl e"
    by (cases "LoadPracticeByIDs (pv_fault V) ids w") (simp_all only: and_then_def sum.case, blast+)
  then show ?thesis unfolding OperatePracticeStatusV2_def status_tx_def by simp
qed

lemma OperateV2_withstands:
  assumes "refuses_and V"
  shows "withstands (pw_practices w) (pw_practices (snd (OperatePracticeStatusV2 V a ids st uid w)))"
proof (cases "st = PracticeReleased \<and> snd (OperatePracticeStatusV2 V a ids st uid w) \<noteq> w")
  case False
  then show ?thesis using OperateV2_refused [OF assms, of st a ids uid w] by fastforce
next
  case True
  let ?w' = "snd (OperatePracticeStatusV2 V a ids st uid w)"
  obtain ps where "for_each (release_practice V (practice_reach a uid) uid) (pv_order V ps) w = Inr ?w'"
    using True by (auto simp: OperatePracticeStatusV2_def status_tx_def and_then_Inr_iff set_practice_status_def
      split: sum.splits if_splits)
  then show ?thesis
    by (rule for_each_invariant [where P = "\<lambda>v. withstands (pw_practices w) (pw_practices v)"])
      (auto intro: withstands_trans release_withstands)
qed

lemma enter_practices: "pw_practices (snd (enter_practice V m domains user body w)) = pw_practices w"
proof -
  have start: "pw_practices w' = pw_practices w" if "start_submission V pid uid paper n w = Inr (w', i)" for pid uid paper n w' i
    using that by (auto simp: start_submission_def insert_submission_def store_sheets_def Let_def and_then_Inr_iff split: if_splits)
  have enter: "pw_practices w' = pw_practices w" if "EnterPracticeGetPaperDetails V pid uid w = Inr (w', e)" for pid uid w' e
    using that by (auto simp: EnterPracticeGetPaperDetails_def and_then_Inr_iff dest: start split: if_splits option.splits prod.splits)
  have init: "pw_practices w' = pw_practices w" if "init_practice V pid uid w = Inr (w', e, n)" for pid uid w' e n
    using that by (auto simp: init_practice_def and_then_Inr_iff dest!: enter note_entry_core saveBeginTimeForPractice_core
      withstands_core split: if_splits)
  show ?thesis
    by (auto simp: enter_practice_def and_then_Inr_iff dest!: init split: sum.split if_splits)
qed

lemma practice_request_withstands:
  assumes "practice_request w w'"
  shows "withstands (pw_practices w) (pw_practices w')"
  using assms
proof cases
  case (save V user body)
  then show ?thesis
    by (auto simp: practiceH_def with_access_def UpsertPractice_withstands split: sum.split)
next
  case (students V path user lbody)
  then show ?thesis
    by (auto simp: practiceStudentListH_def with_access_def withstands_core [OF UpsertPracticeStudentV2_core] split: sum.split)
next
  case (change V user m idStr st)
  then show ?thesis
    by (auto simp: updatePracticeStatus_def with_access_def OperateV2_withstands split: sum.split)
qed (simp_all add: enter_practices)

lemma practice_requests_withstand: "practice_request\<^sup>*\<^sup>* w w' \<Longrightarrow> withstands (pw_practices w) (pw_practices w')"
  by (induction rule: rtranclp_induct) (auto intro: withstands_trans practice_request_withstands)

text \<open>
  (C3) With a database that refuses a condition with \<open>AND\<close> right behind \<open>WHERE\<close>, as SQL's grammar says, a
  practice is never withdrawn: over any sequence of requests, with any failures, each practice keeps
  its place and its id, and its status is the one it had or that of a released practice. So what is
  released stays released, and nothing is deleted or void that was not. A request for any other
  status than the one of released practices gets an error and changes nothing.
\<close>

theorem practices_never_withdrawn:
  assumes "practice_request\<^sup>*\<^sup>* w w'" and "i < length (pw_practices w)"
  shows "i < length (pw_practices w') \<and> pc_id (pw_practices w' ! i) = pc_id (pw_practices w ! i) \<and>
    pc_status (pw_practices w' ! i) \<in> {pc_status (pw_practices w ! i), Some PracticeReleased} \<and>
    (refuses_and V \<and> st \<noteq> PracticeReleased \<longrightarrow> (\<exists>e. OperatePracticeStatusV2 V a ids st uid w' = (Inl e, w')))"
proof -
  obtain qs rs where "pw_practices w' = qs @ rs" "list_all2 stays_or_released (pw_practices w) qs"
    using practice_requests_withstand [OF assms(1)] by (auto simp: withstands_def)
  then have "i < length (pw_practices w')" "stays_or_released (pw_practices w ! i) (pw_practices w' ! i)"
    using assms(2) by (auto simp: list_all2_conv_all_nth nth_append)
  then show ?thesis using OperateV2_refused [of V st a ids uid w'] unfolding stays_or_released_def by blast
qed

definition pr_strict_env :: practice_env where
  "pr_strict_env = pr_env\<lparr>pv_parses := (\<lambda>s. \<not> HasPrefix s
     ''UPDATE t_mark_info SET status = $2, updated_by = $3, update_time = $4 WHERE  AND '')\<rparr>"

lemma pr_strict: "refuses_and pr_strict_env"
  by (simp add: refuses_and_def pr_strict_env_def HasPrefix_def)

theorem practices_never_withdrawn_witness:
  "pc_status (pw_practices (pr_enter pr_world) ! 0) = Some PracticeReleased \<and>
   (\<exists>e. OperatePracticeStatusV2 pr_strict_env pr_stranger [7] PracticeDisabled 3 (pr_enter pr_world) =
      (Inl e, pr_enter pr_world))"
proof -
  have run: "practice_request\<^sup>*\<^sup>* pr_world (pr_enter pr_world)"
    unfolding pr_enter_def by (rule r_into_rtranclp) (rule practice_request.enter)
  have "0 < length (pw_practices pr_world)" "pc_status (pw_practices pr_world ! 0) = Some PracticeReleased"
    "PracticeDisabled \<noteq> PracticeReleased"
    by (simp_all add: pr_world_def pr_row_def practice_codes)
  then show ?thesis
    using practices_never_withdrawn [OF run, of 0 pr_strict_env PracticeDisabled pr_stranger "[7]" 3] pr_strict
    by simp
qed

end
